(* ===== verification/Prelude.thy ===== *)
theory Prelude
  imports Main "HOL-Library.Word"
begin

text \<open>
  Shared vocabulary of the development: how a Rust result, a panic and a loop that does not
  return appear as values, the question-mark operator in state-passing style, slices and
  iterators as lists, the wrap-around of \<^verbatim>\<open>usize\<close>, and the generic lemmas the component
  theories use.
\<close>

named_theorems steps \<open>equations of the state-passing combinators\<close>
named_theorems frames \<open>fields that an operation leaves alone\<close>

section \<open>Results\<close>

text \<open>
  The result of a fallible call is \<open>'e failure + 'a\<close>. \<^verbatim>\<open>Err(e)\<close> is \<open>Inl (Failure e)\<close>; a
  panic (an index out of range, a failed \<^verbatim>\<open>unwrap\<close>, \<^verbatim>\<open>expect\<close> or \<^verbatim>\<open>assert\<close>) is
  \<open>Inl (Panic msg)\<close>; a loop that never returns is \<open>Inl Diverges\<close>. Calls on \<^verbatim>\<open>&mut self\<close> take
  the state and return the result together with the new state, also when they fail: Rust keeps
  whatever was written before an early return.
\<close>

datatype 'e failure = Failure 'e | Panic string | Diverges

type_synonym ('e, 'a, 's) outcome = "('e failure + 'a) \<times> 's"

text \<open>The \<^verbatim>\<open>?\<close> operator: go on with the value and the state, or return the error at once.\<close>

definition attempt ::
    "('e + 'a) \<times> 's \<Rightarrow> ('a \<Rightarrow> 's \<Rightarrow> ('e + 'b) \<times> 's) \<Rightarrow> ('e + 'b) \<times> 's" where
  "attempt r k = (case r of (Inl e, s) \<Rightarrow> (Inl e, s) | (Inr x, s) \<Rightarrow> k x s)"

lemma attempt_simps [simp, steps]:
  "attempt (Inl e, s) k = (Inl e, s)"
  "attempt (Inr x, s) k = k x s"
  by (simp_all add: attempt_def)

lemma attempt_ok:
  "attempt r k = (Inr y, t) \<longleftrightarrow> (\<exists>x s. r = (Inr x, s) \<and> k x s = (Inr y, t))"
  by (cases r; cases "fst r") (auto simp: attempt_def split: sum.splits)

lemma attempt_okE:
  assumes "attempt r k = (Inr y, t)"
  obtains x s where "r = (Inr x, s)" "k x s = (Inr y, t)"
  using assms by (auto simp: attempt_ok)

lemma attempt_cases:
  assumes "attempt r k = (res, t)"
  obtains (early) e where "r = (Inl e, t)" "res = Inl e"
    | (cont) x s where "r = (Inr x, s)" "k x s = (res, t)"
  using assms by (cases r; cases "fst r") (auto simp: attempt_def)

text \<open>Errors of a foreign call enter the model's failure type.\<close>

definition foreign :: "('e + 'a) \<times> 's \<Rightarrow> ('e, 'a, 's) outcome" where
  "foreign r = (map_sum Failure id (fst r), snd r)"

lemma foreign_simps [simp, steps]:
  "foreign (Inl e, s) = (Inl (Failure e), s)"
  "foreign (Inr x, s) = (Inr x, s)"
  by (simp_all add: foreign_def)

text \<open>A call on one field of a record: the record is updated with the field's new state.\<close>

definition on_field :: "('f \<Rightarrow> 's) \<Rightarrow> ('e + 'a) \<times> 'f \<Rightarrow> ('e + 'a) \<times> 's" where
  "on_field put r = (fst r, put (snd r))"

lemma on_field_simps [simp, steps]:
  "on_field put (x, s) = (x, put s)"
  by (simp add: on_field_def)

lemma on_field_eq [simp]: "on_field put r = (x, t) \<longleftrightarrow> fst r = x \<and> put (snd r) = t"
  by (auto simp: on_field_def)

text \<open>\<^verbatim>\<open>Option::context\<close>: an absent value becomes an error.\<close>

definition context_opt :: "'a option \<Rightarrow> 'e \<Rightarrow> 'e + 'a" where
  "context_opt x e = (case x of None \<Rightarrow> Inl e | Some v \<Rightarrow> Inr v)"

lemma context_opt_simps [simp]:
  "context_opt None e = Inl e" "context_opt (Some v) e = Inr v"
  by (simp_all add: context_opt_def)

lemma context_opt_eq_iff [simp]:
  "context_opt x e = Inr v \<longleftrightarrow> x = Some v"
  "context_opt x e = Inl e' \<longleftrightarrow> x = None \<and> e' = e"
  by (auto simp: context_opt_def split: option.splits)

text \<open>\<^verbatim>\<open>?\<close> in code that has no state.\<close>

definition and_then :: "'e + 'a \<Rightarrow> ('a \<Rightarrow> 'e + 'b) \<Rightarrow> 'e + 'b" where
  "and_then r k = (case r of Inl e \<Rightarrow> Inl e | Inr x \<Rightarrow> k x)"

lemma and_then_simps [simp, steps]:
  "and_then (Inl e) k = Inl e" "and_then (Inr x) k = k x"
  by (simp_all add: and_then_def)

lemma and_then_ok [simp]: "and_then r k = Inr y \<longleftrightarrow> (\<exists>x. r = Inr x \<and> k x = Inr y)"
  by (cases r) auto

text \<open>\<^verbatim>\<open>map_err\<close>, and \<^verbatim>\<open>context\<close> on a result: the error is wrapped.\<close>

definition map_err :: "('a \<Rightarrow> 'b) \<Rightarrow> 'a + 'v \<Rightarrow> 'b + 'v" where
  "map_err f r = map_sum f id r"

lemma map_err_simps [simp]: "map_err f (Inl e) = Inl (f e)" "map_err f (Inr x) = Inr x"
  by (simp_all add: map_err_def)

lemma map_err_ok [simp]: "map_err f r = Inr x \<longleftrightarrow> r = Inr x"
  by (cases r) simp_all

text \<open>\<^verbatim>\<open>unwrap\<close> on the result of a call: an error becomes a panic.\<close>

definition unwrapped :: "('e, 'a, 's) outcome \<Rightarrow> ('f, 'a, 's) outcome" where
  "unwrapped r =
     (case r of
        (Inl (Failure e), s) \<Rightarrow> (Inl (Panic ''called Result::unwrap() on an Err value''), s)
      | (Inl (Panic m), s) \<Rightarrow> (Inl (Panic m), s)
      | (Inl Diverges, s) \<Rightarrow> (Inl Diverges, s)
      | (Inr x, s) \<Rightarrow> (Inr x, s))"

lemma unwrapped_simps [simp, steps]:
  "unwrapped (Inl (Failure e), s) = (Inl (Panic ''called Result::unwrap() on an Err value''), s)"
  "unwrapped (Inl (Panic m), s) = (Inl (Panic m), s)"
  "unwrapped (Inl Diverges, s) = (Inl Diverges, s)"
  "unwrapped (Inr x, s) = (Inr x, s)"
  by (simp_all add: unwrapped_def)

lemma unwrapped_ok [simp]: "unwrapped r = (Inr x, s) \<longleftrightarrow> r = (Inr x, s)"
  by (cases r; cases "fst r"; cases "projl (fst r)") auto

lemma unwrapped_state [simp]: "snd (unwrapped r) = snd r"
  by (cases r; cases "fst r"; cases "projl (fst r)") auto

text \<open>
  A constructor that works on the value under construction: on an error the value is dropped.
\<close>

definition built :: "('e + unit) \<times> 'v \<Rightarrow> 's \<Rightarrow> ('e + 'v) \<times> 's" where
  "built r s = (case r of (Inl e, v) \<Rightarrow> (Inl e, s) | (Inr u, v) \<Rightarrow> (Inr v, s))"

lemma built_simps [simp, steps]:
  "built (Inl e, v) s = (Inl e, s)" "built (Inr u, v) s = (Inr v, s)"
  by (simp_all add: built_def)

lemma built_ok: "built r s = (Inr v, t) \<longleftrightarrow> r = (Inr (), v) \<and> t = s"
  by (cases r; cases "fst r") auto

text \<open>\<^verbatim>\<open>try_collect\<close>: all items, or the first error.\<close>

fun try_collect :: "('e + 'a) list \<Rightarrow> 'e + 'a list" where
  "try_collect [] = Inr []"
| "try_collect (Inl e # rest) = Inl e"
| "try_collect (Inr x # rest) = map_sum id ((#) x) (try_collect rest)"

lemma try_collect_ok [simp]: "try_collect (map Inr xs) = Inr xs"
  by (induction xs) simp_all

lemma try_collect_Inr: "try_collect rs = Inr xs \<longleftrightarrow> rs = map Inr xs"
proof (induction rs arbitrary: xs rule: try_collect.induct)
  case (3 x rest)
  have "try_collect (Inr x # rest) = Inr xs \<longleftrightarrow> (\<exists>ys. try_collect rest = Inr ys \<and> xs = x # ys)"
    by (cases "try_collect rest") auto
  also have "\<dots> \<longleftrightarrow> Inr x # rest = map Inr xs"
    unfolding 3 by (auto simp: Cons_eq_map_conv)
  finally show ?case .
qed auto

lemma try_collect_Inl:
  "try_collect rs = Inl e \<longleftrightarrow> (\<exists>xs rest. rs = map Inr xs @ Inl e # rest)"
proof (induction rs rule: try_collect.induct)
  case (2 e' rest)
  then show ?case by (auto simp: Cons_eq_append_conv)
next
  case (3 x rest)
  have "try_collect (Inr x # rest) = Inl e \<longleftrightarrow> try_collect rest = Inl e"
    by (cases "try_collect rest") auto
  moreover have "(\<exists>xs more. Inr x # rest = map Inr xs @ Inl e # more) \<longleftrightarrow>
      (\<exists>xs more. rest = map Inr xs @ Inl e # more)"
  proof (intro iffI; elim exE)
    fix xs more
    assume "Inr x # rest = map Inr xs @ Inl e # more"
    then show "\<exists>xs more. rest = map Inr xs @ Inl e # more" by (cases xs) auto
  next
    fix xs more
    assume "rest = map Inr xs @ Inl e # more"
    then have "Inr x # rest = map Inr (x # xs) @ Inl e # more" by simp
    then show "\<exists>xs more. Inr x # rest = map Inr xs @ Inl e # more" by blast
  qed
  ultimately show ?case using 3 by simp
qed simp

lemma map_sum_Inr_iff: "map_sum f g r = Inr y \<longleftrightarrow> (\<exists>x. r = Inr x \<and> y = g x)"
  by (cases r) auto

section \<open>Text\<close>

text \<open>Numbers and joined lists as \<^verbatim>\<open>format!\<close> and \<^verbatim>\<open>join\<close> print them.\<close>

fun decimal :: "nat \<Rightarrow> string" where
  "decimal n =
     (if n < 10 then [''0123456789'' ! n] else decimal (n div 10) @ [''0123456789'' ! (n mod 10)])"

declare decimal.simps [simp del]

lemma decimal_digit: "n < 10 \<Longrightarrow> decimal n = [''0123456789'' ! n]"
  by (simp add: decimal.simps)

text \<open>Reading a number back, which shows that \<open>decimal\<close> is injective.\<close>

definition parse_decimal :: "string \<Rightarrow> nat" where
  "parse_decimal s = foldl (\<lambda>n c. 10 * n + (of_char c - 48)) 0 s"

lemma digit_value: "n < 10 \<Longrightarrow> (of_char (''0123456789'' ! n) :: nat) = 48 + n"
proof -
  assume "n < 10"
  then have "n \<in> {0, 1, 2, 3, 4, 5, 6, 7, 8, 9}" by auto
  then show ?thesis by auto
qed

lemma parse_decimal_decimal [simp]: "parse_decimal (decimal n) = n"
proof (induction n rule: decimal.induct)
  case (1 n)
  then show ?case
    using digit_value [of n] digit_value [of "n mod 10"]
    by (subst decimal.simps) (auto simp: parse_decimal_def)
qed

lemma decimal_eq [simp]: "decimal m = decimal n \<longleftrightarrow> m = n"
  by (metis parse_decimal_decimal)

fun joined :: "string \<Rightarrow> string list \<Rightarrow> string" where
  "joined sep [] = []"
| "joined sep [x] = x"
| "joined sep (x # y # xs) = x @ sep @ joined sep (y # xs)"

text \<open>\<^verbatim>\<open>std::ops::Bound\<close>.\<close>

datatype 'n bound = Included 'n | Excluded 'n | Unbounded

section \<open>Slices\<close>

text \<open>\<^verbatim>\<open>slice::get\<close> and \<^verbatim>\<open>VecDeque::get\<close>: \<open>None\<close> out of range.\<close>

definition list_get :: "'a list \<Rightarrow> nat \<Rightarrow> 'a option" where
  "list_get xs i = (if i < length xs then Some (xs ! i) else None)"

lemma list_get_Nil [simp]: "list_get [] i = None"
  by (simp add: list_get_def)

lemma list_get_Cons [simp]:
  "list_get (x # xs) 0 = Some x" "list_get (x # xs) (Suc i) = list_get xs i"
  by (simp_all add: list_get_def)

lemma list_get_None [simp]:
  "list_get xs i = None \<longleftrightarrow> length xs \<le> i"
  "None = list_get xs i \<longleftrightarrow> length xs \<le> i"
  by (auto simp: list_get_def not_less)

lemma list_get_Some: "list_get xs i = Some x \<longleftrightarrow> i < length xs \<and> xs ! i = x"
  by (auto simp: list_get_def)

lemma list_get_map [simp]: "list_get (map f xs) i = map_option f (list_get xs i)"
  by (simp add: list_get_def)

lemma list_get_append:
  "list_get (xs @ ys) i = (if i < length xs then list_get xs i else list_get ys (i - length xs))"
  by (auto simp: list_get_def nth_append)

lemma list_get_take: "list_get (take k xs) i = (if i < k then list_get xs i else None)"
  by (simp add: list_get_def)

lemma list_get_drop: "list_get (drop k xs) i = list_get xs (k + i)"
  by (auto simp: list_get_def)

lemma list_get_update:
  "list_get (xs[i := x]) j = (if i = j \<and> i < length xs then Some x else list_get xs j)"
  by (auto simp: list_get_def)

lemma list_get_replicate: "list_get (replicate n x) i = (if i < n then Some x else None)"
  by (simp add: list_get_def)

lemma list_get_ext: "(\<And>i. list_get xs i = list_get ys i) \<Longrightarrow> xs = ys"
proof -
  assume eq: "\<And>i. list_get xs i = list_get ys i"
  have "length xs \<le> length ys" using eq [of "length ys"] by (auto simp: list_get_def split: if_splits)
  moreover have "length ys \<le> length xs" using eq [of "length xs"] by (auto simp: list_get_def split: if_splits)
  ultimately have len: "length xs = length ys" by simp
  show ?thesis
  proof (rule nth_equalityI [OF len])
    fix i assume "i < length xs"
    then show "xs ! i = ys ! i" using eq [of i] len by (simp add: list_get_def)
  qed
qed

lemma zip_take_left: "zip (take (length ys) xs) ys = zip xs ys"
proof (induction ys arbitrary: xs)
  case (Cons y ys)
  then show ?case by (cases xs) simp_all
qed simp

text \<open>Removing the last \<open>n\<close> elements one by one, as \<^verbatim>\<open>pop_back\<close> does.\<close>

lemma funpow_butlast: "(butlast ^^ n) xs = take (length xs - n) xs"
proof (induction n)
  case 0
  then show ?case by simp
next
  case (Suc n)
  then show ?case by (simp add: butlast_take)
qed

text \<open>The longest prefix of available objects, the part an ordered stream may send.\<close>

fun available_prefix :: "'a option list \<Rightarrow> 'a list" where
  "available_prefix [] = []"
| "available_prefix (None # xs) = []"
| "available_prefix (Some x # xs) = x # available_prefix xs"

lemma length_available_prefix: "length (available_prefix xs) \<le> length xs"
  by (induction xs rule: available_prefix.induct) auto

lemma available_prefix_nth:
  "i < length (available_prefix xs) \<Longrightarrow> xs ! i = Some (available_prefix xs ! i)"
proof (induction xs arbitrary: i rule: available_prefix.induct)
  case (3 x xs)
  then show ?case by (cases i) auto
qed auto

lemma available_prefix_stop:
  "length (available_prefix xs) < length xs \<Longrightarrow> xs ! length (available_prefix xs) = None"
  by (induction xs rule: available_prefix.induct) auto

lemma available_prefix_append_Some:
  "available_prefix (map Some xs @ ys) = xs @ available_prefix ys"
  by (induction xs) auto

lemma map_Some_available_prefix:
  "map Some (available_prefix xs) = take (length (available_prefix xs)) xs"
  by (induction xs rule: available_prefix.induct) auto

section \<open>Machine integers\<close>

text \<open>
  Positions are \<^verbatim>\<open>usize\<close>, which is 64 bits wide on every supported target. Where a number that
  a caller chooses enters the arithmetic the wrap-around of a release build is written out.
\<close>

definition wrap64 :: "nat \<Rightarrow> nat" where
  "wrap64 n = n mod 2 ^ 64"

lemma wrap64_id [simp]: "n < 2 ^ 64 \<Longrightarrow> wrap64 n = n"
  by (simp add: wrap64_def)

lemma wrap64_bound: "wrap64 n < 2 ^ 64"
  by (simp add: wrap64_def)

lemma wrap64_max [simp]: "wrap64 (2 ^ 64 - 1 + 1) = 0"
  by (simp add: wrap64_def)

lemma unat_less_64: "unat (n :: 64 word) < 2 ^ 64"
  using unsigned_less [where 'a = nat, of n] by simp

lemma unat_less_64_numeral [simp]: "unat (n :: 64 word) < 18446744073709551616"
  using unat_less_64 [of n] by simp

lemma unat_plus_one_64: "unat (n :: 64 word) + 1 < 2 ^ 64 \<Longrightarrow> unat (n + 1) = unat n + 1"
  by (simp add: unat_word_ariths)

lemma unat_minus_one_64: "(n :: 64 word) \<noteq> 0 \<Longrightarrow> unat (n - 1) + 1 = unat n"
proof -
  assume "n \<noteq> 0"
  then have "0 < unat n" by (simp add: unat_gt_0)
  then show ?thesis using \<open>n \<noteq> 0\<close> by (simp add: unat_minus_one)
qed

lemma unat_plus_one_max_64: "(n :: 64 word) \<noteq> - 1 \<Longrightarrow> unat (n + 1) = unat n + 1"
proof -
  assume n: "n \<noteq> - 1"
  have max: "(- 1 :: 64 word) = word_of_nat (2 ^ 64 - 1)" by simp
  have "unat n \<noteq> 2 ^ 64 - 1"
  proof
    assume "unat n = 2 ^ 64 - 1"
    then have "n = word_of_nat (2 ^ 64 - 1)" by (metis of_nat_unat ucast_id)
    with n max show False by simp
  qed
  then have "unat n + 1 < 2 ^ 64" using unat_less_64 [of n] by linarith
  then show ?thesis by (rule unat_plus_one_64)
qed

section \<open>Iterators and streams\<close>

text \<open>
  A Rust iterator or \<^verbatim>\<open>stream::unfold\<close> is a state and a step that yields an item and the next
  state, or ends. \<open>collect f s\<close> drives it to its end; \<open>None\<close> is an iterator that never ends.
\<close>

partial_function (option) collect :: "('s \<Rightarrow> ('a \<times> 's) option) \<Rightarrow> 's \<Rightarrow> 'a list option" where
  "collect f s =
     (case f s of
        None \<Rightarrow> Some []
      | Some (x, s') \<Rightarrow> Option.bind (collect f s') (\<lambda>xs. Some (x # xs)))"

lemma collect_end: "f s = None \<Longrightarrow> collect f s = Some []"
  by (subst collect.simps) simp

lemma collect_step: "f s = Some (x, s') \<Longrightarrow> collect f s' = Some xs \<Longrightarrow> collect f s = Some (x # xs)"
  by (subst collect.simps) simp

text \<open>
  The proof rule: a position predicate \<open>at\<close> that each step advances along a finite list, and an
  end after its last item.
\<close>

lemma collect_list:
  assumes step: "\<And>i s. at i s \<Longrightarrow> i < length xs \<Longrightarrow> \<exists>s'. f s = Some (xs ! i, s') \<and> at (Suc i) s'"
    and stop: "\<And>s. at (length xs) s \<Longrightarrow> f s = None"
    and start: "at i s" and le: "i \<le> length xs"
  shows "collect f s = Some (drop i xs)"
  using start le
proof (induction "length xs - i" arbitrary: i s)
  case 0
  then have "i = length xs" by simp
  with 0 stop show ?case by (simp add: collect_end)
next
  case (Suc n)
  then have i: "i < length xs" by simp
  with step Suc.prems obtain s' where s': "f s = Some (xs ! i, s')" "at (Suc i) s'" by blast
  have "collect f s' = Some (drop (Suc i) xs)"
    by (rule Suc.hyps) (use Suc s' i in auto)
  then have "collect f s = Some (xs ! i # drop (Suc i) xs)" 
    using s'(1) by (blast intro: collect_step)
  with i show ?case by (simp add: Cons_nth_drop_Suc)
qed

section \<open>Maps\<close>

lemma map_upd_apply: "(m(k \<mapsto> v)) k' = (if k' = k then Some v else m k')"
  by simp

text \<open>The parts of a long conjunction, to name the laws of a predicate.\<close>

lemma conjuncts5:
  assumes "A \<and> B \<and> C \<and> D \<and> E"
  shows A B C D E
  using assms by blast+

lemma conjuncts6:
  assumes "A \<and> B \<and> C \<and> D \<and> E \<and> F"
  shows A B C D E F
  using assms by blast+

lemma fold_invariant:
  "P a \<Longrightarrow> (\<And>x a. x \<in> set xs \<Longrightarrow> P a \<Longrightarrow> P (f x a)) \<Longrightarrow> P (fold f xs a)"
  by (induction xs arbitrary: a) auto

end
