(* ===== verification/AppendLogSpec.thy ===== *)
theory AppendLogSpec
  imports Prelude
begin

text \<open>
  The append log of the \<^verbatim>\<open>atomic_store\<close> crate is not part of the repository: it is a record of
  operations, a parameter of every definition that uses it. What the code relies on is
  \<open>append_log_laws\<close>, stated over the entries the log iterates (its committed version) and the
  resources stored since then. \<open>mem_append_log\<close> is a list-backed instance for witnesses.
\<close>

text \<open>
  \<open>'ld\<close> is the \<^verbatim>\<open>AtomicStoreLoader\<close>, \<open>'s\<close> the log, \<open>'r\<close> the stored resource and \<open>'e\<close> the
  \<^verbatim>\<open>PersistenceError\<close>. \<open>al_iter\<close> lists what the log's iterator yields, one load result per
  entry. Creating and loading take the loader, the file pattern and the file size.
\<close>

record ('ld, 's, 'r, 'e) append_log_ops =
  al_create :: "'ld \<Rightarrow> string \<Rightarrow> nat \<Rightarrow> ('e + 's) \<times> 'ld"
  al_load :: "'ld \<Rightarrow> string \<Rightarrow> nat \<Rightarrow> ('e + 's) \<times> 'ld"
  al_store_resource :: "'s \<Rightarrow> 'r \<Rightarrow> ('e + unit) \<times> 's"
  al_commit_version :: "'s \<Rightarrow> ('e + unit) \<times> 's"
  al_skip_version :: "'s \<Rightarrow> ('e + unit) \<times> 's"
  al_revert_version :: "'s \<Rightarrow> ('e + unit) \<times> 's"
  al_iter :: "'s \<Rightarrow> ('e + 'r) list"

text \<open>
  Documented behaviour. \<open>pend\<close> reads the resources stored and not yet committed, which the log's
  own iterator does not show. A failed call leaves the log as it was.
\<close>

definition append_log_laws ::
    "('ld, 's, 'r, 'e) append_log_ops \<Rightarrow> ('s \<Rightarrow> 'r list) \<Rightarrow> bool" where
  "append_log_laws A pend \<longleftrightarrow>
     (\<forall>ld f n s ld'. al_create A ld f n = (Inr s, ld') \<longrightarrow> al_iter A s = [] \<and> pend s = []) \<and>
     (\<forall>ld f n s ld'. al_load A ld f n = (Inr s, ld') \<longrightarrow> pend s = []) \<and>
     (\<forall>s r s'. al_store_resource A s r = (Inr (), s') \<longrightarrow>
        al_iter A s' = al_iter A s \<and> pend s' = pend s @ [r]) \<and>
     (\<forall>s r e s'. al_store_resource A s r = (Inl e, s') \<longrightarrow>
        al_iter A s' = al_iter A s \<and> pend s' = pend s) \<and>
     (\<forall>s s'. al_commit_version A s = (Inr (), s') \<longrightarrow>
        al_iter A s' = al_iter A s @ map Inr (pend s) \<and> pend s' = []) \<and>
     (\<forall>s e s'. al_commit_version A s = (Inl e, s') \<longrightarrow>
        al_iter A s' = al_iter A s \<and> pend s' = pend s) \<and>
     (\<forall>s x s'. al_skip_version A s = (x, s') \<longrightarrow>
        al_iter A s' = al_iter A s \<and> pend s' = pend s) \<and>
     (\<forall>s s'. al_revert_version A s = (Inr (), s') \<longrightarrow>
        al_iter A s' = al_iter A s \<and> pend s' = []) \<and>
     (\<forall>s e s'. al_revert_version A s = (Inl e, s') \<longrightarrow>
        al_iter A s' = al_iter A s \<and> pend s' = pend s)"

lemma append_log_lawsD:
  assumes "append_log_laws A pend"
  shows al_create_ok: "al_create A ld f n = (Inr s, ld') \<Longrightarrow> al_iter A s = [] \<and> pend s = []"
    and al_load_ok: "al_load A ld f n = (Inr s, ld') \<Longrightarrow> pend s = []"
    and al_store_ok: "al_store_resource A s r = (Inr u, s') \<Longrightarrow>
        al_iter A s' = al_iter A s \<and> pend s' = pend s @ [r]"
    and al_store_err: "al_store_resource A s r = (Inl e, s') \<Longrightarrow>
        al_iter A s' = al_iter A s \<and> pend s' = pend s"
    and al_commit_ok: "al_commit_version A s = (Inr u, s') \<Longrightarrow>
        al_iter A s' = al_iter A s @ map Inr (pend s) \<and> pend s' = []"
    and al_commit_err: "al_commit_version A s = (Inl e, s') \<Longrightarrow>
        al_iter A s' = al_iter A s \<and> pend s' = pend s"
    and al_skip_any: "al_skip_version A s = (x, s') \<Longrightarrow>
        al_iter A s' = al_iter A s \<and> pend s' = pend s"
    and al_revert_ok: "al_revert_version A s = (Inr u, s') \<Longrightarrow>
        al_iter A s' = al_iter A s \<and> pend s' = []"
    and al_revert_err: "al_revert_version A s = (Inl e, s') \<Longrightarrow>
        al_iter A s' = al_iter A s \<and> pend s' = pend s"
proof -
  note laws = assms [unfolded append_log_laws_def]
  show "al_create A ld f n = (Inr s, ld') \<Longrightarrow> al_iter A s = [] \<and> pend s = []"
    using laws by metis
  show "al_load A ld f n = (Inr s, ld') \<Longrightarrow> pend s = []" using laws by metis
  show "al_store_resource A s r = (Inr u, s') \<Longrightarrow>
      al_iter A s' = al_iter A s \<and> pend s' = pend s @ [r]"
    using laws by (cases u) metis
  show "al_store_resource A s r = (Inl e, s') \<Longrightarrow>
      al_iter A s' = al_iter A s \<and> pend s' = pend s"
    using laws by metis
  show "al_commit_version A s = (Inr u, s') \<Longrightarrow>
      al_iter A s' = al_iter A s @ map Inr (pend s) \<and> pend s' = []"
    using laws by (cases u) metis
  show "al_commit_version A s = (Inl e, s') \<Longrightarrow>
      al_iter A s' = al_iter A s \<and> pend s' = pend s"
    using laws by metis
  show "al_skip_version A s = (x, s') \<Longrightarrow> al_iter A s' = al_iter A s \<and> pend s' = pend s"
    using laws by metis
  show "al_revert_version A s = (Inr u, s') \<Longrightarrow> al_iter A s' = al_iter A s \<and> pend s' = []"
    using laws by (cases u) metis
  show "al_revert_version A s = (Inl e, s') \<Longrightarrow> al_iter A s' = al_iter A s \<and> pend s' = pend s"
    using laws by metis
qed

section \<open>A log in memory\<close>

text \<open>
  The state is the committed list and the pending list, the loader the list of committed
  resources a load finds. The last argument makes commits fail, so that the error paths have
  instances too.
\<close>

definition mem_append_log ::
    "bool \<Rightarrow> ('r list, 'r list \<times> 'r list, 'r, string) append_log_ops" where
  "mem_append_log failing =
     \<lparr>al_create = (\<lambda>ld f n. (Inr ([], []), [])),
      al_load = (\<lambda>ld f n. (Inr (ld, []), ld)),
      al_store_resource = (\<lambda>(c, p) r. (Inr (), (c, p @ [r]))),
      al_commit_version =
        (\<lambda>(c, p). if failing then (Inl ''io'', (c, p)) else (Inr (), (c @ p, []))),
      al_skip_version = (\<lambda>s. (Inr (), s)),
      al_revert_version = (\<lambda>(c, p). (Inr (), (c, []))),
      al_iter = (\<lambda>(c, p). map Inr c)\<rparr>"

lemma mem_append_log_simps [simp]:
  "al_create (mem_append_log b) ld f n = (Inr ([], []), [])"
  "al_load (mem_append_log b) ld f n = (Inr (ld, []), ld)"
  "al_store_resource (mem_append_log b) (c, p) r = (Inr (), (c, p @ [r]))"
  "al_commit_version (mem_append_log False) (c, p) = (Inr (), (c @ p, []))"
  "al_commit_version (mem_append_log True) (c, p) = (Inl ''io'', (c, p))"
  "al_skip_version (mem_append_log b) s = (Inr (), s)"
  "al_revert_version (mem_append_log b) (c, p) = (Inr (), (c, []))"
  "al_iter (mem_append_log b) (c, p) = map Inr c"
  by (simp_all add: mem_append_log_def)

lemma mem_append_log_laws [simp]: "append_log_laws (mem_append_log b) snd"
  unfolding append_log_laws_def
  by (auto simp: mem_append_log_def split: if_splits)

text \<open>Several logs registered with one loader: each works on its own part of it.\<close>

definition with_loader ::
    "('big \<Rightarrow> 'ld) \<Rightarrow> ('ld \<Rightarrow> 'big \<Rightarrow> 'big) \<Rightarrow> ('ld, 's, 'r, 'e) append_log_ops
      \<Rightarrow> ('big, 's, 'r, 'e) append_log_ops" where
  "with_loader get put A =
     \<lparr>al_create = (\<lambda>ld f n. case al_create A (get ld) f n of (r, part) \<Rightarrow> (r, put part ld)),
      al_load = (\<lambda>ld f n. case al_load A (get ld) f n of (r, part) \<Rightarrow> (r, put part ld)),
      al_store_resource = al_store_resource A, al_commit_version = al_commit_version A,
      al_skip_version = al_skip_version A, al_revert_version = al_revert_version A,
      al_iter = al_iter A\<rparr>"

lemma with_loader_laws: "append_log_laws A pend \<Longrightarrow> append_log_laws (with_loader get put A) pend"
  unfolding append_log_laws_def with_loader_def by (auto split: prod.splits; metis)

end
