(* ===== verification/LedgerLog.thy ===== *)
theory LedgerLog
  imports AppendLogSpec
begin

text \<open>
  \<^verbatim>\<open>src/data_source/ledger_log.rs\<close>: an append log of optional objects with a window of the most
  recent ones cached, in-place updates of the window, and an ordered stream of the objects that
  have become available. The operations follow the source's order; then the contents a log
  represents, the invariant of its fields, and the refinement of the iterator, \<^verbatim>\<open>insert\<close>,
  \<^verbatim>\<open>commit_version\<close> and \<^verbatim>\<open>revert_version\<close> to the contents.
\<close>

section \<open>State\<close>

text \<open>
  \<open>stream\<close> stands for the broadcast sender: the messages passed to \<^verbatim>\<open>send_async\<close> so far, oldest
  first (a failed send is ignored by the code, so it is recorded all the same).
\<close>

record ('s, 'a) ledger_log =
  cache_start :: nat
  cache_size :: nat
  cache :: "'a option list"
  store :: 's
  pending_inserts :: nat
  stream :: "'a list"
  stream_pos :: nat

section \<open>The iterator\<close>

record ('a, 'e) log_iter =
  it_index :: nat
  it_cache_start :: nat
  it_cache :: "'a option list"
  it_store :: "('e + 'a option) list"

text \<open>\<^verbatim>\<open>res.ok().flatten()\<close>: a failed load and a stored placeholder are both missing.\<close>

definition loaded :: "'e + 'a option \<Rightarrow> 'a option" where
  "loaded r = (case r of Inl e \<Rightarrow> None | Inr x \<Rightarrow> x)"

lemma loaded_simps [simp]: "loaded (Inl e) = None" "loaded (Inr x) = x"
  by (simp_all add: loaded_def)

definition log_iter ::
    "('ld, 's, 'a option, 'e) append_log_ops \<Rightarrow> ('s, 'a) ledger_log \<Rightarrow> ('a, 'e) log_iter" where
  "log_iter A l =
     \<lparr>it_index = 0, it_cache_start = cache_start l, it_cache = cache l,
      it_store = al_iter A (store l)\<rparr>"

text \<open>\<^verbatim>\<open>Iter::nth\<close>. The index wraps around like \<^verbatim>\<open>usize\<close> does in a release build.\<close>

definition iter_nth ::
    "nat \<Rightarrow> ('a, 'e) log_iter \<Rightarrow> 'a option option \<times> ('a, 'e) log_iter" where
  "iter_nth n it =
     (let index = wrap64 (it_index it + n) in
      if index \<ge> it_cache_start it
      then (list_get (it_cache it) (index - it_cache_start it),
            it\<lparr>it_index := wrap64 (index + 1)\<rparr>)
      else (map_option loaded (list_get (it_store it) n),
            it\<lparr>it_index := wrap64 (index + 1), it_store := drop (n + 1) (it_store it)\<rparr>))"

definition iter_next ::
    "('a, 'e) log_iter \<Rightarrow> ('a option \<times> ('a, 'e) log_iter) option" where
  "iter_next it = (case iter_nth 0 it of (None, _) \<Rightarrow> None | (Some x, it') \<Rightarrow> Some (x, it'))"

text \<open>\<^verbatim>\<open>size_hint\<close>, which is also \<^verbatim>\<open>len\<close> and \<^verbatim>\<open>count\<close>; the subtraction saturates.\<close>

definition iter_size_hint :: "('a, 'e) log_iter \<Rightarrow> nat" where
  "iter_size_hint it = (it_cache_start it + length (it_cache it)) - it_index it"

definition log_len ::
    "('ld, 's, 'a option, 'e) append_log_ops \<Rightarrow> ('s, 'a) ledger_log \<Rightarrow> nat" where
  "log_len A l = iter_size_hint (log_iter A l)"

section \<open>Operations\<close>

text \<open>The file size both constructors pass to the append log, \<^verbatim>\<open>1u64 << 20\<close>.\<close>

definition log_file_size :: nat where
  "log_file_size = 2 ^ 20"

definition log_create ::
    "('ld, 's, 'a option, 'e) append_log_ops \<Rightarrow> 'ld \<Rightarrow> string \<Rightarrow> nat
      \<Rightarrow> ('e failure + ('s, 'a) ledger_log) \<times> 'ld" where
  "log_create A ld pattern sz =
     attempt (foreign (al_create A ld pattern log_file_size)) (\<lambda>st ld.
       (Inr \<lparr>cache_start = 0, cache_size = sz, cache = [], store = st,
             pending_inserts = 0, stream = [], stream_pos = 0\<rparr>, ld))"

text \<open>
  \<^verbatim>\<open>open\<close>: the cache holds the last \<open>size\<close> entries (all of them, from 0, when they fit), and the
  stream resumes at the first entry that is missing or cannot be loaded.
  \<^verbatim>\<open>reserve_exact(cache_size - cache.len())\<close> would panic in a debug build if the subtraction
  were negative.
\<close>

fun position_unavailable :: "('e + 'a option) list \<Rightarrow> nat option" where
  "position_unavailable [] = None"
| "position_unavailable (entry # rest) =
     (case entry of
        Inr (Some _) \<Rightarrow> map_option Suc (position_unavailable rest)
      | _ \<Rightarrow> Some 0)"

definition log_open ::
    "('ld, 's, 'a option, 'e) append_log_ops \<Rightarrow> 'ld \<Rightarrow> string \<Rightarrow> nat
      \<Rightarrow> ('e failure + ('s, 'a) ledger_log) \<times> 'ld" where
  "log_open A ld pattern sz =
     attempt (foreign (al_load A ld pattern log_file_size)) (\<lambda>st ld.
       let len = length (al_iter A st);
           start = (if len > sz then len - sz else 0);
           cached = map loaded (drop start (al_iter A st));
           pos = (case position_unavailable (al_iter A st) of Some p \<Rightarrow> p | None \<Rightarrow> len)
       in if length cached > sz then (Inl (Panic ''attempt to subtract with overflow''), ld)
          else (Inr \<lparr>cache_start = start, cache_size = sz, cache = cached, store = st,
                     pending_inserts = 0, stream = [], stream_pos = pos\<rparr>, ld))"

definition store_resource ::
    "('ld, 's, 'a option, 'e) append_log_ops \<Rightarrow> 'a option \<Rightarrow> ('s, 'a) ledger_log
      \<Rightarrow> ('e, unit, ('s, 'a) ledger_log) outcome" where
  "store_resource A resource l =
     attempt (on_field (\<lambda>st. l\<lparr>store := st\<rparr>) (foreign (al_store_resource A (store l) resource)))
       (\<lambda>_ l.
          let l = l\<lparr>pending_inserts := pending_inserts l + 1\<rparr>;
              l = (if length (cache l) \<ge> cache_size l
                   then l\<lparr>cache := tl (cache l), cache_start := cache_start l + 1\<rparr> else l)
          in (Inr (), l\<lparr>cache := cache l @ [resource]\<rparr>))"

text \<open>The padding loop of \<^verbatim>\<open>insert\<close>, \<^verbatim>\<open>for i in len..target_len\<close>.\<close>

fun store_placeholders ::
    "('ld, 's, 'a option, 'e) append_log_ops \<Rightarrow> nat \<Rightarrow> ('s, 'a) ledger_log
      \<Rightarrow> ('e, unit, ('s, 'a) ledger_log) outcome" where
  "store_placeholders A 0 l = (Inr (), l)"
| "store_placeholders A (Suc k) l =
     attempt (store_resource A None l) (\<lambda>_ l. store_placeholders A k l)"

definition log_insert ::
    "('ld, 's, 'a option, 'e) append_log_ops \<Rightarrow> nat \<Rightarrow> 'a \<Rightarrow> ('s, 'a) ledger_log
      \<Rightarrow> ('e, unit, ('s, 'a) ledger_log) outcome" where
  "log_insert A index object l =
     (let len = length (al_iter A (store l)) + pending_inserts l;
          target_len = max index len
      in attempt (store_placeholders A (target_len - len) l) (\<lambda>_ l.
           if \<not> target_len \<ge> index then (Inl (Panic ''assertion failed''), l)
           else if target_len = index then store_resource A (Some object) l
           else if index \<ge> cache_start l then
             (if index - cache_start l < length (cache l)
              then (Inr (), l\<lparr>cache := (cache l)[index - cache_start l := Some object]\<rparr>)
              else (Inl (Panic ''Out of bounds access''), l))
           else (Inr (), l)))"

text \<open>
  The broadcast loop of \<^verbatim>\<open>commit_version\<close>, \<^verbatim>\<open>while let Some(Some(obj)) = objects.next()\<close> over
  \<^verbatim>\<open>self.iter().skip(i)\<close>: the first call takes the \<open>n\<close>-th item, every later one the next. It
  returns the final position and the objects sent.
\<close>

partial_function (option) broadcast_loop ::
    "nat \<Rightarrow> ('a, 'e) log_iter \<Rightarrow> nat \<Rightarrow> 'a list \<Rightarrow> (nat \<times> 'a list) option" where
  "broadcast_loop n it i sent =
     (case iter_nth n it of
        (Some (Some obj), it') \<Rightarrow> broadcast_loop 0 it' (i + 1) (sent @ [obj])
      | (_, it') \<Rightarrow> Some (i, sent))"

lemma broadcast_loop_more:
  "iter_nth n it = (Some (Some obj), it') \<Longrightarrow>
     broadcast_loop n it i sent = broadcast_loop 0 it' (i + 1) (sent @ [obj])"
  by (subst broadcast_loop.simps) simp

lemma broadcast_loop_stop:
  "iter_nth n it = (None, it') \<Longrightarrow> broadcast_loop n it i sent = Some (i, sent)"
  "iter_nth n it = (Some None, it') \<Longrightarrow> broadcast_loop n it i sent = Some (i, sent)"
  by (subst broadcast_loop.simps, simp)+

definition commit_version ::
    "('ld, 's, 'a option, 'e) append_log_ops \<Rightarrow> ('s, 'a) ledger_log
      \<Rightarrow> ('e, unit, ('s, 'a) ledger_log) outcome" where
  "commit_version A l =
     attempt (on_field (\<lambda>st. l\<lparr>store := st\<rparr>) (foreign (al_commit_version A (store l))))
       (\<lambda>_ l.
          let l = l\<lparr>pending_inserts := 0\<rparr>
          in case broadcast_loop (stream_pos l) (log_iter A l) (stream_pos l) [] of
               None \<Rightarrow> (Inl Diverges, l)
             | Some (i, sent) \<Rightarrow>
                 (Inr (), l\<lparr>stream := stream l @ sent, stream_pos := i\<rparr>))"

definition skip_version ::
    "('ld, 's, 'a option, 'e) append_log_ops \<Rightarrow> ('s, 'a) ledger_log
      \<Rightarrow> ('e, unit, ('s, 'a) ledger_log) outcome" where
  "skip_version A l =
     on_field (\<lambda>st. l\<lparr>store := st\<rparr>) (foreign (al_skip_version A (store l)))"

definition revert_version ::
    "('ld, 's, 'a option, 'e) append_log_ops \<Rightarrow> ('s, 'a) ledger_log
      \<Rightarrow> ('e, unit, ('s, 'a) ledger_log) outcome" where
  "revert_version A l =
     attempt (on_field (\<lambda>st. l\<lparr>store := st\<rparr>) (foreign (al_revert_version A (store l))))
       (\<lambda>_ l. (Inr (), l\<lparr>cache := (butlast ^^ pending_inserts l) (cache l),
                          pending_inserts := 0\<rparr>))"

text \<open>
  \<^verbatim>\<open>subscribe\<close>: \<open>None\<close> when an object before the stream position is missing, else the objects to
  yield at once, how many streamed objects to skip, and where in the stream the receive handle
  was taken. \<open>take_available k n it\<close> is \<^verbatim>\<open>skip(n).take(k).collect::<Option<Vec<_>>>()\<close>.
\<close>

fun take_available :: "nat \<Rightarrow> nat \<Rightarrow> ('a, 'e) log_iter \<Rightarrow> 'a list option" where
  "take_available 0 n it = Some []"
| "take_available (Suc k) n it =
     (case iter_nth n it of
        (None, it') \<Rightarrow> Some []
      | (Some None, it') \<Rightarrow> None
      | (Some (Some x), it') \<Rightarrow> map_option ((#) x) (take_available k 0 it'))"

record 'a subscription =
  sub_prefix :: "'a list"
  sub_skip :: nat
  sub_handle :: nat

definition subscribe ::
    "('ld, 's, 'a option, 'e) append_log_ops \<Rightarrow> nat \<Rightarrow> ('s, 'a) ledger_log
      \<Rightarrow> 'a subscription option" where
  "subscribe A from l =
     map_option
       (\<lambda>pre. \<lparr>sub_prefix = pre, sub_skip = from - stream_pos l,
               sub_handle = length (stream l)\<rparr>)
       (take_available (stream_pos l - from) from (log_iter A l))"

text \<open>
  What the returned stream yields once its handle has received \<open>received\<close>. The channel is a
  foreign component: that a handle receives exactly what is sent after it was taken is stated
  where it is used.
\<close>

definition subscription_items :: "'a subscription \<Rightarrow> 'a list \<Rightarrow> 'a list" where
  "subscription_items sub received = sub_prefix sub @ drop (sub_skip sub) received"

section \<open>What a log represents\<close>

text \<open>
  \<open>log_history\<close> is the persistent view: the committed entries and the pending ones.
  \<open>log_contents\<close> is what reads see: the committed entries below the window, then the window.
  They agree while the window mirrors the history (\<open>log_coherent\<close>) and every pending entry is in
  the window (\<open>log_visible\<close>).
\<close>

definition log_history ::
    "('ld, 's, 'a option, 'e) append_log_ops \<Rightarrow> ('s \<Rightarrow> 'a option list) \<Rightarrow> ('s, 'a) ledger_log
      \<Rightarrow> 'a option list" where
  "log_history A pend l = map loaded (al_iter A (store l)) @ pend (store l)"

definition log_contents ::
    "('ld, 's, 'a option, 'e) append_log_ops \<Rightarrow> ('s, 'a) ledger_log \<Rightarrow> 'a option list" where
  "log_contents A l = map loaded (take (cache_start l) (al_iter A (store l))) @ cache l"

definition log_visible ::
    "('ld, 's, 'a option, 'e) append_log_ops \<Rightarrow> ('s, 'a) ledger_log \<Rightarrow> bool" where
  "log_visible A l \<longleftrightarrow> cache_start l \<le> length (al_iter A (store l))"

definition log_inv ::
    "('ld, 's, 'a option, 'e) append_log_ops \<Rightarrow> ('s \<Rightarrow> 'a option list) \<Rightarrow> ('s, 'a) ledger_log
      \<Rightarrow> bool" where
  "log_inv A pend l \<longleftrightarrow>
     0 < cache_size l \<and> length (cache l) \<le> cache_size l \<and>
     pending_inserts l = length (pend (store l)) \<and>
     cache_start l + length (cache l) = length (log_history A pend l) \<and>
     stream_pos l \<le> length (al_iter A (store l))"

definition log_coherent ::
    "('ld, 's, 'a option, 'e) append_log_ops \<Rightarrow> ('s \<Rightarrow> 'a option list) \<Rightarrow> ('s, 'a) ledger_log
      \<Rightarrow> bool" where
  "log_coherent A pend l \<longleftrightarrow> cache l = drop (cache_start l) (log_history A pend l)"

text \<open>Every position fits \<^verbatim>\<open>usize\<close>, with room for the index one past the end.\<close>

definition log_fits ::
    "('ld, 's, 'a option, 'e) append_log_ops \<Rightarrow> ('s, 'a) ledger_log \<Rightarrow> bool" where
  "log_fits A l \<longleftrightarrow> cache_start l + length (cache l) + 1 < 2 ^ 64"

lemma length_log_history [simp]:
  "length (log_history A pend l) = length (al_iter A (store l)) + length (pend (store l))"
  by (simp add: log_history_def)

lemma length_log_contents:
  "log_visible A l \<Longrightarrow> length (log_contents A l) = cache_start l + length (cache l)"
  by (simp add: log_contents_def log_visible_def)

lemma log_len_contents: "log_visible A l \<Longrightarrow> log_len A l = length (log_contents A l)"
  by (simp add: length_log_contents log_len_def iter_size_hint_def log_iter_def)

lemma log_len_eq: "log_len A l = cache_start l + length (cache l)"
  by (simp add: log_len_def iter_size_hint_def log_iter_def)

lemma log_contents_history:
  assumes "log_visible A l" and "log_coherent A pend l"
  shows "log_contents A l = log_history A pend l"
proof -
  have "take (cache_start l) (log_history A pend l)
      = map loaded (take (cache_start l) (al_iter A (store l)))"
    using assms(1) by (simp add: log_history_def log_visible_def take_map)
  then show ?thesis
    using assms(2) by (metis append_take_drop_id log_coherent_def log_contents_def)
qed

text \<open>The pending entries are visible exactly when the window holds them all.\<close>

lemma log_visible_iff_pending:
  "log_inv A pend l \<Longrightarrow> log_visible A l \<longleftrightarrow> pending_inserts l \<le> length (cache l)"
  by (auto simp: log_inv_def log_visible_def)

section \<open>Iteration\<close>

text \<open>The iterator stands before item \<open>i\<close>.\<close>

definition it_at ::
    "('ld, 's, 'a option, 'e) append_log_ops \<Rightarrow> ('s, 'a) ledger_log \<Rightarrow> nat
      \<Rightarrow> ('a, 'e) log_iter \<Rightarrow> bool" where
  "it_at A l i it \<longleftrightarrow>
     it_index it = i \<and> it_cache_start it = cache_start l \<and> it_cache it = cache l \<and>
     (i < cache_start l \<longrightarrow> it_store it = drop i (al_iter A (store l)))"

lemma it_at_start [simp, intro]: "it_at A l 0 (log_iter A l)"
  by (simp add: it_at_def log_iter_def)

lemma list_get_contents:
  assumes "log_visible A l"
  shows "list_get (log_contents A l) i =
    (if i \<ge> cache_start l then list_get (cache l) (i - cache_start l)
     else map_option loaded (list_get (al_iter A (store l)) i))"
  using assms by (auto simp: log_contents_def log_visible_def list_get_append list_get_take)

lemma iter_nth_result:
  assumes "log_visible A l" and "it_at A l i it" and "i + n < 2 ^ 64"
  shows "fst (iter_nth n it) = list_get (log_contents A l) (i + n)"
  using assms
  by (auto simp: iter_nth_def it_at_def Let_def list_get_contents list_get_drop)

lemma iter_nth_at:
  assumes "it_at A l i it" and "i + n + 1 < 2 ^ 64"
  shows "it_at A l (Suc (i + n)) (snd (iter_nth n it))"
  using assms by (auto simp: iter_nth_def it_at_def Let_def add.commute)

lemma iter_nthE:
  assumes "log_visible A l" and "it_at A l i it" and "i + n + 1 < 2 ^ 64"
  obtains it' where "iter_nth n it = (list_get (log_contents A l) (i + n), it')"
    and "it_at A l (Suc (i + n)) it'"
  using iter_nth_result [OF assms(1,2), of n] iter_nth_at [OF assms(2,3)] assms(3)
  by (cases "iter_nth n it") auto

lemma collect_it_at:
  assumes vis: "log_visible A l" and fits: "log_fits A l"
    and it: "it_at A l i it" and le: "i \<le> length (log_contents A l)"
  shows "collect iter_next it = Some (drop i (log_contents A l))"
proof -
  let ?C = "log_contents A l"
  have len: "length ?C + 1 < 2 ^ 64"
    using fits by (simp add: log_fits_def length_log_contents [OF vis])
  show ?thesis
  proof (rule collect_list [where at = "it_at A l", OF _ _ it le])
    fix i it assume at: "it_at A l i it" and i: "i < length ?C"
    have b: "i + 0 + 1 < 2 ^ 64" using i len by simp
    obtain it' where "iter_nth 0 it = (list_get ?C (i + 0), it')" "it_at A l (Suc (i + 0)) it'"
      by (rule iter_nthE [OF vis at b])
    then show "\<exists>it'. iter_next it = Some (?C ! i, it') \<and> it_at A l (Suc i) it'"
      using i by (simp add: iter_next_def list_get_def)
  next
    fix it assume at: "it_at A l (length ?C) it"
    have b: "length ?C + 0 + 1 < 2 ^ 64" using len by simp
    obtain it' where "iter_nth 0 it = (list_get ?C (length ?C + 0), it')"
      by (rule iter_nthE [OF vis at b])
    then show "iter_next it = None" by (simp add: iter_next_def list_get_def)
  qed
qed

lemma collect_log_iter:
  assumes "log_visible A l" and "log_fits A l"
  shows "collect iter_next (log_iter A l) = Some (log_contents A l)"
  using collect_it_at [OF assms it_at_start] by simp

lemma broadcast_loop_at:
  assumes vis: "log_visible A l" and fits: "log_fits A l"
  shows "it_at A l i it \<Longrightarrow> i + n \<le> length (log_contents A l) \<Longrightarrow>
    broadcast_loop n it k sent =
      Some (k + length (available_prefix (drop (i + n) (log_contents A l))),
            sent @ available_prefix (drop (i + n) (log_contents A l)))"
proof (induction "length (log_contents A l) - (i + n)" arbitrary: i n it k sent)
  case 0
  have len: "length (log_contents A l) + 1 < 2 ^ 64"
    using fits by (simp add: log_fits_def length_log_contents [OF vis])
  have b: "i + n + 1 < 2 ^ 64" using 0 len by simp
  obtain it' where "iter_nth n it = (list_get (log_contents A l) (i + n), it')"
    by (rule iter_nthE [OF vis 0(2) b])
  with 0 show ?case by (subst broadcast_loop.simps) (simp add: list_get_def)
next
  case (Suc m)
  let ?C = "log_contents A l"
  have len: "length ?C + 1 < 2 ^ 64"
    using fits by (simp add: log_fits_def length_log_contents [OF vis])
  have i: "i + n < length ?C" using Suc.hyps(2) by simp
  then have b: "i + n + 1 < 2 ^ 64" using len by simp
  obtain it' where "iter_nth n it = (list_get ?C (i + n), it')"
      and at': "it_at A l (Suc (i + n)) it'"
    by (rule iter_nthE [OF vis Suc.prems(1) b])
  with i have it': "iter_nth n it = (Some (?C ! (i + n)), it')"
    by (simp add: list_get_def)
  have drp: "drop (i + n) ?C = ?C ! (i + n) # drop (Suc (i + n)) ?C"
    using i by (simp add: Cons_nth_drop_Suc)
  show ?case
  proof (cases "?C ! (i + n)")
    case None
    with it' show ?thesis by (subst broadcast_loop.simps) (simp add: drp)
  next
    case (Some obj)
    have "broadcast_loop 0 it' (Suc k) (sent @ [obj]) =
        Some (Suc k + length (available_prefix (drop (Suc (i + n)) ?C)),
              (sent @ [obj]) @ available_prefix (drop (Suc (i + n)) ?C))"
      using Suc.hyps(1) [of "Suc (i + n)" 0 it' "Suc k" "sent @ [obj]"] Suc.hyps(2) at' i by simp
    with it' Some show ?thesis by (subst broadcast_loop.simps) (simp add: drp)
  qed
qed

lemma take_available_at:
  assumes vis: "log_visible A l"
  shows "it_at A l i it \<Longrightarrow> i + n + k < 2 ^ 64 \<Longrightarrow>
    take_available k n it = those (take k (drop (i + n) (log_contents A l)))"
proof (induction k arbitrary: i n it)
  case 0
  then show ?case by simp
next
  case (Suc k)
  let ?C = "log_contents A l"
  have b: "i + n + 1 < 2 ^ 64" using Suc.prems(2) by simp
  obtain it' where it': "iter_nth n it = (list_get ?C (i + n), it')"
      "it_at A l (Suc (i + n)) it'"
    by (rule iter_nthE [OF vis Suc.prems(1) b])
  show ?case
  proof (cases "i + n < length ?C")
    case True
    then have drp: "drop (i + n) ?C = ?C ! (i + n) # drop (Suc (i + n)) ?C"
      by (simp add: Cons_nth_drop_Suc)
    have "take_available k 0 it' = those (take k (drop (Suc (i + n)) ?C))"
      using Suc.IH [OF it'(2), of 0] Suc.prems by simp
    with it' True show ?thesis by (simp add: list_get_def drp split: option.splits)
  next
    case False
    with it' show ?thesis by (simp add: list_get_def)
  qed
qed

end
