(* ===== verification/LedgerLogInv.thy ===== *)
theory LedgerLogInv
  imports LedgerLog
begin

text \<open>
  The field invariant of the ledger log and what each operation does to the history, the window
  and the stream: one lemma per operation and outcome, then the step relation of a log, its
  reachable states and the append-only runs, whose streams are gapless.
\<close>

section \<open>Storing one resource\<close>

lemma store_resource_err:
  assumes laws: "append_log_laws A pend" and run: "store_resource A r l = (Inl x, l')"
  obtains e s where "x = Failure e" "l' = l\<lparr>store := s\<rparr>"
    "al_iter A s = al_iter A (store l)" "pend s = pend (store l)"
proof -
  obtain res s where res: "al_store_resource A (store l) r = (res, s)" by fastforce
  show thesis
  proof (cases res)
    case (Inl e)
    with run res have "x = Failure e" "l' = l\<lparr>store := s\<rparr>"
      by (auto simp: store_resource_def Let_def)
    with that al_store_err [OF laws] res Inl show thesis by blast
  next
    case (Inr u)
    with run res show thesis by (simp add: store_resource_def Let_def)
  qed
qed

lemma store_resource_ok:
  assumes laws: "append_log_laws A pend" and run: "store_resource A r l = (Inr u, l')"
  obtains s where "al_iter A s = al_iter A (store l)" "pend s = pend (store l) @ [r]"
    "l' = l\<lparr>store := s, pending_inserts := pending_inserts l + 1,
            cache_start := (if length (cache l) \<ge> cache_size l then cache_start l + 1
                            else cache_start l),
            cache := (if length (cache l) \<ge> cache_size l then tl (cache l) else cache l) @ [r]\<rparr>"
proof -
  obtain res s where res: "al_store_resource A (store l) r = (res, s)" by fastforce
  show thesis
  proof (cases res)
    case (Inl e)
    with run res show thesis by (simp add: store_resource_def Let_def)
  next
    case (Inr v)
    with run res al_store_ok [OF laws] that [of s] show thesis
      by (auto simp: store_resource_def Let_def split: if_splits)
  qed
qed

lemma store_resource_history:
  assumes "append_log_laws A pend" and "store_resource A r l = (Inr u, l')"
  shows "log_history A pend l' = log_history A pend l @ [r]"
  by (rule store_resource_ok [OF assms]) (simp add: log_history_def)

lemma store_resource_inv:
  assumes laws: "append_log_laws A pend" and inv: "log_inv A pend l"
    and run: "store_resource A r l = (res, l')"
  shows "log_inv A pend l'"
proof (cases res)
  case (Inl x)
  then show ?thesis
    using run inv by (auto simp: log_inv_def log_history_def elim!: store_resource_err [OF laws])
next
  case (Inr u)
  then show ?thesis
    using run inv
    by (cases "cache l") (auto simp: log_inv_def elim!: store_resource_ok [OF laws])
qed

lemma store_resource_coherent:
  assumes laws: "append_log_laws A pend" and inv: "log_inv A pend l"
    and coh: "log_coherent A pend l" and run: "store_resource A r l = (res, l')"
  shows "log_coherent A pend l'"
proof (cases res)
  case (Inl x)
  then show ?thesis
    using run coh
    by (auto simp: log_coherent_def log_history_def elim!: store_resource_err [OF laws])
next
  case (Inr u)
  have hist: "log_history A pend l' = log_history A pend l @ [r]"
    using store_resource_history [OF laws] run Inr by blast
  from inv have le: "cache_start l \<le> length (log_history A pend l)"
    by (simp add: log_inv_def del: length_log_history)
  have less: "Suc (cache_start l) \<le> length (log_history A pend l)"
    if "cache_size l \<le> length (cache l)"
    using inv that by (simp add: log_inv_def del: length_log_history)
  from run [unfolded Inr] show ?thesis
    using coh le less hist
    by (auto simp: log_coherent_def drop_Suc tl_drop simp del: length_log_history
        elim!: store_resource_ok [OF laws])
qed

lemma store_resource_frame:
  assumes "store_resource A r l = (res, l')"
  shows "cache_size l' = cache_size l" "stream l' = stream l" "stream_pos l' = stream_pos l"
proof -
  obtain x s where "al_store_resource A (store l) r = (x, s)" by fastforce
  with assms show "cache_size l' = cache_size l" "stream l' = stream l"
      "stream_pos l' = stream_pos l"
    by (cases x; auto simp: store_resource_def Let_def split: if_splits)+
qed

lemma store_resource_visible:
  assumes laws: "append_log_laws A pend" and inv: "log_inv A pend l"
    and vis: "log_visible A l" and few: "pending_inserts l < cache_size l"
    and run: "store_resource A r l = (res, l')"
  shows "log_visible A l'"
proof (cases res)
  case (Inl x)
  then show ?thesis
    using run vis by (auto simp: log_visible_def elim!: store_resource_err [OF laws])
next
  case (Inr u)
  then show ?thesis
    using run inv vis few
    by (auto simp: log_visible_def log_inv_def elim!: store_resource_ok [OF laws])
qed

lemma store_resource_entries:
  assumes laws: "append_log_laws A pend" and run: "store_resource A r l = (res, l')"
  shows "al_iter A (store l') = al_iter A (store l)"
  using run
  by (cases res) (auto elim!: store_resource_err [OF laws] store_resource_ok [OF laws])

lemma store_resource_not_panic:
  "store_resource A r l = (Inl x, l') \<Longrightarrow> \<exists>e. x = Failure e"
  by (cases "al_store_resource A (store l) r"; cases "fst (al_store_resource A (store l) r)")
    (auto simp: store_resource_def Let_def)

section \<open>Placeholders\<close>

text \<open>A property every single store keeps is kept by the padding loop, early returns included.\<close>

lemma store_placeholders_invariant:
  assumes step: "\<And>l res l'. P l \<Longrightarrow> store_resource A None l = (res, l') \<Longrightarrow> P l'"
  shows "P l \<Longrightarrow> store_placeholders A k l = (res, l') \<Longrightarrow> P l'"
proof (induction k arbitrary: l)
  case 0
  then show ?case by simp
next
  case (Suc k)
  from Suc.prems(2)
  have "attempt (store_resource A None l) (\<lambda>_ l. store_placeholders A k l) = (res, l')" by simp
  then show ?case
  proof (cases rule: attempt_cases)
    case (early e)
    with Suc.prems(1) step show ?thesis by blast
  next
    case (cont x m)
    with Suc step show ?thesis by blast
  qed
qed

lemma store_placeholders_history:
  assumes laws: "append_log_laws A pend"
  shows "store_placeholders A k l = (Inr u, l') \<Longrightarrow>
    log_history A pend l' = log_history A pend l @ replicate k None"
proof (induction k arbitrary: l)
  case 0
  then show ?case by simp
next
  case (Suc k)
  then obtain v m where "store_resource A None l = (Inr v, m)"
      "store_placeholders A k m = (Inr u, l')"
    by (auto elim: attempt_okE)
  then show ?case
    using Suc.IH [of m] store_resource_history [OF laws, of None l v m] by simp
qed

lemma store_placeholders_pending:
  assumes laws: "append_log_laws A pend"
  shows "store_placeholders A k l = (Inr u, l') \<Longrightarrow> pending_inserts l' = pending_inserts l + k"
proof (induction k arbitrary: l)
  case 0
  then show ?case by simp
next
  case (Suc k)
  then obtain v m where "store_resource A None l = (Inr v, m)"
      "store_placeholders A k m = (Inr u, l')"
    by (auto elim: attempt_okE)
  then show ?case
    using Suc.IH [of m] by (auto elim!: store_resource_ok [OF laws])
qed

lemma store_placeholders_not_panic:
  "store_placeholders A k l = (Inl x, l') \<Longrightarrow> \<exists>e. x = Failure e"
proof (induction k arbitrary: l)
  case 0
  then show ?case by simp
next
  case (Suc k)
  from Suc.prems
  have "attempt (store_resource A None l) (\<lambda>_ l. store_placeholders A k l) = (Inl x, l')" by simp
  then show ?case
    by (cases rule: attempt_cases) (auto dest: store_resource_not_panic Suc.IH)
qed

section \<open>Insertion\<close>

lemma log_inv_total:
  "log_inv A pend l \<Longrightarrow> length (al_iter A (store l)) + pending_inserts l
     = length (al_iter A (store l)) + length (pend (store l))"
  by (simp add: log_inv_def)

lemma log_insert_append:
  assumes "log_inv A pend l" and "length (log_history A pend l) \<le> index"
  shows "log_insert A index obj l =
    attempt (store_placeholders A (index - length (log_history A pend l)) l)
      (\<lambda>_ l. store_resource A (Some obj) l)"
  using assms by (simp add: log_insert_def log_inv_def Let_def)

lemma log_insert_in_place:
  assumes "log_inv A pend l" and "index < length (log_history A pend l)"
  shows "log_insert A index obj l =
    (Inr (), if cache_start l \<le> index
             then l\<lparr>cache := (cache l)[index - cache_start l := Some obj]\<rparr> else l)"
proof -
  from assms have "index - cache_start l < length (cache l)" if "cache_start l \<le> index"
    using that by (auto simp: log_inv_def)
  with assms show ?thesis by (auto simp: log_insert_def log_inv_def Let_def)
qed

lemma log_insert_invariant:
  assumes inv: "log_inv A pend l" and app: "length (log_history A pend l) \<le> index"
    and step: "\<And>l r res l'. P l \<Longrightarrow> store_resource A r l = (res, l') \<Longrightarrow> P l'"
    and start: "P l" and run: "log_insert A index obj l = (res, l')"
  shows "P l'"
proof -
  from run log_insert_append [OF inv app]
  have "attempt (store_placeholders A (index - length (log_history A pend l)) l)
      (\<lambda>_ l. store_resource A (Some obj) l) = (res, l')" by simp
  then show ?thesis
  proof (cases rule: attempt_cases)
    case (early e)
    then show ?thesis using store_placeholders_invariant [of P A] step start by blast
  next
    case (cont x m)
    then have "P m" using store_placeholders_invariant [of P A] step start by blast
    with cont step show ?thesis by blast
  qed
qed

lemma log_insert_inv:
  assumes laws: "append_log_laws A pend" and inv: "log_inv A pend l"
    and run: "log_insert A index obj l = (res, l')"
  shows "log_inv A pend l'"
proof (cases "index < length (log_history A pend l)")
  case True
  with run inv log_insert_in_place [OF inv True, of obj] show ?thesis
    by (auto simp: log_inv_def log_history_def split: if_splits)
next
  case False
  then show ?thesis
    using log_insert_invariant [where P = "log_inv A pend", OF inv _ _ inv run]
      store_resource_inv [OF laws] by fastforce
qed

lemma log_insert_coherent:
  assumes laws: "append_log_laws A pend" and inv: "log_inv A pend l"
    and coh: "log_coherent A pend l" and app: "length (log_history A pend l) \<le> index"
    and run: "log_insert A index obj l = (res, l')"
  shows "log_coherent A pend l'"
  using log_insert_invariant [OF inv app _ _ run, of "\<lambda>l. log_inv A pend l \<and> log_coherent A pend l"]
    store_resource_inv [OF laws] store_resource_coherent [OF laws] inv coh by blast

lemma log_insert_frame:
  assumes inv: "log_inv A pend l" and run: "log_insert A index obj l = (res, l')"
  shows "stream l' = stream l" "stream_pos l' = stream_pos l" "cache_size l' = cache_size l"
proof -
  have "stream l' = stream l \<and> stream_pos l' = stream_pos l \<and> cache_size l' = cache_size l"
  proof (cases "index < length (log_history A pend l)")
    case True
    with run log_insert_in_place [OF inv True, of obj] show ?thesis by (auto split: if_splits)
  next
    case False
    then show ?thesis
      using log_insert_invariant [OF inv _ _ _ run,
          of "\<lambda>m. stream m = stream l \<and> stream_pos m = stream_pos l \<and> cache_size m = cache_size l"]
      by (metis store_resource_frame not_less)
  qed
  then show "stream l' = stream l" "stream_pos l' = stream_pos l" "cache_size l' = cache_size l"
    by auto
qed

lemma log_insert_entries:
  assumes laws: "append_log_laws A pend" and inv: "log_inv A pend l"
    and run: "log_insert A index obj l = (res, l')"
  shows "al_iter A (store l') = al_iter A (store l)"
proof (cases "index < length (log_history A pend l)")
  case True
  with run log_insert_in_place [OF inv True, of obj] show ?thesis by (auto split: if_splits)
next
  case False
  then show ?thesis
    using log_insert_invariant [OF inv _ _ _ run, of "\<lambda>m. al_iter A (store m) = al_iter A (store l)"]
    by (metis store_resource_entries [OF laws] not_less)
qed

lemma log_insert_history:
  assumes laws: "append_log_laws A pend" and inv: "log_inv A pend l"
    and app: "length (log_history A pend l) \<le> index"
    and run: "log_insert A index obj l = (Inr u, l')"
  shows "log_history A pend l' =
    log_history A pend l @ replicate (index - length (log_history A pend l)) None @ [Some obj]"
proof -
  from run log_insert_append [OF inv app] obtain x m where
      m: "store_placeholders A (index - length (log_history A pend l)) l = (Inr x, m)"
         "store_resource A (Some obj) m = (Inr u, l')"
    by (auto elim: attempt_okE)
  show ?thesis
    using store_placeholders_history [OF laws m(1)] store_resource_history [OF laws m(2)] by simp
qed

lemma log_insert_not_panic:
  assumes inv: "log_inv A pend l" and run: "log_insert A index obj l = (Inl x, l')"
  shows "\<exists>e. x = Failure e"
proof (cases "index < length (log_history A pend l)")
  case True
  with run log_insert_in_place [OF inv True, of obj] show ?thesis by simp
next
  case False
  with run log_insert_append [OF inv, of index obj]
  have "attempt (store_placeholders A (index - length (log_history A pend l)) l)
      (\<lambda>_ l. store_resource A (Some obj) l) = (Inl x, l')" by simp
  then show ?thesis
    by (cases rule: attempt_cases)
      (auto dest: store_resource_not_panic store_placeholders_not_panic)
qed

lemma store_placeholders_visible:
  assumes laws: "append_log_laws A pend"
  shows "log_inv A pend l \<Longrightarrow> log_visible A l \<Longrightarrow> pending_inserts l + k \<le> cache_size l \<Longrightarrow>
    store_placeholders A k l = (Inr u, l') \<Longrightarrow> log_visible A l'"
proof (induction k arbitrary: l)
  case 0
  then show ?case by simp
next
  case (Suc k)
  then obtain v m where m: "store_resource A None l = (Inr v, m)"
      "store_placeholders A k m = (Inr u, l')"
    by (auto elim: attempt_okE)
  have "log_visible A m"
    using store_resource_visible [OF laws Suc.prems(1,2) _ m(1)] Suc.prems(3) by simp
  moreover have "pending_inserts m + k \<le> cache_size m"
    using Suc.prems(3) m(1) by (auto elim!: store_resource_ok [OF laws])
  ultimately show ?case
    using Suc.IH [OF store_resource_inv [OF laws Suc.prems(1) m(1)]] m(2) by blast
qed

lemma log_insert_visible:
  assumes laws: "append_log_laws A pend" and inv: "log_inv A pend l" and vis: "log_visible A l"
    and app: "length (log_history A pend l) \<le> index"
    and room: "pending_inserts l + (index - length (log_history A pend l)) < cache_size l"
    and run: "log_insert A index obj l = (Inr u, l')"
  shows "log_visible A l'"
proof -
  let ?k = "index - length (log_history A pend l)"
  from run log_insert_append [OF inv app] obtain x m where
      m: "store_placeholders A ?k l = (Inr x, m)" "store_resource A (Some obj) m = (Inr u, l')"
    by (auto elim: attempt_okE)
  have invm: "log_inv A pend m"
    using store_placeholders_invariant [of "log_inv A pend" A] store_resource_inv [OF laws] inv m(1)
    by blast
  have vism: "log_visible A m"
    using store_placeholders_visible [OF laws inv vis _ m(1)] room by simp
  have "cache_size m = cache_size l"
    using store_placeholders_invariant [of "\<lambda>m. cache_size m = cache_size l" A l ?k "Inr x" m]
      store_resource_frame m(1) by metis
  with store_placeholders_pending [OF laws m(1)] room have "pending_inserts m < cache_size m" by simp
  then show ?thesis by (rule store_resource_visible [OF laws invm vism _ m(2)])
qed

section \<open>Commit, skip and revert\<close>

lemma commit_version_cases:
  assumes laws: "append_log_laws A pend" and inv: "log_inv A pend l" and fits: "log_fits A l"
    and run: "commit_version A l = (res, l')"
  obtains
    (failed) e s where "res = Inl (Failure e)" "l' = l\<lparr>store := s\<rparr>"
      "al_iter A s = al_iter A (store l)" "pend s = pend (store l)"
  | (succeeded) s objs where "res = Inr ()"
      "l' = l\<lparr>store := s, pending_inserts := 0, stream := stream l @ objs,
              stream_pos := stream_pos l + length objs\<rparr>"
      "al_iter A s = al_iter A (store l) @ map Inr (pend (store l))" "pend s = []"
      "available_prefix (drop (stream_pos l) (log_contents A l')) = objs"
      "log_visible A l'"
proof -
  obtain x s where x: "al_commit_version A (store l) = (x, s)" by fastforce
  show thesis
  proof (cases x)
    case (Inl e)
    with run x have "res = Inl (Failure e)" "l' = l\<lparr>store := s\<rparr>"
      by (auto simp: commit_version_def)
    with failed al_commit_err [OF laws] x Inl show thesis by blast
  next
    case (Inr u)
    have s: "al_iter A s = al_iter A (store l) @ map Inr (pend (store l))" "pend s = []"
      using al_commit_ok [OF laws] x Inr by blast+
    let ?m = "l\<lparr>store := s, pending_inserts := 0\<rparr>"
    let ?objs = "available_prefix (drop (stream_pos l) (log_contents A ?m))"
    have vis: "log_visible A ?m" using inv s by (simp add: log_visible_def log_inv_def)
    have le: "0 + stream_pos l \<le> length (log_contents A ?m)"
      using inv s by (simp add: length_log_contents [OF vis] log_inv_def)
    have fm: "log_fits A ?m" using fits by (simp add: log_fits_def)
    have "broadcast_loop (stream_pos l) (log_iter A ?m) (stream_pos l) []
        = Some (stream_pos l + length ?objs, ?objs)"
      using broadcast_loop_at [OF vis fm it_at_start le] by simp
    with run x Inr have "res = Inr ()"
      and l': "l' = ?m\<lparr>stream := stream l @ ?objs, stream_pos := stream_pos l + length ?objs\<rparr>"
      by (auto simp: commit_version_def Let_def)
    moreover from l' have "log_contents A l' = log_contents A ?m"
      by (simp add: log_contents_def)
    moreover from l' vis have "log_visible A l'" by (simp add: log_visible_def)
    ultimately show thesis using succeeded s by simp
  qed
qed

lemma commit_version_inv:
  assumes laws: "append_log_laws A pend" and inv: "log_inv A pend l" and fits: "log_fits A l"
    and run: "commit_version A l = (res, l')"
  shows "log_inv A pend l'"
  using laws inv fits run
proof (cases rule: commit_version_cases)
  case (failed e s)
  then show ?thesis using inv by (simp add: log_inv_def)
next
  case (succeeded s objs)
  have C: "length (log_contents A l') = length (al_iter A (store l'))"
    unfolding length_log_contents [OF succeeded(6)] using inv succeeded(2-4)
    by (auto simp: log_inv_def)
  have "length objs \<le> length (log_contents A l') - stream_pos l"
    using length_available_prefix [of "drop (stream_pos l) (log_contents A l')"] succeeded(5) by simp
  moreover have "stream_pos l \<le> length (log_contents A l')"
    unfolding C using inv succeeded(2,3) by (auto simp: log_inv_def)
  ultimately have "stream_pos l + length objs \<le> length (al_iter A (store l'))" using C by simp
  then show ?thesis
    using inv succeeded(2-4) by (auto simp: log_inv_def)
qed

lemma commit_version_coherent:
  assumes laws: "append_log_laws A pend" and inv: "log_inv A pend l" and fits: "log_fits A l"
    and coh: "log_coherent A pend l" and run: "commit_version A l = (res, l')"
  shows "log_coherent A pend l'"
  using laws inv fits run
proof (cases rule: commit_version_cases)
  case (failed e s)
  then show ?thesis using coh by (simp add: log_coherent_def log_history_def)
next
  case (succeeded s objs)
  then have "log_history A pend l' = log_history A pend l"
    by (auto simp: log_history_def o_def)
  then show ?thesis using coh succeeded(2) by (simp add: log_coherent_def)
qed

lemma skip_version_same:
  assumes laws: "append_log_laws A pend" and run: "skip_version A l = (res, l')"
  obtains s where "l' = l\<lparr>store := s\<rparr>" "al_iter A s = al_iter A (store l)" "pend s = pend (store l)"
proof -
  obtain x s where x: "al_skip_version A (store l) = (x, s)" by fastforce
  with run have "l' = l\<lparr>store := s\<rparr>" by (simp add: skip_version_def foreign_def)
  with that al_skip_any [OF laws x] show thesis by blast
qed

lemma revert_version_cases:
  assumes laws: "append_log_laws A pend" and run: "revert_version A l = (res, l')"
  obtains
    (failed) e s where "res = Inl (Failure e)" "l' = l\<lparr>store := s\<rparr>"
      "al_iter A s = al_iter A (store l)" "pend s = pend (store l)"
  | (succeeded) s where "res = Inr ()"
      "l' = l\<lparr>store := s, cache := take (length (cache l) - pending_inserts l) (cache l),
              pending_inserts := 0\<rparr>"
      "al_iter A s = al_iter A (store l)" "pend s = []"
proof -
  obtain x s where x: "al_revert_version A (store l) = (x, s)" by fastforce
  show thesis
  proof (cases x)
    case (Inl e)
    with run x have "res = Inl (Failure e)" "l' = l\<lparr>store := s\<rparr>"
      by (auto simp: revert_version_def)
    with failed al_revert_err [OF laws] x Inl show thesis by blast
  next
    case (Inr u)
    with run x have "res = Inr ()"
      "l' = l\<lparr>store := s, cache := take (length (cache l) - pending_inserts l) (cache l),
              pending_inserts := 0\<rparr>"
      by (auto simp: revert_version_def funpow_butlast)
    with succeeded al_revert_ok [OF laws] x Inr show thesis by blast
  qed
qed

text \<open>Reverting keeps the invariant when the window still holds every pending entry.\<close>

lemma revert_version_inv:
  assumes laws: "append_log_laws A pend" and inv: "log_inv A pend l"
    and win: "pending_inserts l \<le> length (cache l)" and run: "revert_version A l = (res, l')"
  shows "log_inv A pend l'"
  using laws run
proof (cases rule: revert_version_cases)
  case (failed e s)
  then show ?thesis using inv by (simp add: log_inv_def)
next
  case (succeeded s)
  then show ?thesis using inv win by (auto simp: log_inv_def)
qed

lemma revert_version_coherent:
  assumes laws: "append_log_laws A pend" and inv: "log_inv A pend l"
    and win: "pending_inserts l \<le> length (cache l)" and coh: "log_coherent A pend l"
    and run: "revert_version A l = (res, l')"
  shows "log_coherent A pend l'"
  using laws run
proof (cases rule: revert_version_cases)
  case (failed e s)
  then show ?thesis using coh by (simp add: log_coherent_def log_history_def)
next
  case (succeeded s)
  have "cache_start l \<le> length (al_iter A (store l))" using inv win by (simp add: log_inv_def)
  moreover have "length (cache l) - pending_inserts l
      = length (al_iter A (store l)) - cache_start l"
    using inv win by (auto simp: log_inv_def)
  ultimately show ?thesis
    using coh succeeded by (simp add: log_coherent_def log_history_def)
qed

end
