(* ===== verification/LedgerLogRun.thy ===== *)
theory LedgerLogRun
  imports LedgerLogInv
begin

text \<open>
  Whole lives of a ledger log: opening, the step relation and its reachable states, append-only
  runs and what their subscribers receive; and the two contracts the file system data source
  relies on, as locales, with their interpretation by the model of the log.
\<close>

section \<open>Creating and opening\<close>

lemma position_unavailable_eq:
  "position_unavailable es =
     (let objs = available_prefix (map loaded es)
      in if length objs < length es then Some (length objs) else None)"
proof (induction es rule: position_unavailable.induct)
  case 1
  then show ?case by simp
next
  case (2 entry rest)
  then show ?case
    by (cases entry; cases "loaded entry")
      (auto simp: Let_def split: option.splits if_splits)
qed

lemma log_create_state:
  assumes laws: "append_log_laws A pend" and run: "log_create A ld f sz = (Inr l, ld')"
  shows "log_contents A l = []" "log_history A pend l = []" "cache_size l = sz" "stream l = []"
    "stream_pos l = 0" "cache_start l = 0" "cache l = []" "pending_inserts l = 0"
    "al_iter A (store l) = []" "pend (store l) = []"
proof -
  obtain st ld'' where "al_create A ld f log_file_size = (Inr st, ld'')"
    and l: "l = \<lparr>cache_start = 0, cache_size = sz, cache = [], store = st,
             pending_inserts = 0, stream = [], stream_pos = 0\<rparr>"
    using run by (cases "al_create A ld f log_file_size";
        cases "fst (al_create A ld f log_file_size)") (auto simp: log_create_def)
  with al_create_ok [OF laws] have "al_iter A st = []" "pend st = []" by blast+
  with l show "log_contents A l = []" "log_history A pend l = []" "cache_size l = sz"
      "stream l = []" "stream_pos l = 0" "cache_start l = 0" "cache l = []"
      "pending_inserts l = 0" "al_iter A (store l) = []" "pend (store l) = []"
    by (simp_all add: log_contents_def log_history_def)
qed

lemma log_open_eq:
  assumes "al_load A ld f log_file_size = (Inr st, ld')"
  shows "log_open A ld f sz =
    (Inr \<lparr>cache_start = length (al_iter A st) - sz, cache_size = sz,
          cache = map loaded (drop (length (al_iter A st) - sz) (al_iter A st)), store = st,
          pending_inserts = 0, stream = [],
          stream_pos = length (available_prefix (map loaded (al_iter A st)))\<rparr>, ld')"
proof -
  have "(case position_unavailable (al_iter A st) of Some p \<Rightarrow> p | None \<Rightarrow> length (al_iter A st))
      = length (available_prefix (map loaded (al_iter A st)))"
    using length_available_prefix [of "map loaded (al_iter A st)"]
    by (auto simp: position_unavailable_eq Let_def split: option.splits if_splits)
  with assms show ?thesis by (auto simp: log_open_def Let_def)
qed

lemma log_openE:
  assumes "log_open A ld f sz = (Inr l, ld')"
  obtains st where "al_load A ld f log_file_size = (Inr st, ld')"
    "l = \<lparr>cache_start = length (al_iter A st) - sz, cache_size = sz,
          cache = map loaded (drop (length (al_iter A st) - sz) (al_iter A st)), store = st,
          pending_inserts = 0, stream = [],
          stream_pos = length (available_prefix (map loaded (al_iter A st)))\<rparr>"
proof -
  obtain x ld'' where x: "al_load A ld f log_file_size = (x, ld'')" by fastforce
  show thesis
  proof (cases x)
    case (Inl e)
    with assms x show thesis by (simp add: log_open_def)
  next
    case (Inr st)
    with assms x that log_open_eq [of A ld f st ld'' sz] show thesis by auto
  qed
qed

text \<open>A log that a process starts with, freshly created or opened from storage.\<close>

inductive log_start ::
    "('ld, 's, 'a option, 'e) append_log_ops \<Rightarrow> ('s, 'a) ledger_log \<Rightarrow> bool" for A where
  created: "log_create A ld f sz = (Inr l, ld') \<Longrightarrow> 0 < sz \<Longrightarrow> log_start A l"
| opened: "log_open A ld f sz = (Inr l, ld') \<Longrightarrow> 0 < sz \<Longrightarrow> log_start A l"

lemma log_start_state:
  assumes laws: "append_log_laws A pend" and start: "log_start A l"
  shows "log_inv A pend l" "log_coherent A pend l" "log_visible A l"
    "stream l = []" "pending_inserts l = 0"
    "stream_pos l = length (available_prefix (map loaded (al_iter A (store l))))"
proof -
  have "log_inv A pend l \<and> log_coherent A pend l \<and> log_visible A l \<and> stream l = [] \<and>
      pending_inserts l = 0 \<and>
      stream_pos l = length (available_prefix (map loaded (al_iter A (store l))))"
    using start
  proof cases
    case (created ld f sz ld')
    then show ?thesis
      using log_create_state [OF laws created(1)]
      by (simp add: log_inv_def log_coherent_def log_visible_def)
  next
    case (opened ld f sz ld')
    from opened(1) show ?thesis
    proof (rule log_openE)
      fix st
      assume st: "al_load A ld f log_file_size = (Inr st, ld')"
        and l: "l = \<lparr>cache_start = length (al_iter A st) - sz, cache_size = sz,
          cache = map loaded (drop (length (al_iter A st) - sz) (al_iter A st)), store = st,
          pending_inserts = 0, stream = [],
          stream_pos = length (available_prefix (map loaded (al_iter A st)))\<rparr>"
      have "pend st = []" using al_load_ok [OF laws st] .
      moreover have "length (available_prefix (map loaded (al_iter A st))) \<le> length (al_iter A st)"
        using length_available_prefix [of "map loaded (al_iter A st)"] by simp
      ultimately show ?thesis
        using opened(2) l
        by (auto simp: log_inv_def log_coherent_def log_visible_def log_history_def drop_map)
    qed
  qed
  then show "log_inv A pend l" "log_coherent A pend l" "log_visible A l" "stream l = []"
      "pending_inserts l = 0"
      "stream_pos l = length (available_prefix (map loaded (al_iter A (store l))))"
    by auto
qed

section \<open>Steps and reachable states\<close>

text \<open>
  One operation of a log, whatever its outcome. Reverting is a step only while the window holds
  every pending entry, and committing while every position fits \<^verbatim>\<open>usize\<close>; the code checks
  neither.
\<close>

inductive log_step ::
    "('ld, 's, 'a option, 'e) append_log_ops \<Rightarrow> ('s, 'a) ledger_log \<Rightarrow> ('s, 'a) ledger_log \<Rightarrow> bool"
  for A where
  store: "store_resource A r l = (res, l') \<Longrightarrow> log_step A l l'"
| insert: "log_insert A i x l = (res, l') \<Longrightarrow> log_step A l l'"
| commit: "log_fits A l \<Longrightarrow> commit_version A l = (res, l') \<Longrightarrow> log_step A l l'"
| skip: "skip_version A l = (res, l') \<Longrightarrow> log_step A l l'"
| revert: "pending_inserts l \<le> length (cache l) \<Longrightarrow> revert_version A l = (res, l') \<Longrightarrow>
    log_step A l l'"

inductive log_reachable ::
    "('ld, 's, 'a option, 'e) append_log_ops \<Rightarrow> ('s, 'a) ledger_log \<Rightarrow> bool" for A where
  init: "log_start A l \<Longrightarrow> log_reachable A l"
| next_step: "log_reachable A l \<Longrightarrow> log_step A l l' \<Longrightarrow> log_reachable A l'"

lemma log_step_inv:
  assumes laws: "append_log_laws A pend" and step: "log_step A l l'" and inv: "log_inv A pend l"
  shows "log_inv A pend l'"
  using step
proof cases
  case (store r res)
  then show ?thesis using store_resource_inv [OF laws inv] by blast
next
  case (insert i x res)
  then show ?thesis using log_insert_inv [OF laws inv] by blast
next
  case (commit res)
  then show ?thesis using commit_version_inv [OF laws inv] by blast
next
  case (skip res)
  then show ?thesis
    by (rule skip_version_same [OF laws]) (use inv in \<open>simp add: log_inv_def\<close>)
next
  case (revert res)
  then show ?thesis using revert_version_inv [OF laws inv] by blast
qed

lemma log_reachable_inv:
  assumes laws: "append_log_laws A pend"
  shows "log_reachable A l \<Longrightarrow> log_inv A pend l"
proof (induction rule: log_reachable.induct)
  case (init l)
  then show ?case by (rule log_start_state(1) [OF laws])
next
  case (next_step l l')
  then show ?case using log_step_inv [OF laws] by blast
qed

text \<open>Append-only runs: no in-place update of an earlier position.\<close>

inductive append_step ::
    "('ld, 's, 'a option, 'e) append_log_ops \<Rightarrow> ('s \<Rightarrow> 'a option list)
      \<Rightarrow> ('s, 'a) ledger_log \<Rightarrow> ('s, 'a) ledger_log \<Rightarrow> bool"
  for A pend where
  store: "store_resource A r l = (res, l') \<Longrightarrow> append_step A pend l l'"
| insert: "length (log_history A pend l) \<le> i \<Longrightarrow> log_insert A i x l = (res, l') \<Longrightarrow>
    append_step A pend l l'"
| commit: "log_fits A l \<Longrightarrow> commit_version A l = (res, l') \<Longrightarrow> append_step A pend l l'"
| skip: "skip_version A l = (res, l') \<Longrightarrow> append_step A pend l l'"
| revert: "pending_inserts l \<le> length (cache l) \<Longrightarrow> revert_version A l = (res, l') \<Longrightarrow>
    append_step A pend l l'"

lemma append_step_log_step: "append_step A pend l l' \<Longrightarrow> log_step A l l'"
  by (auto elim!: append_step.cases intro: log_step.intros)

lemma append_step_coherent:
  assumes laws: "append_log_laws A pend" and step: "append_step A pend l l'"
    and inv: "log_inv A pend l" and coh: "log_coherent A pend l"
  shows "log_coherent A pend l'"
  using step
proof cases
  case (store r res)
  then show ?thesis using store_resource_coherent [OF laws inv coh] by blast
next
  case (insert i x res)
  then show ?thesis using log_insert_coherent [OF laws inv coh] by blast
next
  case (commit res)
  then show ?thesis using commit_version_coherent [OF laws inv _ coh] by blast
next
  case (skip res)
  then show ?thesis
    by (rule skip_version_same [OF laws])
      (use coh in \<open>simp add: log_coherent_def log_history_def\<close>)
next
  case (revert res)
  then show ?thesis using revert_version_coherent [OF laws inv _ coh] by blast
qed

text \<open>
  The stream of an append-only run that started with \<open>p\<close> objects available: the objects of the
  longest available prefix of the committed entries, from \<open>p\<close> on; the stream position is the
  length of that prefix.
\<close>

definition available :: "('ld, 's, 'a option, 'e) append_log_ops \<Rightarrow> ('s, 'a) ledger_log \<Rightarrow> 'a list"
  where "available A l = available_prefix (map loaded (al_iter A (store l)))"

definition log_streamed ::
    "('ld, 's, 'a option, 'e) append_log_ops \<Rightarrow> nat \<Rightarrow> ('s, 'a) ledger_log \<Rightarrow> bool" where
  "log_streamed A p l \<longleftrightarrow>
     stream_pos l = length (available A l) \<and> p \<le> length (available A l) \<and>
     stream l = drop p (available A l)"

lemma available_prefix_extend:
  assumes "take (length objs) xs = map Some objs" and "length objs \<le> length xs"
  shows "available_prefix xs = objs @ available_prefix (drop (length objs) xs)"
  using assms by (metis append_take_drop_id available_prefix_append_Some)

lemma append_step_streamed:
  assumes laws: "append_log_laws A pend" and step: "append_step A pend l l'"
    and inv: "log_inv A pend l" and coh: "log_coherent A pend l" and str: "log_streamed A p l"
  shows "log_streamed A p l'"
proof -
  have same: "log_streamed A p l'"
    if "al_iter A (store l') = al_iter A (store l)" "stream l' = stream l"
      "stream_pos l' = stream_pos l"
    using that str by (simp add: log_streamed_def available_def)
  show ?thesis
    using step
  proof cases
    case (store r res)
    then show ?thesis
      using same store_resource_entries [OF laws] store_resource_frame by metis
  next
    case (insert i x res)
    then show ?thesis using same log_insert_entries [OF laws inv] log_insert_frame [OF inv] by metis
  next
    case (skip res)
    then show ?thesis by (rule skip_version_same [OF laws]) (use same in simp)
  next
    case (revert res)
    from laws revert(2) show ?thesis by (cases rule: revert_version_cases) (use same in simp_all)
  next
    case (commit res)
    from laws inv commit show ?thesis
    proof (cases rule: commit_version_cases)
      case (failed e s)
      then show ?thesis using same by simp
    next
      case (succeeded s objs)
      have C: "log_contents A l' = log_history A pend l'"
        using log_contents_history [OF succeeded(6)]
          commit_version_coherent [OF laws inv commit(1) coh commit(2)] .
      have H: "log_history A pend l' = map loaded (al_iter A (store l'))"
        using succeeded(2,4) by (simp add: log_history_def)
      have "take (length (available A l)) (map loaded (al_iter A (store l')))
          = take (length (available A l)) (map loaded (al_iter A (store l)))"
        using succeeded(2,3) length_available_prefix [of "map loaded (al_iter A (store l))"]
        by (simp add: available_def)
      also have "\<dots> = map Some (available A l)"
        by (simp add: available_def map_Some_available_prefix)
      finally have "available A l' = available A l
          @ available_prefix (drop (length (available A l)) (map loaded (al_iter A (store l'))))"
        unfolding available_def [of A l']
        using available_prefix_extend length_available_prefix [of "map loaded (al_iter A (store l))"]
          succeeded(2,3)
        by (fastforce simp: available_def)
      then have "available A l' = available A l @ objs"
        using succeeded(5) str by (simp add: C H log_streamed_def)
      then show ?thesis using str succeeded(2) by (simp add: log_streamed_def)
    qed
  qed
qed

text \<open>Everything an append-only run keeps, bundled, and its closure under many steps.\<close>

definition log_running ::
    "('ld, 's, 'a option, 'e) append_log_ops \<Rightarrow> ('s \<Rightarrow> 'a option list) \<Rightarrow> nat
      \<Rightarrow> ('s, 'a) ledger_log \<Rightarrow> bool" where
  "log_running A pend p l \<longleftrightarrow> log_inv A pend l \<and> log_coherent A pend l \<and> log_streamed A p l"

lemma log_start_running:
  assumes "append_log_laws A pend" and "log_start A l"
  shows "log_running A pend (length (available A l)) l"
  using log_start_state [OF assms] by (simp add: log_running_def log_streamed_def available_def)

lemma append_run_running:
  assumes laws: "append_log_laws A pend"
  shows "(append_step A pend)\<^sup>*\<^sup>* l l' \<Longrightarrow> log_running A pend p l \<Longrightarrow> log_running A pend p l'"
proof (induction rule: rtranclp_induct)
  case base
  then show ?case .
next
  case (step l' l'')
  then show ?case
    unfolding log_running_def
    using log_step_inv [OF laws append_step_log_step] append_step_coherent [OF laws]
      append_step_streamed [OF laws]
    by blast
qed

text \<open>Committed entries only grow along a run, so the available prefix does too.\<close>

lemma append_step_entries:
  assumes laws: "append_log_laws A pend" and step: "append_step A pend l l'"
    and inv: "log_inv A pend l"
  shows "\<exists>more. al_iter A (store l') = al_iter A (store l) @ more"
  using step
proof cases
  case (store r res)
  then show ?thesis using store_resource_entries [OF laws] by (metis append_Nil2)
next
  case (insert i x res)
  then show ?thesis using log_insert_entries [OF laws inv] by (metis append_Nil2)
next
  case (skip res)
  then show ?thesis by (rule skip_version_same [OF laws]) simp
next
  case (revert res)
  from laws revert(2) show ?thesis by (cases rule: revert_version_cases) simp_all
next
  case (commit res)
  from laws inv commit show ?thesis by (cases rule: commit_version_cases) simp_all
qed

lemma available_prefix_mono: "\<exists>more. available_prefix (xs @ ys) = available_prefix xs @ more"
  by (induction xs rule: available_prefix.induct) auto

lemma append_run_available:
  assumes laws: "append_log_laws A pend"
  shows "(append_step A pend)\<^sup>*\<^sup>* l l' \<Longrightarrow> log_running A pend p l \<Longrightarrow>
    \<exists>more. available A l' = available A l @ more"
proof (induction rule: rtranclp_induct)
  case base
  then show ?case by simp
next
  case (step l' l'')
  from append_run_running [OF laws step(1,4)] have "log_inv A pend l'"
    by (simp add: log_running_def)
  then obtain more where "al_iter A (store l'') = al_iter A (store l') @ more"
    using append_step_entries [OF laws step(2)] by blast
  then obtain m where "available A l'' = available A l' @ m"
    using available_prefix_mono [of "map loaded (al_iter A (store l'))" "map loaded more"]
    by (auto simp: available_def)
  with step show ?case by auto
qed

section \<open>Subscribers\<close>

lemma those_map_Some [simp]: "those (map Some xs) = Some xs"
  by (induction xs) auto

lemma log_running_prefix:
  assumes "log_running A pend p l" and "log_visible A l"
  shows "take (stream_pos l) (log_contents A l) = map Some (available A l)"
proof -
  have "stream_pos l = length (available A l)" and "log_coherent A pend l"
    using assms by (simp_all add: log_running_def log_streamed_def)
  then show ?thesis
    using length_available_prefix [of "map loaded (al_iter A (store l))"]
    by (simp add: log_contents_history [OF assms(2)] log_history_def available_def
        map_Some_available_prefix)
qed

text \<open>A subscription always succeeds in a run, with the available objects from its position.\<close>

lemma subscribe_running:
  assumes run: "log_running A pend p l" and vis: "log_visible A l" and fits: "log_fits A l"
    and start: "k < 2 ^ 64"
  shows "subscribe A k l =
    Some \<lparr>sub_prefix = drop k (available A l), sub_skip = k - length (available A l),
          sub_handle = length (stream l)\<rparr>"
proof -
  have pos: "stream_pos l = length (available A l)"
    using run by (simp add: log_running_def log_streamed_def)
  have "stream_pos l \<le> cache_start l + length (cache l)"
    using run by (simp add: log_running_def log_inv_def)
  then have "0 + k + (stream_pos l - k) < 2 ^ 64"
    using fits start by (simp add: log_fits_def)
  then have "take_available (stream_pos l - k) k (log_iter A l)
      = those (take (stream_pos l - k) (drop k (log_contents A l)))"
    using take_available_at [OF vis it_at_start, of k "stream_pos l - k"] by simp
  also have "take (stream_pos l - k) (drop k (log_contents A l))
      = map Some (drop k (available A l))"
    using log_running_prefix [OF run vis] by (metis drop_map take_drop drop_take)
  finally show ?thesis by (simp add: subscribe_def pos)
qed

lemma subscription_complete:
  assumes laws: "append_log_laws A pend" and run: "log_running A pend p l"
    and vis: "log_visible A l" and fits: "log_fits A l" and start: "k < 2 ^ 64"
    and sub: "subscribe A k l = Some sub" and later: "(append_step A pend)\<^sup>*\<^sup>* l l'"
  shows "subscription_items sub (drop (sub_handle sub) (stream l')) = drop k (available A l')"
proof -
  from append_run_available [OF laws later run] obtain more where
      more: "available A l' = available A l @ more" by blast
  have p: "p \<le> length (available A l)" and str: "stream l = drop p (available A l)"
    using run by (simp_all add: log_running_def log_streamed_def)
  have "stream l' = drop p (available A l')"
    using append_run_running [OF laws later run] by (simp add: log_running_def log_streamed_def)
  then have "drop (length (stream l)) (stream l') = more"
    using more p str by simp
  then show ?thesis
    using sub more by (auto simp: subscribe_running [OF run vis fits start] subscription_items_def)
qed

section \<open>The contracts the file system data source relies on\<close>

text \<open>
  A log of optional objects at consecutive positions: what a read returns after an insertion at
  or past the end. \<open>room\<close> limits how much may be pending.
\<close>

locale positional_log =
  fixes items :: "'l \<Rightarrow> 'a option list"
    and put :: "nat \<Rightarrow> 'a \<Rightarrow> 'l \<Rightarrow> ('e failure + unit) \<times> 'l"
    and get :: "'l \<Rightarrow> nat \<Rightarrow> 'a option option"
    and len :: "'l \<Rightarrow> nat"
    and ok :: "'l \<Rightarrow> bool"
    and room :: "'l \<Rightarrow> nat \<Rightarrow> bool"
  assumes get_items: "ok l \<Longrightarrow> n < 2 ^ 64 \<Longrightarrow> get l n = list_get (items l) n"
    and len_items: "ok l \<Longrightarrow> len l = length (items l)"
    and put_items: "ok l \<Longrightarrow> length (items l) \<le> i \<Longrightarrow> room l i \<Longrightarrow> put i x l = (Inr u, l') \<Longrightarrow>
        items l' = items l @ replicate (i - length (items l)) None @ [Some x]"
    and put_ok: "ok l \<Longrightarrow> length (items l) \<le> i \<Longrightarrow> room l i \<Longrightarrow> put i x l = (Inr u, l') \<Longrightarrow> ok l'"
begin

lemma len_put:
  assumes "ok l" "length (items l) \<le> i" "room l i" "put i x l = (Inr u, l')"
  shows "len l' = Suc i"
  using assms put_items [OF assms] put_ok [OF assms] by (simp add: len_items)

lemma get_put:
  assumes "ok l" "length (items l) \<le> i" "room l i" "put i x l = (Inr u, l')" "n < 2 ^ 64"
  shows "get l' n =
    (if n = i then Some (Some x) else if n < length (items l) then get l n
     else if n < i then Some None else None)"
proof -
  have "get l' n = list_get (items l') n" using put_ok [OF assms(1-4)] assms(5) by (rule get_items)
  then show ?thesis
    using assms get_items [OF assms(1,5)] put_items [OF assms(1-4)]
    by (auto simp: list_get_def nth_append)
qed

lemma get_put_same:
  assumes "ok l" "length (items l) \<le> i" "room l i" "put i x l = (Inr u, l')" "i < 2 ^ 64"
  shows "get l' i = Some (Some x)"
  using get_put [OF assms(1-4) assms(5)] by simp

end

text \<open>Versions: \<open>durable\<close> is what reopening the log would show.\<close>

locale versioned_log = positional_log items put get len ok room
  for items :: "'l \<Rightarrow> 'a option list"
    and put :: "nat \<Rightarrow> 'a \<Rightarrow> 'l \<Rightarrow> ('e failure + unit) \<times> 'l"
    and get :: "'l \<Rightarrow> nat \<Rightarrow> 'a option option"
    and len :: "'l \<Rightarrow> nat" and ok :: "'l \<Rightarrow> bool" and room :: "'l \<Rightarrow> nat \<Rightarrow> bool" +
  fixes commit :: "'l \<Rightarrow> ('e failure + unit) \<times> 'l"
    and revert :: "'l \<Rightarrow> ('e failure + unit) \<times> 'l"
    and durable :: "'l \<Rightarrow> 'a option list"
    and fits :: "'l \<Rightarrow> bool"
  assumes put_durable: "ok l \<Longrightarrow> put i x l = (res, l') \<Longrightarrow> durable l' = durable l"
    and commit_items: "ok l \<Longrightarrow> fits l \<Longrightarrow> commit l = (Inr u, l') \<Longrightarrow>
        items l' = items l \<and> durable l' = items l \<and> ok l'"
    and commit_failed: "ok l \<Longrightarrow> fits l \<Longrightarrow> commit l = (Inl e, l') \<Longrightarrow>
        items l' = items l \<and> durable l' = durable l \<and> ok l'"
    and revert_items: "ok l \<Longrightarrow> revert l = (Inr u, l') \<Longrightarrow>
        items l' = durable l \<and> durable l' = durable l \<and> ok l'"
begin

lemma put_revert:
  assumes "ok l" "length (items l) \<le> i" "room l i" "put i x l = (Inr u, l1)"
    and "revert l1 = (Inr v, l2)"
  shows "items l2 = durable l"
  using assms put_ok put_durable revert_items by metis

lemma put_commit_revert:
  assumes "ok l" "length (items l) \<le> i" "room l i" "put i x l = (Inr u, l1)" "fits l1"
    and "commit l1 = (Inr v, l2)" "revert l2 = (Inr w, l3)"
  shows "items l3 = items l @ replicate (i - length (items l)) None @ [Some x]"
  using assms put_items put_ok commit_items revert_items by metis

end

text \<open>The model of the log provides both.\<close>

definition log_ok ::
    "('ld, 's, 'a option, 'e) append_log_ops \<Rightarrow> ('s \<Rightarrow> 'a option list) \<Rightarrow> ('s, 'a) ledger_log
      \<Rightarrow> bool" where
  "log_ok A pend l \<longleftrightarrow>
     append_log_laws A pend \<and> log_inv A pend l \<and> log_coherent A pend l \<and> log_visible A l"

definition log_room :: "('s, 'a) ledger_log \<Rightarrow> nat \<Rightarrow> nat \<Rightarrow> bool" where
  "log_room l len i \<longleftrightarrow> pending_inserts l + (i - len) < cache_size l"

lemma log_ok_store:
  assumes "al_iter A s = al_iter A (store l)" and "pend s = pend (store l)"
  shows "log_ok A pend (l\<lparr>store := s\<rparr>) = log_ok A pend l"
    and "log_contents A (l\<lparr>store := s\<rparr>) = log_contents A l"
  using assms
  by (simp_all add: log_ok_def log_inv_def log_coherent_def log_visible_def log_history_def
      log_contents_def)

lemma log_ok_contents:
  "log_ok A pend l \<Longrightarrow> log_contents A l = log_history A pend l"
  by (simp add: log_ok_def log_contents_history)

interpretation ledger: positional_log "log_contents A" "log_insert A"
  "\<lambda>l n. fst (iter_nth n (log_iter A l))" "log_len A" "log_ok A pend"
  "\<lambda>l i. log_room l (log_len A l) i"
  for A :: "('ld, 's, 'a option, 'e) append_log_ops" and pend
proof unfold_locales
  fix l :: "('s, 'a) ledger_log" and n :: nat
  assume "log_ok A pend l" "n < 2 ^ 64"
  then show "fst (iter_nth n (log_iter A l)) = list_get (log_contents A l) n"
    using iter_nth_result [of A l 0 "log_iter A l" n] by (simp add: log_ok_def)
next
  fix l :: "('s, 'a) ledger_log"
  assume "log_ok A pend l"
  then show "log_len A l = length (log_contents A l)" by (simp add: log_ok_def log_len_contents)
next
  fix l l' :: "('s, 'a) ledger_log" and i x u
  assume ok: "log_ok A pend l" and app: "length (log_contents A l) \<le> i"
    and room: "log_room l (log_len A l) i" and run: "log_insert A i x l = (Inr u, l')"
  have laws: "append_log_laws A pend" and inv: "log_inv A pend l"
    and coh: "log_coherent A pend l" and vis: "log_visible A l"
    using ok by (simp_all add: log_ok_def)
  have C: "log_contents A l = log_history A pend l" by (rule log_ok_contents [OF ok])
  have app': "length (log_history A pend l) \<le> i" using app C by simp
  have room': "pending_inserts l + (i - length (log_history A pend l)) < cache_size l"
    using room C log_len_contents [OF vis] by (simp add: log_room_def)
  have vis': "log_visible A l'" by (rule log_insert_visible [OF laws inv vis app' room' run])
  show ok': "log_ok A pend l'"
    using laws log_insert_inv [OF laws inv run] log_insert_coherent [OF laws inv coh app' run] vis'
    by (simp add: log_ok_def)
  show "log_contents A l' =
      log_contents A l @ replicate (i - length (log_contents A l)) None @ [Some x]"
    using log_insert_history [OF laws inv app' run] C log_ok_contents [OF ok'] by simp
qed

interpretation ledger: versioned_log "log_contents A" "log_insert A"
  "\<lambda>l n. fst (iter_nth n (log_iter A l))" "log_len A" "log_ok A pend"
  "\<lambda>l i. log_room l (log_len A l) i" "commit_version A" "revert_version A"
  "\<lambda>l. map loaded (al_iter A (store l))" "log_fits A"
  for A :: "('ld, 's, 'a option, 'e) append_log_ops" and pend
proof unfold_locales
  fix l l' :: "('s, 'a) ledger_log" and i x res
  assume "log_ok A pend l" "log_insert A i x l = (res, l')"
  then show "map loaded (al_iter A (store l')) = map loaded (al_iter A (store l))"
    using log_insert_entries [of A pend l i x res l'] by (simp add: log_ok_def)
next
  fix l l' :: "('s, 'a) ledger_log" and u :: unit
  assume ok: "log_ok A pend l" and fits: "log_fits A l" and run: "commit_version A l = (Inr u, l')"
  have laws: "append_log_laws A pend" and inv: "log_inv A pend l" and coh: "log_coherent A pend l"
    using ok by (simp_all add: log_ok_def)
  from laws inv fits run
  show "log_contents A l' = log_contents A l \<and>
      map loaded (al_iter A (store l')) = log_contents A l \<and> log_ok A pend l'"
  proof (cases rule: commit_version_cases)
    case (succeeded s objs)
    then have ok': "log_ok A pend l'"
      using laws commit_version_inv [OF laws inv fits run]
        commit_version_coherent [OF laws inv fits coh run] by (simp add: log_ok_def)
    show ?thesis
      using succeeded(2-4) ok' log_ok_contents [OF ok] log_ok_contents [OF ok']
      by (auto simp: log_history_def o_def)
  qed simp
next
  fix l l' :: "('s, 'a) ledger_log" and e
  assume ok: "log_ok A pend l" and fits: "log_fits A l" and run: "commit_version A l = (Inl e, l')"
  have laws: "append_log_laws A pend" and inv: "log_inv A pend l" using ok by (simp_all add: log_ok_def)
  from laws inv fits run
  show "log_contents A l' = log_contents A l \<and>
      map loaded (al_iter A (store l')) = map loaded (al_iter A (store l)) \<and> log_ok A pend l'"
  proof (cases rule: commit_version_cases)
    case (failed e s)
    then show ?thesis using ok log_ok_store [OF failed(3,4)] by simp
  qed simp
next
  fix l l' :: "('s, 'a) ledger_log" and u :: unit
  assume ok: "log_ok A pend l" and run: "revert_version A l = (Inr u, l')"
  have laws: "append_log_laws A pend" and inv: "log_inv A pend l" and coh: "log_coherent A pend l"
    and vis: "log_visible A l"
    using ok by (simp_all add: log_ok_def)
  have win: "pending_inserts l \<le> length (cache l)"
    using log_visible_iff_pending [OF inv] vis by simp
  from laws run
  show "log_contents A l' = map loaded (al_iter A (store l)) \<and>
      map loaded (al_iter A (store l')) = map loaded (al_iter A (store l)) \<and> log_ok A pend l'"
  proof (cases rule: revert_version_cases)
    case (succeeded s)
    then have ok': "log_ok A pend l'"
      using laws revert_version_inv [OF laws inv win run]
        revert_version_coherent [OF laws inv win coh run] vis
      by (simp add: log_ok_def log_visible_def)
    show ?thesis using succeeded ok' log_ok_contents [OF ok'] by (simp add: log_history_def)
  qed simp
qed

section \<open>The window\<close>

lemma log_pending:
  "log_ok A pend l \<Longrightarrow> length (log_contents A l) = length (al_iter A (store l)) + pending_inserts l"
  by (simp add: log_ok_contents) (simp add: log_ok_def log_inv_def)

text \<open>An insertion at or past the end fills the window by what it pads and by itself.\<close>

lemma log_insert_at_end:
  assumes ok: "log_ok A pend l" and app: "log_len A l \<le> i"
    and room: "log_room l (log_len A l) i" and run: "log_insert A i x l = (Inr u, l')"
  shows "log_len A l' = i + 1"
    and "pending_inserts l' = pending_inserts l + (i - log_len A l) + 1"
    and "cache_size l' = cache_size l"
proof -
  have laws: "append_log_laws A pend" and inv: "log_inv A pend l" using ok by (simp_all add: log_ok_def)
  note len = ledger.len_items [OF ok]
  have app': "length (log_contents A l) \<le> i" using app len by simp
  note ok' = ledger.put_ok [OF ok app' room run] and c = ledger.put_items [OF ok app' room run]
  show len': "log_len A l' = i + 1" using ledger.len_items [OF ok'] c app' by simp
  show "cache_size l' = cache_size l" using log_insert_frame [OF inv run] by simp
  have "al_iter A (store l') = al_iter A (store l)" by (rule log_insert_entries [OF laws inv run])
  then show "pending_inserts l' = pending_inserts l + (i - log_len A l) + 1"
    using log_pending [OF ok] log_pending [OF ok'] c len app' by simp
qed

lemma commit_version_size:
  assumes "log_ok A pend l" and "log_fits A l" and "commit_version A l = (res, l')"
  shows "cache_size l' = cache_size l"
proof -
  have "append_log_laws A pend" "log_inv A pend l" using assms(1) by (simp_all add: log_ok_def)
  from this assms(2,3) show ?thesis by (cases rule: commit_version_cases) simp_all
qed

end
