(* ===== verification/LedgerLogProps.thy ===== *)
theory LedgerLogProps
  imports LedgerLogRun
begin

text \<open>
  The properties of the ledger log, over its reachable states, with their witnesses on the
  in-memory append log.
\<close>

section \<open>Concrete logs\<close>

text \<open>A log with a window of two: created, two objects committed, a third one pending.\<close>

definition small_log0 :: "(nat option list \<times> nat option list, nat) ledger_log" where
  "small_log0 = \<lparr>cache_start = 0, cache_size = 2, cache = [], store = ([], []),
     pending_inserts = 0, stream = [], stream_pos = 0\<rparr>"

definition small_log2 :: "(nat option list \<times> nat option list, nat) ledger_log" where
  "small_log2 = \<lparr>cache_start = 0, cache_size = 2, cache = [Some 10, Some 11],
     store = ([], [Some 10, Some 11]), pending_inserts = 2, stream = [], stream_pos = 0\<rparr>"

definition small_log3 :: "(nat option list \<times> nat option list, nat) ledger_log" where
  "small_log3 = \<lparr>cache_start = 0, cache_size = 2, cache = [Some 10, Some 11],
     store = ([Some 10, Some 11], []), pending_inserts = 0, stream = [10, 11], stream_pos = 2\<rparr>"

definition small_log4 :: "(nat option list \<times> nat option list, nat) ledger_log" where
  "small_log4 = \<lparr>cache_start = 1, cache_size = 2, cache = [Some 11, Some 12],
     store = ([Some 10, Some 11], [Some 12]), pending_inserts = 1, stream = [10, 11],
     stream_pos = 2\<rparr>"

definition small_log5 :: "(nat option list \<times> nat option list, nat) ledger_log" where
  "small_log5 = \<lparr>cache_start = 1, cache_size = 2, cache = [Some 11, Some 12],
     store = ([Some 10, Some 11, Some 12], []), pending_inserts = 0, stream = [10, 11, 12],
     stream_pos = 3\<rparr>"

lemmas small_logs = small_log0_def small_log2_def small_log3_def small_log4_def small_log5_def

abbreviation mem_log :: "(nat option list, nat option list \<times> nat option list, nat option, string)
    append_log_ops" where
  "mem_log \<equiv> mem_append_log False"

lemma small_log_start: "log_start mem_log small_log0"
  by (rule log_start.created [where ld = "[]" and f = "''x''" and sz = 2 and ld' = "[]"])
    (simp_all add: log_create_def small_log0_def)

lemma small_log_inserts:
  "log_insert mem_log 0 10 small_log0 = (Inr (), small_log2\<lparr>cache := [Some 10],
     store := ([], [Some 10]), pending_inserts := 1\<rparr>)"
  "log_insert mem_log 1 11 (small_log2\<lparr>cache := [Some 10], store := ([], [Some 10]),
     pending_inserts := 1\<rparr>) = (Inr (), small_log2)"
  "log_insert mem_log 2 12 small_log3 = (Inr (), small_log4)"
  by (simp_all add: log_insert_def store_resource_def small_logs)

lemma small_log_commits:
  "commit_version mem_log small_log2 = (Inr (), small_log3)"
  "commit_version mem_log small_log4 = (Inr (), small_log5)"
  by (simp_all add: commit_version_def small_logs broadcast_loop_more broadcast_loop_stop
      iter_nth_def log_iter_def list_get_def)

lemma small_log_run:
  "(append_step mem_log snd)\<^sup>*\<^sup>* small_log0 small_log3"
  "(append_step mem_log snd)\<^sup>*\<^sup>* small_log3 small_log4"
  "(append_step mem_log snd)\<^sup>*\<^sup>* small_log4 small_log5"
proof -
  have "append_step mem_log snd small_log0
      (small_log2\<lparr>cache := [Some 10], store := ([], [Some 10]), pending_inserts := 1\<rparr>)"
    by (rule append_step.insert [OF _ small_log_inserts(1)]) (simp add: small_logs log_history_def)
  moreover have "append_step mem_log snd
      (small_log2\<lparr>cache := [Some 10], store := ([], [Some 10]), pending_inserts := 1\<rparr>) small_log2"
    by (rule append_step.insert [OF _ small_log_inserts(2)]) (simp add: small_logs log_history_def)
  moreover have "append_step mem_log snd small_log2 small_log3"
    by (rule append_step.commit [OF _ small_log_commits(1)]) (simp add: small_logs log_fits_def)
  ultimately show "(append_step mem_log snd)\<^sup>*\<^sup>* small_log0 small_log3"
    by (meson rtranclp.rtrancl_into_rtrancl rtranclp.rtrancl_refl)
  have "append_step mem_log snd small_log3 small_log4"
    by (rule append_step.insert [OF _ small_log_inserts(3)]) (simp add: small_logs log_history_def)
  then show "(append_step mem_log snd)\<^sup>*\<^sup>* small_log3 small_log4" by (rule r_into_rtranclp)
  have "append_step mem_log snd small_log4 small_log5"
    by (rule append_step.commit [OF _ small_log_commits(2)]) (simp add: small_logs log_fits_def)
  then show "(append_step mem_log snd)\<^sup>*\<^sup>* small_log4 small_log5" by (rule r_into_rtranclp)
qed

lemma small_log_running: "log_running mem_log snd 0 small_log3" "log_running mem_log snd 0 small_log4"
proof -
  have "log_running mem_log snd 0 small_log0"
    using log_start_running [OF mem_append_log_laws small_log_start]
    by (simp add: available_def small_log0_def)
  then show "log_running mem_log snd 0 small_log3"
    by (rule append_run_running [OF mem_append_log_laws small_log_run(1)])
  then show "log_running mem_log snd 0 small_log4"
    by (rule append_run_running [OF mem_append_log_laws small_log_run(2)])
qed

lemma small_log_states:
  "log_visible mem_log small_log3" "log_visible mem_log small_log4"
  "log_fits mem_log small_log3" "log_fits mem_log small_log4"
  by (simp_all add: log_visible_def log_fits_def small_logs)

lemma small_log_ok: "log_ok mem_log snd small_log3" "log_ok mem_log snd small_log4"
  using small_log_running small_log_states by (simp_all add: log_ok_def log_running_def)

lemma small_log_reachable: "log_reachable mem_log small_log0"
  by (rule log_reachable.init [OF small_log_start])

section \<open>Reading\<close>



text \<open>
  Every reachable log, whatever operations ran and failed, in-place updates included, keeps
  its fields consistent: a window within its bound that ends where the log ends, the
  count of pending entries, a stream position within the committed entries.
\<close>

theorem log_reachable_fields:
  assumes "append_log_laws A pend" and "log_reachable A l"
  shows "length (cache l) \<le> cache_size l \<and>
    pending_inserts l = length (pend (store l)) \<and>
    cache_start l + length (cache l) = length (al_iter A (store l)) + pending_inserts l \<and>
    stream_pos l \<le> length (al_iter A (store l))"
  using log_reachable_inv [OF assms] by (simp add: log_inv_def)

theorem log_reachable_fields_witness:
  "length (cache small_log0) \<le> cache_size small_log0"
  using log_reachable_fields [OF mem_append_log_laws small_log_reachable] by simp

section \<open>Inserting\<close>

text \<open>
  Inserting at or past the end appends: afterwards the log is one longer than the index, reads
  back the object at its index, every earlier entry as before, and missing placeholders in
  between. The window must have room for the padding and the object.
\<close>

theorem log_insert_reads:
  assumes "log_ok A pend l" and "log_len A l \<le> index" and "log_room l (log_len A l) index"
    and "log_insert A index obj l = (Inr u, l')" and "n < 2 ^ 64"
  shows "log_len A l' = Suc index \<and>
    fst (iter_nth n (log_iter A l')) =
      (if n = index then Some (Some obj)
       else if n < log_len A l then fst (iter_nth n (log_iter A l))
       else if n < index then Some None else None)"
proof -
  have len: "log_len A l = length (log_contents A l)" by (rule ledger.len_items [OF assms(1)])
  then have app: "length (log_contents A l) \<le> index" using assms(2) by simp
  show ?thesis
    using ledger.len_put [OF assms(1) app assms(3,4)] ledger.get_put [OF assms(1) app assms(3-5)] len
    by simp
qed

theorem log_insert_reads_witness:
  "fst (iter_nth 2 (log_iter mem_log small_log4)) = Some (Some 12)"
  using log_insert_reads [OF small_log_ok(1) _ _ small_log_inserts(3), of 2]
  by (simp add: log_len_eq log_room_def small_log3_def)

text \<open>
  \<^verbatim>\<open>insert\<close> never panics in a reachable log, at any index: the assertion on the target length
  holds and the in-place update stays inside the window. The only errors are those of the store.
\<close>

theorem log_insert_no_panic:
  assumes "append_log_laws A pend" and "log_reachable A l"
    and "log_insert A index obj l = (res, l')"
  shows "res = Inr () \<or> (\<exists>e. res = Inl (Failure e))"
  using log_insert_not_panic [OF log_reachable_inv [OF assms(1,2)]] assms(3) by (cases res) auto

theorem log_insert_no_panic_witness:
  "fst (log_insert mem_log 7 10 small_log0) = Inr () \<or>
   (\<exists>e. fst (log_insert mem_log 7 10 small_log0) = Inl (Failure e))"
  using log_insert_no_panic [OF mem_append_log_laws small_log_reachable prod.collapse [symmetric]] .

text \<open>
  Inserting at an earlier position succeeds without touching the store: the object is read
  back only while its position is in the window, and what a reopened log would show is unchanged.
\<close>

theorem log_insert_earlier:
  assumes "append_log_laws A pend" and "log_reachable A l"
    and "index < length (al_iter A (store l)) + pending_inserts l"
  shows "\<exists>l'. log_insert A index obj l = (Inr (), l') \<and> store l' = store l \<and>
    list_get (cache l') (index - cache_start l)
      = (if cache_start l \<le> index then Some (Some obj)
         else list_get (cache l) (index - cache_start l))"
proof -
  have inv: "log_inv A pend l" by (rule log_reachable_inv [OF assms(1,2)])
  then have "index < length (log_history A pend l)"
    using assms(3) by (simp add: log_inv_def)
  moreover have "cache_start l \<le> index \<Longrightarrow> index - cache_start l < length (cache l)"
    using inv assms(3) by (auto simp: log_inv_def)
  ultimately show ?thesis
    using log_insert_in_place [OF inv, of index obj] by (auto simp: list_get_update)
qed

lemma small_log3_reachable: "log_reachable mem_log small_log3"
proof -
  have "log_reachable mem_log l \<Longrightarrow> (append_step mem_log snd)\<^sup>*\<^sup>* l l' \<Longrightarrow> log_reachable mem_log l'"
    for l l' :: "(nat option list \<times> nat option list, nat) ledger_log"
    by (rotate_tac 1, induction rule: rtranclp_induct)
      (auto intro: log_reachable.next_step append_step_log_step)
  with small_log_reachable small_log_run(1) show ?thesis by blast
qed

theorem log_insert_earlier_witness:
  "\<exists>l'. log_insert mem_log 1 99 small_log3 = (Inr (), l') \<and> store l' = store small_log3"
  using log_insert_earlier [OF mem_append_log_laws small_log3_reachable, of 1 99]
  by (auto simp: small_log3_def)

section \<open>Committing and streaming\<close>



text \<open>
  C7. A subscriber from position \<open>k\<close> misses nothing and sees nothing twice: after any further
  append-only run, the objects it has been given are all the available objects from \<open>k\<close> on, in
  order, provided its handle receives what is broadcast after it was taken. Subscribing itself
  never fails in such a run.
\<close>

theorem subscriber_gapless:
  assumes "append_log_laws A pend" and "log_start A l0" and "(append_step A pend)\<^sup>*\<^sup>* l0 l"
    and "pending_inserts l \<le> length (cache l)" and "log_fits A l" and "k < 2 ^ 64"
    and "(append_step A pend)\<^sup>*\<^sup>* l l'"
  shows "\<exists>sub. subscribe A k l = Some sub \<and>
    subscription_items sub (drop (sub_handle sub) (stream l'))
      = drop k (available_prefix (map loaded (al_iter A (store l'))))"
proof -
  have run: "log_running A pend (length (available A l0)) l"
    by (rule append_run_running [OF assms(1,3) log_start_running [OF assms(1,2)]])
  then have "log_inv A pend l" by (simp add: log_running_def)
  then have vis: "log_visible A l" using log_visible_iff_pending assms(4) by blast
  obtain sub where sub: "subscribe A k l = Some sub"
    using subscribe_running [OF run vis assms(5,6)] by blast
  then show ?thesis
    using subscription_complete [OF assms(1) run vis assms(5,6) sub assms(7)]
    by (simp add: available_def)
qed

theorem subscriber_gapless_witness:
  "\<exists>sub. subscribe mem_log 1 small_log4 = Some sub \<and>
    subscription_items sub (drop (sub_handle sub) (stream small_log5)) = [11, 12]"
  using subscriber_gapless [OF mem_append_log_laws small_log_start
      rtranclp_trans [OF small_log_run(1,2)] _ small_log_states(4) _ small_log_run(3), of 1]
  by (simp add: small_log4_def small_log5_def)

section \<open>Reverting\<close>


lemma small_log4_revert:
  "revert_version mem_log small_log4
     = (Inr (), small_log4\<lparr>cache := [Some 11], store := ([Some 10, Some 11], []),
          pending_inserts := 0\<rparr>)"
  by (simp add: revert_version_def small_log4_def)


text \<open>
  C37. When more objects are pending than the window holds, a successful revert leaves the log
  corrupt: the window stays where the evicted pending entries pushed it, the log reports more
  entries than are stored, and a read at the reported end minus one yields nothing.
\<close>

theorem revert_past_window_corrupts:
  assumes "append_log_laws A pend" and "log_reachable A l"
    and "length (cache l) < pending_inserts l" and "revert_version A l = (Inr u, l')"
    and "log_fits A l"
  shows "length (al_iter A (store l')) < log_len A l' \<and>
    fst (iter_nth (log_len A l' - 1) (log_iter A l')) = None"
proof -
  have inv: "log_inv A pend l" by (rule log_reachable_inv [OF assms(1,2)])
  from assms(1,4) obtain s where
      l': "l' = l\<lparr>store := s, cache := take (length (cache l) - pending_inserts l) (cache l),
              pending_inserts := 0\<rparr>" and s: "al_iter A s = al_iter A (store l)"
    by (cases rule: revert_version_cases) auto
  have start: "length (al_iter A (store l)) < cache_start l"
    using inv assms(3) by (auto simp: log_inv_def)
  have len: "log_len A l' = cache_start l" using l' assms(3) by (simp add: log_len_eq)
  have "wrap64 (cache_start l - 1) = cache_start l - 1"
    using assms(5) by (simp add: log_fits_def)
  then have "fst (iter_nth (log_len A l' - 1) (log_iter A l')) = None"
    using start l' s len by (auto simp: iter_nth_def log_iter_def list_get_def Let_def)
  with start l' s len show ?thesis by simp
qed

text \<open>A log with a window of one and two pending objects.\<close>

definition tight_log :: "(nat option list \<times> nat option list, nat) ledger_log" where
  "tight_log = \<lparr>cache_start = 1, cache_size = 1, cache = [Some 11],
     store = ([], [Some 10, Some 11]), pending_inserts = 2, stream = [], stream_pos = 0\<rparr>"

lemma tight_log_reachable: "log_reachable mem_log tight_log"
proof -
  let ?l0 = "small_log0\<lparr>cache_size := 1\<rparr>"
  let ?l1 = "?l0\<lparr>cache := [Some 10], store := ([], [Some 10]), pending_inserts := 1\<rparr>"
  have "log_start mem_log ?l0"
    by (rule log_start.created [where ld = "[]" and f = "''x''" and sz = 1 and ld' = "[]"])
      (simp_all add: log_create_def small_log0_def)
  moreover have "log_insert mem_log 0 10 ?l0 = (Inr (), ?l1)"
    "log_insert mem_log 1 11 ?l1 = (Inr (), tight_log)"
    by (simp_all add: log_insert_def store_resource_def small_log0_def tight_log_def)
  ultimately show ?thesis
    by (meson log_reachable.init log_reachable.next_step log_step.insert)
qed

theorem revert_past_window_corrupts_witness:
  "\<exists>l'. revert_version mem_log tight_log = (Inr (), l') \<and>
    length (al_iter mem_log (store l')) < log_len mem_log l'"
proof -
  have run: "revert_version mem_log tight_log
      = (Inr (), tight_log\<lparr>store := ([], []), cache := [], pending_inserts := 0\<rparr>)"
    by (simp add: revert_version_def tight_log_def numeral_2_eq_2)
  from revert_past_window_corrupts [OF mem_append_log_laws tight_log_reachable _ run] run
  show ?thesis by (auto simp: tight_log_def log_fits_def)
qed

end
