(* ===== verification/HashIndex.thy ===== *)
theory HashIndex
  imports Prelude "HOL-Library.Product_Lexorder"
begin

text \<open>
  The in-memory indices of \<^verbatim>\<open>src/data_source/fs.rs\<close>: \<^verbatim>\<open>update_index_by_hash\<close>, which keeps the
  earliest position of every hash, and the per-proposer list of heights. What an index of
  earliest positions promises is the locale \<open>first_wins\<close>.
\<close>

section \<open>The operations\<close>

text \<open>A hash map is a partial map; \<^verbatim>\<open>Entry::Occupied\<close> and \<^verbatim>\<open>Entry::Vacant\<close> are its two cases.\<close>

definition update_index_by_hash :: "('h \<rightharpoonup> 'p::linorder) \<Rightarrow> 'h \<Rightarrow> 'p \<Rightarrow> ('h \<rightharpoonup> 'p)" where
  "update_index_by_hash index hash pos =
     (case index hash of
        Some e \<Rightarrow> (if pos < e then index(hash \<mapsto> pos) else index)
      | None \<Rightarrow> index(hash \<mapsto> pos))"

text \<open>\<^verbatim>\<open>index.entry(proposer).or_default().push(height)\<close>.\<close>

definition push_proposal :: "('k \<rightharpoonup> 'a list) \<Rightarrow> 'k \<Rightarrow> 'a \<Rightarrow> ('k \<rightharpoonup> 'a list)" where
  "push_proposal index k x =
     index(k \<mapsto> (case index k of None \<Rightarrow> [] | Some xs \<Rightarrow> xs) @ [x])"

section \<open>An index of earliest positions\<close>

locale first_wins =
  fixes upd :: "'k \<Rightarrow> 'p::linorder \<Rightarrow> 'm \<Rightarrow> 'm"
    and lookup :: "'m \<Rightarrow> 'k \<Rightarrow> 'p option"
  assumes lookup_same:
      "lookup (upd k p m) k = Some (case lookup m k of None \<Rightarrow> p | Some q \<Rightarrow> min p q)"
    and lookup_other: "k' \<noteq> k \<Longrightarrow> lookup (upd k p m) k' = lookup m k'"
begin

text \<open>
  After any sequence of updates the index holds the least position recorded for the hash, old
  entry included.
\<close>

lemma lookup_fold:
  "lookup (fold (\<lambda>(k, p). upd k p) xs m) k = Some p \<longleftrightarrow>
     (lookup m k = Some p \<or> (k, p) \<in> set xs) \<and>
     (\<forall>q. lookup m k = Some q \<or> (k, q) \<in> set xs \<longrightarrow> p \<le> q)"
proof (induction xs arbitrary: m)
  case Nil
  then show ?case by auto
next
  case (Cons x xs)
  obtain k' p' where x: "x = (k', p')" by fastforce
  show ?case
  proof (cases "k' = k")
    case True
    show ?thesis
    proof (cases "lookup m k")
      case None
      then show ?thesis
        unfolding x using True Cons.IH [of "upd k' p' m"] lookup_same [of k p' m] by auto
    next
      case (Some e)
      then have new: "lookup (upd k' p' m) k = Some (min p' e)"
        using True lookup_same [of k p' m] by simp
      show ?thesis
      proof (cases "p' \<le> e")
        case le: True
        have "p \<le> p' \<Longrightarrow> p \<le> e" using le by (rule order_trans [rotated])
        then show ?thesis
          unfolding x using True Some new le Cons.IH [of "upd k' p' m"]
          by (auto simp: min_def)
      next
        case gt: False
        have "p \<le> e \<Longrightarrow> p \<le> p'" using gt by simp
        then show ?thesis
          unfolding x using True Some new gt Cons.IH [of "upd k' p' m"]
          by (auto simp: min_def)
      qed
    qed
  next
    case False
    then show ?thesis
      unfolding x using Cons.IH [of "upd k' p' m"] lookup_other [of k k' p' m] by auto
  qed
qed

lemma lookup_fold_None:
  "lookup (fold (\<lambda>(k, p). upd k p) xs m) k = None \<longleftrightarrow> lookup m k = None \<and> k \<notin> fst ` set xs"
proof (induction xs arbitrary: m)
  case Nil
  then show ?case by simp
next
  case (Cons x xs)
  obtain k' p' where x: "x = (k', p')" by fastforce
  show ?case
    unfolding x using Cons.IH [of "upd k' p' m"] lookup_same [of k' p' m]
      lookup_other [of k k' p' m]
    by (cases "k' = k") auto
qed

text \<open>The order in which positions are recorded does not matter.\<close>

lemma fold_order:
  assumes "set xs = set ys"
  shows "lookup (fold (\<lambda>(k, p). upd k p) xs m) k = lookup (fold (\<lambda>(k, p). upd k p) ys m) k"
proof -
  have "lookup (fold (\<lambda>(k, p). upd k p) xs m) k = Some p \<longleftrightarrow>
      lookup (fold (\<lambda>(k, p). upd k p) ys m) k = Some p" for p
    using assms by (simp add: lookup_fold)
  then show ?thesis by (metis option.exhaust)
qed

end

interpretation hash_index: first_wins
  "\<lambda>k p m. update_index_by_hash m k p" "\<lambda>m k. m k"
proof unfold_locales
  fix k :: 'k and p :: "'p::linorder" and m
  show "update_index_by_hash m k p k = Some (case m k of None \<Rightarrow> p | Some q \<Rightarrow> min p q)"
    by (auto simp: update_index_by_hash_def min_def split: option.splits)
next
  fix k k' :: 'k and p :: "'p::linorder" and m
  assume "k' \<noteq> k"
  then show "update_index_by_hash m k p k' = m k'"
    by (auto simp: update_index_by_hash_def split: option.splits)
qed

lemma update_index_by_hash_apply:
  "update_index_by_hash m k p k' =
     (if k' = k then Some (case m k of None \<Rightarrow> p | Some q \<Rightarrow> min p q) else m k')"
  by (auto simp: update_index_by_hash_def min_def split: option.splits)

section \<open>Per-proposer lists\<close>

text \<open>Folding \<open>push_proposal\<close> groups the values by key and keeps their order.\<close>

definition proposals_of :: "('k \<rightharpoonup> 'a list) \<Rightarrow> 'k \<Rightarrow> 'a list" where
  "proposals_of index k = (case index k of None \<Rightarrow> [] | Some xs \<Rightarrow> xs)"

lemma proposals_of_push [simp]:
  "proposals_of (push_proposal index k x) k' =
     proposals_of index k' @ (if k' = k then [x] else [])"
  by (simp add: proposals_of_def push_proposal_def)

lemma proposals_of_fold:
  "proposals_of (fold (\<lambda>(k, x) m. push_proposal m k x) xs m) k =
     proposals_of m k @ map snd (filter (\<lambda>(k', x). k' = k) xs)"
proof (induction xs arbitrary: m)
  case Nil
  then show ?case by simp
next
  case (Cons kx xs)
  then show ?case by (cases kx) auto
qed

end
