(* ===== verification/QueryData.thy ===== *)
theory QueryData
  imports Prelude
begin

text \<open>
  The data the query service stores and serves: \<^verbatim>\<open>src/availability/query_data.rs\<close> (the provided
  methods of \<^verbatim>\<open>QueryablePayload\<close>, and the leaf, block and transaction records),
  \<^verbatim>\<open>ResourceId\<close> of \<^verbatim>\<open>src/availability/data_source.rs\<close> with its derived order, and
  \<^verbatim>\<open>src/resolvable.rs\<close>. Leaves, certificates, headers and payloads are types of HotShot: their
  operations are the record \<open>node_types\<close>, a parameter of the definitions.
\<close>

section \<open>HotShot's types\<close>

text \<open>
  The required methods of \<^verbatim>\<open>QueryablePayload\<close>, \<^verbatim>\<open>BlockPayload::encode\<close> (\<open>None\<close> when it fails)
  and the commitment of a transaction. All commitments share the type \<open>'h\<close>.
\<close>

record ('pl, 'tx, 'ix, 'pf, 'h) payload_ops =
  pl_encode :: "'pl \<Rightarrow> nat list option"
  pl_len :: "'pl \<Rightarrow> nat"
  pl_iter :: "'pl \<Rightarrow> 'ix list"
  pl_transaction_with_proof :: "'pl \<Rightarrow> 'ix \<Rightarrow> ('tx \<times> 'pf) option"
  tx_commit :: "'tx \<Rightarrow> 'h"

record ('leaf, 'qc, 'hdr, 'pl, 'tx, 'ix, 'pf, 'h, 'pk) node_types =
    "('pl, 'tx, 'ix, 'pf, 'h) payload_ops" +
  leaf_commit :: "'leaf \<Rightarrow> 'h"
  leaf_block_header :: "'leaf \<Rightarrow> 'hdr"
  leaf_block_payload :: "'leaf \<Rightarrow> 'pl option"
  leaf_justify_qc :: "'leaf \<Rightarrow> 'qc"
  leaf_proposer_id :: "'leaf \<Rightarrow> 'pk"
  leaf_genesis :: 'leaf
  qc_leaf_commit :: "'qc \<Rightarrow> 'h"
  qc_genesis :: 'qc
  header_block_number :: "'hdr \<Rightarrow> 64 word"
  header_commit :: "'hdr \<Rightarrow> 'h"
  header_payload_commitment :: "'hdr \<Rightarrow> 'h"
  header_genesis :: "'hdr \<times> 'pl"
  vid_commitment :: "nat list \<Rightarrow> 'h"

section \<open>Provided methods of a queryable payload\<close>

definition payload_is_empty where
  "payload_is_empty Q p \<longleftrightarrow> pl_len Q p = 0"

definition payload_transaction where
  "payload_transaction Q p ix = map_option fst (pl_transaction_with_proof Q p ix)"

definition payload_proof where
  "payload_proof Q p ix = map_option snd (pl_transaction_with_proof Q p ix)"

text \<open>\<^verbatim>\<open>enumerate\<close>, as the list of what each call of the lazy iterator returns or panics with.\<close>

definition payload_enumerate ::
    "('pl, 'tx, 'ix, 'pf, 'h, 'z) payload_ops_scheme \<Rightarrow> 'pl \<Rightarrow> ('e failure + 'ix \<times> 'tx) list" where
  "payload_enumerate Q p =
     map (\<lambda>ix. case payload_transaction Q p ix of
                 Some tx \<Rightarrow> Inr (ix, tx)
               | None \<Rightarrow> Inl (Panic ''called Option::unwrap() on a None value''))
       (pl_iter Q p)"

definition payload_nth where
  "payload_nth Q p n = list_get (pl_iter Q p) n"

definition nth_transaction where
  "nth_transaction Q p n = Option.bind (payload_nth Q p n) (payload_transaction Q p)"

definition nth_transaction_with_proof where
  "nth_transaction_with_proof Q p n =
     Option.bind (payload_nth Q p n) (pl_transaction_with_proof Q p)"

definition by_hash where
  "by_hash Q p hash =
     List.find (\<lambda>i. case payload_transaction Q p i of
                      Some tx \<Rightarrow> tx_commit Q tx = hash
                    | None \<Rightarrow> False)
       (pl_iter Q p)"

definition transaction_by_hash where
  "transaction_by_hash Q p hash = Option.bind (by_hash Q p hash) (payload_transaction Q p)"

definition transaction_by_hash_with_proof where
  "transaction_by_hash_with_proof Q p hash =
     Option.bind (by_hash Q p hash) (pl_transaction_with_proof Q p)"

section \<open>Leaves, blocks and transactions\<close>

record ('leaf, 'qc) leaf_query_data =
  lq_leaf :: 'leaf
  lq_qc :: 'qc

datatype 'h inconsistent_leaf_error =
  InconsistentLeafError (inconsistent_leaf: 'h) (inconsistent_qc_leaf: 'h)

definition leaf_query_data_new where
  "leaf_query_data_new N leaf qc =
     (if qc_leaf_commit N qc \<noteq> leaf_commit N leaf
      then Inl (InconsistentLeafError (leaf_commit N leaf) (qc_leaf_commit N qc))
      else Inr \<lparr>lq_leaf = leaf, lq_qc = qc\<rparr>)"

definition leaf_query_data_genesis where
  "leaf_query_data_genesis N = \<lparr>lq_leaf = leaf_genesis N, lq_qc = qc_genesis N\<rparr>"

definition leaf_height where
  "leaf_height N l = header_block_number N (leaf_block_header N (lq_leaf l))"

definition leaf_hash where
  "leaf_hash N l = leaf_commit N (lq_leaf l)"

definition leaf_block_hash where
  "leaf_block_hash N l = header_commit N (leaf_block_header N (lq_leaf l))"

definition leaf_proposer where
  "leaf_proposer N l = leaf_proposer_id N (lq_leaf l)"

record ('hdr, 'pl, 'h) block_query_data =
  bq_header :: 'hdr
  bq_payload :: 'pl
  bq_hash :: 'h
  bq_size :: "64 word"

text \<open>\<^verbatim>\<open>iter.count() as u64\<close>; a payload that cannot be encoded counts as empty.\<close>

definition payload_size where
  "payload_size Q p =
     (case pl_encode Q p of Some bytes \<Rightarrow> (of_nat (length bytes) :: 64 word) | None \<Rightarrow> 0)"

text \<open>
  \<^verbatim>\<open>BlockQueryData::new\<close>. The consistency check of header and payload is a \<^verbatim>\<open>debug_assert\<close>: it
  runs in debug builds only (\<open>dbg\<close>), where it also unwraps the encoding.
\<close>

definition block_query_data_new where
  "block_query_data_new N dbg leaf qc payload =
     (if qc_leaf_commit N qc \<noteq> leaf_commit N leaf
      then Inl (Failure (InconsistentLeafError (leaf_commit N leaf) (qc_leaf_commit N qc)))
      else if dbg \<and> pl_encode N payload = None
      then Inl (Panic ''called Result::unwrap() on an Err value'')
      else if dbg \<and> header_payload_commitment N (leaf_block_header N leaf)
          \<noteq> vid_commitment N (the (pl_encode N payload))
      then Inl (Panic ''assertion failed'')
      else Inr \<lparr>bq_header = leaf_block_header N leaf, bq_payload = payload,
                bq_hash = header_commit N (leaf_block_header N leaf),
                bq_size = payload_size N payload\<rparr>)"

definition block_query_data_genesis where
  "block_query_data_genesis N =
     (case header_genesis N of (header, payload) \<Rightarrow>
        \<lparr>bq_header = header, bq_payload = payload, bq_hash = header_commit N header,
         bq_size = payload_size N payload\<rparr>)"

definition block_height where
  "block_height N b = header_block_number N (bq_header b)"

definition block_len where
  "block_len Q b = pl_len Q (bq_payload b)"

definition block_is_empty where
  "block_is_empty Q b \<longleftrightarrow> block_len Q b = 0"

record ('tx, 'pf, 'h) transaction_query_data =
  tq_transaction :: 'tx
  tq_block_hash :: 'h
  tq_proof :: 'pf
  tq_height :: "64 word"
  tq_hash :: 'h

definition block_transaction where
  "block_transaction N b i =
     map_option
       (\<lambda>(transaction, proof).
          \<lparr>tq_transaction = transaction, tq_block_hash = bq_hash b, tq_proof = proof,
           tq_height = block_height N b, tq_hash = tx_commit N transaction\<rparr>)
       (pl_transaction_with_proof N (bq_payload b) i)"

section \<open>Identifiers\<close>

datatype 'h resource_id = Number "64 word" | Hash 'h

text \<open>The derived order: numbers before hashes.\<close>

instantiation resource_id :: (linorder) linorder
begin

fun less_eq_resource_id :: "'a resource_id \<Rightarrow> 'a resource_id \<Rightarrow> bool" where
  "less_eq_resource_id (Number m) (Number n) = (m \<le> n)"
| "less_eq_resource_id (Number _) (Hash _) = True"
| "less_eq_resource_id (Hash _) (Number _) = False"
| "less_eq_resource_id (Hash g) (Hash h) = (g \<le> h)"

definition less_resource_id :: "'a resource_id \<Rightarrow> 'a resource_id \<Rightarrow> bool" where
  "less_resource_id x y \<longleftrightarrow> x \<le> y \<and> \<not> y \<le> x"

instance
proof
  fix x y z :: "'a resource_id"
  show "x < y \<longleftrightarrow> x \<le> y \<and> \<not> y \<le> x" by (rule less_resource_id_def)
  show "x \<le> x" by (cases x) simp_all
  show "x \<le> y \<Longrightarrow> y \<le> z \<Longrightarrow> x \<le> z" by (cases x; cases y; cases z) auto
  show "x \<le> y \<Longrightarrow> y \<le> x \<Longrightarrow> x = y" by (cases x; cases y) auto
  show "x \<le> y \<or> y \<le> x" by (cases x; cases y) auto
qed

end

section \<open>Resolvable objects\<close>

text \<open>
  \<^verbatim>\<open>Resolvable<T>\<close> for \<^verbatim>\<open>T\<close> itself, and for an object or its commitment. \<open>commit\<close> is the
  commitment function of the object's type.
\<close>

definition try_resolve_self :: "'t \<Rightarrow> 't + 't" where
  "try_resolve_self x = Inr x"

definition commitment_self :: "('t \<Rightarrow> 'h) \<Rightarrow> 't \<Rightarrow> 'h" where
  "commitment_self commit x = commit x"

definition try_resolve_either :: "'t + 'h \<Rightarrow> ('t + 'h) + 't" where
  "try_resolve_either x = (case x of Inl t \<Rightarrow> Inr t | Inr c \<Rightarrow> Inl (Inr c))"

definition commitment_either :: "('t \<Rightarrow> 'h) \<Rightarrow> 't + 'h \<Rightarrow> 'h" where
  "commitment_either commit x = (case x of Inl t \<Rightarrow> commit t | Inr c \<Rightarrow> c)"

lemma commitment_try_resolve:
  "try_resolve_either x = Inr t \<Longrightarrow> commit t = commitment_either commit x"
  "try_resolve_either x = Inl y \<Longrightarrow> commitment_either commit y = commitment_either commit x"
  by (auto simp: try_resolve_either_def commitment_either_def split: sum.splits)


section \<open>Looking transactions up\<close>

text \<open>
  What the trait asks of an implementation: an index that the payload enumerates resolves.
\<close>

definition payload_indexed ::
    "('pl, 'tx, 'ix, 'pf, 'h, 'z) payload_ops_scheme \<Rightarrow> 'pl \<Rightarrow> bool" where
  "payload_indexed Q p \<longleftrightarrow> (\<forall>ix \<in> set (pl_iter Q p). pl_transaction_with_proof Q p ix \<noteq> None)"

text \<open>The transactions of a payload, with their indices, in block order.\<close>

definition payload_transactions ::
    "('pl, 'tx, 'ix, 'pf, 'h, 'z) payload_ops_scheme \<Rightarrow> 'pl \<Rightarrow> ('ix \<times> 'tx) list" where
  "payload_transactions Q p =
     map (\<lambda>ix. (ix, the (payload_transaction Q p ix))) (pl_iter Q p)"

lemma payload_transaction_indexed:
  "payload_indexed Q p \<Longrightarrow> ix \<in> set (pl_iter Q p) \<Longrightarrow> \<exists>tx. payload_transaction Q p ix = Some tx"
  by (auto simp: payload_indexed_def payload_transaction_def)

lemma payload_enumerate_indexed:
  assumes "payload_indexed Q p"
  shows "payload_enumerate Q p = map Inr (payload_transactions Q p)"
  using payload_transaction_indexed [OF assms]
  by (fastforce simp: payload_enumerate_def payload_transactions_def)

lemma find_first:
  "List.find P xs = Some x \<longleftrightarrow>
     (\<exists>i < length xs. xs ! i = x \<and> P x \<and> (\<forall>j < i. \<not> P (xs ! j)))"
  by (auto simp: find_Some_iff)

lemma by_hash_Some:
  assumes "by_hash Q p hash = Some ix"
  obtains tx where "ix \<in> set (pl_iter Q p)" "payload_transaction Q p ix = Some tx"
    "tx_commit Q tx = hash"
  using assms by (auto simp: by_hash_def find_Some_iff split: option.splits)

lemma by_hash_None:
  "by_hash Q p hash = None \<longleftrightarrow>
     (\<forall>ix tx. ix \<in> set (pl_iter Q p) \<longrightarrow> payload_transaction Q p ix = Some tx \<longrightarrow>
        tx_commit Q tx \<noteq> hash)"
  by (auto simp: by_hash_def find_None_iff split: option.splits)

lemma transaction_by_hash_Some:
  "transaction_by_hash Q p hash = Some tx \<Longrightarrow> tx_commit Q tx = hash"
  by (auto simp: transaction_by_hash_def bind_eq_Some_conv elim: by_hash_Some)

lemma transaction_by_hash_agree:
  "transaction_by_hash Q p hash = map_option fst (transaction_by_hash_with_proof Q p hash)"
  by (simp add: transaction_by_hash_def transaction_by_hash_with_proof_def payload_transaction_def
      split: bind_splits)

text \<open>With sorted indices, the index a hash resolves to is the least one carrying it.\<close>

lemma by_hash_least:
  assumes sorted: "sorted (pl_iter Q p)" and found: "by_hash Q p hash = Some ix"
    and other: "ix' \<in> set (pl_iter Q p)" "payload_transaction Q p ix' = Some tx'"
      "tx_commit Q tx' = hash"
  shows "ix \<le> ix'"
proof -
  obtain i where i: "i < length (pl_iter Q p)" "pl_iter Q p ! i = ix"
    and before: "\<And>j. j < i \<Longrightarrow> \<not> (case payload_transaction Q p (pl_iter Q p ! j) of
        Some tx \<Rightarrow> tx_commit Q tx = hash | None \<Rightarrow> False)"
    using found unfolding by_hash_def find_first by blast
  obtain j where j: "j < length (pl_iter Q p)" "pl_iter Q p ! j = ix'"
    using other(1) by (auto simp: in_set_conv_nth)
  have "\<not> j < i"
  proof
    assume "j < i"
    from before [OF this] show False using j(2) other(2,3) by simp
  qed
  then show ?thesis using sorted i j by (auto simp: sorted_iff_nth_mono)
qed

section \<open>Checked construction\<close>

lemma leaf_query_data_new_ok [simp]:
  "leaf_query_data_new N leaf qc = Inr l \<longleftrightarrow>
     qc_leaf_commit N qc = leaf_commit N leaf \<and> l = \<lparr>lq_leaf = leaf, lq_qc = qc\<rparr>"
  by (auto simp: leaf_query_data_new_def)

lemma block_query_data_new_ok:
  assumes "block_query_data_new N dbg leaf qc payload = Inr b"
  shows "qc_leaf_commit N qc = leaf_commit N leaf"
    and "bq_header b = leaf_block_header N leaf" and "bq_payload b = payload"
    and "bq_hash b = header_commit N (bq_header b)" and "bq_size b = payload_size N payload"
  using assms by (auto simp: block_query_data_new_def split: if_splits)

text \<open>A leaf and a block made from the same leaf agree on height and block hash.\<close>

lemma new_leaf_block_agree:
  assumes "leaf_query_data_new N leaf qc = Inr l"
    and "block_query_data_new N dbg leaf qc payload = Inr b"
  shows "block_height N b = leaf_height N l" and "bq_hash b = leaf_block_hash N l"
  using assms(1) block_query_data_new_ok [OF assms(2)]
  by (simp_all add: block_height_def leaf_height_def leaf_block_hash_def)

lemma block_transaction_Some:
  assumes "block_transaction N b i = Some t"
  shows "payload_transaction N (bq_payload b) i = Some (tq_transaction t)"
    and "tq_hash t = tx_commit N (tq_transaction t)"
    and "tq_block_hash t = bq_hash b" and "tq_height t = block_height N b"
  using assms by (auto simp: block_transaction_def payload_transaction_def split: prod.splits)

section \<open>A concrete instance\<close>

text \<open>
  Payloads are lists of numbers indexed by position, a header is its number, a leaf is its header,
  proposer and parent certificate. Only witnesses use it.
\<close>

definition mock_types ::
    "(nat \<times> nat \<times> nat \<times> nat list option, nat, nat, nat list, nat, nat, unit, nat, nat) node_types"
  where
  "mock_types =
     \<lparr>pl_encode = Some, pl_len = length, pl_iter = (\<lambda>p. [0..<length p]),
      pl_transaction_with_proof = (\<lambda>p i. map_option (\<lambda>tx. (tx, ())) (list_get p i)),
      tx_commit = (\<lambda>tx. tx + 7000),
      leaf_commit = (\<lambda>(n, pk, qc, pl). 1000 + 10 * n + pk),
      leaf_block_header = fst, leaf_block_payload = (\<lambda>(n, pk, qc, pl). pl),
      leaf_justify_qc = (\<lambda>(n, pk, qc, pl). qc), leaf_proposer_id = (\<lambda>(n, pk, qc, pl). pk),
      leaf_genesis = (0, 0, 1000, Some []), qc_leaf_commit = id, qc_genesis = 1000,
      header_block_number = of_nat, header_commit = (\<lambda>n. 500 + n),
      header_payload_commitment = id, header_genesis = (0, []), vid_commitment = length\<rparr>"

lemmas mock_types_simps = mock_types_def payload_transaction_def payload_enumerate_def
  leaf_height_def leaf_hash_def leaf_block_hash_def leaf_proposer_def block_height_def
  leaf_query_data_genesis_def block_query_data_genesis_def payload_size_def

lemma mock_payload_indexed [simp]: "payload_indexed mock_types p"
  by (auto simp: payload_indexed_def mock_types_def list_get_def)

end
