(* ===== verification/QueryErrors.thy ===== *)
theory QueryErrors
  imports Prelude
begin

text \<open>
  The error types and the HTTP status each maps to: \<^verbatim>\<open>QueryError\<close> (\<^verbatim>\<open>src/lib.rs\<close>), the errors of
  the availability and status modules and the crate's error (\<^verbatim>\<open>src/error.rs\<close>). A status code is
  its HTTP number; \<^verbatim>\<open>RequestError\<close> of \<^verbatim>\<open>tide_disco\<close> is the type variable \<open>'req\<close>.
\<close>

type_synonym status_code = nat

definition status_bad_request :: status_code where "status_bad_request = 400"
definition status_not_found :: status_code where "status_not_found = 404"
definition status_internal :: status_code where "status_internal = 500"

lemmas status_codes = status_bad_request_def status_not_found_def status_internal_def

datatype query_error = NotFound | Missing | QueryError string

fun query_error_status :: "query_error \<Rightarrow> status_code" where
  "query_error_status NotFound = status_not_found"
| "query_error_status Missing = status_not_found"
| "query_error_status (QueryError message) = status_internal"

datatype ('req, 'pk) availability_error =
    Request 'req
  | QueryLeaf query_error string
  | StreamLeaf query_error
  | QueryBlock query_error string
  | StreamBlock query_error
  | QueryTransaction query_error string
  | QueryProposals query_error 'pk
  | InvalidTransactionIndex "64 word" "64 word"
  | LeafStream "64 word" string
  | BlockStream "64 word" string
  | AvailabilityCustom string status_code

definition availability_internal :: "string \<Rightarrow> ('req, 'pk) availability_error" where
  "availability_internal message = AvailabilityCustom message status_internal"

fun availability_error_status :: "('req, 'pk) availability_error \<Rightarrow> status_code" where
  "availability_error_status (Request _) = status_bad_request"
| "availability_error_status (QueryLeaf source _) = query_error_status source"
| "availability_error_status (StreamLeaf source) = query_error_status source"
| "availability_error_status (QueryBlock source _) = query_error_status source"
| "availability_error_status (StreamBlock source) = query_error_status source"
| "availability_error_status (QueryTransaction source _) = query_error_status source"
| "availability_error_status (QueryProposals source _) = query_error_status source"
| "availability_error_status (InvalidTransactionIndex _ _) = status_not_found"
| "availability_error_status (LeafStream _ _) = status_internal"
| "availability_error_status (BlockStream _ _) = status_internal"
| "availability_error_status (AvailabilityCustom _ status) = status"

datatype 'req status_error = StatusRequest 'req | StatusInternal string

fun status_error_status :: "'req status_error \<Rightarrow> status_code" where
  "status_error_status (StatusRequest _) = status_bad_request"
| "status_error_status (StatusInternal _) = status_internal"

text \<open>The helper \<^verbatim>\<open>internal\<close> of the status module, on the message its argument displays as.\<close>

definition status_internal_error :: "string \<Rightarrow> 'req status_error" where
  "status_internal_error msg = StatusInternal msg"

datatype ('req, 'pk) crate_error =
    Availability "('req, 'pk) availability_error"
  | Status "'req status_error"
  | Custom string status_code

definition crate_internal :: "string \<Rightarrow> ('req, 'pk) crate_error" where
  "crate_internal message = Custom message status_internal"

definition crate_catch_all :: "status_code \<Rightarrow> string \<Rightarrow> ('req, 'pk) crate_error" where
  "crate_catch_all status message = Custom message status"

fun crate_error_status :: "('req, 'pk) crate_error \<Rightarrow> status_code" where
  "crate_error_status (Availability source) = availability_error_status source"
| "crate_error_status (Status source) = status_error_status source"
| "crate_error_status (Custom _ status) = status"

text \<open>
  The query errors, apart from internal ones, are exactly those a client sees as 404.
\<close>

lemma query_error_status_not_found:
  "query_error_status e = status_not_found \<longleftrightarrow> e \<in> {NotFound, Missing}"
  by (cases e) (auto simp: status_codes)

text \<open>
  Wrapping an error in a module's error and then in the crate's never changes its status.
\<close>

lemma wrapped_query_error_status:
  "crate_error_status (Availability (QueryLeaf e r)) = query_error_status e"
  "crate_error_status (Availability (QueryBlock e r)) = query_error_status e"
  "crate_error_status (Availability (QueryTransaction e r)) = query_error_status e"
  "crate_error_status (Availability (QueryProposals e p)) = query_error_status e"
  by simp_all

end
