(* ===== verification/FsDataSource.thy ===== *)
theory FsDataSource
  imports LedgerLogRun HashIndex QueryData QueryErrors
begin

text \<open>
  \<^verbatim>\<open>src/data_source/fs.rs\<close>: the file system data source, two ledger logs with in-memory indices
  by hash, transaction and proposer. The operations in the order of the source; the
  \<^verbatim>\<open>AtomicStore\<close> that synchronises the logs is a record of operations, like the append logs, and
  the metrics are an abstract value here (their model is \<open>PromMetrics\<close>).
\<close>

section \<open>State\<close>

definition cached_leaves_count :: nat where "cached_leaves_count = 100"
definition cached_blocks_count :: nat where "cached_blocks_count = 100"

text \<open>
  \<open>'ld\<close> is the loader and \<open>'as\<close> the opened store. \<open>as_other_load\<close> is the constructor
  \<^verbatim>\<open>PersistenceError::OtherLoad\<close>.
\<close>

record ('path, 'ld, 'as, 'e) atomic_store_ops =
  as_create :: "'path \<Rightarrow> string \<Rightarrow> 'e + 'ld"
  as_load :: "'path \<Rightarrow> string \<Rightarrow> 'e + 'ld"
  as_open :: "'ld \<Rightarrow> 'e + 'as"
  as_commit_version :: "'as \<Rightarrow> ('e + unit) \<times> 'as"
  as_other_load :: "query_error \<Rightarrow> 'e"

record ('ls, 'bs, 'as, 'm, 'leaf, 'qc, 'hdr, 'pl, 'ix, 'h, 'pk) fs_data_source =
  index_by_leaf_hash :: "'h \<rightharpoonup> 64 word"
  index_by_block_hash :: "'h \<rightharpoonup> 64 word"
  index_by_txn_hash :: "'h \<rightharpoonup> 64 word \<times> 'ix"
  index_by_proposer_id :: "'pk \<rightharpoonup> 64 word list"
  top_storage :: "'as option"
  leaf_storage :: "('ls, ('leaf, 'qc) leaf_query_data) ledger_log"
  block_storage :: "('bs, ('hdr, 'pl, 'h) block_query_data) ledger_log"
  fs_metrics :: 'm

section \<open>Updates\<close>

text \<open>\<open>N\<close>, \<open>LA\<close>, \<open>BA\<close> and \<open>AS\<close> are HotShot's types, the two append logs and the store.\<close>

definition fs_insert_leaf where
  "fs_insert_leaf N LA leaf ds =
     attempt
       (on_field (\<lambda>log. ds\<lparr>leaf_storage := log\<rparr>)
         (log_insert LA (unat (leaf_height N leaf)) leaf (leaf_storage ds)))
       (\<lambda>_ ds.
          let ds = ds\<lparr>index_by_leaf_hash :=
                       (index_by_leaf_hash ds)(leaf_hash N leaf \<mapsto> leaf_height N leaf)\<rparr>;
              ds = ds\<lparr>index_by_block_hash :=
                       update_index_by_hash (index_by_block_hash ds) (leaf_block_hash N leaf)
                         (leaf_height N leaf)\<rparr>;
              ds = ds\<lparr>index_by_proposer_id :=
                       push_proposal (index_by_proposer_id ds) (leaf_proposer N leaf)
                         (leaf_height N leaf)\<rparr>
          in (Inr (), ds))"

text \<open>
  The loop over \<^verbatim>\<open>payload().enumerate()\<close>. Its iterator may panic between two updates of the
  index, which keeps the earlier ones.
\<close>

fun index_transactions ::
    "('pl, 'tx, 'ix::linorder, 'pf, 'h, 'z) payload_ops_scheme \<Rightarrow> 64 word
      \<Rightarrow> ('e failure + 'ix \<times> 'tx) list \<Rightarrow> ('h \<rightharpoonup> 64 word \<times> 'ix)
      \<Rightarrow> ('e, unit, 'h \<rightharpoonup> 64 word \<times> 'ix) outcome" where
  "index_transactions Q height [] index = (Inr (), index)"
| "index_transactions Q height (Inl e # items) index = (Inl e, index)"
| "index_transactions Q height (Inr (txn_ix, txn) # items) index =
     index_transactions Q height items
       (update_index_by_hash index (tx_commit Q txn) (height, txn_ix))"

definition fs_insert_block where
  "fs_insert_block N BA block ds =
     attempt
       (on_field (\<lambda>log. ds\<lparr>block_storage := log\<rparr>)
         (log_insert BA (unat (block_height N block)) block (block_storage ds)))
       (\<lambda>_ ds.
          on_field (\<lambda>index. ds\<lparr>index_by_txn_hash := index\<rparr>)
            (index_transactions N (block_height N block)
              (payload_enumerate N (bq_payload block)) (index_by_txn_hash ds)))"

section \<open>Versions\<close>

text \<open>The step both \<^verbatim>\<open>commit\<close> and \<^verbatim>\<open>skip_version\<close> end with.\<close>

definition commit_top_storage where
  "commit_top_storage AS ds =
     (case top_storage ds of
        None \<Rightarrow> (Inr (), ds)
      | Some st \<Rightarrow>
          on_field (\<lambda>st. ds\<lparr>top_storage := Some st\<rparr>) (foreign (as_commit_version AS st)))"

definition fs_skip_version where
  "fs_skip_version LA BA AS ds =
     attempt (on_field (\<lambda>log. ds\<lparr>leaf_storage := log\<rparr>) (skip_version LA (leaf_storage ds)))
       (\<lambda>_ ds.
          attempt (on_field (\<lambda>log. ds\<lparr>block_storage := log\<rparr>) (skip_version BA (block_storage ds)))
            (\<lambda>_ ds. commit_top_storage AS ds))"

definition fs_commit where
  "fs_commit LA BA AS ds =
     attempt (on_field (\<lambda>log. ds\<lparr>leaf_storage := log\<rparr>) (commit_version LA (leaf_storage ds)))
       (\<lambda>_ ds.
          attempt
            (on_field (\<lambda>log. ds\<lparr>block_storage := log\<rparr>) (commit_version BA (block_storage ds)))
            (\<lambda>_ ds. commit_top_storage AS ds))"

definition fs_revert where
  "fs_revert LA BA ds =
     attempt
       (on_field (\<lambda>log. ds\<lparr>leaf_storage := log\<rparr>)
         (unwrapped (revert_version LA (leaf_storage ds))))
       (\<lambda>_ ds.
          on_field (\<lambda>log. ds\<lparr>block_storage := log\<rparr>)
            (unwrapped (revert_version BA (block_storage ds))))"

definition fs_block_height where
  "fs_block_height LA ds = Inr (log_len LA (leaf_storage ds))"

definition fs_insert_genesis where
  "fs_insert_genesis N LA BA AS ds =
     (case fs_block_height LA ds of
        Inl err \<Rightarrow> (Inl (Failure (as_other_load AS err)), ds)
      | Inr height \<Rightarrow>
          if height = 0
          then attempt (fs_insert_leaf N LA (leaf_query_data_genesis N) ds) (\<lambda>_ ds.
                 attempt (fs_insert_block N BA (block_query_data_genesis N) ds) (\<lambda>_ ds.
                   fs_commit LA BA AS ds))
          else (Inr (), ds))"

section \<open>Creating and opening\<close>

definition fs_create_with_store where
  "fs_create_with_store N LA BA AS metrics0 loader =
     attempt (log_create LA loader ''leaves'' cached_leaves_count) (\<lambda>leaves loader.
       attempt (log_create BA loader ''blocks'' cached_blocks_count) (\<lambda>blocks loader.
         let ds = \<lparr>index_by_leaf_hash = Map.empty, index_by_block_hash = Map.empty,
                   index_by_txn_hash = Map.empty, index_by_proposer_id = Map.empty,
                   top_storage = None, leaf_storage = leaves, block_storage = blocks,
                   fs_metrics = metrics0\<rparr>
         in built (fs_insert_genesis N LA BA AS ds) loader))"

text \<open>
  The single pass of \<^verbatim>\<open>open_with_store\<close> over the leaves fills three indices; the one by leaf
  hash is collected into a map, where a later leaf wins.
\<close>

definition index_leaf where
  "index_leaf N leaf = (\<lambda>(by_leaf, by_block, by_proposer).
     (by_leaf(leaf_hash N leaf \<mapsto> leaf_height N leaf),
      update_index_by_hash by_block (leaf_block_hash N leaf) (leaf_height N leaf),
      push_proposal by_proposer (leaf_proposer N leaf) (leaf_height N leaf)))"

definition index_leaves where
  "index_leaves N leaves = fold (index_leaf N) leaves (Map.empty, Map.empty, Map.empty)"

fun index_blocks where
  "index_blocks N [] index = (Inr (), index)"
| "index_blocks N (block # blocks) index =
     attempt
       (index_transactions N (block_height N block)
         (payload_enumerate N (bq_payload block)) index)
       (\<lambda>_ index. index_blocks N blocks index)"

text \<open>\<^verbatim>\<open>log.iter().flatten()\<close>, driven to its end.\<close>

definition present :: "'a option list \<Rightarrow> 'a list" where
  "present xs = List.map_filter id xs"

definition log_objects where
  "log_objects A log = map_option present (collect iter_next (log_iter A log))"

definition fs_open_with_store where
  "fs_open_with_store N LA BA AS metrics0 loader =
     attempt (log_open LA loader ''leaves'' cached_leaves_count) (\<lambda>leaves loader.
       attempt (log_open BA loader ''blocks'' cached_blocks_count) (\<lambda>blocks loader.
         (case log_objects LA leaves of
            None \<Rightarrow> (Inl Diverges, loader)
          | Some leaf_objects \<Rightarrow>
         (case index_leaves N leaf_objects of (by_leaf, by_block, by_proposer) \<Rightarrow>
         (case log_objects BA blocks of
            None \<Rightarrow> (Inl Diverges, loader)
          | Some block_objects \<Rightarrow>
         (case index_blocks N block_objects Map.empty of
            (Inl e, by_txn) \<Rightarrow> (Inl e, loader)
          | (Inr _, by_txn) \<Rightarrow>
              let ds = \<lparr>index_by_leaf_hash = by_leaf, index_by_block_hash = by_block,
                        index_by_txn_hash = by_txn, index_by_proposer_id = by_proposer,
                        top_storage = None, leaf_storage = leaves, block_storage = blocks,
                        fs_metrics = metrics0\<rparr>
              in built (fs_insert_genesis N LA BA AS ds) loader))))))"

definition fs_create where
  "fs_create N LA BA AS metrics0 path =
     and_then (map_sum Failure id (as_create AS path ''hotshot_data_source'')) (\<lambda>loader.
       case fs_create_with_store N LA BA AS metrics0 loader of
         (Inl e, loader) \<Rightarrow> Inl e
       | (Inr ds, loader) \<Rightarrow>
           map_sum Failure (\<lambda>st. ds\<lparr>top_storage := Some st\<rparr>) (as_open AS loader))"

definition fs_open where
  "fs_open N LA BA AS metrics0 path =
     and_then (map_sum Failure id (as_load AS path ''hotshot_data_source'')) (\<lambda>loader.
       case fs_open_with_store N LA BA AS metrics0 loader of
         (Inl e, loader) \<Rightarrow> Inl e
       | (Inr ds, loader) \<Rightarrow>
           map_sum Failure (\<lambda>st. ds\<lparr>top_storage := Some st\<rparr>) (as_open AS loader))"

section \<open>Ranges\<close>

text \<open>
  \<^verbatim>\<open>range_stream\<close>: the iterator is advanced to the start of the range, then the stream yields
  items until the end of the range or of the log. \<open>n + 1\<close> wraps as in a release build.
\<close>

definition range_start where
  "range_start it start =
     (case start of
        Included n \<Rightarrow> (if n > 0 then snd (iter_nth (unat (n - 1)) it) else it, n)
      | Excluded n \<Rightarrow> (snd (iter_nth (unat n) it), n + 1)
      | Unbounded \<Rightarrow> (it, 0 :: 64 word))"

definition reached_end :: "64 word bound \<Rightarrow> 64 word \<Rightarrow> bool" where
  "reached_end end_bound pos =
     (case end_bound of Included n \<Rightarrow> pos > n | Excluded n \<Rightarrow> pos \<ge> n | Unbounded \<Rightarrow> False)"

definition range_next where
  "range_next end_bound = (\<lambda>(it, pos).
     if reached_end end_bound pos then None
     else case iter_nth 0 it of
            (None, it) \<Rightarrow> None
          | (Some opt, it) \<Rightarrow> Some (context_opt opt Missing, (it, pos + 1)))"

definition range_stream where
  "range_stream it start end_bound = collect (range_next end_bound) (range_start it start)"

section \<open>Queries\<close>

definition fs_get_leaf where
  "fs_get_leaf LA ident ds =
     and_then
       (case ident of
          Number n \<Rightarrow> Inr n
        | Hash h \<Rightarrow> context_opt (index_by_leaf_hash ds h) NotFound)
       (\<lambda>n. and_then
         (context_opt (fst (iter_nth (unat n) (log_iter LA (leaf_storage ds)))) NotFound)
         (\<lambda>entry. context_opt entry Missing))"

definition fs_get_block where
  "fs_get_block BA ident ds =
     and_then
       (case ident of
          Number n \<Rightarrow> Inr n
        | Hash h \<Rightarrow> context_opt (index_by_block_hash ds h) NotFound)
       (\<lambda>n. and_then
         (context_opt (fst (iter_nth (unat n) (log_iter BA (block_storage ds)))) NotFound)
         (\<lambda>entry. context_opt entry Missing))"

definition fs_get_leaf_range where
  "fs_get_leaf_range LA start end_bound ds =
     range_stream (log_iter LA (leaf_storage ds)) start end_bound"

definition fs_get_block_range where
  "fs_get_block_range BA start end_bound ds =
     range_stream (log_iter BA (block_storage ds)) start end_bound"

definition fs_get_block_with_transaction where
  "fs_get_block_with_transaction BA h ds =
     and_then (context_opt (index_by_txn_hash ds h) NotFound) (\<lambda>(height, ix).
       and_then (fs_get_block BA (Number height) ds) (\<lambda>block. Inr (block, ix)))"

definition fs_get_proposals where
  "fs_get_proposals LA proposer limit ds =
     (let all_ids = (case index_by_proposer_id ds proposer of Some ids \<Rightarrow> ids | None \<Rightarrow> []);
          start_from = (case limit of Some count \<Rightarrow> length all_ids - unat (count :: 64 word)
                                    | None \<Rightarrow> 0)
      in try_collect
           (map (\<lambda>height. fs_get_leaf LA (Number height) ds) (drop start_from all_ids)))"

definition fs_count_proposals where
  "fs_count_proposals proposer ds =
     Inr (case index_by_proposer_id ds proposer of Some ids \<Rightarrow> length ids | None \<Rightarrow> 0)"

definition fs_subscribe_leaves where
  "fs_subscribe_leaves LA (height :: 64 word) ds =
     context_opt (subscribe LA (unat height) (leaf_storage ds)) Missing"

definition fs_subscribe_blocks where
  "fs_subscribe_blocks BA (height :: 64 word) ds =
     context_opt (subscribe BA (unat height) (block_storage ds)) Missing"

end
