(* ===== verification/FsDataSourceInv.thy ===== *)
theory FsDataSourceInv
  imports FsDataSource
begin

text \<open>
  The indices of the file system data source against the contents of its logs: the indices are
  those a fresh pass over the logs would build, every operation but \<^verbatim>\<open>revert\<close> and the
  re-insertion of an earlier height keeps them so, and the queries answer accordingly. The proofs
  reach the logs only through the contracts \<open>positional_log\<close> and \<open>versioned_log\<close>.
\<close>

section \<open>Objects of a log\<close>

lemma present_simps [simp]:
  "present [] = []" "present (None # xs) = present xs" "present (Some x # xs) = x # present xs"
  "present (xs @ ys) = present xs @ present ys" "present (replicate n None) = []"
  by (simp_all add: present_def List.map_filter_def)

lemma in_set_present [simp]: "x \<in> set (present xs) \<longleftrightarrow> Some x \<in> set xs"
  by (force simp: present_def List.map_filter_def)

lemma present_map_Some [simp]: "present (map Some xs) = xs"
  by (induction xs) auto

lemma log_objects_contents:
  assumes "log_visible A l" and "log_fits A l"
  shows "log_objects A l = Some (present (log_contents A l))"
  using collect_log_iter [OF assms] by (simp add: log_objects_def)

text \<open>Every object stands at the position its height names.\<close>

definition positioned :: "('a \<Rightarrow> 64 word) \<Rightarrow> 'a option list \<Rightarrow> bool" where
  "positioned height xs \<longleftrightarrow> (\<forall>i x. list_get xs i = Some (Some x) \<longrightarrow> unat (height x) = i)"

lemma positioned_Nil [simp]: "positioned height []"
  by (simp add: positioned_def)

lemma list_get_padded:
  "list_get (replicate k None @ [Some x]) j = Some (Some y) \<longleftrightarrow> j = k \<and> y = x"
  by (auto simp: list_get_def nth_append)

lemma positioned_append:
  assumes "positioned height xs" and "length xs \<le> unat (height x)"
  shows "positioned height (xs @ replicate (unat (height x) - length xs) None @ [Some x])"
  unfolding positioned_def
proof (intro allI impI)
  fix i y
  assume "list_get (xs @ replicate (unat (height x) - length xs) None @ [Some x]) i = Some (Some y)"
  then show "unat (height y) = i"
  proof (cases "i < length xs")
    case True
    then show ?thesis
      using assms(1) \<open>list_get _ i = _\<close> by (simp add: positioned_def list_get_append)
  next
    case False
    then have "list_get (replicate (unat (height x) - length xs) None @ [Some x]) (i - length xs)
        = Some (Some y)"
      using \<open>list_get _ i = _\<close> by (simp add: list_get_append)
    then have "i - length xs = unat (height x) - length xs \<and> y = x"
      by (simp only: list_get_padded)
    then show ?thesis using False assms(2) by auto
  qed
qed

lemma positioned_get:
  assumes "positioned height xs" and "Some x \<in> set xs"
  shows "list_get xs (unat (height x)) = Some (Some x)"
proof -
  obtain i where "list_get xs i = Some (Some x)"
    using assms(2) by (metis in_set_conv_nth list_get_Some)
  with assms(1) show ?thesis by (auto simp: positioned_def)
qed

section \<open>Indices as functions of the contents\<close>

definition block_entries where
  "block_entries N b =
     map (\<lambda>(ix, tx). (tx_commit N tx, (block_height N b, ix)))
       (payload_transactions N (bq_payload b))"

definition transaction_index where
  "transaction_index N blocks =
     fold (\<lambda>(h, pos) m. update_index_by_hash m h pos) (concat (map (block_entries N) blocks))
       Map.empty"

lemma index_transactions_fold:
  "index_transactions Q height (map Inr txs) index =
     (Inr (), fold (\<lambda>(h, pos) m. update_index_by_hash m h pos)
                (map (\<lambda>(ix, tx). (tx_commit Q tx, (height, ix))) txs) index)"
  by (induction txs arbitrary: index) auto

lemma index_transactions_block:
  assumes "payload_indexed N (bq_payload b)"
  shows "index_transactions N (block_height N b) (payload_enumerate N (bq_payload b)) index =
    (Inr (), fold (\<lambda>(h, pos) m. update_index_by_hash m h pos) (block_entries N b) index)"
  by (simp add: payload_enumerate_indexed [OF assms] index_transactions_fold block_entries_def)

lemma index_blocks_fold:
  assumes "\<And>b. b \<in> set blocks \<Longrightarrow> payload_indexed N (bq_payload b)"
  shows "index_blocks N blocks index =
    (Inr (), fold (\<lambda>(h, pos) m. update_index_by_hash m h pos)
               (concat (map (block_entries N) blocks)) index)"
  using assms by (induction blocks arbitrary: index) (auto simp: index_transactions_block)

lemma index_leaves_snoc:
  "index_leaves N (leaves @ [leaf]) = index_leaf N leaf (index_leaves N leaves)"
  by (simp add: index_leaves_def)

lemma transaction_index_snoc:
  "transaction_index N (blocks @ [b]) =
     fold (\<lambda>(h, pos) m. update_index_by_hash m h pos) (block_entries N b)
       (transaction_index N blocks)"
  by (simp add: transaction_index_def)

text \<open>The three indices over leaves, each as a function of the list of leaves.\<close>

lemma index_leaves_split:
  "fold (index_leaf N) leaves (a, b, c) =
     (fold (\<lambda>leaf m. m(leaf_hash N leaf \<mapsto> leaf_height N leaf)) leaves a,
      fold (\<lambda>(h, pos) m. update_index_by_hash m h pos)
        (map (\<lambda>leaf. (leaf_block_hash N leaf, leaf_height N leaf)) leaves) b,
      fold (\<lambda>(k, x) m. push_proposal m k x)
        (map (\<lambda>leaf. (leaf_proposer N leaf, leaf_height N leaf)) leaves) c)"
  by (induction leaves arbitrary: a b c) (auto simp: index_leaf_def)

lemma index_leaves_by_leaf:
  "fst (index_leaves N leaves) h = Some n \<Longrightarrow>
     \<exists>leaf \<in> set leaves. leaf_hash N leaf = h \<and> leaf_height N leaf = n"
proof (induction leaves arbitrary: n rule: rev_induct)
  case Nil
  then show ?case by (simp add: index_leaves_def)
next
  case (snoc leaf leaves)
  obtain a b c where abc: "index_leaves N leaves = (a, b, c)" by (cases "index_leaves N leaves")
  show ?case
    using snoc by (auto simp: index_leaves_snoc abc index_leaf_def split: if_splits)
qed

lemma index_leaves_by_leaf_None:
  "fst (index_leaves N leaves) h = None \<longleftrightarrow> h \<notin> leaf_hash N ` set leaves"
proof (induction leaves rule: rev_induct)
  case Nil
  then show ?case by (simp add: index_leaves_def)
next
  case (snoc leaf leaves)
  obtain a b c where "index_leaves N leaves = (a, b, c)" by (cases "index_leaves N leaves")
  with snoc show ?case by (auto simp: index_leaves_snoc index_leaf_def)
qed

lemma index_leaves_by_block:
  "fst (snd (index_leaves N leaves)) h = Some n \<longleftrightarrow>
     (\<exists>leaf \<in> set leaves. leaf_block_hash N leaf = h \<and> leaf_height N leaf = n) \<and>
     (\<forall>leaf \<in> set leaves. leaf_block_hash N leaf = h \<longrightarrow> n \<le> leaf_height N leaf)"
proof -
  have entries: "(h, p) \<in> set (map (\<lambda>leaf. (leaf_block_hash N leaf, leaf_height N leaf)) leaves) \<longleftrightarrow>
      (\<exists>leaf \<in> set leaves. leaf_block_hash N leaf = h \<and> leaf_height N leaf = p)" for p
    by auto
  show ?thesis
    unfolding index_leaves_def index_leaves_split fst_conv snd_conv hash_index.lookup_fold entries
    by auto
qed

lemma index_leaves_by_proposer:
  "proposals_of (snd (snd (index_leaves N leaves))) k =
     map (leaf_height N) (filter (\<lambda>leaf. leaf_proposer N leaf = k) leaves)"
  unfolding index_leaves_def index_leaves_split
  by (simp add: proposals_of_fold, induction leaves) (auto simp: proposals_of_def)

lemma transaction_index_Some:
  "transaction_index N blocks h = Some pos \<longleftrightarrow>
     (h, pos) \<in> (\<Union>b \<in> set blocks. set (block_entries N b)) \<and>
     (\<forall>pos'. (h, pos') \<in> (\<Union>b \<in> set blocks. set (block_entries N b)) \<longrightarrow> pos \<le> pos')"
  unfolding transaction_index_def
  using hash_index.lookup_fold [where m = Map.empty and k = h and p = pos
      and xs = "concat (map (block_entries N) blocks)"]
  by auto


section \<open>The invariant\<close>

text \<open>
  \<open>fs_ok\<close>: both logs satisfy their contract, every object stands at its height, every stored
  payload resolves the indices it enumerates, and the four indices are those of the contents.
\<close>

definition fs_leaves where
  "fs_leaves LA ds = present (log_contents LA (leaf_storage ds))"

definition fs_blocks where
  "fs_blocks BA ds = present (log_contents BA (block_storage ds))"

definition fs_indexed where
  "fs_indexed N LA BA ds \<longleftrightarrow>
     (index_by_leaf_hash ds, index_by_block_hash ds, index_by_proposer_id ds)
       = index_leaves N (fs_leaves LA ds) \<and>
     index_by_txn_hash ds = transaction_index N (fs_blocks BA ds)"

definition fs_ok where
  "fs_ok N LA BA lp bp ds \<longleftrightarrow>
     log_ok LA lp (leaf_storage ds) \<and> log_ok BA bp (block_storage ds) \<and>
     positioned (leaf_height N) (log_contents LA (leaf_storage ds)) \<and>
     positioned (block_height N) (log_contents BA (block_storage ds)) \<and>
     (\<forall>b \<in> set (fs_blocks BA ds). payload_indexed N (bq_payload b)) \<and>
     fs_indexed N LA BA ds"

lemma fs_insert_leafE:
  assumes "fs_insert_leaf N LA leaf ds = (Inr u, ds')"
  obtains log where
    "log_insert LA (unat (leaf_height N leaf)) leaf (leaf_storage ds) = (Inr (), log)"
    "ds' = ds\<lparr>leaf_storage := log,
      index_by_leaf_hash := (index_by_leaf_hash ds)(leaf_hash N leaf \<mapsto> leaf_height N leaf),
      index_by_block_hash :=
        update_index_by_hash (index_by_block_hash ds) (leaf_block_hash N leaf) (leaf_height N leaf),
      index_by_proposer_id :=
        push_proposal (index_by_proposer_id ds) (leaf_proposer N leaf) (leaf_height N leaf)\<rparr>"
  using assms
  by (cases "log_insert LA (unat (leaf_height N leaf)) leaf (leaf_storage ds)")
    (auto simp: fs_insert_leaf_def Let_def attempt_ok)

lemma fs_insert_leaf_error:
  assumes "fs_insert_leaf N LA leaf ds = (Inl e, ds')"
  obtains log where
    "log_insert LA (unat (leaf_height N leaf)) leaf (leaf_storage ds) = (Inl e, log)"
    "ds' = ds\<lparr>leaf_storage := log\<rparr>"
  using assms
  by (cases "log_insert LA (unat (leaf_height N leaf)) leaf (leaf_storage ds)";
      cases "fst (log_insert LA (unat (leaf_height N leaf)) leaf (leaf_storage ds))")
    (auto simp: fs_insert_leaf_def Let_def)

lemma fs_insert_blockE:
  assumes "fs_insert_block N BA block ds = (Inr u, ds')"
    and "payload_indexed N (bq_payload block)"
  obtains log where
    "log_insert BA (unat (block_height N block)) block (block_storage ds) = (Inr (), log)"
    "ds' = ds\<lparr>block_storage := log,
      index_by_txn_hash :=
        fold (\<lambda>(h, pos) m. update_index_by_hash m h pos) (block_entries N block)
          (index_by_txn_hash ds)\<rparr>"
  using assms(1)
  by (cases "log_insert BA (unat (block_height N block)) block (block_storage ds)")
    (auto simp: fs_insert_block_def attempt_ok index_transactions_block [OF assms(2)])

text \<open>What an appending insertion of a leaf does: contents, indices and the invariant.\<close>

lemma fs_insert_leaf_ok:
  assumes ok: "fs_ok N LA BA lp bp ds"
    and app: "length (log_contents LA (leaf_storage ds)) \<le> unat (leaf_height N leaf)"
    and room: "log_room (leaf_storage ds) (log_len LA (leaf_storage ds)) (unat (leaf_height N leaf))"
    and run: "fs_insert_leaf N LA leaf ds = (Inr u, ds')"
  shows "fs_ok N LA BA lp bp ds'" and "fs_leaves LA ds' = fs_leaves LA ds @ [leaf]"
    and "block_storage ds' = block_storage ds"
    and "log_contents LA (leaf_storage ds') = log_contents LA (leaf_storage ds) @
      replicate (unat (leaf_height N leaf) - length (log_contents LA (leaf_storage ds))) None @
      [Some leaf]"
proof -
  have lok: "log_ok LA lp (leaf_storage ds)" using ok by (simp add: fs_ok_def)
  from run obtain log where
    log: "log_insert LA (unat (leaf_height N leaf)) leaf (leaf_storage ds) = (Inr (), log)"
    and ds': "ds' = ds\<lparr>leaf_storage := log,
      index_by_leaf_hash := (index_by_leaf_hash ds)(leaf_hash N leaf \<mapsto> leaf_height N leaf),
      index_by_block_hash :=
        update_index_by_hash (index_by_block_hash ds) (leaf_block_hash N leaf) (leaf_height N leaf),
      index_by_proposer_id :=
        push_proposal (index_by_proposer_id ds) (leaf_proposer N leaf) (leaf_height N leaf)\<rparr>"
    by (rule fs_insert_leafE)
  show items: "log_contents LA (leaf_storage ds') = log_contents LA (leaf_storage ds) @
      replicate (unat (leaf_height N leaf) - length (log_contents LA (leaf_storage ds))) None @
      [Some leaf]"
    using ledger.put_items [OF lok app room log] ds' by simp
  then show leaves: "fs_leaves LA ds' = fs_leaves LA ds @ [leaf]" by (simp add: fs_leaves_def)
  show "block_storage ds' = block_storage ds" using ds' by simp
  have "log_ok LA lp (leaf_storage ds')"
    using ledger.put_ok [OF lok app room log] ds' by simp
  moreover have "positioned (leaf_height N) (log_contents LA (leaf_storage ds'))"
    unfolding items using ok app by (intro positioned_append) (simp_all add: fs_ok_def)
  moreover have "index_leaves N (fs_leaves LA ds) =
      (index_by_leaf_hash ds, index_by_block_hash ds, index_by_proposer_id ds)"
    and "index_by_txn_hash ds = transaction_index N (fs_blocks BA ds)"
    using ok by (simp_all add: fs_ok_def fs_indexed_def)
  then have "fs_indexed N LA BA ds'"
    unfolding fs_indexed_def leaves index_leaves_snoc
    using ds' by (simp add: index_leaf_def fs_blocks_def)
  ultimately show "fs_ok N LA BA lp bp ds'" using ok ds' by (simp add: fs_ok_def fs_blocks_def)
qed

lemma fs_insert_block_ok:
  assumes ok: "fs_ok N LA BA lp bp ds" and ixd: "payload_indexed N (bq_payload block)"
    and app: "length (log_contents BA (block_storage ds)) \<le> unat (block_height N block)"
    and room: "log_room (block_storage ds) (log_len BA (block_storage ds))
      (unat (block_height N block))"
    and run: "fs_insert_block N BA block ds = (Inr u, ds')"
  shows "fs_ok N LA BA lp bp ds'" and "fs_blocks BA ds' = fs_blocks BA ds @ [block]"
    and "leaf_storage ds' = leaf_storage ds"
    and "log_contents BA (block_storage ds') = log_contents BA (block_storage ds) @
      replicate (unat (block_height N block) - length (log_contents BA (block_storage ds))) None @
      [Some block]"
proof -
  have bok: "log_ok BA bp (block_storage ds)" using ok by (simp add: fs_ok_def)
  from run ixd obtain log where
    log: "log_insert BA (unat (block_height N block)) block (block_storage ds) = (Inr (), log)"
    and ds': "ds' = ds\<lparr>block_storage := log,
      index_by_txn_hash :=
        fold (\<lambda>(h, pos) m. update_index_by_hash m h pos) (block_entries N block)
          (index_by_txn_hash ds)\<rparr>"
    by (rule fs_insert_blockE)
  show items: "log_contents BA (block_storage ds') = log_contents BA (block_storage ds) @
      replicate (unat (block_height N block) - length (log_contents BA (block_storage ds))) None @
      [Some block]"
    using ledger.put_items [OF bok app room log] ds' by simp
  then show blocks: "fs_blocks BA ds' = fs_blocks BA ds @ [block]" by (simp add: fs_blocks_def)
  show "leaf_storage ds' = leaf_storage ds" using ds' by simp
  have "log_ok BA bp (block_storage ds')"
    using ledger.put_ok [OF bok app room log] ds' by simp
  moreover have "positioned (block_height N) (log_contents BA (block_storage ds'))"
    unfolding items using ok app by (intro positioned_append) (simp_all add: fs_ok_def)
  moreover have "fs_indexed N LA BA ds'"
    unfolding fs_indexed_def blocks transaction_index_snoc
    using ok ds' by (simp add: fs_ok_def fs_indexed_def fs_leaves_def)
  moreover have "\<forall>b \<in> set (fs_blocks BA ds'). payload_indexed N (bq_payload b)"
    unfolding blocks using ok ixd by (auto simp: fs_ok_def)
  moreover have "leaf_storage ds' = leaf_storage ds" using ds' by simp
  ultimately show "fs_ok N LA BA lp bp ds'" using ok by (simp add: fs_ok_def)
qed


section \<open>Commits\<close>

text \<open>Frame of one log's update in the invariant: only the contents of the logs count.\<close>

lemma fs_ok_storage:
  assumes "fs_ok N LA BA lp bp ds"
    and "log_ok LA lp leaves" "log_contents LA leaves = log_contents LA (leaf_storage ds)"
    and "log_ok BA bp blocks" "log_contents BA blocks = log_contents BA (block_storage ds)"
  shows "fs_ok N LA BA lp bp (ds\<lparr>leaf_storage := leaves, block_storage := blocks,
    top_storage := tp\<rparr>)"
  using assms by (simp add: fs_ok_def fs_indexed_def fs_leaves_def fs_blocks_def)

lemma commit_top_storage_frame:
  assumes "commit_top_storage AS ds = (res, ds')"
  obtains tp where "ds' = ds\<lparr>top_storage := tp\<rparr>"
proof (cases "top_storage ds")
  case None
  with assms have "ds' = ds\<lparr>top_storage := top_storage ds\<rparr>" by (simp add: commit_top_storage_def)
  then show thesis by (rule that)
next
  case (Some st)
  with assms have "ds' = ds\<lparr>top_storage := Some (snd (as_commit_version AS st))\<rparr>"
    by (cases "as_commit_version AS st"; cases "fst (as_commit_version AS st)")
      (auto simp: commit_top_storage_def)
  then show thesis by (rule that)
qed

lemma commit_version_ok:
  assumes "log_ok A pend l" "log_fits A l" "commit_version A l = (res, l')"
  shows "log_ok A pend l'" "log_contents A l' = log_contents A l"
  using assms ledger.commit_items [of A pend l _ l'] ledger.commit_failed [of A pend l _ l']
  by (cases res; simp)+

text \<open>
  Whatever part of a commit fails, the contents and the invariant stand; when it succeeds both
  logs are durable.
\<close>

lemma fs_commit_ok:
  assumes ok: "fs_ok N LA BA lp bp ds"
    and fits: "log_fits LA (leaf_storage ds)" "log_fits BA (block_storage ds)"
    and run: "fs_commit LA BA AS ds = (res, ds')"
  shows "fs_ok N LA BA lp bp ds'"
    and "log_contents LA (leaf_storage ds') = log_contents LA (leaf_storage ds)"
    and "log_contents BA (block_storage ds') = log_contents BA (block_storage ds)"
    and "res = Inr () \<Longrightarrow>
      map loaded (al_iter LA (store (leaf_storage ds'))) = log_contents LA (leaf_storage ds) \<and>
      map loaded (al_iter BA (store (block_storage ds'))) = log_contents BA (block_storage ds)"
proof -
  have lok: "log_ok LA lp (leaf_storage ds)" and bok: "log_ok BA bp (block_storage ds)"
    using ok by (simp_all add: fs_ok_def)
  obtain r1 l1 where c1: "commit_version LA (leaf_storage ds) = (r1, l1)" by fastforce
  obtain r2 l2 where c2: "commit_version BA (block_storage ds) = (r2, l2)" by fastforce
  note k1 = commit_version_ok [OF lok fits(1) c1] and k2 = commit_version_ok [OF bok fits(2) c2]
  define both where "both = ds\<lparr>leaf_storage := l1, block_storage := l2\<rparr>"
  have "(\<exists>e. r1 = Inl e \<and> res = Inl e \<and> ds' = ds\<lparr>leaf_storage := l1\<rparr>) \<or>
      (\<exists>e. r1 = Inr () \<and> r2 = Inl e \<and> res = Inl e \<and> ds' = both) \<or>
      (r1 = Inr () \<and> r2 = Inr () \<and> commit_top_storage AS both = (res, ds'))"
    using run c1 c2 by (cases r1; cases r2) (auto simp: fs_commit_def both_def)
  then consider (first) e where "res = Inl e" "ds' = ds\<lparr>leaf_storage := l1\<rparr>"
    | (second) e where "res = Inl e" "ds' = both"
    | (third) tp where "r1 = Inr ()" "r2 = Inr ()" "ds' = both\<lparr>top_storage := tp\<rparr>"
    by (metis commit_top_storage_frame)
  then have "fs_ok N LA BA lp bp ds' \<and>
      log_contents LA (leaf_storage ds') = log_contents LA (leaf_storage ds) \<and>
      log_contents BA (block_storage ds') = log_contents BA (block_storage ds) \<and>
      (res = Inr () \<longrightarrow>
        map loaded (al_iter LA (store (leaf_storage ds'))) = log_contents LA (leaf_storage ds) \<and>
        map loaded (al_iter BA (store (block_storage ds'))) = log_contents BA (block_storage ds))"
  proof cases
    case (first e)
    then show ?thesis
      using fs_ok_storage [OF ok k1 bok refl, of "top_storage ds"] k1
      by simp
  next
    case (second e)
    then show ?thesis
      using fs_ok_storage [OF ok k1 k2, of "top_storage ds"] k1 k2
      by (simp add: both_def)
  next
    case (third tp)
    then show ?thesis
      using fs_ok_storage [OF ok k1 k2, of tp] k1 k2
        ledger.commit_items [OF lok fits(1) c1 [unfolded third(1)]]
        ledger.commit_items [OF bok fits(2) c2 [unfolded third(2)]]
      by (simp add: both_def)
  qed
  then show "fs_ok N LA BA lp bp ds'"
    "log_contents LA (leaf_storage ds') = log_contents LA (leaf_storage ds)"
    "log_contents BA (block_storage ds') = log_contents BA (block_storage ds)"
    "res = Inr () \<Longrightarrow>
      map loaded (al_iter LA (store (leaf_storage ds'))) = log_contents LA (leaf_storage ds) \<and>
      map loaded (al_iter BA (store (block_storage ds'))) = log_contents BA (block_storage ds)"
    by blast+
qed

text \<open>The sizes of the two windows never change.\<close>

definition fs_windows where
  "fs_windows ds = (cache_size (leaf_storage ds), cache_size (block_storage ds))"

lemma fs_insert_leaf_windows:
  assumes "fs_ok N LA BA lp bp ds" and "fs_insert_leaf N LA leaf ds = (Inr u, ds')"
  shows "fs_windows ds' = fs_windows ds"
proof -
  have "log_inv LA lp (leaf_storage ds)" using assms(1) by (simp add: fs_ok_def log_ok_def)
  with assms(2) show ?thesis
    by (auto simp: fs_windows_def elim!: fs_insert_leafE dest: log_insert_frame)
qed

lemma fs_insert_block_windows:
  assumes "fs_ok N LA BA lp bp ds" and "payload_indexed N (bq_payload block)"
    and "fs_insert_block N BA block ds = (Inr u, ds')"
  shows "fs_windows ds' = fs_windows ds"
proof -
  have "log_inv BA bp (block_storage ds)" using assms(1) by (simp add: fs_ok_def log_ok_def)
  with assms(2,3) show ?thesis
    by (auto simp: fs_windows_def elim!: fs_insert_blockE dest: log_insert_frame)
qed

lemma fs_commit_windows:
  assumes ok: "fs_ok N LA BA lp bp ds"
    and fits: "log_fits LA (leaf_storage ds)" "log_fits BA (block_storage ds)"
    and run: "fs_commit LA BA AS ds = (res, ds')"
  shows "fs_windows ds' = fs_windows ds"
proof -
  have lok: "log_ok LA lp (leaf_storage ds)" and bok: "log_ok BA bp (block_storage ds)"
    using ok by (simp_all add: fs_ok_def)
  obtain r1 l1 where c1: "commit_version LA (leaf_storage ds) = (r1, l1)" by fastforce
  obtain r2 l2 where c2: "commit_version BA (block_storage ds) = (r2, l2)" by fastforce
  note sizes = commit_version_size [OF lok fits(1) c1] commit_version_size [OF bok fits(2) c2]
  from run c1 c2 sizes show ?thesis
    by (cases r1; cases r2)
      (auto simp: fs_commit_def fs_windows_def elim: commit_top_storage_frame)
qed

end
