(* ===== verification/FsQueries.thy ===== *)
theory FsQueries
  imports FsDataSourceInv
begin

text \<open>
  What the queries of the file system data source answer under the invariant: reads by number and
  hash on every branch, the earliest block with a transaction, proposals with and without a limit,
  and ranges. The statements are over the contents of the logs.
\<close>

section \<open>Reads\<close>

definition read_entry :: "'a option option \<Rightarrow> query_error + 'a" where
  "read_entry r = (case r of None \<Rightarrow> Inl NotFound | Some x \<Rightarrow> context_opt x Missing)"

lemma read_entry_simps [simp]:
  "read_entry None = Inl NotFound" "read_entry (Some None) = Inl Missing"
  "read_entry (Some (Some x)) = Inr x"
  by (simp_all add: read_entry_def)

lemma read_entry_cases:
  "read_entry r = (case r of None \<Rightarrow> Inl NotFound | Some None \<Rightarrow> Inl Missing | Some (Some x) \<Rightarrow> Inr x)"
  by (simp add: read_entry_def context_opt_def split: option.splits)

lemma and_then_read_entry: "and_then (context_opt r NotFound) (\<lambda>x. context_opt x Missing) = read_entry r"
  by (cases r) (simp_all add: read_entry_def)

lemma log_nth_contents:
  assumes "log_ok A pend l"
  shows "fst (iter_nth (unat (n :: 64 word)) (log_iter A l)) = list_get (log_contents A l) (unat n)"
  by (rule ledger.get_items [OF assms]) simp

lemma fs_get_leaf_number:
  assumes "fs_ok N LA BA lp bp ds"
  shows "fs_get_leaf LA (Number n) ds =
    read_entry (list_get (log_contents LA (leaf_storage ds)) (unat n))"
  using assms log_nth_contents [of LA lp "leaf_storage ds" n]
  by (simp add: fs_get_leaf_def fs_ok_def and_then_read_entry)

lemma fs_get_block_number:
  assumes "fs_ok N LA BA lp bp ds"
  shows "fs_get_block BA (Number n) ds =
    read_entry (list_get (log_contents BA (block_storage ds)) (unat n))"
  using assms log_nth_contents [of BA bp "block_storage ds" n]
  by (simp add: fs_get_block_def fs_ok_def and_then_read_entry)

lemma fs_get_leaf_stored:
  assumes ok: "fs_ok N LA BA lp bp ds" and leaf: "leaf \<in> set (fs_leaves LA ds)"
  shows "fs_get_leaf LA (Number (leaf_height N leaf)) ds = Inr leaf"
  unfolding fs_get_leaf_number [OF ok]
  using positioned_get [of "leaf_height N" _ leaf] ok leaf by (simp add: fs_ok_def fs_leaves_def)

lemma fs_get_block_stored:
  assumes ok: "fs_ok N LA BA lp bp ds" and b: "b \<in> set (fs_blocks BA ds)"
  shows "fs_get_block BA (Number (block_height N b)) ds = Inr b"
  unfolding fs_get_block_number [OF ok]
  using positioned_get [of "block_height N" _ b] ok b by (simp add: fs_ok_def fs_blocks_def)

lemma fs_index_by_leaf_hash:
  assumes "fs_ok N LA BA lp bp ds"
  shows "index_by_leaf_hash ds = fst (index_leaves N (fs_leaves LA ds))"
    and "index_by_block_hash ds = fst (snd (index_leaves N (fs_leaves LA ds)))"
    and "index_by_proposer_id ds = snd (snd (index_leaves N (fs_leaves LA ds)))"
    and "index_by_txn_hash ds = transaction_index N (fs_blocks BA ds)"
proof -
  have "index_leaves N (fs_leaves LA ds) =
      (index_by_leaf_hash ds, index_by_block_hash ds, index_by_proposer_id ds)"
    using assms by (simp add: fs_ok_def fs_indexed_def)
  then show "index_by_leaf_hash ds = fst (index_leaves N (fs_leaves LA ds))"
    "index_by_block_hash ds = fst (snd (index_leaves N (fs_leaves LA ds)))"
    "index_by_proposer_id ds = snd (snd (index_leaves N (fs_leaves LA ds)))"
    by simp_all
  show "index_by_txn_hash ds = transaction_index N (fs_blocks BA ds)"
    using assms by (simp add: fs_ok_def fs_indexed_def)
qed

lemma fs_get_leaf_by_hash:
  assumes ok: "fs_ok N LA BA lp bp ds"
  shows "case fs_get_leaf LA (Hash h) ds of
      Inr leaf \<Rightarrow> leaf \<in> set (fs_leaves LA ds) \<and> leaf_hash N leaf = h
    | Inl e \<Rightarrow> e = NotFound \<and> h \<notin> leaf_hash N ` set (fs_leaves LA ds)"
proof (cases "index_by_leaf_hash ds h")
  case None
  then show ?thesis
    using index_leaves_by_leaf_None [of N "fs_leaves LA ds" h]
    by (simp add: fs_get_leaf_def fs_index_by_leaf_hash [OF ok])
next
  case (Some n)
  then obtain leaf where leaf: "leaf \<in> set (fs_leaves LA ds)" "leaf_hash N leaf = h"
      "leaf_height N leaf = n"
    using index_leaves_by_leaf [of N "fs_leaves LA ds" h n]
    by (auto simp: fs_index_by_leaf_hash [OF ok])
  have "fs_get_leaf LA (Hash h) ds = fs_get_leaf LA (Number n) ds"
    using Some by (simp add: fs_get_leaf_def)
  also have "\<dots> = Inr leaf" using fs_get_leaf_stored [OF ok leaf(1)] leaf(3) by simp
  finally show ?thesis using leaf by simp
qed

text \<open>A block hash resolves to the block at the least height whose leaf has that hash.\<close>

lemma fs_get_block_by_hash:
  assumes ok: "fs_ok N LA BA lp bp ds"
    and leaf: "leaf \<in> set (fs_leaves LA ds)" "leaf_block_hash N leaf = h"
    and least: "\<And>leaf'. leaf' \<in> set (fs_leaves LA ds) \<Longrightarrow> leaf_block_hash N leaf' = h \<Longrightarrow>
      leaf_height N leaf \<le> leaf_height N leaf'"
  shows "fs_get_block BA (Hash h) ds = fs_get_block BA (Number (leaf_height N leaf)) ds"
proof -
  have "index_by_block_hash ds h = Some (leaf_height N leaf)"
    unfolding fs_index_by_leaf_hash(2) [OF ok] index_leaves_by_block using leaf least by auto
  then show ?thesis by (simp add: fs_get_block_def)
qed

section \<open>Transactions\<close>

lemma block_entries_iff:
  "(h, pos) \<in> set (block_entries N b) \<longleftrightarrow>
     (\<exists>ix tx. (ix, tx) \<in> set (payload_transactions N (bq_payload b)) \<and> tx_commit N tx = h \<and>
        pos = (block_height N b, ix))"
  by (force simp: block_entries_def)

lemma fs_get_block_with_transaction_index:
  assumes ok: "fs_ok N LA BA lp bp ds"
    and b: "b \<in> set (fs_blocks BA ds)" and ix: "index_by_txn_hash ds h = Some (block_height N b, ix)"
  shows "fs_get_block_with_transaction BA h ds = Inr (b, ix)"
  using ix by (simp add: fs_get_block_with_transaction_def fs_get_block_stored [OF ok b])

lemma transaction_index_None:
  "transaction_index N blocks h = None \<longleftrightarrow>
     (\<forall>b \<in> set blocks. \<forall>pos. (h, pos) \<notin> set (block_entries N b))"
  unfolding transaction_index_def
  using hash_index.lookup_fold_None [where m = Map.empty and k = h
      and xs = "concat (map (block_entries N) blocks)"]
  by (force simp: image_iff)

lemma fs_get_block_with_transaction_found:
  assumes ok: "fs_ok N LA BA lp bp ds"
  shows "case fs_get_block_with_transaction BA h ds of
      Inr (b, ix) \<Rightarrow> b \<in> set (fs_blocks BA ds) \<and> (h, (block_height N b, ix)) \<in> set (block_entries N b) \<and>
        (\<forall>b' \<in> set (fs_blocks BA ds). \<forall>pos. (h, pos) \<in> set (block_entries N b') \<longrightarrow>
           (block_height N b, ix) \<le> pos)
    | Inl e \<Rightarrow> e = NotFound \<and> (\<forall>b \<in> set (fs_blocks BA ds). \<forall>pos. (h, pos) \<notin> set (block_entries N b))"
proof (cases "index_by_txn_hash ds h")
  case None
  then have "transaction_index N (fs_blocks BA ds) h = None"
    by (simp add: fs_index_by_leaf_hash(4) [OF ok])
  then have "\<forall>b \<in> set (fs_blocks BA ds). \<forall>pos. (h, pos) \<notin> set (block_entries N b)"
    by (simp only: transaction_index_None)
  then show ?thesis using None by (simp add: fs_get_block_with_transaction_def)
next
  case (Some pos)
  then have tix: "transaction_index N (fs_blocks BA ds) h = Some pos"
    by (simp add: fs_index_by_leaf_hash(4) [OF ok])
  then obtain b where b: "b \<in> set (fs_blocks BA ds)" "(h, pos) \<in> set (block_entries N b)"
    by (auto simp: transaction_index_Some)
  then obtain ix where pos: "pos = (block_height N b, ix)" by (auto simp: block_entries_iff)
  have "\<forall>b' \<in> set (fs_blocks BA ds). \<forall>pos'. (h, pos') \<in> set (block_entries N b') \<longrightarrow> pos \<le> pos'"
    using tix by (auto simp: transaction_index_Some)
  then show ?thesis
    using fs_get_block_with_transaction_index [OF ok b(1)] Some b pos by simp
qed

section \<open>Proposals\<close>

definition proposals_by where
  "proposals_by N LA proposer ds =
     filter (\<lambda>leaf. leaf_proposer N leaf = proposer) (fs_leaves LA ds)"

lemma fs_proposal_heights:
  assumes "fs_ok N LA BA lp bp ds"
  shows "(case index_by_proposer_id ds pk of Some ids \<Rightarrow> ids | None \<Rightarrow> []) =
    map (leaf_height N) (proposals_by N LA pk ds)"
  unfolding fs_index_by_leaf_hash(3) [OF assms] proposals_by_def
  using index_leaves_by_proposer [of N "fs_leaves LA ds" pk]
  by (simp add: proposals_of_def option.case_eq_if)

lemma fs_get_proposals_eq:
  assumes ok: "fs_ok N LA BA lp bp ds"
  shows "fs_get_proposals LA pk limit ds =
    Inr (drop (case limit of Some k \<Rightarrow> length (proposals_by N LA pk ds) - unat k | None \<Rightarrow> 0)
           (proposals_by N LA pk ds))"
proof -
  let ?P = "proposals_by N LA pk ds"
  have eq: "map (\<lambda>height. fs_get_leaf LA (Number height) ds) (drop k (map (leaf_height N) ?P))
      = map Inr (drop k ?P)" for k
    using fs_get_leaf_stored [OF ok]
    by (auto simp: drop_map proposals_by_def dest: in_set_dropD)
  show ?thesis
    unfolding fs_get_proposals_def fs_proposal_heights [OF ok] Let_def eq try_collect_ok length_map
    by (rule refl)
qed

lemma fs_count_proposals_eq:
  assumes "fs_ok N LA BA lp bp ds"
  shows "fs_count_proposals pk ds = Inr (length (proposals_by N LA pk ds))"
  using arg_cong [OF fs_proposal_heights [OF assms, of pk], of length]
  by (simp add: fs_count_proposals_def split: option.splits)

section \<open>Ranges\<close>

fun range_from :: "64 word bound \<Rightarrow> nat" where
  "range_from (Included n) = unat n"
| "range_from (Excluded n) = unat n + 1"
| "range_from Unbounded = 0"

fun range_until :: "nat \<Rightarrow> 64 word bound \<Rightarrow> nat" where
  "range_until len (Included n) = min len (unat n + 1)"
| "range_until len (Excluded n) = min len (unat n)"
| "range_until len Unbounded = len"

lemma range_start_at:
  assumes "start \<noteq> Excluded (- 1)"
  shows "it_at A l (range_from start) (fst (range_start (log_iter A l) start))"
    and "unat (snd (range_start (log_iter A l) start)) = range_from start"
proof -
  have "it_at A l (range_from start) (fst (range_start (log_iter A l) start)) \<and>
    unat (snd (range_start (log_iter A l) start)) = range_from start"
  proof (cases start)
    case (Included n)
    show ?thesis
    proof (cases "n = 0")
      case True
      then show ?thesis using Included by (simp add: range_start_def)
    next
      case False
      then have pred: "unat (n - 1) + 1 = unat n"
        by (rule unat_minus_one_64)
      have "0 + unat (n - 1) + 1 < 2 ^ 64" using pred unat_less_64 [of n] by simp
      from iter_nth_at [OF it_at_start this, of A l]
      show ?thesis using Included False pred
        by (simp add: range_start_def word_gt_0)
    qed
  next
    case (Excluded n)
    with assms have "n \<noteq> - 1" by simp
    then have n: "unat (n + 1) = unat n + 1"
      by (rule unat_plus_one_max_64)
    have b: "0 + unat n + 1 < 2 ^ 64" using n unat_less_64 [of "n + 1"] by simp
    from iter_nth_at [OF it_at_start b, of A l]
    show ?thesis using Excluded n by (simp add: range_start_def)
  next
    case Unbounded
    then show ?thesis by (simp add: range_start_def)
  qed
  then show "it_at A l (range_from start) (fst (range_start (log_iter A l) start))"
    and "unat (snd (range_start (log_iter A l) start)) = range_from start" by auto
qed

lemma reached_end_iff:
  assumes "unat pos < len"
  shows "reached_end end_bound pos \<longleftrightarrow> range_until len end_bound \<le> unat pos"
  using assms by (cases end_bound) (auto simp: reached_end_def word_less_nat_alt word_le_nat_alt)

lemma range_next_end:
  assumes vis: "log_visible A l" and at: "it_at A l (unat pos) it"
    and stop: "range_until (length (log_contents A l)) end_bound \<le> unat pos"
  shows "range_next end_bound (it, pos) = None"
proof (cases "unat pos < length (log_contents A l)")
  case True
  then show ?thesis using stop by (simp add: range_next_def reached_end_iff)
next
  case False
  have "fst (iter_nth 0 it) = None"
    using iter_nth_result [OF vis at, of 0] False by simp
  then show ?thesis by (cases "iter_nth 0 it") (simp add: range_next_def)
qed

lemma range_stream_contents:
  assumes vis: "log_visible A l" and fits: "log_fits A l" and start: "start \<noteq> Excluded (- 1)"
  shows "range_stream (log_iter A l) start end_bound =
    Some (map (\<lambda>x. context_opt x Missing)
      (take (range_until (length (log_contents A l)) end_bound - range_from start)
        (drop (range_from start) (log_contents A l))))"
proof -
  let ?C = "log_contents A l" and ?s = "range_from start"
  let ?e = "range_until (length ?C) end_bound"
  let ?xs = "map (\<lambda>x. context_opt x Missing) (take (?e - ?s) (drop ?s ?C))"
  have len: "length ?C + 1 < 2 ^ 64"
    using fits by (simp add: log_fits_def length_log_contents [OF vis])
  have e: "?e \<le> length ?C" by (cases end_bound) simp_all
  have "collect (range_next end_bound) (range_start (log_iter A l) start) = Some (drop 0 ?xs)"
  proof (rule collect_list [where at = "\<lambda>i (it, pos :: 64 word). unat pos = ?s + i \<and> it_at A l (?s + i) it"])
    fix i st
    assume st: "case st of (it, pos :: 64 word) \<Rightarrow> unat pos = ?s + i \<and> it_at A l (?s + i) it"
      and i: "i < length ?xs"
    obtain it and pos :: "64 word" where [simp]: "st = (it, pos)" by fastforce
    have pos: "unat pos = ?s + i" and at: "it_at A l (?s + i) it" using st by simp_all
    have in_range: "?s + i < ?e" "?s + i < length ?C" using i e by auto
    have b: "?s + i + 0 + 1 < 2 ^ 64" using in_range len by simp
    obtain it' where it': "iter_nth 0 it = (list_get ?C (?s + i + 0), it')"
        "it_at A l (Suc (?s + i + 0)) it'"
      by (rule iter_nthE [OF vis at b])
    have "unat (pos + 1) = unat pos + 1"
      using pos in_range(2) len by (intro unat_plus_one_64) simp
    moreover have "\<not> reached_end end_bound pos"
      using reached_end_iff [of pos "length ?C" end_bound] pos in_range by simp
    ultimately show "\<exists>s'. range_next end_bound st = Some (?xs ! i, s') \<and>
        (case s' of (it, pos) \<Rightarrow> unat pos = ?s + Suc i \<and> it_at A l (?s + Suc i) it)"
      using it' pos in_range i by (simp add: range_next_def list_get_def)
  next
    fix st
    assume st: "case st of (it, pos :: 64 word) \<Rightarrow> unat pos = ?s + length ?xs \<and> it_at A l (?s + length ?xs) it"
    obtain it and pos :: "64 word" where [simp]: "st = (it, pos)" by fastforce
    have at: "it_at A l (unat pos) it" and pos: "unat pos = ?s + length ?xs" using st by simp_all
    have "?e \<le> unat pos" unfolding pos using e by auto
    then show "range_next end_bound st = None" using range_next_end [OF vis at] by simp
  next
    show "case range_start (log_iter A l) start of
        (it, pos) \<Rightarrow> unat pos = ?s + 0 \<and> it_at A l (?s + 0) it"
      using range_start_at [OF start, where A = A and l = l]
      by (cases "range_start (log_iter A l) start") simp
  qed simp
  then show ?thesis by (simp add: range_stream_def)
qed

end
