(* ===== verification/FsLife.thy ===== *)
theory FsLife
  imports FsQueries
begin

text \<open>
  The life of a file system data source: creating it, opening it from storage, committing and
  reopening, and what reverting leaves behind.
\<close>

section \<open>A fresh or reopened log\<close>

lemma log_start_ok:
  assumes "append_log_laws A pend" and "log_start A l"
  shows "log_ok A pend l"
  using assms log_start_state [OF assms] by (simp add: log_ok_def)

lemma log_create_ok:
  assumes laws: "append_log_laws A pend" and run: "log_create A ld f sz = (Inr l, ld')"
    and sz: "0 < sz"
  shows "log_ok A pend l" and "log_contents A l = []" and "pending_inserts l = 0"
    and "cache_size l = sz" and "log_len A l = 0"
proof -
  show ok: "log_ok A pend l"
    by (rule log_start_ok [OF laws]) (rule log_start.created [OF run sz])
  show c: "log_contents A l = []" "pending_inserts l = 0" "cache_size l = sz"
    using log_create_state [OF laws run] by simp_all
  show "log_len A l = 0" using ledger.len_items [OF ok] c by simp
qed

lemma log_open_ok:
  assumes laws: "append_log_laws A pend" and load: "al_load A ld f log_file_size = (Inr st, ld')"
    and sz: "0 < sz"
  obtains l where "log_open A ld f sz = (Inr l, ld')" "log_ok A pend l"
    "log_contents A l = map loaded (al_iter A st)" "pending_inserts l = 0" "cache_size l = sz"
    "store l = st" "log_len A l = length (al_iter A st)"
proof -
  let ?l = "\<lparr>cache_start = length (al_iter A st) - sz, cache_size = sz,
          cache = map loaded (drop (length (al_iter A st) - sz) (al_iter A st)), store = st,
          pending_inserts = 0, stream = [],
          stream_pos = length (available_prefix (map loaded (al_iter A st)))\<rparr>"
  have run: "log_open A ld f sz = (Inr ?l, ld')" by (rule log_open_eq [OF load])
  have ok: "log_ok A pend ?l"
    by (rule log_start_ok [OF laws]) (rule log_start.opened [OF run sz])
  have "log_contents A ?l = map loaded (al_iter A st)"
    by (simp add: log_contents_def flip: map_append)
  then show thesis
    using that [OF run ok] ledger.len_items [OF ok] by simp
qed

lemma log_fits_len: "log_fits A l \<longleftrightarrow> log_len A l + 1 < 2 ^ 64"
  by (simp add: log_fits_def log_len_eq)

lemma log_ok_objects:
  "log_ok A pend l \<Longrightarrow> log_len A l + 1 < 2 ^ 64 \<Longrightarrow>
     log_objects A l = Some (present (log_contents A l))"
  by (rule log_objects_contents) (simp_all add: log_ok_def log_fits_len)

section \<open>Genesis\<close>

text \<open>What the genesis objects of HotShot promise: height 0 and a payload that can be indexed.\<close>

definition genesis_at_zero where
  "genesis_at_zero N \<longleftrightarrow>
     leaf_height N (leaf_query_data_genesis N) = 0 \<and>
     block_height N (block_query_data_genesis N) = 0 \<and>
     payload_indexed N (bq_payload (block_query_data_genesis N))"

lemma fs_insert_genesis_present:
  assumes "log_len LA (leaf_storage ds) \<noteq> 0"
  shows "fs_insert_genesis N LA BA AS ds = (Inr (), ds)"
  using assms by (simp add: fs_insert_genesis_def fs_block_height_def)

text \<open>An empty data source: genesis is inserted at position 0 of both logs and committed.\<close>

lemma fs_insert_genesis_empty:
  assumes ok: "fs_ok N LA BA lp bp ds" and gen: "genesis_at_zero N"
    and empty: "log_contents LA (leaf_storage ds) = []" "log_contents BA (block_storage ds) = []"
    and window: "pending_inserts (leaf_storage ds) < cache_size (leaf_storage ds)"
      "pending_inserts (block_storage ds) < cache_size (block_storage ds)"
    and run: "fs_insert_genesis N LA BA AS ds = (Inr u, ds')"
  shows "fs_ok N LA BA lp bp ds'" and "fs_leaves LA ds' = [leaf_query_data_genesis N]"
    and "fs_blocks BA ds' = [block_query_data_genesis N]"
    and "log_len LA (leaf_storage ds') = 1"
    and "map loaded (al_iter LA (store (leaf_storage ds'))) = [Some (leaf_query_data_genesis N)]"
    and "map loaded (al_iter BA (store (block_storage ds'))) = [Some (block_query_data_genesis N)]"
    and "fs_windows ds' = fs_windows ds"
    and "log_contents LA (leaf_storage ds') = [Some (leaf_query_data_genesis N)]"
    and "log_contents BA (block_storage ds') = [Some (block_query_data_genesis N)]"
proof -
  let ?leaf = "leaf_query_data_genesis N" and ?block = "block_query_data_genesis N"
  have lok: "log_ok LA lp (leaf_storage ds)" and bok: "log_ok BA bp (block_storage ds)"
    using ok by (simp_all add: fs_ok_def)
  have len: "log_len LA (leaf_storage ds) = 0" "log_len BA (block_storage ds) = 0"
    using ledger.len_items [OF lok] ledger.len_items [OF bok] empty by simp_all
  have g: "unat (leaf_height N ?leaf) = 0" "unat (block_height N ?block) = 0"
    "payload_indexed N (bq_payload ?block)"
    using gen by (simp_all add: genesis_at_zero_def)
  obtain ds1 ds2 where ins: "fs_insert_leaf N LA ?leaf ds = (Inr (), ds1)"
      "fs_insert_block N BA ?block ds1 = (Inr (), ds2)" and com: "fs_commit LA BA AS ds2 = (Inr u, ds')"
    using run len by (auto simp: fs_insert_genesis_def fs_block_height_def attempt_ok)
  have room1: "log_room (leaf_storage ds) (log_len LA (leaf_storage ds)) (unat (leaf_height N ?leaf))"
    using window(1) g by (simp add: log_room_def)
  have app1: "length (log_contents LA (leaf_storage ds)) \<le> unat (leaf_height N ?leaf)"
    using empty by simp
  note one = fs_insert_leaf_ok [OF ok app1 room1 ins(1)]
  have leaf1: "log_contents LA (leaf_storage ds1) = [Some ?leaf]" using one(4) empty g by simp
  have room2: "log_room (block_storage ds1) (log_len BA (block_storage ds1))
      (unat (block_height N ?block))"
    using window(2) g one(3) by (simp add: log_room_def)
  have app2: "length (log_contents BA (block_storage ds1)) \<le> unat (block_height N ?block)"
    using empty one(3) by simp
  note two = fs_insert_block_ok [OF one(1) g(3) app2 room2 ins(2)]
  have leaf2: "log_contents LA (leaf_storage ds2) = [Some ?leaf]" using leaf1 two(3) by simp
  have block2: "log_contents BA (block_storage ds2) = [Some ?block]"
    using two(4) empty one(3) g by simp
  have lok2: "log_ok LA lp (leaf_storage ds2)" and bok2: "log_ok BA bp (block_storage ds2)"
    using two(1) by (simp_all add: fs_ok_def)
  have fits: "log_fits LA (leaf_storage ds2)" "log_fits BA (block_storage ds2)"
    using ledger.len_items [OF lok2] ledger.len_items [OF bok2] leaf2 block2
    by (simp_all add: log_fits_len)
  note three = fs_commit_ok [OF two(1) fits com]
  show "fs_ok N LA BA lp bp ds'" by (rule three(1))
  show "fs_windows ds' = fs_windows ds"
    using fs_insert_leaf_windows [OF ok ins(1)] fs_insert_block_windows [OF one(1) g(3) ins(2)]
      fs_commit_windows [OF two(1) fits com] by simp
  show "log_contents LA (leaf_storage ds') = [Some ?leaf]"
    "log_contents BA (block_storage ds') = [Some ?block]"
    using three(2,3) leaf2 block2 by simp_all
  show "fs_leaves LA ds' = [?leaf]" using three(2) leaf2 by (simp add: fs_leaves_def)
  show "fs_blocks BA ds' = [?block]" using three(3) block2 by (simp add: fs_blocks_def)
  show d: "map loaded (al_iter LA (store (leaf_storage ds'))) = [Some ?leaf]"
    "map loaded (al_iter BA (store (block_storage ds'))) = [Some ?block]"
    using three(4) leaf2 block2 by simp_all
  have "log_ok LA lp (leaf_storage ds')" using three(1) by (simp add: fs_ok_def)
  then show "log_len LA (leaf_storage ds') = 1"
    using ledger.len_items three(2) leaf2 by fastforce
qed

section \<open>Creating and opening\<close>

lemma log_create_size: "log_create A ld f n = (Inr l, ld') \<Longrightarrow> cache_size l = n"
  by (auto simp: log_create_def attempt_ok)

definition fs_initial where
  "fs_initial leaves blocks metrics0 =
     \<lparr>index_by_leaf_hash = Map.empty, index_by_block_hash = Map.empty,
      index_by_txn_hash = Map.empty, index_by_proposer_id = Map.empty,
      top_storage = None, leaf_storage = leaves, block_storage = blocks, fs_metrics = metrics0\<rparr>"

lemma fs_initial_ok:
  assumes "log_ok LA lp leaves" "log_ok BA bp blocks"
    and "log_contents LA leaves = []" "log_contents BA blocks = []"
  shows "fs_ok N LA BA lp bp (fs_initial leaves blocks metrics0)"
  using assms
  by (simp add: fs_ok_def fs_initial_def fs_leaves_def fs_blocks_def fs_indexed_def
      index_leaves_def transaction_index_def)

lemma fs_create_with_store_ok:
  assumes laws: "append_log_laws LA lp" "append_log_laws BA bp" and gen: "genesis_at_zero N"
    and run: "fs_create_with_store N LA BA AS metrics0 ld = (Inr ds, ld')"
  shows "fs_ok N LA BA lp bp ds" and "fs_leaves LA ds = [leaf_query_data_genesis N]"
    and "fs_blocks BA ds = [block_query_data_genesis N]" and "log_len LA (leaf_storage ds) = 1"
    and "map loaded (al_iter LA (store (leaf_storage ds))) = [Some (leaf_query_data_genesis N)]"
    and "map loaded (al_iter BA (store (block_storage ds))) = [Some (block_query_data_genesis N)]"
    and "fs_windows ds = (cached_leaves_count, cached_blocks_count)"
    and "log_contents LA (leaf_storage ds) = [Some (leaf_query_data_genesis N)]"
    and "log_contents BA (block_storage ds) = [Some (block_query_data_genesis N)]"
proof -
  obtain leaves ld1 blocks where
    l: "log_create LA ld ''leaves'' cached_leaves_count = (Inr leaves, ld1)" and
    b: "log_create BA ld1 ''blocks'' cached_blocks_count = (Inr blocks, ld')" and
    g: "fs_insert_genesis N LA BA AS (fs_initial leaves blocks metrics0) = (Inr (), ds)"
    using run by (auto simp: fs_create_with_store_def attempt_ok Let_def built_ok fs_initial_def)
  have sz: "0 < cached_leaves_count" "0 < cached_blocks_count"
    by (simp_all add: cached_leaves_count_def cached_blocks_count_def)
  note L = log_create_ok [OF laws(1) l sz(1)] and B = log_create_ok [OF laws(2) b sz(2)]
  have ok: "fs_ok N LA BA lp bp (fs_initial leaves blocks metrics0)"
    by (rule fs_initial_ok [OF L(1) B(1) L(2) B(2)])
  have "log_contents LA (leaf_storage (fs_initial leaves blocks metrics0)) = []"
    "log_contents BA (block_storage (fs_initial leaves blocks metrics0)) = []"
    "pending_inserts (leaf_storage (fs_initial leaves blocks metrics0))
       < cache_size (leaf_storage (fs_initial leaves blocks metrics0))"
    "pending_inserts (block_storage (fs_initial leaves blocks metrics0))
       < cache_size (block_storage (fs_initial leaves blocks metrics0))"
    using L B sz by (simp_all add: fs_initial_def)
  note G = fs_insert_genesis_empty [OF ok gen this g]
  show "fs_ok N LA BA lp bp ds" "fs_leaves LA ds = [leaf_query_data_genesis N]"
    "fs_blocks BA ds = [block_query_data_genesis N]" "log_len LA (leaf_storage ds) = 1"
    "map loaded (al_iter LA (store (leaf_storage ds))) = [Some (leaf_query_data_genesis N)]"
    "map loaded (al_iter BA (store (block_storage ds))) = [Some (block_query_data_genesis N)]"
    "log_contents LA (leaf_storage ds) = [Some (leaf_query_data_genesis N)]"
    "log_contents BA (block_storage ds) = [Some (block_query_data_genesis N)]"
    by (fact G)+
  show "fs_windows ds = (cached_leaves_count, cached_blocks_count)"
    using G(7) log_create_size [OF l] log_create_size [OF b] by (simp add: fs_windows_def fs_initial_def)
qed

text \<open>Opening: the indices are computed from the stored contents.\<close>

definition fs_reopened where
  "fs_reopened N leaves blocks leaf_objects block_objects metrics0 =
     (case index_leaves N leaf_objects of (by_leaf, by_block, by_proposer) \<Rightarrow>
        \<lparr>index_by_leaf_hash = by_leaf, index_by_block_hash = by_block,
         index_by_txn_hash = transaction_index N block_objects,
         index_by_proposer_id = by_proposer, top_storage = None,
         leaf_storage = leaves, block_storage = blocks, fs_metrics = metrics0\<rparr>)"

lemma fs_open_with_store_eq:
  assumes "log_open LA ld ''leaves'' cached_leaves_count = (Inr leaves, ld1)"
    and "log_open BA ld1 ''blocks'' cached_blocks_count = (Inr blocks, ld2)"
    and "log_objects LA leaves = Some leaf_objects"
    and "log_objects BA blocks = Some block_objects"
    and "\<And>b. b \<in> set block_objects \<Longrightarrow> payload_indexed N (bq_payload b)"
  shows "fs_open_with_store N LA BA AS metrics0 ld =
    built (fs_insert_genesis N LA BA AS
      (fs_reopened N leaves blocks leaf_objects block_objects metrics0)) ld2"
  using assms
  by (simp add: fs_open_with_store_def index_blocks_fold fs_reopened_def transaction_index_def
      Let_def split: prod.splits)

lemma fs_open_with_store_stored:
  assumes laws: "append_log_laws LA lp" "append_log_laws BA bp"
    and load: "al_load LA ld ''leaves'' log_file_size = (Inr ls, ld1)"
      "al_load BA ld1 ''blocks'' log_file_size = (Inr bs, ld2)"
    and stored: "map loaded (al_iter LA ls) = lxs" "map loaded (al_iter BA bs) = bxs"
    and fits: "length lxs + 1 < 2 ^ 64" "length bxs + 1 < 2 ^ 64"
    and nonempty: "lxs \<noteq> []"
    and pos: "positioned (leaf_height N) lxs" "positioned (block_height N) bxs"
    and ixd: "\<And>b. Some b \<in> set bxs \<Longrightarrow> payload_indexed N (bq_payload b)"
  obtains ds where "fs_open_with_store N LA BA AS metrics0 ld = (Inr ds, ld2)"
    "fs_ok N LA BA lp bp ds" "log_contents LA (leaf_storage ds) = lxs"
    "log_contents BA (block_storage ds) = bxs"
proof -
  have sz: "0 < cached_leaves_count" "0 < cached_blocks_count"
    by (simp_all add: cached_leaves_count_def cached_blocks_count_def)
  obtain leaves where L: "log_open LA ld ''leaves'' cached_leaves_count = (Inr leaves, ld1)"
      "log_ok LA lp leaves" "log_contents LA leaves = map loaded (al_iter LA ls)"
      "log_len LA leaves = length (al_iter LA ls)"
    by (rule log_open_ok [OF laws(1) load(1) sz(1)])
  obtain blocks where B: "log_open BA ld1 ''blocks'' cached_blocks_count = (Inr blocks, ld2)"
      "log_ok BA bp blocks" "log_contents BA blocks = map loaded (al_iter BA bs)"
      "log_len BA blocks = length (al_iter BA bs)"
    by (rule log_open_ok [OF laws(2) load(2) sz(2)])
  have len: "log_len LA leaves = length lxs" "log_len BA blocks = length bxs"
    using L(4) B(4) stored by auto
  have objs: "log_objects LA leaves = Some (present lxs)" "log_objects BA blocks = Some (present bxs)"
    using log_ok_objects [OF L(2)] log_ok_objects [OF B(2)] L(3) B(3) stored fits len
    by simp_all
  let ?ds = "fs_reopened N leaves blocks (present lxs) (present bxs) metrics0"
  have storage: "leaf_storage ?ds = leaves" "block_storage ?ds = blocks"
    by (simp_all add: fs_reopened_def split: prod.splits)
  have gen: "fs_insert_genesis N LA BA AS ?ds = (Inr (), ?ds)"
    using len nonempty by (intro fs_insert_genesis_present) (simp add: storage)
  have "fs_open_with_store N LA BA AS metrics0 ld = built (fs_insert_genesis N LA BA AS ?ds) ld2"
    by (rule fs_open_with_store_eq [OF L(1) B(1) objs]) (simp add: ixd)
  then have "fs_open_with_store N LA BA AS metrics0 ld = (Inr ?ds, ld2)" by (simp add: gen)
  moreover have "fs_indexed N LA BA ?ds"
    unfolding fs_indexed_def fs_leaves_def fs_blocks_def storage L(3) B(3) stored
    by (simp add: fs_reopened_def split: prod.splits)
  then have "fs_ok N LA BA lp bp ?ds"
    using L B stored pos ixd by (simp add: fs_ok_def storage fs_blocks_def)
  ultimately show thesis using that L(3) B(3) stored storage by metis
qed

text \<open>Opening an empty store: like creating it.\<close>

lemma fs_open_with_store_empty:
  assumes laws: "append_log_laws LA lp" "append_log_laws BA bp" and gen: "genesis_at_zero N"
    and load: "al_load LA ld ''leaves'' log_file_size = (Inr ls, ld1)"
      "al_load BA ld1 ''blocks'' log_file_size = (Inr bs, ld2)"
    and empty: "al_iter LA ls = []" "al_iter BA bs = []"
    and run: "fs_open_with_store N LA BA AS metrics0 ld = (Inr ds, ld3)"
  shows "fs_ok N LA BA lp bp ds"
    and "map loaded (al_iter LA (store (leaf_storage ds))) = [Some (leaf_query_data_genesis N)]"
    and "map loaded (al_iter BA (store (block_storage ds))) = [Some (block_query_data_genesis N)]"
    and "fs_windows ds = (cached_leaves_count, cached_blocks_count)"
    and "log_contents LA (leaf_storage ds) = [Some (leaf_query_data_genesis N)]"
    and "log_contents BA (block_storage ds) = [Some (block_query_data_genesis N)]"
proof -
  have sz: "0 < cached_leaves_count" "0 < cached_blocks_count"
    by (simp_all add: cached_leaves_count_def cached_blocks_count_def)
  obtain leaves where L: "log_open LA ld ''leaves'' cached_leaves_count = (Inr leaves, ld1)"
      "log_ok LA lp leaves" "log_contents LA leaves = []" "pending_inserts leaves = 0"
      "cache_size leaves = cached_leaves_count" "log_len LA leaves = 0"
    by (rule log_open_ok [OF laws(1) load(1) sz(1)]) (simp add: empty)
  obtain blocks where B: "log_open BA ld1 ''blocks'' cached_blocks_count = (Inr blocks, ld2)"
      "log_ok BA bp blocks" "log_contents BA blocks = []" "pending_inserts blocks = 0"
      "cache_size blocks = cached_blocks_count" "log_len BA blocks = 0"
    by (rule log_open_ok [OF laws(2) load(2) sz(2)]) (simp add: empty)
  have objs: "log_objects LA leaves = Some []" "log_objects BA blocks = Some []"
    using log_ok_objects [OF L(2)] log_ok_objects [OF B(2)] L(3,6) B(3,6) by simp_all
  have "fs_open_with_store N LA BA AS metrics0 ld
      = built (fs_insert_genesis N LA BA AS (fs_initial leaves blocks metrics0)) ld2"
    by (simp add: fs_open_with_store_def L(1) B(1) objs index_leaves_def fs_initial_def)
  with run have g: "fs_insert_genesis N LA BA AS (fs_initial leaves blocks metrics0) = (Inr (), ds)"
    by (simp add: built_ok)
  have ok: "fs_ok N LA BA lp bp (fs_initial leaves blocks metrics0)"
    by (rule fs_initial_ok [OF L(2) B(2) L(3) B(3)])
  have "log_contents LA (leaf_storage (fs_initial leaves blocks metrics0)) = []"
    "log_contents BA (block_storage (fs_initial leaves blocks metrics0)) = []"
    "pending_inserts (leaf_storage (fs_initial leaves blocks metrics0))
       < cache_size (leaf_storage (fs_initial leaves blocks metrics0))"
    "pending_inserts (block_storage (fs_initial leaves blocks metrics0))
       < cache_size (block_storage (fs_initial leaves blocks metrics0))"
    using L B sz by (simp_all add: fs_initial_def)
  note G = fs_insert_genesis_empty [OF ok gen this g]
  show "fs_ok N LA BA lp bp ds"
    "map loaded (al_iter LA (store (leaf_storage ds))) = [Some (leaf_query_data_genesis N)]"
    "map loaded (al_iter BA (store (block_storage ds))) = [Some (block_query_data_genesis N)]"
    "log_contents LA (leaf_storage ds) = [Some (leaf_query_data_genesis N)]"
    "log_contents BA (block_storage ds) = [Some (block_query_data_genesis N)]"
    by (fact G)+
  show "fs_windows ds = (cached_leaves_count, cached_blocks_count)"
    using G(7) L(5) B(5) by (simp add: fs_windows_def fs_initial_def)
qed

text \<open>
  Commit, then reopen: the new data source has the contents and the four indices of the old one.
\<close>

lemma fs_commit_reopen:
  assumes laws: "append_log_laws LA lp" "append_log_laws BA bp"
    and ok: "fs_ok N LA BA lp bp ds"
    and fits: "log_fits LA (leaf_storage ds)" "log_fits BA (block_storage ds)"
    and some: "log_contents LA (leaf_storage ds) \<noteq> []"
    and run: "fs_commit LA BA AS ds = (Inr u, ds')"
    and load: "al_load LA ld ''leaves'' log_file_size = (Inr ls, ld1)"
      "al_load BA ld1 ''blocks'' log_file_size = (Inr bs, ld2)"
    and durable: "al_iter LA ls = al_iter LA (store (leaf_storage ds'))"
      "al_iter BA bs = al_iter BA (store (block_storage ds'))"
  obtains ds2 where "fs_open_with_store N LA BA AS metrics0 ld = (Inr ds2, ld2)"
    "fs_ok N LA BA lp bp ds2"
    "log_contents LA (leaf_storage ds2) = log_contents LA (leaf_storage ds)"
    "log_contents BA (block_storage ds2) = log_contents BA (block_storage ds)"
    "index_by_leaf_hash ds2 = index_by_leaf_hash ds"
    "index_by_block_hash ds2 = index_by_block_hash ds"
    "index_by_txn_hash ds2 = index_by_txn_hash ds"
    "index_by_proposer_id ds2 = index_by_proposer_id ds"
proof -
  have lok: "log_ok LA lp (leaf_storage ds)" and bok: "log_ok BA bp (block_storage ds)"
    using ok by (simp_all add: fs_ok_def)
  have stored: "map loaded (al_iter LA ls) = log_contents LA (leaf_storage ds)"
    "map loaded (al_iter BA bs) = log_contents BA (block_storage ds)"
    using fs_commit_ok(4) [OF ok fits run] durable by (cases u; simp)+
  have fit: "length (log_contents LA (leaf_storage ds)) + 1 < 2 ^ 64"
    "length (log_contents BA (block_storage ds)) + 1 < 2 ^ 64"
    using fits ledger.len_items [OF lok] ledger.len_items [OF bok] by (simp_all add: log_fits_len)
  have pos: "positioned (leaf_height N) (log_contents LA (leaf_storage ds))"
    "positioned (block_height N) (log_contents BA (block_storage ds))"
    and ixd: "\<And>b. Some b \<in> set (log_contents BA (block_storage ds)) \<Longrightarrow>
      payload_indexed N (bq_payload b)"
    using ok by (auto simp: fs_ok_def fs_blocks_def)
  obtain ds2 where open2: "fs_open_with_store N LA BA AS metrics0 ld = (Inr ds2, ld2)"
      and ok2: "fs_ok N LA BA lp bp ds2"
      and c: "log_contents LA (leaf_storage ds2) = log_contents LA (leaf_storage ds)"
        "log_contents BA (block_storage ds2) = log_contents BA (block_storage ds)"
    by (rule fs_open_with_store_stored [OF laws load stored fit some pos ixd])
  have "fs_leaves LA ds2 = fs_leaves LA ds" "fs_blocks BA ds2 = fs_blocks BA ds"
    using c by (simp_all add: fs_leaves_def fs_blocks_def)
  with fs_index_by_leaf_hash [OF ok] fs_index_by_leaf_hash [OF ok2] that [OF open2 ok2 c]
  show thesis by simp
qed

section \<open>Reachable data sources\<close>

text \<open>
  The states of a data source that is created, or opened from objects stored at their heights or from
  an empty store, with or without a top-level store of its own, and then receives objects in order
  and commits. A window of 100 objects limits what may be pending
  when an object arrives. Reverting is not a step: see below.
\<close>

inductive fs_reachable for N LA BA AS where
  created: "fs_create_with_store N LA BA AS metrics0 ld = (Inr ds, ld') \<Longrightarrow>
    fs_reachable N LA BA AS ds"
| opened: "al_load LA ld ''leaves'' log_file_size = (Inr ls, ld1) \<Longrightarrow>
    al_load BA ld1 ''blocks'' log_file_size = (Inr bs, ld2) \<Longrightarrow>
    length (al_iter LA ls) + 1 < 2 ^ 64 \<Longrightarrow> length (al_iter BA bs) + 1 < 2 ^ 64 \<Longrightarrow>
    al_iter LA ls \<noteq> [] \<Longrightarrow>
    positioned (leaf_height N) (map loaded (al_iter LA ls)) \<Longrightarrow>
    positioned (block_height N) (map loaded (al_iter BA bs)) \<Longrightarrow>
    (\<And>b. Some b \<in> set (map loaded (al_iter BA bs)) \<Longrightarrow> payload_indexed N (bq_payload b)) \<Longrightarrow>
    fs_open_with_store N LA BA AS metrics0 ld = (Inr ds, ld3) \<Longrightarrow> fs_reachable N LA BA AS ds"
| opened_empty: "al_load LA ld ''leaves'' log_file_size = (Inr ls, ld1) \<Longrightarrow>
    al_load BA ld1 ''blocks'' log_file_size = (Inr bs, ld2) \<Longrightarrow>
    al_iter LA ls = [] \<Longrightarrow> al_iter BA bs = [] \<Longrightarrow>
    fs_open_with_store N LA BA AS metrics0 ld = (Inr ds, ld3) \<Longrightarrow> fs_reachable N LA BA AS ds"
| owned: "fs_reachable N LA BA AS ds \<Longrightarrow> fs_reachable N LA BA AS (ds\<lparr>top_storage := st\<rparr>)"
| leaf: "fs_reachable N LA BA AS ds \<Longrightarrow>
    log_len LA (leaf_storage ds) \<le> unat (leaf_height N l) \<Longrightarrow>
    log_room (leaf_storage ds) (log_len LA (leaf_storage ds)) (unat (leaf_height N l)) \<Longrightarrow>
    fs_insert_leaf N LA l ds = (Inr u, ds') \<Longrightarrow> fs_reachable N LA BA AS ds'"
| block: "fs_reachable N LA BA AS ds \<Longrightarrow> payload_indexed N (bq_payload b) \<Longrightarrow>
    log_len BA (block_storage ds) \<le> unat (block_height N b) \<Longrightarrow>
    log_room (block_storage ds) (log_len BA (block_storage ds)) (unat (block_height N b)) \<Longrightarrow>
    fs_insert_block N BA b ds = (Inr u, ds') \<Longrightarrow> fs_reachable N LA BA AS ds'"
| commit: "fs_reachable N LA BA AS ds \<Longrightarrow> log_fits LA (leaf_storage ds) \<Longrightarrow>
    log_fits BA (block_storage ds) \<Longrightarrow> fs_commit LA BA AS ds = (res, ds') \<Longrightarrow>
    fs_reachable N LA BA AS ds'"

lemma fs_ok_lens:
  assumes "fs_ok N LA BA lp bp ds"
  shows "log_len LA (leaf_storage ds) = length (log_contents LA (leaf_storage ds))"
    and "log_len BA (block_storage ds) = length (log_contents BA (block_storage ds))"
  using assms ledger.len_items [of LA lp] ledger.len_items [of BA bp] by (simp_all add: fs_ok_def)

lemma fs_reachable_ok:
  assumes laws: "append_log_laws LA lp" "append_log_laws BA bp" and gen: "genesis_at_zero N"
  shows "fs_reachable N LA BA AS ds \<Longrightarrow> fs_ok N LA BA lp bp ds \<and> 0 < log_len LA (leaf_storage ds)"
proof (induction rule: fs_reachable.induct)
  case (created metrics0 ld ds ld')
  then show ?case
    using fs_create_with_store_ok(1,4) [OF laws gen created] by simp
next
  case (opened ld ls ld1 bs ld2 metrics0 ds ld3)
  have len: "length (map loaded (al_iter LA ls)) + 1 < 2 ^ 64"
    "length (map loaded (al_iter BA bs)) + 1 < 2 ^ 64" and ne: "map loaded (al_iter LA ls) \<noteq> []"
    using opened by simp_all
  obtain ds2 where "fs_open_with_store N LA BA AS metrics0 ld = (Inr ds2, ld2)"
    and ok: "fs_ok N LA BA lp bp ds2"
    and c: "log_contents LA (leaf_storage ds2) = map loaded (al_iter LA ls)"
    by (rule fs_open_with_store_stored [OF laws opened(1,2) refl refl len ne opened(6-8)])
  with opened(9) have "ds2 = ds" by simp
  with ok c ne fs_ok_lens(1) [OF ok] show ?case by auto
next
  case (opened_empty ld ls ld1 bs ld2 metrics0 ds ld3)
  note E = fs_open_with_store_empty [OF laws gen opened_empty]
  then show ?case using fs_ok_lens(1) [OF E(1)] by simp
next
  case (owned ds st)
  then have "fs_ok N LA BA lp bp ds" by simp
  then show ?case
    using owned.IH fs_ok_storage [of N LA BA lp bp ds "leaf_storage ds" "block_storage ds" st]
    by (simp add: fs_ok_def)
next
  case (leaf ds l u ds')
  then have ok: "fs_ok N LA BA lp bp ds" by simp
  have "length (log_contents LA (leaf_storage ds)) \<le> unat (leaf_height N l)"
    using leaf(2) fs_ok_lens(1) [OF ok] by simp
  from fs_insert_leaf_ok [OF ok this leaf(3,4)]
  show ?case using fs_ok_lens(1) [of N LA BA lp bp ds'] by simp
next
  case (block ds b u ds')
  then have ok: "fs_ok N LA BA lp bp ds" by simp
  have "length (log_contents BA (block_storage ds)) \<le> unat (block_height N b)"
    using block(3) fs_ok_lens(2) [OF ok] by simp
  from fs_insert_block_ok [OF ok block(2) this block(4,5)]
  show ?case using block.IH by simp
next
  case (commit ds res ds')
  then have ok: "fs_ok N LA BA lp bp ds" by simp
  note C = fs_commit_ok(1,2) [OF ok commit(2,3,4)]
  have "log_len LA (leaf_storage ds') = log_len LA (leaf_storage ds)"
    unfolding fs_ok_lens(1) [OF C(1)] fs_ok_lens(1) [OF ok] C(2) by (rule refl)
  then show ?case using commit.IH C(1) by simp
qed

section \<open>Reverting\<close>

lemma fs_revert_logs:
  assumes ok: "fs_ok N LA BA lp bp ds" and run: "fs_revert LA BA ds = (Inr u, ds')"
  shows "log_ok LA lp (leaf_storage ds')" and "log_ok BA bp (block_storage ds')"
    and "log_contents LA (leaf_storage ds') = map loaded (al_iter LA (store (leaf_storage ds)))"
    and "log_contents BA (block_storage ds') = map loaded (al_iter BA (store (block_storage ds)))"
    and "index_by_leaf_hash ds' = index_by_leaf_hash ds"
    and "index_by_block_hash ds' = index_by_block_hash ds"
    and "index_by_txn_hash ds' = index_by_txn_hash ds"
    and "index_by_proposer_id ds' = index_by_proposer_id ds"
proof -
  have lok: "log_ok LA lp (leaf_storage ds)" and bok: "log_ok BA bp (block_storage ds)"
    using ok by (simp_all add: fs_ok_def)
  obtain r1 l1 where r1: "revert_version LA (leaf_storage ds) = (r1, l1)" by fastforce
  obtain r2 l2 where r2: "revert_version BA (block_storage ds) = (r2, l2)" by fastforce
  from run r1 r2 have r: "r1 = Inr ()" "r2 = Inr ()"
    and ds': "ds' = ds\<lparr>leaf_storage := l1, block_storage := l2\<rparr>"
    by (cases r1; cases "projl r1"; cases r2; cases "projl r2"; simp add: fs_revert_def)+
  note L = ledger.revert_items [OF lok r1 [unfolded r]] and B = ledger.revert_items [OF bok r2 [unfolded r]]
  show "log_ok LA lp (leaf_storage ds')" "log_ok BA bp (block_storage ds')"
    "log_contents LA (leaf_storage ds') = map loaded (al_iter LA (store (leaf_storage ds)))"
    "log_contents BA (block_storage ds') = map loaded (al_iter BA (store (block_storage ds)))"
    "index_by_leaf_hash ds' = index_by_leaf_hash ds"
    "index_by_block_hash ds' = index_by_block_hash ds"
    "index_by_txn_hash ds' = index_by_txn_hash ds"
    "index_by_proposer_id ds' = index_by_proposer_id ds"
    using L B ds' by simp_all
qed

text \<open>
  The indices are not reverted: a leaf inserted and reverted is still counted as a proposal, and
  every listing of its proposer's leaves fails.
\<close>

lemma fs_revert_stale:
  assumes ok: "fs_ok N LA BA lp bp ds"
    and committed: "map loaded (al_iter LA (store (leaf_storage ds)))
      = log_contents LA (leaf_storage ds)"
    and app: "length (log_contents LA (leaf_storage ds)) \<le> unat (leaf_height N leaf)"
    and room: "log_room (leaf_storage ds) (log_len LA (leaf_storage ds)) (unat (leaf_height N leaf))"
    and ins: "fs_insert_leaf N LA leaf ds = (Inr u, ds1)"
    and rev: "fs_revert LA BA ds1 = (Inr v, ds2)"
  shows "log_contents LA (leaf_storage ds2) = log_contents LA (leaf_storage ds)"
    and "fs_count_proposals (leaf_proposer N leaf) ds2
      = Inr (length (proposals_by N LA (leaf_proposer N leaf) ds) + 1)"
    and "fs_get_proposals LA (leaf_proposer N leaf) None ds2 = Inl NotFound"
proof -
  let ?pk = "leaf_proposer N leaf"
  note one = fs_insert_leaf_ok [OF ok app room ins]
  note two = fs_revert_logs [OF one(1) rev]
  have lok: "log_ok LA lp (leaf_storage ds)" using ok by (simp add: fs_ok_def)
  from ins obtain log where
    log: "log_insert LA (unat (leaf_height N leaf)) leaf (leaf_storage ds) = (Inr (), log)"
      "leaf_storage ds1 = log"
    by (rule fs_insert_leafE) simp
  show contents: "log_contents LA (leaf_storage ds2) = log_contents LA (leaf_storage ds)"
    using two(3) ledger.put_durable [OF lok log(1)] log(2) committed by simp
  have by_pk: "proposals_by N LA ?pk ds1 = proposals_by N LA ?pk ds @ [leaf]"
    using one(2) by (simp add: proposals_by_def)
  have heights: "(case index_by_proposer_id ds2 ?pk of Some ids \<Rightarrow> ids | None \<Rightarrow> [])
      = map (leaf_height N) (proposals_by N LA ?pk ds) @ [leaf_height N leaf]"
    unfolding two(8) fs_proposal_heights [OF one(1)] by_pk by simp
  then have "(case index_by_proposer_id ds2 ?pk of Some ids \<Rightarrow> length ids | None \<Rightarrow> 0)
      = length (map (leaf_height N) (proposals_by N LA ?pk ds) @ [leaf_height N leaf])"
    by (cases "index_by_proposer_id ds2 ?pk") auto
  then show "fs_count_proposals ?pk ds2 = Inr (length (proposals_by N LA ?pk ds) + 1)"
    by (simp add: fs_count_proposals_def)
  have read: "fs_get_leaf LA (Number n) ds2 =
      read_entry (list_get (log_contents LA (leaf_storage ds)) (unat n))" for n
    using log_nth_contents [OF two(1), of n] contents
    by (simp add: fs_get_leaf_def and_then_read_entry)
  have "fs_get_leaf LA (Number (leaf_height N l)) ds2 = Inr l"
    if "l \<in> set (proposals_by N LA ?pk ds)" for l
    using that fs_get_leaf_stored [OF ok, of l] fs_get_leaf_number [OF ok]
    by (simp add: read proposals_by_def)
  moreover have "fs_get_leaf LA (Number (leaf_height N leaf)) ds2 = Inl NotFound"
    using app by (simp add: read list_get_def)
  ultimately have "map (\<lambda>height. fs_get_leaf LA (Number height) ds2)
      (map (leaf_height N) (proposals_by N LA ?pk ds) @ [leaf_height N leaf])
      = map Inr (proposals_by N LA ?pk ds) @ [Inl NotFound]"
    by simp
  then show "fs_get_proposals LA ?pk None ds2 = Inl NotFound"
    unfolding fs_get_proposals_def Let_def heights
    by (simp only: option.case drop_0 try_collect_Inl) blast
qed

end
