(* ===== verification/FsMock.thy ===== *)
theory FsMock
  imports FsLife
begin

text \<open>
  A data source over in-memory logs and the mock types, for witnesses. A path is the stored pair
  of lists; the loader is the same pair.
\<close>

type_synonym mock_leaf = "(nat \<times> nat \<times> nat \<times> nat list option, nat) leaf_query_data"
type_synonym mock_block = "(nat, nat list, nat) block_query_data"
type_synonym mock_loader = "mock_leaf option list \<times> mock_block option list"
type_synonym 'r mock_log = "'r list \<times> 'r list"
type_synonym mock_fs =
  "(mock_leaf option mock_log, mock_block option mock_log, nat, unit,
    nat \<times> nat \<times> nat \<times> nat list option, nat, nat, nat list, nat, nat, nat) fs_data_source"

definition mock_leaves ::
    "bool \<Rightarrow> (mock_loader, mock_leaf option mock_log, mock_leaf option, string) append_log_ops" where
  "mock_leaves failing =
     with_loader fst (\<lambda>part ld. (part, snd ld)) (mem_append_log failing)"

definition mock_blocks ::
    "bool \<Rightarrow> (mock_loader, mock_block option mock_log, mock_block option, string) append_log_ops" where
  "mock_blocks failing =
     with_loader snd (\<lambda>part ld. (fst ld, part)) (mem_append_log failing)"

definition mock_store :: "(mock_loader, mock_loader, nat, string) atomic_store_ops" where
  "mock_store =
     \<lparr>as_create = (\<lambda>path name. Inr ([], [])), as_load = (\<lambda>path name. Inr path),
      as_open = (\<lambda>ld. Inr 0), as_commit_version = (\<lambda>n. (Inr (), n + 1)),
      as_other_load = (\<lambda>err. ''other'')\<rparr>"

lemma mock_logs_laws [simp]:
  "append_log_laws (mock_leaves b) snd" "append_log_laws (mock_blocks b) snd"
  by (simp_all add: mock_leaves_def mock_blocks_def with_loader_laws)

lemma mock_genesis [simp]: "genesis_at_zero mock_types"
  by (simp add: genesis_at_zero_def mock_types_simps payload_indexed_def list_get_def)

definition mock_leaf :: "nat \<Rightarrow> nat \<Rightarrow> mock_leaf" where
  "mock_leaf n pk = \<lparr>lq_leaf = (n, pk, 0, None), lq_qc = 1000 + 10 * n + pk\<rparr>"

definition mock_block :: "nat \<Rightarrow> nat list \<Rightarrow> mock_block" where
  "mock_block n txs =
     \<lparr>bq_header = n, bq_payload = txs, bq_hash = 500 + n, bq_size = of_nat (length txs)\<rparr>"

lemma mock_log_simps [simp]:
  "al_create (mock_leaves b) ld f n = (Inr ([], []), ([], snd ld))"
  "al_create (mock_blocks b) ld f n = (Inr ([], []), (fst ld, []))"
  "al_load (mock_leaves b) ld f n = (Inr (fst ld, []), ld)"
  "al_load (mock_blocks b) ld f n = (Inr (snd ld, []), ld)"
  "al_store_resource (mock_leaves b) (c, p) r = (Inr (), (c, p @ [r]))"
  "al_store_resource (mock_blocks b) (c', p') r' = (Inr (), (c', p' @ [r']))"
  "al_commit_version (mock_leaves False) (c, p) = (Inr (), (c @ p, []))"
  "al_commit_version (mock_blocks False) (c', p') = (Inr (), (c' @ p', []))"
  "al_commit_version (mock_leaves True) (c, p) = (Inl ''io'', (c, p))"
  "al_commit_version (mock_blocks True) (c', p') = (Inl ''io'', (c', p'))"
  "al_revert_version (mock_leaves b) (c, p) = (Inr (), (c, []))"
  "al_revert_version (mock_blocks b) (c', p') = (Inr (), (c', []))"
  "al_iter (mock_leaves b) (c, p) = map Inr c"
  "al_iter (mock_blocks b) (c', p') = map Inr c'"
  by (simp_all add: mock_leaves_def mock_blocks_def with_loader_def)

lemmas mock_eval = log_create_def log_file_size_def cached_leaves_count_def
  cached_blocks_count_def fs_create_with_store_def fs_insert_genesis_def fs_block_height_def
  fs_insert_leaf_def fs_insert_block_def fs_commit_def commit_top_storage_def log_len_eq
  log_insert_def store_resource_def commit_version_def broadcast_loop_more broadcast_loop_stop
  iter_nth_def log_iter_def mock_types_simps list_get_def mock_leaf_def mock_block_def
  fs_get_leaf_def fs_get_block_def

text \<open>The data source \<^verbatim>\<open>create_with_store\<close> makes, and one leaf and block on top of it.\<close>

definition mock_created :: mock_fs where
  "mock_created =
     \<lparr>index_by_leaf_hash = [1000 \<mapsto> 0], index_by_block_hash = [500 \<mapsto> 0],
      index_by_txn_hash = Map.empty, index_by_proposer_id = [0 \<mapsto> [0]], top_storage = None,
      leaf_storage =
        \<lparr>cache_start = 0, cache_size = 100, cache = [Some (mock_leaf 0 0\<lparr>lq_leaf := (0, 0, 1000, Some [])\<rparr>)],
         store = ([Some (mock_leaf 0 0\<lparr>lq_leaf := (0, 0, 1000, Some [])\<rparr>)], []), pending_inserts = 0,
         stream = [mock_leaf 0 0\<lparr>lq_leaf := (0, 0, 1000, Some [])\<rparr>], stream_pos = 1\<rparr>,
      block_storage =
        \<lparr>cache_start = 0, cache_size = 100, cache = [Some (mock_block 0 [])],
         store = ([Some (mock_block 0 [])], []), pending_inserts = 0,
         stream = [mock_block 0 []], stream_pos = 1\<rparr>,
      fs_metrics = ()\<rparr>"

lemma mock_created_run:
  "fs_create_with_store mock_types (mock_leaves False) (mock_blocks False) mock_store
     () ([], []) = (Inr mock_created, ([], []))"
  by (simp add: mock_eval mock_created_def update_index_by_hash_def push_proposal_def)

definition mock_with_leaf :: mock_fs where
  "mock_with_leaf = mock_created\<lparr>
     index_by_leaf_hash := [1000 \<mapsto> 0, 1014 \<mapsto> 1], index_by_block_hash := [500 \<mapsto> 0, 501 \<mapsto> 1],
     index_by_proposer_id := [0 \<mapsto> [0], 4 \<mapsto> [1]],
     leaf_storage := (leaf_storage mock_created)
       \<lparr>cache := cache (leaf_storage mock_created) @ [Some (mock_leaf 1 4)],
        store := (fst (store (leaf_storage mock_created)), [Some (mock_leaf 1 4)]),
        pending_inserts := 1\<rparr>\<rparr>"

definition mock_with_block :: mock_fs where
  "mock_with_block = mock_with_leaf\<lparr>
     index_by_txn_hash := [7008 \<mapsto> (1, 0), 7009 \<mapsto> (1, 1)],
     block_storage := (block_storage mock_created)
       \<lparr>cache := cache (block_storage mock_created) @ [Some (mock_block 1 [8, 9, 8])],
        store := (fst (store (block_storage mock_created)), [Some (mock_block 1 [8, 9, 8])]),
        pending_inserts := 1\<rparr>\<rparr>"

lemma mock_with_leaf_run:
  "fs_insert_leaf mock_types (mock_leaves False) (mock_leaf 1 4) mock_created
     = (Inr (), mock_with_leaf)"
  by (simp add: mock_eval mock_created_def mock_with_leaf_def update_index_by_hash_def
      push_proposal_def)

lemma mock_with_block_run:
  "fs_insert_block mock_types (mock_blocks False) (mock_block 1 [8, 9, 8]) mock_with_leaf
     = (Inr (), mock_with_block)"
  by (simp add: mock_eval mock_created_def mock_with_leaf_def mock_with_block_def
      update_index_by_hash_def)

lemma mock_reachable:
  "fs_reachable mock_types (mock_leaves False) (mock_blocks False) mock_store mock_created"
  "fs_reachable mock_types (mock_leaves False) (mock_blocks False) mock_store mock_with_leaf"
  "fs_reachable mock_types (mock_leaves False) (mock_blocks False) mock_store mock_with_block"
proof -
  show c: "fs_reachable mock_types (mock_leaves False) (mock_blocks False) mock_store mock_created"
    by (rule fs_reachable.created [OF mock_created_run])
  show l: "fs_reachable mock_types (mock_leaves False) (mock_blocks False) mock_store mock_with_leaf"
    by (rule fs_reachable.leaf [OF c _ _ mock_with_leaf_run])
      (simp_all add: mock_eval mock_created_def log_room_def)
  show "fs_reachable mock_types (mock_leaves False) (mock_blocks False) mock_store mock_with_block"
    by (rule fs_reachable.block [OF l mock_payload_indexed _ _ mock_with_block_run])
      (simp_all add: mock_eval mock_created_def mock_with_leaf_def log_room_def)
qed

lemma mock_contents:
  "log_contents (mock_leaves False) (leaf_storage mock_with_block)
     = [Some (mock_leaf 0 0\<lparr>lq_leaf := (0, 0, 1000, Some [])\<rparr>), Some (mock_leaf 1 4)]"
  "log_contents (mock_blocks False) (block_storage mock_with_block)
     = [Some (mock_block 0 []), Some (mock_block 1 [8, 9, 8])]"
  by (simp_all add: log_contents_def mock_with_block_def mock_with_leaf_def mock_created_def)

end
