(* ===== verification/UpdateSource.thy ===== *)
theory UpdateSource
  imports QueryData
begin

text \<open>
  \<^verbatim>\<open>src/data_source/update.rs\<close>: the generic algorithm that feeds the leaves and blocks of a
  \<^verbatim>\<open>Decide\<close> event into a data source, oldest first, each with the certificate that justifies it.
\<close>

section \<open>The algorithm\<close>

text \<open>The operations of \<^verbatim>\<open>UpdateAvailabilityData\<close> the algorithm calls.\<close>

record ('ds, 'lq, 'bq, 'e) update_ops =
  ds_insert_leaf :: "'lq \<Rightarrow> 'ds \<Rightarrow> ('e, unit, 'ds) outcome"
  ds_insert_block :: "'bq \<Rightarrow> 'ds \<Rightarrow> ('e, unit, 'ds) outcome"

text \<open>HotShot's event type, as far as the algorithm looks at it.\<close>

datatype ('leaf, 'qc) event = Decide "'leaf list" 'qc | OtherEvent

definition decided_qcs where
  "decided_qcs N leaf_chain qc = drop 1 (rev (qc # map (leaf_justify_qc N) leaf_chain))"

text \<open>One leaf and its block, if it has one. A failed \<^verbatim>\<open>expect\<close> is a panic.\<close>

definition update_one where
  "update_one N dbg D qc leaf ds =
     (case leaf_query_data_new N leaf qc of
        Inl err \<Rightarrow> (Inl (Panic ''inconsistent leaf''), ds)
      | Inr leaf_data \<Rightarrow>
          attempt (ds_insert_leaf D leaf_data ds) (\<lambda>_ ds.
            case leaf_block_payload N leaf of
              None \<Rightarrow> (Inr (), ds)
            | Some block \<Rightarrow>
                (case block_query_data_new N dbg leaf qc block of
                   Inl (Panic m) \<Rightarrow> (Inl (Panic m), ds)
                 | Inl _ \<Rightarrow> (Inl (Panic ''inconsistent block''), ds)
                 | Inr block_data \<Rightarrow> ds_insert_block D block_data ds)))"

fun update_leaves where
  "update_leaves N dbg D [] ds = (Inr (), ds)"
| "update_leaves N dbg D ((qc, leaf) # rest) ds =
     attempt (update_one N dbg D qc leaf ds) (\<lambda>_ ds. update_leaves N dbg D rest ds)"

definition update where
  "update N dbg D event ds =
     (case event of
        Decide leaf_chain qc \<Rightarrow>
          update_leaves N dbg D (zip (decided_qcs N leaf_chain qc) (rev leaf_chain)) ds
      | OtherEvent \<Rightarrow> (Inr (), ds))"

section \<open>Pairing leaves with certificates\<close>

text \<open>
  The chain is listed most recent first; the event's certificate justifies its first leaf, and
  each leaf carries the certificate of the next.
\<close>

lemma decided_pairs:
  "zip (decided_qcs N leaf_chain qc) (rev leaf_chain)
     = rev (zip (qc # map (leaf_justify_qc N) leaf_chain) leaf_chain)"
proof -
  let ?q = "qc # map (leaf_justify_qc N) leaf_chain"
  have "drop 1 (rev ?q) = rev (take (length leaf_chain) ?q)"
    by (simp add: rev_take)
  then have "zip (decided_qcs N leaf_chain qc) (rev leaf_chain)
      = rev (zip (take (length leaf_chain) ?q) leaf_chain)"
    by (simp add: decided_qcs_def zip_rev)
  also have "zip (take (length leaf_chain) ?q) leaf_chain = zip ?q leaf_chain"
    by (rule zip_take_left)
  finally show ?thesis .
qed

text \<open>A chain as consensus emits it: every certificate references its leaf.\<close>

definition justified where
  "justified N leaf_chain qc \<longleftrightarrow>
     (\<forall>(qc, leaf) \<in> set (zip (qc # map (leaf_justify_qc N) leaf_chain) leaf_chain).
        qc_leaf_commit N qc = leaf_commit N leaf)"

text \<open>The calls a \<^verbatim>\<open>Decide\<close> event amounts to, when nothing fails.\<close>

fun insert_all where
  "insert_all N D [] ds = (Inr (), ds)"
| "insert_all N D ((qc, leaf) # rest) ds =
     attempt (ds_insert_leaf D \<lparr>lq_leaf = leaf, lq_qc = qc\<rparr> ds) (\<lambda>_ ds.
       attempt
         (case leaf_block_payload N leaf of
            None \<Rightarrow> (Inr (), ds)
          | Some payload \<Rightarrow>
              ds_insert_block D
                \<lparr>bq_header = leaf_block_header N leaf, bq_payload = payload,
                 bq_hash = header_commit N (leaf_block_header N leaf),
                 bq_size = payload_size N payload\<rparr> ds)
         (\<lambda>_ ds. insert_all N D rest ds))"

lemma attempt_assoc: "attempt (attempt r f) g = attempt r (\<lambda>x s. attempt (f x s) g)"
  by (cases r; cases "fst r") auto

lemma update_one_justified:
  assumes "qc_leaf_commit N qc = leaf_commit N leaf"
  shows "update_one N False D qc leaf ds =
    attempt (ds_insert_leaf D \<lparr>lq_leaf = leaf, lq_qc = qc\<rparr> ds) (\<lambda>_ ds.
      case leaf_block_payload N leaf of
        None \<Rightarrow> (Inr (), ds)
      | Some payload \<Rightarrow>
          ds_insert_block D
            \<lparr>bq_header = leaf_block_header N leaf, bq_payload = payload,
             bq_hash = header_commit N (leaf_block_header N leaf),
             bq_size = payload_size N payload\<rparr> ds)"
proof -
  have "block_query_data_new N False leaf qc payload =
      Inr \<lparr>bq_header = leaf_block_header N leaf, bq_payload = payload,
           bq_hash = header_commit N (leaf_block_header N leaf),
           bq_size = payload_size N payload\<rparr>" for payload
    using assms by (simp add: block_query_data_new_def)
  then show ?thesis
    using assms by (simp add: update_one_def leaf_query_data_new_def cong: option.case_cong)
qed

lemma update_leaves_justified:
  assumes "\<forall>(qc, leaf) \<in> set pairs. qc_leaf_commit N qc = leaf_commit N leaf"
  shows "update_leaves N False D pairs ds = insert_all N D pairs ds"
  using assms
proof (induction pairs arbitrary: ds)
  case Nil
  then show ?case by simp
next
  case (Cons p pairs)
  obtain qc leaf where p: "p = (qc, leaf)" by fastforce
  have one: "qc_leaf_commit N qc = leaf_commit N leaf" using Cons.prems p by simp
  have rest: "update_leaves N False D pairs = insert_all N D pairs"
    using Cons.IH Cons.prems by auto
  show ?case by (simp add: p update_one_justified [OF one] attempt_assoc rest)
qed

section \<open>Preserving an invariant of the data source\<close>

text \<open>
  The contract of a data source that can be updated: whatever the insertions return, they keep the
  invariant.
\<close>

locale update_target =
  fixes D :: "('ds, ('leaf, 'qc) leaf_query_data, ('hdr, 'pl, 'h) block_query_data, 'e) update_ops"
    and inv :: "'ds \<Rightarrow> bool"
  assumes insert_leaf_inv: "inv ds \<Longrightarrow> ds_insert_leaf D leaf ds = (r, ds') \<Longrightarrow> inv ds'"
    and insert_block_inv: "inv ds \<Longrightarrow> ds_insert_block D block ds = (r, ds') \<Longrightarrow> inv ds'"
begin

lemma update_one_inv:
  assumes "inv ds" and "update_one N dbg D qc leaf ds = (r, ds')"
  shows "inv ds'"
proof (cases "leaf_query_data_new N leaf qc")
  case (Inl e)
  with assms show ?thesis by (simp add: update_one_def)
next
  case (Inr leaf_data)
  show ?thesis
  proof (cases "ds_insert_leaf D leaf_data ds")
    case (Pair r1 ds1)
    then have "inv ds1" using assms(1) insert_leaf_inv by blast
    with assms(2) Inr Pair show ?thesis
      by (cases r1)
        (auto simp: update_one_def split: option.splits sum.splits failure.splits
          intro: insert_block_inv)
  qed
qed

lemma update_leaves_inv:
  "inv ds \<Longrightarrow> update_leaves N dbg D pairs ds = (r, ds') \<Longrightarrow> inv ds'"
proof (induction pairs arbitrary: ds)
  case Nil
  then show ?case by simp
next
  case (Cons p pairs)
  obtain qc leaf where p: "p = (qc, leaf)" by fastforce
  from Cons.prems(2) show ?case unfolding p update_leaves.simps
  proof (cases rule: attempt_cases)
    case (early e)
    then show ?thesis using update_one_inv Cons.prems(1) by blast
  next
    case (cont x s)
    then show ?thesis using update_one_inv Cons by blast
  qed
qed

lemma update_inv: "inv ds \<Longrightarrow> update N dbg D event ds = (r, ds') \<Longrightarrow> inv ds'"
  by (auto simp: update_def split: event.splits intro: update_leaves_inv)

end

text \<open>
  A data source whose insertions fail only with its own errors, as long as block payloads are well
  formed (\<open>good\<close>). Then nothing but such an error can interrupt the insertion of a justified chain.
\<close>

locale panic_free_target = update_target D inv
  for D :: "('ds, ('leaf, 'qc) leaf_query_data, ('hdr, 'pl, 'h) block_query_data, 'e) update_ops"
    and inv :: "'ds \<Rightarrow> bool" +
  fixes good :: "'pl \<Rightarrow> bool"
  assumes insert_leaf_fails: "inv ds \<Longrightarrow> ds_insert_leaf D leaf ds = (Inl x, ds') \<Longrightarrow>
      \<exists>e. x = Failure e"
    and insert_block_fails: "inv ds \<Longrightarrow> good (bq_payload block) \<Longrightarrow>
      ds_insert_block D block ds = (Inl x, ds') \<Longrightarrow> \<exists>e. x = Failure e"
begin

lemma insert_all_fails:
  "inv ds \<Longrightarrow>
    \<forall>(qc, leaf) \<in> set pairs. \<forall>p. leaf_block_payload N leaf = Some p \<longrightarrow> good p \<Longrightarrow>
    insert_all N D pairs ds = (Inl x, ds') \<Longrightarrow> \<exists>e. x = Failure e"
proof (induction pairs arbitrary: ds)
  case Nil
  then show ?case by simp
next
  case (Cons p pairs)
  obtain qc leaf where p: "p = (qc, leaf)" by fastforce
  from Cons.prems(3) show ?case unfolding p insert_all.simps
  proof (cases rule: attempt_cases)
    case (early e)
    then show ?thesis using insert_leaf_fails [OF Cons.prems(1)] by simp
  next
    case (cont u ds1)
    have inv1: "inv ds1" by (rule insert_leaf_inv [OF Cons.prems(1) cont(1)])
    from cont(2) show ?thesis
    proof (cases rule: attempt_cases)
      case (early e)
      with inv1 Cons.prems(2) p show ?thesis
        by (cases "leaf_block_payload N leaf") (auto dest: insert_block_fails [OF inv1, rotated])
    next
      case (cont u ds2)
      have "inv ds2"
        using inv1 cont(1) by (cases "leaf_block_payload N leaf") (auto dest: insert_block_inv)
      then show ?thesis using Cons.IH cont(2) Cons.prems(2) by fastforce
    qed
  qed
qed

end

end
