(* ===== verification/FsUpdate.thy ===== *)
theory FsUpdate
  imports FsMock UpdateSource
begin

text \<open>
  The file system data source as the target of consensus updates: its insertions keep the fields
  of both logs consistent whatever they return, and a decided chain that follows the stored leaves
  ends up in the leaf log in chronological order.
\<close>

definition fs_update_ops where
  "fs_update_ops N LA BA =
     \<lparr>ds_insert_leaf = fs_insert_leaf N LA, ds_insert_block = fs_insert_block N BA\<rparr>"

lemma fs_update_ops_simps [simp]:
  "ds_insert_leaf (fs_update_ops N LA BA) = fs_insert_leaf N LA"
  "ds_insert_block (fs_update_ops N LA BA) = fs_insert_block N BA"
  by (simp_all add: fs_update_ops_def)

definition fs_fields where
  "fs_fields LA BA lp bp ds \<longleftrightarrow>
     append_log_laws LA lp \<and> append_log_laws BA bp \<and>
     log_inv LA lp (leaf_storage ds) \<and> log_inv BA bp (block_storage ds)"

lemma fs_insert_leaf_frame:
  assumes "fs_insert_leaf N LA leaf ds = (r, ds')"
  obtains r' log where
    "log_insert LA (unat (leaf_height N leaf)) leaf (leaf_storage ds) = (r', log)"
    "leaf_storage ds' = log" "block_storage ds' = block_storage ds" "r = r'"
proof -
  obtain r' log where
    run: "log_insert LA (unat (leaf_height N leaf)) leaf (leaf_storage ds) = (r', log)"
    by fastforce
  with assms show thesis using that by (cases r') (auto simp: fs_insert_leaf_def Let_def)
qed

lemma fs_insert_block_frame:
  assumes "fs_insert_block N BA block ds = (r, ds')"
  obtains r' log where
    "log_insert BA (unat (block_height N block)) block (block_storage ds) = (r', log)"
    "block_storage ds' = log" "leaf_storage ds' = leaf_storage ds"
proof -
  obtain r' log where
    run: "log_insert BA (unat (block_height N block)) block (block_storage ds) = (r', log)"
    by fastforce
  with assms show thesis using that by (cases r') (auto simp: fs_insert_block_def)
qed

interpretation fs: panic_free_target "fs_update_ops N LA BA" "fs_fields LA BA lp bp"
  "payload_indexed N"
  for N LA BA lp bp
proof unfold_locales
  fix ds leaf r ds'
  assume inv: "fs_fields LA BA lp bp ds"
    and run: "ds_insert_leaf (fs_update_ops N LA BA) leaf ds = (r, ds')"
  from run [simplified] obtain r' log where
    "log_insert LA (unat (leaf_height N leaf)) leaf (leaf_storage ds) = (r', log)"
    "leaf_storage ds' = log" "block_storage ds' = block_storage ds"
    by (rule fs_insert_leaf_frame)
  with inv log_insert_inv show "fs_fields LA BA lp bp ds'" by (auto simp: fs_fields_def)
next
  fix ds block r ds'
  assume inv: "fs_fields LA BA lp bp ds"
    and run: "ds_insert_block (fs_update_ops N LA BA) block ds = (r, ds')"
  from run [simplified] obtain r' log where
    "log_insert BA (unat (block_height N block)) block (block_storage ds) = (r', log)"
    "block_storage ds' = log" "leaf_storage ds' = leaf_storage ds"
    by (rule fs_insert_block_frame)
  with inv log_insert_inv show "fs_fields LA BA lp bp ds'" by (auto simp: fs_fields_def)
next
  fix ds leaf x ds'
  assume inv: "fs_fields LA BA lp bp ds"
    and run: "ds_insert_leaf (fs_update_ops N LA BA) leaf ds = (Inl x, ds')"
  from run [simplified] obtain r' log where
    "log_insert LA (unat (leaf_height N leaf)) leaf (leaf_storage ds) = (r', log)" "Inl x = r'"
    by (rule fs_insert_leaf_frame)
  with inv log_insert_not_panic show "\<exists>e. x = Failure e" by (auto simp: fs_fields_def)
next
  fix ds block x ds'
  assume inv: "fs_fields LA BA lp bp ds" and good: "payload_indexed N (bq_payload block)"
    and run: "ds_insert_block (fs_update_ops N LA BA) block ds = (Inl x, ds')"
  obtain r' log where
    log: "log_insert BA (unat (block_height N block)) block (block_storage ds) = (r', log)"
    by fastforce
  with run have "r' = Inl x"
    by (cases r') (simp_all add: fs_insert_block_def index_transactions_block [OF good])
  with log inv log_insert_not_panic show "\<exists>e. x = Failure e" by (auto simp: fs_fields_def)
qed

section \<open>A decided chain\<close>

lemma log_insert_next:
  assumes ok: "log_ok A pend l" and at: "index = log_len A l"
    and room: "pending_inserts l < cache_size l"
    and run: "log_insert A index obj l = (Inr u, l')"
  shows "log_ok A pend l'" and "log_contents A l' = log_contents A l @ [Some obj]"
    and "pending_inserts l' = Suc (pending_inserts l)" and "cache_size l' = cache_size l"
proof -
  have len: "length (log_contents A l) = index" using ledger.len_items [OF ok] at by simp
  have app: "length (log_contents A l) \<le> index" and r: "log_room l (log_len A l) index"
    using len at room by (simp_all add: log_room_def)
  show "log_ok A pend l'" by (rule ledger.put_ok [OF ok app r run])
  show "log_contents A l' = log_contents A l @ [Some obj]"
    using ledger.put_items [OF ok app r run] len by simp
  show "pending_inserts l' = Suc (pending_inserts l)" "cache_size l' = cache_size l"
    using log_insert_at_end [OF ok _ r run] at by simp_all
qed

lemma insert_all_leaves:
  assumes "log_ok LA lp (leaf_storage ds)"
    and "\<forall>i < length pairs. unat (header_block_number N (leaf_block_header N (snd (pairs ! i))))
      = log_len LA (leaf_storage ds) + i"
    and "pending_inserts (leaf_storage ds) + length pairs \<le> cache_size (leaf_storage ds)"
    and "insert_all N (fs_update_ops N LA BA) pairs ds = (Inr u, ds')"
  shows "log_contents LA (leaf_storage ds') = log_contents LA (leaf_storage ds) @
    map (\<lambda>(qc, leaf). Some \<lparr>lq_leaf = leaf, lq_qc = qc\<rparr>) pairs \<and>
    log_ok LA lp (leaf_storage ds') \<and>
    pending_inserts (leaf_storage ds') = pending_inserts (leaf_storage ds) + length pairs \<and>
    cache_size (leaf_storage ds') = cache_size (leaf_storage ds)"
  using assms
proof (induction pairs arbitrary: ds)
  case Nil
  then show ?case by simp
next
  case (Cons p pairs)
  obtain qc leaf where p: "p = (qc, leaf)" by fastforce
  let ?lq = "\<lparr>lq_leaf = leaf, lq_qc = qc\<rparr>"
  obtain ds1 where one: "fs_insert_leaf N LA ?lq ds = (Inr (), ds1)"
    and "\<exists>ds2. (case leaf_block_payload N leaf of
            None \<Rightarrow> (Inr (), ds1)
          | Some payload \<Rightarrow>
              ds_insert_block (fs_update_ops N LA BA)
                \<lparr>bq_header = leaf_block_header N leaf, bq_payload = payload,
                 bq_hash = header_commit N (leaf_block_header N leaf),
                 bq_size = payload_size N payload\<rparr> ds1) = (Inr (), ds2) \<and>
          insert_all N (fs_update_ops N LA BA) pairs ds2 = (Inr u, ds')"
    using Cons.prems(4) by (auto simp: p attempt_ok simp del: fs_update_ops_simps(2))
  then obtain ds2 where two: "leaf_storage ds2 = leaf_storage ds1"
    and rest: "insert_all N (fs_update_ops N LA BA) pairs ds2 = (Inr u, ds')"
    by (cases "leaf_block_payload N leaf") (auto elim: fs_insert_block_frame)
  have height: "unat (leaf_height N ?lq) = log_len LA (leaf_storage ds)"
    using Cons.prems(2) by (auto simp: p leaf_height_def)
  from one obtain log where log: "log_insert LA (unat (leaf_height N ?lq)) ?lq (leaf_storage ds) = (Inr (), log)"
      "leaf_storage ds1 = log"
    by (rule fs_insert_leaf_frame) simp
  have room: "pending_inserts (leaf_storage ds) < cache_size (leaf_storage ds)"
    using Cons.prems(3) by simp
  note N1 = log_insert_next [OF Cons.prems(1) height room log(1)]
  have len: "log_len LA (leaf_storage ds2) = Suc (log_len LA (leaf_storage ds))"
    using ledger.len_items [OF N1(1)] ledger.len_items [OF Cons.prems(1)] N1(2) two log(2) by simp
  have "log_contents LA (leaf_storage ds') = log_contents LA (leaf_storage ds2) @
      map (\<lambda>(qc, leaf). Some \<lparr>lq_leaf = leaf, lq_qc = qc\<rparr>) pairs \<and>
    log_ok LA lp (leaf_storage ds') \<and>
    pending_inserts (leaf_storage ds') = pending_inserts (leaf_storage ds2) + length pairs \<and>
    cache_size (leaf_storage ds') = cache_size (leaf_storage ds2)"
  proof (rule Cons.IH [OF _ _ _ rest])
    show "log_ok LA lp (leaf_storage ds2)" using N1(1) two log(2) by simp
    show "\<forall>i < length pairs. unat (header_block_number N (leaf_block_header N (snd (pairs ! i))))
        = log_len LA (leaf_storage ds2) + i"
      using Cons.prems(2) len by fastforce
    show "pending_inserts (leaf_storage ds2) + length pairs \<le> cache_size (leaf_storage ds2)"
      using N1(3,4) Cons.prems(3) two log(2) by simp
  qed
  then show ?case using N1(2-4) two log(2) p by simp
qed

end
