(* ===== verification/UpdateProps.thy ===== *)
theory UpdateProps
  imports FsUpdate
begin

text \<open>
  What a \<^verbatim>\<open>Decide\<close> event does to a data source: the properties of the update algorithm, and of
  the file system data source that is updated with it.
\<close>

section \<open>Pairing leaves and certificates\<close>

text \<open>
  Updating with a justified chain is exactly the calls that insert each leaf with the
  certificate that justifies it, followed by its block if it has one, oldest leaf first; none of
  the algorithm's own \<^verbatim>\<open>expect\<close>s fires.
\<close>

theorem update_justified_calls:
  assumes "justified N leaf_chain qc"
  shows "update N False D (Decide leaf_chain qc) ds =
    insert_all N D (rev (zip (qc # map (leaf_justify_qc N) leaf_chain) leaf_chain)) ds"
proof -
  have "\<forall>(qc, leaf) \<in> set (rev (zip (qc # map (leaf_justify_qc N) leaf_chain) leaf_chain)).
      qc_leaf_commit N qc = leaf_commit N leaf"
    using assms by (simp only: justified_def set_rev)
  then show ?thesis
    by (simp only: update_def event.case decided_pairs update_leaves_justified)
qed

definition mock_chain :: "(nat \<times> nat \<times> nat \<times> nat list option) list" where
  "mock_chain = [(2, 5, 1014, None), (1, 4, 1000, Some [8, 9, 8])]"

lemma mock_chain_justified: "justified mock_types mock_chain 1025"
  by (simp add: justified_def mock_chain_def mock_types_simps)

theorem update_justified_calls_witness:
  "update mock_types False (fs_update_ops mock_types (mock_leaves False) (mock_blocks False))
     (Decide mock_chain 1025) mock_created
   = insert_all mock_types (fs_update_ops mock_types (mock_leaves False) (mock_blocks False))
       [(1014, (1, 4, 1000, Some [8, 9, 8])), (1025, (2, 5, 1014, None))] mock_created"
proof -
  have "rev (zip (1025 # map (leaf_justify_qc mock_types) mock_chain) mock_chain)
      = [(1014, (1, 4, 1000, Some [8, 9, 8])), (1025, (2, 5, 1014, None))]"
    by (simp add: mock_chain_def mock_types_def)
  then show ?thesis
    using update_justified_calls [OF mock_chain_justified] by (simp only:)
qed

lemma update_leaves_accepts:
  "update_leaves N dbg D pairs ds = (Inr u, ds') \<Longrightarrow>
     \<forall>(qc, leaf) \<in> set pairs. qc_leaf_commit N qc = leaf_commit N leaf"
proof (induction pairs arbitrary: ds)
  case Nil
  then show ?case by simp
next
  case (Cons p pairs)
  obtain qc leaf where p: "p = (qc, leaf)" by fastforce
  from Cons.prems obtain x ds1 where
    one: "update_one N dbg D qc leaf ds = (Inr x, ds1)"
    and rest: "update_leaves N dbg D pairs ds1 = (Inr u, ds')"
    by (auto simp: p attempt_ok)
  from one have "qc_leaf_commit N qc = leaf_commit N leaf"
    by (auto simp: update_one_def leaf_query_data_new_def split: if_splits)
  with Cons.IH [OF rest] p show ?case by simp
qed

text \<open>
  Whatever the data source and the build mode, an update that returns successfully was given a
  chain in which every leaf is referenced by the certificate stored with it: a certificate of
  another leaf is never silently accepted.
\<close>

theorem update_accepts_justified:
  assumes "update N dbg D (Decide leaf_chain qc) ds = (Inr u, ds')"
  shows "justified N leaf_chain qc"
  using update_leaves_accepts [of N dbg D _ ds u ds'] assms
  by (simp add: update_def decided_pairs justified_def)

definition mock_empty_target :: "(nat, mock_leaf, mock_block, string) update_ops" where
  "mock_empty_target =
     \<lparr>ds_insert_leaf = (\<lambda>_ n. (Inr (), n + 1)), ds_insert_block = (\<lambda>_ n. (Inr (), n + 1))\<rparr>"

lemma mock_update_counts:
  "update mock_types False mock_empty_target (Decide mock_chain 1025) 0 = (Inr (), 3)"
  by (simp add: update_def mock_chain_def decided_qcs_def mock_types_simps update_one_def
      mock_empty_target_def leaf_query_data_new_def block_query_data_new_def)

theorem update_accepts_justified_witness: "justified mock_types mock_chain 1025"
  by (rule update_accepts_justified [OF mock_update_counts])

section \<open>Updating the file system data source\<close>

lemma fs_reachable_fields:
  assumes "append_log_laws LA lp" "append_log_laws BA bp" "genesis_at_zero N"
    and "fs_reachable N LA BA AS ds"
  shows "fs_fields LA BA lp bp ds" and "log_ok LA lp (leaf_storage ds)"
  using fs_reachable_ok [OF assms] by (simp_all add: fs_fields_def fs_ok_def log_ok_def)

text \<open>
  C19. A reachable file system data source that is given a justified chain continuing its leaf log
  either reports an error of the storage or ends up with exactly the chain's leaves appended in
  chronological order, each with its certificate. It never panics.
\<close>

theorem fs_update_appends_chain:
  assumes laws: "append_log_laws LA lp" "append_log_laws BA bp" "genesis_at_zero N"
    and reach: "fs_reachable N LA BA AS ds" and just: "justified N leaf_chain qc"
    and heights: "\<forall>i < length leaf_chain.
      unat (header_block_number N (leaf_block_header N (rev leaf_chain ! i)))
        = log_len LA (leaf_storage ds) + i"
    and room: "pending_inserts (leaf_storage ds) + length leaf_chain \<le> cache_size (leaf_storage ds)"
    and payloads: "\<forall>leaf \<in> set leaf_chain. \<forall>p.
      leaf_block_payload N leaf = Some p \<longrightarrow> payload_indexed N p"
    and run: "update N False (fs_update_ops N LA BA) (Decide leaf_chain qc) ds = (r, ds')"
  shows "(\<exists>e. r = Inl (Failure e)) \<or> r = Inr () \<and>
    log_contents LA (leaf_storage ds') = log_contents LA (leaf_storage ds) @
      rev (map2 (\<lambda>qc leaf. Some \<lparr>lq_leaf = leaf, lq_qc = qc\<rparr>)
        (qc # map (leaf_justify_qc N) leaf_chain) leaf_chain)"
proof -
  let ?pairs = "rev (zip (qc # map (leaf_justify_qc N) leaf_chain) leaf_chain)"
  note F = fs_reachable_fields [OF laws reach]
  have calls: "insert_all N (fs_update_ops N LA BA) ?pairs ds = (r, ds')"
    using run update_leaves_justified [of "?pairs" N "fs_update_ops N LA BA" ds] just
    by (simp only: update_def event.case decided_pairs justified_def set_rev)
  have snds: "map snd ?pairs = rev leaf_chain" by (simp add: rev_map [symmetric] map_snd_zip_take)
  have len: "length ?pairs = length leaf_chain" by simp
  show ?thesis
  proof (cases r)
    case (Inl x)
    have "\<forall>(qc, leaf) \<in> set ?pairs. \<forall>p. leaf_block_payload N leaf = Some p \<longrightarrow> payload_indexed N p"
      using payloads by (auto dest: set_zip_rightD)
    from fs.insert_all_fails [OF F(1) this] calls Inl show ?thesis by simp
  next
    case (Inr u)
    have nth: "snd (?pairs ! i) = rev leaf_chain ! i" if "i < length ?pairs" for i
      using that snds nth_map [of i ?pairs snd] by simp
    have h: "\<forall>i < length ?pairs. unat (header_block_number N (leaf_block_header N (snd (?pairs ! i))))
        = log_len LA (leaf_storage ds) + i"
      using heights nth len by simp
    have room': "pending_inserts (leaf_storage ds) + length ?pairs \<le> cache_size (leaf_storage ds)"
      using room len by simp
    from insert_all_leaves [OF F(2) h room' calls [unfolded Inr]] Inr show ?thesis
      by (simp add: rev_map)
  qed
qed

lemma mock_justify: "leaf_justify_qc mock_types (n, pk, q, pl) = q"
  by (simp add: mock_types_def)

theorem fs_update_appends_chain_witness:
  "let D = fs_update_ops mock_types (mock_leaves False) (mock_blocks False);
       (r, ds) = update mock_types False D (Decide mock_chain 1025) mock_created
   in (\<exists>e. r = Inl (Failure e)) \<or> r = Inr () \<and> log_contents (mock_leaves False) (leaf_storage ds) =
        log_contents (mock_leaves False) (leaf_storage mock_created) @
        [Some \<lparr>lq_leaf = (1, 4, 1000, Some [8, 9, 8]), lq_qc = 1014\<rparr>,
         Some \<lparr>lq_leaf = (2, 5, 1014, None), lq_qc = 1025\<rparr>]"
proof -
  have h: "\<forall>i < length mock_chain.
      unat (header_block_number mock_types (leaf_block_header mock_types (rev mock_chain ! i)))
        = log_len (mock_leaves False) (leaf_storage mock_created) + i"
    by (auto simp: mock_chain_def mock_types_simps mock_created_def log_len_eq less_Suc_eq)
  from fs_update_appends_chain [OF mock_logs_laws mock_genesis mock_reachable(1)
      mock_chain_justified h _ _ prod.collapse [symmetric]]
  show ?thesis
    by (simp add: case_prod_beta mock_created_def mock_chain_def mock_justify)
qed

end
