(* ===== verification/AvailabilityApi.thy ===== *)
theory AvailabilityApi
  imports FsMock QueryErrors
begin

text \<open>
  The handlers of the availability API (\<^verbatim>\<open>define_api\<close> of \<^verbatim>\<open>src/availability.rs\<close>), over any data
  source (\<open>avail_ops\<close>, the trait \<^verbatim>\<open>AvailabilityDataSource\<close>) and any request. A request is the
  parameter accessors of \<^verbatim>\<open>tide_disco\<close>; the text of a commitment and of a query error are the
  arguments \<open>show_hash\<close> and \<open>show_err\<close>. A stream handler yields a list of items.
\<close>

section \<open>Data sources and requests\<close>

record ('ds, 'lq, 'bq, 'h, 'ix, 'pk, 'ls, 'bs, 'lr, 'br) avail_ops =
  av_get_leaf :: "'ds \<Rightarrow> 'h resource_id \<Rightarrow> query_error + 'lq"
  av_get_block :: "'ds \<Rightarrow> 'h resource_id \<Rightarrow> query_error + 'bq"
  av_get_leaf_range :: "'ds \<Rightarrow> 64 word bound \<Rightarrow> 64 word bound \<Rightarrow> query_error + 'lr"
  av_get_block_range :: "'ds \<Rightarrow> 64 word bound \<Rightarrow> 64 word bound \<Rightarrow> query_error + 'br"
  av_get_block_with_transaction :: "'ds \<Rightarrow> 'h \<Rightarrow> query_error + 'bq \<times> 'ix"
  av_get_proposals :: "'ds \<Rightarrow> 'pk \<Rightarrow> 64 word option \<Rightarrow> query_error + 'lq list"
  av_count_proposals :: "'ds \<Rightarrow> 'pk \<Rightarrow> query_error failure + nat"
  av_subscribe_leaves :: "'ds \<Rightarrow> 64 word \<Rightarrow> query_error + 'ls"
  av_subscribe_blocks :: "'ds \<Rightarrow> 64 word \<Rightarrow> query_error + 'bs"

record ('h, 'pk, 'req) request =
  opt_integer_param :: "string \<Rightarrow> 'req + 64 word option"
  integer_param :: "string \<Rightarrow> 'req + 64 word"
  opt_blob_param :: "string \<Rightarrow> 'req + 'h option"
  blob_param :: "string \<Rightarrow> 'req + 'h"
  key_param :: "string \<Rightarrow> 'req + 'pk"

fun resource_to_string :: "('h \<Rightarrow> string) \<Rightarrow> 'h resource_id \<Rightarrow> string" where
  "resource_to_string show_hash (Number n) = decimal (unat n)"
| "resource_to_string show_hash (Hash h) = show_hash h"

section \<open>Handlers\<close>

text \<open>The identifier of a leaf or block: its height if the request has one, else its hash.\<close>

definition request_id ::
    "('h, 'pk, 'req) request \<Rightarrow> ('req, 'pk) availability_error + 'h resource_id" where
  "request_id req =
     and_then (map_err Request (opt_integer_param req ''height'')) (\<lambda>height.
       case height of
         Some n \<Rightarrow> Inr (Number n)
       | None \<Rightarrow> map_sum Request Hash (blob_param req ''hash''))"

definition handle_getleaf where
  "handle_getleaf show_hash V req ds =
     and_then (request_id req) (\<lambda>ident.
       map_err (\<lambda>e. QueryLeaf e (resource_to_string show_hash ident)) (av_get_leaf V ds ident))"

definition handle_getblock where
  "handle_getblock show_hash V req ds =
     and_then (request_id req) (\<lambda>ident.
       map_err (\<lambda>e. QueryBlock e (resource_to_string show_hash ident)) (av_get_block V ds ident))"

text \<open>The block and index of the transaction a request names.\<close>

definition request_transaction ::
    "('leaf, 'qc, 'hdr, 'pl, 'tx, 'ix, 'pf, 'h, 'pk, 'z) node_types_scheme \<Rightarrow> ('h \<Rightarrow> string)
      \<Rightarrow> ('ds, 'lq, ('hdr, 'pl, 'h) block_query_data, 'h, 'ix, 'pk, 'ls, 'bs, 'lr, 'br) avail_ops
      \<Rightarrow> ('h, 'pk, 'req) request \<Rightarrow> 'ds
      \<Rightarrow> ('req, 'pk) availability_error + ('hdr, 'pl, 'h) block_query_data \<times> 'ix" where
  "request_transaction N show_hash V req ds =
     and_then (map_err Request (opt_blob_param req ''hash'')) (\<lambda>h.
       case h of
         Some hash \<Rightarrow>
           map_err (\<lambda>e. QueryTransaction e (show_hash hash))
             (av_get_block_with_transaction V ds hash)
       | None \<Rightarrow>
           and_then (map_err Request (integer_param req ''height'')) (\<lambda>height.
           and_then (map_err (\<lambda>e. QueryBlock e (resource_to_string show_hash (Number height)))
               (av_get_block V ds (Number height))) (\<lambda>block.
           and_then (map_err Request (integer_param req ''index'')) (\<lambda>i.
           and_then (context_opt (payload_nth N (bq_payload block) (unat i))
               (InvalidTransactionIndex height i)) (\<lambda>index.
             Inr (block, index))))))"

definition handle_gettransaction where
  "handle_gettransaction N show_hash V req ds =
     and_then (map_err Failure (request_transaction N show_hash V req ds)) (\<lambda>(block, index).
       context_opt (block_transaction N block index)
         (Panic ''called Option::unwrap() on a None value''))"

text \<open>A data source may panic while it counts, and the handler with it.\<close>

definition handle_countproposals where
  "handle_countproposals V req ds =
     and_then (map_err (Failure \<circ> Request) (key_param req ''proposer_id'')) (\<lambda>proposer.
       map_err (map_failure (\<lambda>e. QueryProposals e proposer)) (av_count_proposals V ds proposer))"

definition handle_getproposals where
  "handle_getproposals V req ds =
     and_then (map_err Request (key_param req ''proposer_id'')) (\<lambda>proposer.
     and_then (map_err Request (opt_integer_param req ''count'')) (\<lambda>limit.
       map_err (\<lambda>e. QueryProposals e proposer) (av_get_proposals V ds proposer limit)))"

text \<open>\<^verbatim>\<open>try_flatten_stream\<close>: an error becomes the stream's only item.\<close>

definition try_flatten :: "'e + ('e + 'a) list \<Rightarrow> ('e + 'a) list" where
  "try_flatten r = (case r of Inl e \<Rightarrow> [Inl e] | Inr items \<Rightarrow> items)"

definition handle_streamleaves where
  "handle_streamleaves show_err items V req ds =
     try_flatten
       (and_then (map_err Request (integer_param req ''height'')) (\<lambda>height.
        and_then (map_err (\<lambda>err. LeafStream height (show_err err))
            (av_subscribe_leaves V ds height)) (\<lambda>leaves.
          Inr (map Inr (items leaves)))))"

definition handle_streamblocks where
  "handle_streamblocks show_err items V req ds =
     try_flatten
       (and_then (map_err Request (integer_param req ''height'')) (\<lambda>height.
        and_then (map_err (\<lambda>err. BlockStream height (show_err err))
            (av_subscribe_blocks V ds height)) (\<lambda>blocks.
          Inr (map Inr (items blocks)))))"

text \<open>An error opening the header stream is reported as one of a leaf stream, as in the code.\<close>

definition handle_streamblockheaders where
  "handle_streamblockheaders show_err items V req ds =
     try_flatten
       (and_then (map_err Request (integer_param req ''height'')) (\<lambda>height.
        and_then (map_err (\<lambda>err. LeafStream height (show_err err))
            (av_subscribe_blocks V ds height)) (\<lambda>blocks.
          Inr (map (\<lambda>block. map_sum StreamBlock bq_header block) (items blocks)))))"

section \<open>What a data source owes the transaction handler\<close>

text \<open>
  The handler unwraps the lookup of the index it computed. It may do so if every block it can get
  resolves the indices it enumerates, and a lookup by hash returns such an index, of a transaction
  with that hash.
\<close>

locale transaction_source =
  fixes N :: "('leaf, 'qc, 'hdr, 'pl, 'tx, 'ix, 'pf, 'h, 'pk, 'z) node_types_scheme"
    and V :: "('ds, 'lq, ('hdr, 'pl, 'h) block_query_data, 'h, 'ix, 'pk, 'ls, 'bs, 'lr, 'br) avail_ops"
    and inv :: "'ds \<Rightarrow> bool"
  assumes block_indexed: "inv ds \<Longrightarrow> av_get_block V ds ident = Inr b \<Longrightarrow>
      payload_indexed N (bq_payload b)"
    and found: "inv ds \<Longrightarrow> av_get_block_with_transaction V ds h = Inr (b, ix) \<Longrightarrow>
      \<exists>tx. payload_transaction N (bq_payload b) ix = Some tx \<and> tx_commit N tx = h"
begin

lemma block_transaction_resolves:
  assumes "payload_transaction N (bq_payload b) ix = Some tx"
  obtains tq where "block_transaction N b ix = Some tq" "tq_transaction tq = tx"
    "tq_hash tq = tx_commit N tx" "tq_block_hash tq = bq_hash b" "tq_height tq = block_height N b"
  using assms by (auto simp: payload_transaction_def block_transaction_def)

lemma gettransaction_by_hash:
  assumes inv: "inv ds" and req: "opt_blob_param req ''hash'' = Inr (Some h)"
  shows "case av_get_block_with_transaction V ds h of
      Inl e \<Rightarrow> handle_gettransaction N show_hash V req ds
        = Inl (Failure (QueryTransaction e (show_hash h)))
    | Inr (b, ix) \<Rightarrow> \<exists>tq. handle_gettransaction N show_hash V req ds = Inr tq \<and> tq_hash tq = h \<and>
        payload_transaction N (bq_payload b) ix = Some (tq_transaction tq) \<and>
        tq_block_hash tq = bq_hash b \<and> tq_height tq = block_height N b"
proof (cases "av_get_block_with_transaction V ds h")
  case (Inl e)
  with req show ?thesis by (simp add: handle_gettransaction_def request_transaction_def)
next
  case (Inr p)
  obtain b ix where p: "p = (b, ix)" by fastforce
  from found [OF inv Inr [unfolded p]] obtain tx where
    tx: "payload_transaction N (bq_payload b) ix = Some tx" "tx_commit N tx = h" by blast
  from tx(1) obtain tq where "block_transaction N b ix = Some tq" "tq_transaction tq = tx"
      "tq_hash tq = h" "tq_block_hash tq = bq_hash b" "tq_height tq = block_height N b"
    by (rule block_transaction_resolves) (use tx in auto)
  with req Inr p tx show ?thesis
    by (simp add: handle_gettransaction_def request_transaction_def)
qed

lemma gettransaction_by_index:
  assumes inv: "inv ds" and req: "opt_blob_param req ''hash'' = Inr None"
    "integer_param req ''height'' = Inr n" "integer_param req ''index'' = Inr i"
  shows "case av_get_block V ds (Number n) of
      Inl e \<Rightarrow> handle_gettransaction N show_hash V req ds
        = Inl (Failure (QueryBlock e (decimal (unat n))))
    | Inr b \<Rightarrow>
        if unat i < length (pl_iter N (bq_payload b))
        then \<exists>tq. handle_gettransaction N show_hash V req ds = Inr tq \<and>
          nth_transaction N (bq_payload b) (unat i) = Some (tq_transaction tq) \<and>
          tq_block_hash tq = bq_hash b \<and> tq_height tq = block_height N b
        else handle_gettransaction N show_hash V req ds
          = Inl (Failure (InvalidTransactionIndex n i))"
proof (cases "av_get_block V ds (Number n)")
  case (Inl e)
  with req show ?thesis by (simp add: handle_gettransaction_def request_transaction_def)
next
  case (Inr b)
  show ?thesis
  proof (cases "unat i < length (pl_iter N (bq_payload b))")
    case True
    let ?ix = "pl_iter N (bq_payload b) ! unat i"
    have nth: "payload_nth N (bq_payload b) (unat i) = Some ?ix"
      using True by (simp add: payload_nth_def list_get_def)
    obtain tx where tx: "payload_transaction N (bq_payload b) ?ix = Some tx"
      using payload_transaction_indexed [OF block_indexed [OF inv Inr]] True by force
    then obtain tq where "block_transaction N b ?ix = Some tq" "tq_transaction tq = tx"
        "tq_block_hash tq = bq_hash b" "tq_height tq = block_height N b"
      by (rule block_transaction_resolves) auto
    with req Inr True nth tx show ?thesis
      by (simp add: handle_gettransaction_def request_transaction_def nth_transaction_def)
  next
    case False
    then have "payload_nth N (bq_payload b) (unat i) = None"
      by (simp add: payload_nth_def list_get_def)
    with req Inr False show ?thesis
      by (simp add: handle_gettransaction_def request_transaction_def)
  qed
qed

end

section \<open>The file system data source\<close>

definition fs_avail_ops where
  "fs_avail_ops LA BA =
     \<lparr>av_get_leaf = (\<lambda>ds ident. fs_get_leaf LA ident ds),
      av_get_block = (\<lambda>ds ident. fs_get_block BA ident ds),
      av_get_leaf_range = (\<lambda>ds start end_bound. Inr (fs_get_leaf_range LA start end_bound ds)),
      av_get_block_range = (\<lambda>ds start end_bound. Inr (fs_get_block_range BA start end_bound ds)),
      av_get_block_with_transaction = (\<lambda>ds h. fs_get_block_with_transaction BA h ds),
      av_get_proposals = (\<lambda>ds proposer limit. fs_get_proposals LA proposer limit ds),
      av_count_proposals = (\<lambda>ds proposer. fs_count_proposals proposer ds),
      av_subscribe_leaves = (\<lambda>ds height. fs_subscribe_leaves LA height ds),
      av_subscribe_blocks = (\<lambda>ds height. fs_subscribe_blocks BA height ds)\<rparr>"

lemma fs_get_block_in:
  assumes ok: "fs_ok N LA BA lp bp ds" and get: "fs_get_block BA ident ds = Inr b"
  shows "b \<in> set (fs_blocks BA ds)"
proof -
  obtain n where "fs_get_block BA (Number n) ds = Inr b"
    using get by (cases ident) (auto simp: fs_get_block_def)
  then have "list_get (log_contents BA (block_storage ds)) (unat n) = Some (Some b)"
    unfolding fs_get_block_number [OF ok] read_entry_cases by (auto split: option.splits)
  then show ?thesis
    unfolding fs_blocks_def in_set_present by (auto simp: list_get_Some in_set_conv_nth)
qed


interpretation fs_api: transaction_source N "fs_avail_ops LA BA" "fs_ok N LA BA lp bp"
  for N LA BA lp bp
proof unfold_locales
  fix ds ident b
  assume ok: "fs_ok N LA BA lp bp ds" and get: "av_get_block (fs_avail_ops LA BA) ds ident = Inr b"
  from fs_get_block_in [OF ok] get have "b \<in> set (fs_blocks BA ds)" by (simp add: fs_avail_ops_def)
  with ok show "payload_indexed N (bq_payload b)" by (simp add: fs_ok_def)
next
  fix ds h b ix
  assume ok: "fs_ok N LA BA lp bp ds"
    and get: "av_get_block_with_transaction (fs_avail_ops LA BA) ds h = Inr (b, ix)"
  from fs_get_block_with_transaction_found [OF ok, of h] get obtain tx where
    b: "b \<in> set (fs_blocks BA ds)" and tx: "(ix, tx) \<in> set (payload_transactions N (bq_payload b))"
      "tx_commit N tx = h"
    by (auto simp: fs_avail_ops_def block_entries_iff)
  have "payload_indexed N (bq_payload b)" using ok b by (simp add: fs_ok_def)
  then have "payload_transaction N (bq_payload b) ix = Some tx"
    using tx(1) payload_transaction_indexed by (fastforce simp: payload_transactions_def)
  with tx(2) show "\<exists>tx. payload_transaction N (bq_payload b) ix = Some tx \<and> tx_commit N tx = h"
    by blast
qed

section \<open>Properties\<close>

text \<open>
  C21. Asking a reachable file system data source for a transaction by hash never panics: the
  answer is a transaction with that hash, with the height and hash of a stored block that holds
  it, or a 404 when no stored block does.
\<close>

theorem fs_api_transaction_by_hash:
  assumes "append_log_laws LA lp" and "append_log_laws BA bp" and "genesis_at_zero N"
    and "fs_reachable N LA BA AS ds" and "opt_blob_param req ''hash'' = Inr (Some h)"
  shows "case handle_gettransaction N show_hash (fs_avail_ops LA BA) req ds of
      Inr tq \<Rightarrow> tq_hash tq = h \<and> (\<exists>b \<in> set (fs_blocks BA ds). \<exists>ix.
        payload_transaction N (bq_payload b) ix = Some (tq_transaction tq) \<and>
        tq_height tq = block_height N b \<and> tq_block_hash tq = bq_hash b)
    | Inl x \<Rightarrow> (\<exists>e. x = Failure e \<and> availability_error_status e = status_not_found) \<and>
        (\<forall>b \<in> set (fs_blocks BA ds). \<forall>ix tx.
          (ix, tx) \<in> set (payload_transactions N (bq_payload b)) \<longrightarrow> tx_commit N tx \<noteq> h)"
proof -
  have ok: "fs_ok N LA BA lp bp ds" using fs_reachable_ok [OF assms(1-4)] by blast
  have op: "av_get_block_with_transaction (fs_avail_ops LA BA) ds h
      = fs_get_block_with_transaction BA h ds"
    by (simp add: fs_avail_ops_def)
  show ?thesis
  proof (cases "fs_get_block_with_transaction BA h ds")
    case (Inl e)
    with fs_get_block_with_transaction_found [OF ok, of h]
      fs_api.gettransaction_by_hash [OF ok assms(5), of show_hash] op
    show ?thesis by (auto simp: block_entries_iff)
  next
    case (Inr p)
    obtain b ix where p: "p = (b, ix)" by fastforce
    have b: "b \<in> set (fs_blocks BA ds)"
      using fs_get_block_with_transaction_found [OF ok, of h] Inr p by simp
    from fs_api.gettransaction_by_hash [OF ok assms(5), of show_hash] Inr p op obtain tq where
      "handle_gettransaction N show_hash (fs_avail_ops LA BA) req ds = Inr tq" "tq_hash tq = h"
      "payload_transaction N (bq_payload b) ix = Some (tq_transaction tq)"
      "tq_block_hash tq = bq_hash b" "tq_height tq = block_height N b"
      by auto
    with b show ?thesis by auto
  qed
qed

definition mock_request :: "(nat, nat, string) request" where
  "mock_request =
     \<lparr>opt_integer_param = (\<lambda>_. Inr None), integer_param = (\<lambda>p. Inr 1),
      opt_blob_param = (\<lambda>_. Inr (Some 7008)), blob_param = (\<lambda>_. Inr 7008), key_param = (\<lambda>_. Inr 4)\<rparr>"

theorem fs_api_transaction_by_hash_witness:
  "\<exists>tq. handle_gettransaction mock_types decimal
      (fs_avail_ops (mock_leaves False) (mock_blocks False)) mock_request mock_with_block = Inr tq \<and>
    tq_hash tq = 7008"
proof -
  have req: "opt_blob_param mock_request ''hash'' = Inr (Some 7008)" by (simp add: mock_request_def)
  have holds: "(0, 8) \<in> set (payload_transactions mock_types (bq_payload (mock_block 1 [8, 9, 8])))"
    "tx_commit mock_types 8 = 7008"
    "mock_block 1 [8, 9, 8] \<in> set (fs_blocks (mock_blocks False) mock_with_block)"
    by (simp_all add: payload_transactions_def mock_types_simps mock_block_def list_get_def
        fs_blocks_def mock_contents)
  from fs_api_transaction_by_hash [OF mock_logs_laws mock_genesis mock_reachable(3) req, of decimal]
    holds
  show ?thesis by (auto split: sum.splits)
qed

text \<open>
  Asking for a transaction by height and index gives the transaction at that place of the
  block, a 404 for an index past its end, and the error of the block lookup otherwise; the
  \<^verbatim>\<open>unwrap\<close> in the handler never panics.
\<close>

theorem fs_api_transaction_by_index:
  assumes "append_log_laws LA lp" and "append_log_laws BA bp" and "genesis_at_zero N"
    and "fs_reachable N LA BA AS ds" and "opt_blob_param req ''hash'' = Inr None"
    and "integer_param req ''height'' = Inr n" and "integer_param req ''index'' = Inr i"
  shows "case fs_get_block BA (Number n) ds of
      Inl e \<Rightarrow> handle_gettransaction N show_hash (fs_avail_ops LA BA) req ds
        = Inl (Failure (QueryBlock e (decimal (unat n))))
    | Inr b \<Rightarrow>
        if unat i < length (pl_iter N (bq_payload b))
        then \<exists>tq. handle_gettransaction N show_hash (fs_avail_ops LA BA) req ds = Inr tq \<and>
          nth_transaction N (bq_payload b) (unat i) = Some (tq_transaction tq) \<and>
          tq_block_hash tq = bq_hash b \<and> tq_height tq = block_height N b
        else handle_gettransaction N show_hash (fs_avail_ops LA BA) req ds
          = Inl (Failure (InvalidTransactionIndex n i))"
proof -
  have ok: "fs_ok N LA BA lp bp ds" using fs_reachable_ok [OF assms(1-4)] by blast
  have op: "av_get_block (fs_avail_ops LA BA) ds (Number n) = fs_get_block BA (Number n) ds"
    by (simp add: fs_avail_ops_def)
  from fs_api.gettransaction_by_index [OF ok assms(5-7), of show_hash, unfolded op]
  show ?thesis .
qed

theorem fs_api_transaction_by_index_witness:
  "handle_gettransaction mock_types decimal (fs_avail_ops (mock_leaves False) (mock_blocks False))
     (mock_request\<lparr>opt_blob_param := \<lambda>_. Inr None,
        integer_param := \<lambda>p. Inr (if p = ''height'' then 1 else 3)\<rparr>) mock_with_block
   = Inl (Failure (InvalidTransactionIndex 1 3))"
proof -
  have "fs_get_block (mock_blocks False) (Number 1) mock_with_block = Inr (mock_block 1 [8, 9, 8])"
    using fs_get_block_number [where n = 1] fs_reachable_ok [OF mock_logs_laws mock_genesis mock_reachable(3)]
    by (fastforce simp: mock_contents)
  then show ?thesis
    using fs_api_transaction_by_index [OF mock_logs_laws mock_genesis mock_reachable(3),
      of "mock_request\<lparr>opt_blob_param := \<lambda>_. Inr None,
        integer_param := \<lambda>p. Inr (if p = ''height'' then 1 else 3)\<rparr>" 1 3 decimal]
    by (simp add: mock_types_def mock_block_def)
qed

end
