(* ===== verification/PromMetrics.thy ===== *)
theory PromMetrics
  imports Prelude
begin

text \<open>
  \<^verbatim>\<open>src/metrics.rs\<close>: the hierarchical metrics registry. Groups are handles that share maps
  through \<^verbatim>\<open>Arc<RwLock<..>>\<close>; the heap holds those maps under addresses, so that two clones of a
  group see each other's changes. The \<^verbatim>\<open>prometheus\<close> crate (its registry, counters, gauges,
  histograms and text encoder) is a parameter with its own state, and so is \<^verbatim>\<open>f64\<close>. No call
  panics while it holds a lock, so the \<^verbatim>\<open>unwrap\<close> of a lock never fails.
\<close>

section \<open>Data\<close>

datatype 'err metrics_error =
    NoSuchSubgroup "string list"
  | NoSuchMetric "string list" string
  | PrometheusErr 'err

text \<open>The fields of \<^verbatim>\<open>prometheus::Opts\<close> the code sets and reads.\<close>

record opts =
  opt_name :: string
  opt_help :: string
  opt_namespace :: string
  opt_subsystem :: string

record ('p, 'r, 'c, 'g, 'h, 'err, 'f) prom_ops =
  registry_new :: "'p \<Rightarrow> 'r \<times> 'p"
  counter_with_opts :: "opts \<Rightarrow> 'p \<Rightarrow> ('err + 'c) \<times> 'p"
  counter_register :: "'r \<Rightarrow> 'c \<Rightarrow> 'p \<Rightarrow> ('err + unit) \<times> 'p"
  counter_value :: "'p \<Rightarrow> 'c \<Rightarrow> 64 word"
  counter_inc_by :: "'c \<Rightarrow> 64 word \<Rightarrow> 'p \<Rightarrow> 'p"
  gauge_with_opts :: "opts \<Rightarrow> 'p \<Rightarrow> ('err + 'g) \<times> 'p"
  gauge_register :: "'r \<Rightarrow> 'g \<Rightarrow> 'p \<Rightarrow> ('err + unit) \<times> 'p"
  gauge_value :: "'p \<Rightarrow> 'g \<Rightarrow> 64 word"
  gauge_store :: "'g \<Rightarrow> 64 word \<Rightarrow> 'p \<Rightarrow> 'p"
  gauge_add :: "'g \<Rightarrow> 64 word \<Rightarrow> 'p \<Rightarrow> 'p"
  gauge_sub :: "'g \<Rightarrow> 64 word \<Rightarrow> 'p \<Rightarrow> 'p"
  histogram_with_opts :: "opts \<Rightarrow> 'p \<Rightarrow> ('err + 'h) \<times> 'p"
  histogram_register :: "'r \<Rightarrow> 'h \<Rightarrow> 'p \<Rightarrow> ('err + unit) \<times> 'p"
  histogram_count :: "'p \<Rightarrow> 'h \<Rightarrow> 64 word"
  histogram_total :: "'p \<Rightarrow> 'h \<Rightarrow> 'f"
  histogram_observe :: "'h \<Rightarrow> 'f \<Rightarrow> 'p \<Rightarrow> 'p"
  gather_encode :: "'p \<Rightarrow> 'r \<Rightarrow> 'err + string"
  message_error :: "string \<Rightarrow> 'err"

record 'r registry =
  prometheus :: 'r
  labels :: nat

record 'r prom_metrics =
  metrics :: "'r registry"
  namespace :: "string list"
  children :: nat
  counters :: nat
  gauges :: nat
  histograms :: nat

record ('p, 'r, 'c, 'g, 'h) heap =
  prom :: 'p
  fresh :: nat
  child_maps :: "nat \<Rightarrow> string \<rightharpoonup> 'r prom_metrics"
  counter_maps :: "nat \<Rightarrow> string \<rightharpoonup> 'c"
  gauge_maps :: "nat \<Rightarrow> string \<rightharpoonup> 'g"
  histogram_maps :: "nat \<Rightarrow> string \<rightharpoonup> 'h"
  label_maps :: "nat \<Rightarrow> string list \<rightharpoonup> nat"
  label_cells :: "nat \<Rightarrow> string"

text \<open>\<^verbatim>\<open>PrometheusMetrics::default()\<close>: a new registry and five new maps.\<close>

definition metrics_default where
  "metrics_default P hp =
     (let (r, p) = registry_new P (prom hp); a = fresh hp
      in (\<lparr>metrics = \<lparr>prometheus = r, labels = a\<rparr>, namespace = [], children = a + 1,
           counters = a + 2, gauges = a + 3, histograms = a + 4\<rparr>,
          hp\<lparr>prom := p, fresh := a + 5,
             label_maps := (label_maps hp)(a := Map.empty),
             child_maps := (child_maps hp)(a + 1 := Map.empty),
             counter_maps := (counter_maps hp)(a + 2 := Map.empty),
             gauge_maps := (gauge_maps hp)(a + 3 := Map.empty),
             histogram_maps := (histogram_maps hp)(a + 4 := Map.empty)\<rparr>))"

section \<open>The registry\<close>

text \<open>
  \<^verbatim>\<open>Registry::register\<close>, for each kind of collector. The calls below that can only panic have the
  error type \<^typ>\<open>unit\<close>, which no branch uses.
\<close>

definition register where
  "register reg_fn reg metric hp =
     on_field (\<lambda>p. hp\<lparr>prom := p\<rparr>)
       (unwrapped (foreign (reg_fn (prometheus reg) metric (prom hp))) :: (unit, _, _) outcome)"

definition register_label where
  "register_label reg fq_name cell hp =
     hp\<lparr>label_maps := (label_maps hp)(labels reg := (label_maps hp (labels reg))(fq_name \<mapsto> cell))\<rparr>"

definition registry_get_label where
  "registry_get_label reg fq_name hp = label_maps hp (labels reg) fq_name"

text \<open>
  \<^verbatim>\<open>Registry::export\<close>. The iteration order of the hash map is \<open>order\<close>; \<open>utf8_error\<close> is the
  error of \<^verbatim>\<open>String::from_utf8\<close>, if the bytes are not UTF-8, as it displays.
\<close>

definition export_labels where
  "export_labels order reg hp =
     joined [CHR 0x0A]
       (map (\<lambda>(fq_name, cell). ''# LABEL '' @ joined ''_'' fq_name @ '' '' @ label_cells hp cell)
         (order (label_maps hp (labels reg)))) @ [CHR 0x0A]"

definition export where
  "export P order utf8_error reg hp =
     (let buffer = export_labels order reg hp in
      case gather_encode P (prom hp) (prometheus reg) of
        Inl e \<Rightarrow> Inl (PrometheusErr e)
      | Inr text \<Rightarrow>
          (case utf8_error (buffer @ text) of
             Some err \<Rightarrow> Inl (PrometheusErr (message_error P
               (''could not convert Prometheus output to UTF-8: '' @ err)))
           | None \<Rightarrow> Inr (buffer @ text)))"

section \<open>Metrics\<close>

text \<open>
  \<^verbatim>\<open>Counter::new\<close>, \<^verbatim>\<open>Gauge::new\<close> and \<^verbatim>\<open>Histogram::new\<close> have the same body over the operations
  of their kind.
\<close>

definition metric_new where
  "metric_new with_opts reg_fn reg opts hp =
     attempt (on_field (\<lambda>p. hp\<lparr>prom := p\<rparr>) (unwrapped (foreign (with_opts opts (prom hp)))))
       (\<lambda>metric hp. attempt (register reg_fn reg metric hp) (\<lambda>_ hp. (Inr metric, hp)))"

definition counter_new where
  "counter_new P = metric_new (counter_with_opts P) (counter_register P)"

definition counter_get where "counter_get P c hp = counter_value P (prom hp) c"

definition counter_add where
  "counter_add P c amount hp = hp\<lparr>prom := counter_inc_by P c amount (prom hp)\<rparr>"

definition gauge_new where
  "gauge_new P = metric_new (gauge_with_opts P) (gauge_register P)"

definition gauge_get where "gauge_get P g hp = gauge_value P (prom hp) g"

definition gauge_set where
  "gauge_set P g amount hp = hp\<lparr>prom := gauge_store P g amount (prom hp)\<rparr>"

text \<open>
  \<^verbatim>\<open>Gauge::update\<close>: \<open>delta\<close> is an \<^verbatim>\<open>i64\<close>, read with \<^term>\<open>sint\<close>. Negating \<^verbatim>\<open>i64::MIN\<close> panics
  when overflow checks are on (\<open>dbg\<close>) and wraps otherwise.
\<close>

definition gauge_update ::
    "bool \<Rightarrow> ('p, 'r, 'c, 'g, 'h, 'err, 'f) prom_ops \<Rightarrow> 'g \<Rightarrow> 64 word
      \<Rightarrow> ('p, 'r, 'c, 'g, 'h) heap \<Rightarrow> (unit, unit, ('p, 'r, 'c, 'g, 'h) heap) outcome" where
  "gauge_update dbg P g delta hp =
     (if sint delta \<ge> 0 then (Inr (), hp\<lparr>prom := gauge_add P g delta (prom hp)\<rparr>)
      else if dbg \<and> sint delta = - (2 ^ 63) then (Inl (Panic ''attempt to negate with overflow''), hp)
      else (Inr (), hp\<lparr>prom := gauge_sub P g (- delta) (prom hp)\<rparr>))"

definition histogram_new where
  "histogram_new P = metric_new (histogram_with_opts P) (histogram_register P)"

definition histogram_sample_count where
  "histogram_sample_count P h hp = histogram_count P (prom hp) h"

definition histogram_sum where "histogram_sum P h hp = histogram_total P (prom hp) h"

text \<open>\<open>fdiv\<close> and \<open>of_usize\<close> are the division of \<^verbatim>\<open>f64\<close> and the cast to it.\<close>

definition histogram_mean where
  "histogram_mean P fdiv of_usize h hp =
     fdiv (histogram_sum P h hp) (of_usize (histogram_sample_count P h hp))"

definition histogram_add_point where
  "histogram_add_point P h point hp = hp\<lparr>prom := histogram_observe P h point (prom hp)\<rparr>"

text \<open>\<^verbatim>\<open>str::split\<close> with one character.\<close>

fun split_on :: "char \<Rightarrow> string \<Rightarrow> string list" where
  "split_on c [] = [[]]"
| "split_on c (x # xs) =
     (if x = c then [] # split_on c xs
      else (case split_on c xs of [] \<Rightarrow> [[x]] | w # ws \<Rightarrow> (x # w) # ws))"

definition label_fq_name where
  "label_fq_name opts =
     (if opt_namespace opts = [] then [] else split_on (CHR ''_'') (opt_namespace opts)) @
     (if opt_subsystem opts = [] then [] else split_on (CHR ''_'') (opt_subsystem opts)) @
     [opt_name opts]"

definition label_new where
  "label_new reg opts hp =
     (let cell = fresh hp in
      (cell, register_label reg (label_fq_name opts) cell
         (hp\<lparr>fresh := cell + 1, label_cells := (label_cells hp)(cell := [])\<rparr>)))"

definition label_get where "label_get cell hp = label_cells hp cell"

definition label_set where
  "label_set cell value hp = hp\<lparr>label_cells := (label_cells hp)(cell := value)\<rparr>"

section \<open>Groups\<close>

definition prometheus_text where
  "prometheus_text P order utf8_error self hp = export P order utf8_error (metrics self) hp"

definition get_metric where
  "get_metric self m label = context_opt (m label) (NoSuchMetric (namespace self) label)"

definition get_counter where
  "get_counter hp self label = get_metric self (counter_maps hp (counters self)) label"

definition get_gauge where
  "get_gauge hp self label = get_metric self (gauge_maps hp (gauges self)) label"

definition get_histogram where
  "get_histogram hp self label = get_metric self (histogram_maps hp (histograms self)) label"

definition get_label where
  "get_label hp self name =
     context_opt (registry_get_label (metrics self) (namespace self @ [name]) hp)
       (NoSuchMetric (namespace self) name)"

fun get_subgroup where
  "get_subgroup hp cur [] = Inr cur"
| "get_subgroup hp cur (seg # path) =
     (case child_maps hp (children cur) seg of
        None \<Rightarrow> Inl (NoSuchSubgroup (namespace cur @ [seg]))
      | Some next \<Rightarrow> get_subgroup hp next path)"

definition metric_opts where
  "metric_opts self label unit_label =
     (let help = (case unit_label of None \<Rightarrow> label | Some unit \<Rightarrow> unit);
          opts = \<lparr>opt_name = label, opt_help = help, opt_namespace = [], opt_subsystem = []\<rparr>
      in case namespace self of
           [] \<Rightarrow> opts
         | ns # group_names \<Rightarrow>
             opts\<lparr>opt_namespace := ns, opt_subsystem := joined ''_'' group_names\<rparr>)"

definition create_counter where
  "create_counter P self label unit_label hp =
     attempt (counter_new P (metrics self) (metric_opts self label unit_label) hp) (\<lambda>counter hp.
       (Inr counter,
        hp\<lparr>counter_maps := (counter_maps hp)
             (counters self := (counter_maps hp (counters self))(label \<mapsto> counter))\<rparr>))"

definition create_gauge where
  "create_gauge P self label unit_label hp =
     attempt (gauge_new P (metrics self) (metric_opts self label unit_label) hp) (\<lambda>gauge hp.
       (Inr gauge,
        hp\<lparr>gauge_maps := (gauge_maps hp)
             (gauges self := (gauge_maps hp (gauges self))(label \<mapsto> gauge))\<rparr>))"

definition create_histogram where
  "create_histogram P self label unit_label hp =
     attempt (histogram_new P (metrics self) (metric_opts self label unit_label) hp) (\<lambda>histogram hp.
       (Inr histogram,
        hp\<lparr>histogram_maps := (histogram_maps hp)
             (histograms self := (histogram_maps hp (histograms self))(label \<mapsto> histogram))\<rparr>))"

definition create_label where
  "create_label self name hp = label_new (metrics self) (metric_opts self name None) hp"

definition subgroup where
  "subgroup P self subgroup_name hp =
     (case child_maps hp (children self) subgroup_name of
        Some grp \<Rightarrow> (grp, hp)
      | None \<Rightarrow>
          (let (d, hp) = metrics_default P hp;
               grp = d\<lparr>metrics := metrics self, namespace := namespace self @ [subgroup_name]\<rparr>
           in (grp, hp\<lparr>child_maps := (child_maps hp)
                (children self := (child_maps hp (children self))(subgroup_name \<mapsto> grp))\<rparr>)))"

end
