(* ===== verification/PromTree.thy ===== *)
theory PromTree
  imports PromMetrics
begin

text \<open>
  The tree of metric groups: which group a path leads to, how creating a subgroup changes that,
  and the invariant of the tree under every operation of the module: namespaces are paths, all
  groups share one registry, and no two groups share a map.
\<close>

section \<open>Paths\<close>

fun walk where
  "walk hp cur [] = Some cur"
| "walk hp cur (seg # path) =
     (case child_maps hp (children cur) seg of None \<Rightarrow> None | Some next \<Rightarrow> walk hp next path)"

lemma get_subgroup_walk [simp]:
  "get_subgroup hp cur path = Inr g \<longleftrightarrow> walk hp cur path = Some g"
  by (induction path arbitrary: cur) (auto split: option.splits)

lemma walk_append:
  "walk hp cur (p @ q) = Option.bind (walk hp cur p) (\<lambda>g. walk hp g q)"
  by (induction p arbitrary: cur) (auto split: option.splits)

lemma walk_snoc:
  "walk hp cur (p @ [s]) = Some g \<longleftrightarrow>
     (\<exists>h. walk hp cur p = Some h \<and> child_maps hp (children h) s = Some g)"
  by (cases "walk hp cur p") (auto simp: walk_append split: option.splits)

lemma walk_child_maps:
  "child_maps hp' = child_maps hp \<Longrightarrow> walk hp' cur path = walk hp cur path"
  by (induction path arbitrary: cur) (auto split: option.splits)

definition tree_ok where
  "tree_ok root hp \<longleftrightarrow>
     (\<forall>p g. walk hp root p = Some g \<longrightarrow>
        metrics g = metrics root \<and> namespace g = namespace root @ p \<and> children g < fresh hp \<and>
        fresh hp \<ge> children g + 4 \<and>
        counters g = children g + 1 \<and> gauges g = children g + 2 \<and> histograms g = children g + 3) \<and>
     (\<forall>p q g h. walk hp root p = Some g \<longrightarrow> walk hp root q = Some h \<longrightarrow>
        p \<noteq> q \<longrightarrow> children g + 5 \<le> children h \<or> children h + 5 \<le> children g)"

lemma tree_okD:
  assumes "tree_ok root hp" "walk hp root p = Some g"
  shows "metrics g = metrics root" "namespace g = namespace root @ p" "children g + 4 \<le> fresh hp"
    "counters g = children g + 1" "gauges g = children g + 2" "histograms g = children g + 3"
  using assms unfolding tree_ok_def by blast+

lemma tree_ok_apart:
  "tree_ok root hp \<Longrightarrow> walk hp root p = Some g \<Longrightarrow> walk hp root q = Some h \<Longrightarrow>
     p \<noteq> q \<Longrightarrow> children g + 5 \<le> children h \<or> children h + 5 \<le> children g"
  unfolding tree_ok_def by blast

lemma tree_ok_transfer:
  assumes "tree_ok root hp" "child_maps hp' = child_maps hp" "fresh hp \<le> fresh hp'"
  shows "tree_ok root hp'"
  using assms(1,3) unfolding tree_ok_def walk_child_maps [OF assms(2)]
  by (meson order_less_le_trans order_trans)

lemma tree_ok_default:
  assumes "metrics_default P hp = (root, hp')"
  shows "tree_ok root hp'"
proof -
  have root: "child_maps hp' (children root) = Map.empty" "children root + 4 = fresh hp'"
    "counters root = children root + 1" "gauges root = children root + 2"
    "histograms root = children root + 3"
    using assms by (auto simp: metrics_default_def Let_def split: prod.splits)
  have "walk hp' root p = Some g \<longleftrightarrow> p = [] \<and> g = root" for p g
    using root(1) by (cases p) auto
  then show ?thesis unfolding tree_ok_def using root by auto
qed

section \<open>Creating a subgroup\<close>

lemma subgroup_cases:
  assumes "subgroup P self name hp = (g, hp')"
  obtains (old) "child_maps hp (children self) name = Some g" "hp' = hp"
  | (new) "child_maps hp (children self) name = None"
      "metrics g = metrics self" "namespace g = namespace self @ [name]"
      "children g = fresh hp + 1" "counters g = fresh hp + 2" "gauges g = fresh hp + 3"
      "histograms g = fresh hp + 4" "fresh hp' = fresh hp + 5"
      "child_maps hp' = ((child_maps hp)(fresh hp + 1 := Map.empty))
         (children self := (((child_maps hp)(fresh hp + 1 := Map.empty)) (children self))
           (name \<mapsto> g))"
      "counter_maps hp' = (counter_maps hp)(fresh hp + 2 := Map.empty)"
      "gauge_maps hp' = (gauge_maps hp)(fresh hp + 3 := Map.empty)"
      "histogram_maps hp' = (histogram_maps hp)(fresh hp + 4 := Map.empty)"
  using assms
  by (cases "child_maps hp (children self) name")
    (auto simp: subgroup_def metrics_default_def Let_def split: prod.splits)

lemma subgroup_paths:
  assumes ok: "tree_ok root hp" and at: "walk hp root p = Some self"
    and none: "child_maps hp (children self) name = None"
    and maps: "child_maps hp' = ((child_maps hp)(fresh hp + 1 := Map.empty))
         (children self := (((child_maps hp)(fresh hp + 1 := Map.empty)) (children self))
           (name \<mapsto> g))"
    and g: "children g = fresh hp + 1"
  shows "walk hp' root q = Some h \<longleftrightarrow>
    walk hp root q = Some h \<or> q = p @ [name] \<and> h = g"
proof (induction q arbitrary: h rule: rev_induct)
  case Nil
  show ?case by simp
next
  case (snoc s q)
  have below: "children k \<noteq> fresh hp + 1" if "walk hp root r = Some k" for r k
    using tree_okD(3) [OF ok that] by simp
  have same: "children k = children self \<longleftrightarrow> r = p" if "walk hp root r = Some k" for r k
    using tree_ok_apart [OF ok that at] that at by (cases "r = p") auto
  have new: "walk hp root (p @ [name]) = Some k \<longleftrightarrow> False" for k
    using at none by (auto simp: walk_snoc)
  have "walk hp' root (q @ [s]) = Some h \<longleftrightarrow>
      (\<exists>k. walk hp root q = Some k \<and> child_maps hp' (children k) s = Some h) \<or>
      q = p @ [name] \<and> child_maps hp' (children g) s = Some h"
    using snoc by (auto simp: walk_snoc)
  also have "\<dots> \<longleftrightarrow>
      (\<exists>k. walk hp root q = Some k \<and> child_maps hp' (children k) s = Some h)"
    using below [OF at] by (auto simp: maps g)
  also have "\<dots> \<longleftrightarrow> (\<exists>k. walk hp root q = Some k \<and> child_maps hp (children k) s = Some h)
      \<or> q = p \<and> s = name \<and> h = g"
    using below at none same by (auto simp: maps)
  finally show ?case by (auto simp: walk_snoc)
qed

lemma subgroup_tree:
  assumes ok: "tree_ok root hp" and at: "walk hp root p = Some self"
    and run: "subgroup P self name hp = (g, hp')"
  shows "tree_ok root hp'" and "walk hp' root (p @ [name]) = Some g"
    and "\<And>q h. q \<noteq> p @ [name] \<Longrightarrow>
      walk hp' root q = Some h \<longleftrightarrow> walk hp root q = Some h"
proof -
  have all: "tree_ok root hp' \<and> walk hp' root (p @ [name]) = Some g \<and>
    (\<forall>q h. q \<noteq> p @ [name] \<longrightarrow> walk hp' root q = Some h \<longleftrightarrow> walk hp root q = Some h)"
    using run
  proof (cases rule: subgroup_cases)
    case old
    then show ?thesis using ok at by (auto simp: walk_snoc)
  next
    case new
    note paths = subgroup_paths [OF ok at new(1,9,4)]
    note self = tree_okD [OF ok at]
    have fields: "metrics h = metrics root \<and> namespace h = namespace root @ q \<and>
        children h < fresh hp' \<and> fresh hp' \<ge> children h + 4 \<and> counters h = children h + 1 \<and>
        gauges h = children h + 2 \<and> histograms h = children h + 3"
      if "walk hp root q = Some h \<or> q = p @ [name] \<and> h = g" for q h
      using that
    proof
      assume "walk hp root q = Some h"
      from tree_okD [OF ok this] new(8) show ?thesis by simp
    next
      assume "q = p @ [name] \<and> h = g"
      with new(2-8) self show ?thesis by simp
    qed
    have far: "children k + 5 \<le> children g" if "walk hp root q = Some k" for q k
      using tree_okD(3) [OF ok that] new(4) by simp
    have apart: "children h + 5 \<le> children k \<or> children k + 5 \<le> children h"
      if "walk hp root q = Some h \<or> q = p @ [name] \<and> h = g"
        "walk hp root r = Some k \<or> r = p @ [name] \<and> k = g" "q \<noteq> r" for q r h k
      using that far tree_ok_apart [OF ok] by metis
    show ?thesis unfolding tree_ok_def paths using fields apart by blast
  qed
  from all show "tree_ok root hp'" "walk hp' root (p @ [name]) = Some g"
    "\<And>q h. q \<noteq> p @ [name] \<Longrightarrow>
      walk hp' root q = Some h \<longleftrightarrow> walk hp root q = Some h" by blast+
qed

end
