(* ===== verification/PromProps.thy ===== *)
theory PromProps
  imports PromTree
begin

text \<open>
  The states a tree of metric groups can reach, and its properties: subgroups are found by path
  and shared, metrics of different groups do not interfere, labels of groups whose names contain
  an underscore cannot be read back, a gauge update is exact modulo \<open>2 ^ 64\<close>.
\<close>

section \<open>Reachable trees\<close>

inductive prom_step for P root where
  subgroup: "walk hp root p = Some g \<Longrightarrow> subgroup P g name hp = (g', hp') \<Longrightarrow>
    prom_step P root hp hp'"
| counter: "walk hp root p = Some g \<Longrightarrow> create_counter P g label unit_label hp = (Inr c, hp') \<Longrightarrow>
    prom_step P root hp hp'"
| gauge: "walk hp root p = Some g \<Longrightarrow> create_gauge P g label unit_label hp = (Inr u, hp') \<Longrightarrow>
    prom_step P root hp hp'"
| histogram: "walk hp root p = Some g \<Longrightarrow>
    create_histogram P g label unit_label hp = (Inr h, hp') \<Longrightarrow> prom_step P root hp hp'"
| label: "walk hp root p = Some g \<Longrightarrow> create_label g name hp = (cell, hp') \<Longrightarrow>
    prom_step P root hp hp'"
| counter_add: "prom_step P root hp (counter_add P c amount hp)"
| gauge_set: "prom_step P root hp (gauge_set P g amount hp)"
| gauge_update: "gauge_update dbg P g delta hp = (Inr (), hp') \<Longrightarrow> prom_step P root hp hp'"
| observe: "prom_step P root hp (histogram_add_point P h point hp)"
| label_set: "prom_step P root hp (label_set cell value hp)"

inductive prom_reachable for P root where
  init: "metrics_default P hp0 = (root, hp) \<Longrightarrow> prom_reachable P root hp"
| step: "prom_reachable P root hp \<Longrightarrow> prom_step P root hp hp' \<Longrightarrow> prom_reachable P root hp'"

lemma metric_new_frame:
  assumes "metric_new with_opts reg_fn reg opts hp = (r, hp')"
  obtains p where "hp' = hp\<lparr>prom := p\<rparr>"
  using assms unfolding metric_new_def register_def attempt_def on_field_def
  by (auto split: prod.splits sum.splits)

lemma create_counter_frame:
  assumes "create_counter P self label unit_label hp = (Inr c, hp')"
  obtains p where "hp' = hp\<lparr>prom := p, counter_maps := (counter_maps hp)
    (counters self := (counter_maps hp (counters self))(label \<mapsto> c))\<rparr>"
  using assms unfolding create_counter_def counter_new_def attempt_ok
  by (auto elim!: metric_new_frame)

lemma create_gauge_frame:
  assumes "create_gauge P self label unit_label hp = (Inr u, hp')"
  obtains p where "hp' = hp\<lparr>prom := p, gauge_maps := (gauge_maps hp)
    (gauges self := (gauge_maps hp (gauges self))(label \<mapsto> u))\<rparr>"
  using assms unfolding create_gauge_def gauge_new_def attempt_ok
  by (auto elim!: metric_new_frame)

lemma create_histogram_frame:
  assumes "create_histogram P self label unit_label hp = (Inr h, hp')"
  obtains p where "hp' = hp\<lparr>prom := p, histogram_maps := (histogram_maps hp)
    (histograms self := (histogram_maps hp (histograms self))(label \<mapsto> h))\<rparr>"
  using assms unfolding create_histogram_def histogram_new_def attempt_ok
  by (auto elim!: metric_new_frame)

lemma create_label_effect:
  assumes "create_label self name hp = (cell, hp')"
  shows "cell = fresh hp" and "hp' = hp\<lparr>fresh := fresh hp + 1,
      label_cells := (label_cells hp)(fresh hp := []),
      label_maps := (label_maps hp)(labels (metrics self) :=
        (label_maps hp (labels (metrics self)))
          (label_fq_name (metric_opts self name None) \<mapsto> fresh hp))\<rparr>"
  using assms
  by (auto simp: create_label_def label_new_def register_label_def Let_def)

lemma prom_step_tree:
  assumes "tree_ok root hp" and "prom_step P root hp hp'"
  shows "tree_ok root hp'"
  using assms(2)
proof cases
  case (subgroup p g name g')
  then show ?thesis using subgroup_tree(1) [OF assms(1)] by blast
next
  case (counter p g label unit_label c)
  then show ?thesis by (auto elim!: create_counter_frame intro: tree_ok_transfer [OF assms(1)])
next
  case (gauge p g label unit_label u)
  then show ?thesis by (auto elim!: create_gauge_frame intro: tree_ok_transfer [OF assms(1)])
next
  case (histogram p g label unit_label h)
  then show ?thesis by (auto elim!: create_histogram_frame intro: tree_ok_transfer [OF assms(1)])
next
  case (label p g name cell)
  then show ?thesis
    by (auto dest!: create_label_effect(2) intro: tree_ok_transfer [OF assms(1)])
next
  case (gauge_update dbg g delta)
  then show ?thesis
    by (auto simp: gauge_update_def split: if_splits intro: tree_ok_transfer [OF assms(1)])
qed (auto simp: counter_add_def gauge_set_def histogram_add_point_def label_set_def
      intro: tree_ok_transfer [OF assms(1)])

lemma prom_reachable_tree: "prom_reachable P root hp \<Longrightarrow> tree_ok root hp"
  by (induction rule: prom_reachable.induct) (auto intro: tree_ok_default prom_step_tree)

lemma default_root: "metrics_default P hp0 = (root, hp) \<Longrightarrow> namespace root = []"
  by (auto simp: metrics_default_def Let_def split: prod.splits)

lemma prom_reachable_root: "prom_reachable P root hp \<Longrightarrow> namespace root = []"
  by (induction rule: prom_reachable.induct) (auto intro: default_root)

section \<open>A concrete registry\<close>

text \<open>
  For witnesses: a handle is its number with its options, and a registry refuses options it has
  already seen. The state is the next number, the values, and the options seen.
\<close>

type_synonym mock_handle = "nat \<times> opts"
type_synonym mock_prom_state = "nat \<times> (nat \<Rightarrow> 64 word) \<times> opts list"

definition mock_prom ::
    "(mock_prom_state, unit, mock_handle, mock_handle, mock_handle, string, unit) prom_ops" where
  "mock_prom =
     (let make = (\<lambda>os (n, vs, seen). (Inr (n, os), (n + 1, vs(n := 0), seen)));
          reg = (\<lambda>r m (n, vs, seen). if snd m \<in> set seen then (Inl ''AlreadyReg'', (n, vs, seen))
                         else (Inr (), (n, vs, seen @ [snd m])));
          val = (\<lambda>(n, vs, seen) m. vs (fst m));
          put = (\<lambda>m x (n, vs, seen). (n, vs(fst m := x), seen))
      in \<lparr>registry_new = (\<lambda>p. ((), p)), counter_with_opts = make, counter_register = reg,
          counter_value = val, counter_inc_by = (\<lambda>m x p. put m (val p m + x) p),
          gauge_with_opts = make, gauge_register = reg, gauge_value = val, gauge_store = put,
          gauge_add = (\<lambda>m x p. put m (val p m + x) p), gauge_sub = (\<lambda>m x p. put m (val p m - x) p),
          histogram_with_opts = make, histogram_register = reg, histogram_count = val,
          histogram_total = (\<lambda>p m. ()), histogram_observe = (\<lambda>m x p. put m (val p m + 1) p),
          gather_encode = (\<lambda>p r. Inr []), message_error = id\<rparr>)"

type_synonym mock_heap_state = "(mock_prom_state, unit, mock_handle, mock_handle, mock_handle) heap"

definition mock_heap0 :: mock_heap_state where
  "mock_heap0 = \<lparr>prom = (0, \<lambda>_. 0, []), fresh = 0, child_maps = (\<lambda>_. Map.empty),
     counter_maps = (\<lambda>_. Map.empty), gauge_maps = (\<lambda>_. Map.empty),
     histogram_maps = (\<lambda>_. Map.empty), label_maps = (\<lambda>_. Map.empty), label_cells = (\<lambda>_. [])\<rparr>"

definition mock_root :: "unit prom_metrics" where
  "mock_root = fst (metrics_default mock_prom mock_heap0)"
definition mock_heap :: mock_heap_state where
  "mock_heap = snd (metrics_default mock_prom mock_heap0)"

lemma mock_prom_reachable: "prom_reachable mock_prom mock_root mock_heap"
  unfolding mock_root_def mock_heap_def by (rule prom_reachable.init) simp

lemmas mock_prom_eval = mock_prom_def mock_root_def mock_heap_def mock_heap0_def
  metrics_default_def Let_def subgroup_def create_gauge_def gauge_new_def metric_new_def
  register_def unwrapped_def foreign_def on_field_def metric_opts_def

lemma metric_opts_sel:
  "opt_name (metric_opts self label u) = label"
  "opt_namespace (metric_opts self label u) = (case namespace self of [] \<Rightarrow> [] | ns # _ \<Rightarrow> ns)"
  "opt_subsystem (metric_opts self label u)
     = (case namespace self of [] \<Rightarrow> [] | _ # names \<Rightarrow> joined ''_'' names)"
  by (simp_all add: metric_opts_def Let_def split: list.splits)

lemma mock_create_gauge:
  assumes "prom hp = (n, vs, seen)" and "\<forall>os \<in> set seen. opt_name os \<noteq> label"
  shows "\<exists>g hp'. create_gauge mock_prom self label u hp = (Inr g, hp') \<and>
    prom hp' = (n + 1, vs(n := 0), seen @ [metric_opts self label u])"
proof -
  have "metric_opts self label u \<notin> set seen" using assms(2) by (auto simp: metric_opts_sel)
  with assms(1) show ?thesis
    by (simp add: create_gauge_def gauge_new_def metric_new_def register_def mock_prom_def Let_def)
qed

section \<open>Subgroups\<close>

text \<open>
  Creating a subgroup of any group of a tree returns the group its path leads to from the
  root, whose namespace is that path; asking again returns the same group and changes nothing; no
  other path is affected.
\<close>

theorem subgroup_found_by_path:
  assumes "prom_reachable P root hp" and "get_subgroup hp root p = Inr self"
    and "subgroup P self name hp = (g, hp')"
  shows "get_subgroup hp' root (p @ [name]) = Inr g \<and> namespace g = p @ [name] \<and>
    metrics g = metrics root \<and> subgroup P self name hp' = (g, hp') \<and>
    (q \<noteq> p @ [name] \<longrightarrow> get_subgroup hp' root q = Inr h \<longleftrightarrow> get_subgroup hp root q = Inr h)"
proof -
  have at: "walk hp root p = Some self" using assms(2) by simp
  note T = subgroup_tree [OF prom_reachable_tree [OF assms(1)] at assms(3)]
  have at': "walk hp' root p = Some self" using T(3) at by simp
  have "child_maps hp' (children self) name = Some g" using T(2) at' by (simp add: walk_snoc)
  then have "subgroup P self name hp' = (g, hp')" by (simp add: subgroup_def)
  then show ?thesis
    using T tree_okD(1,2) [OF T(1,2)] prom_reachable_root [OF assms(1)] by simp
qed

theorem subgroup_found_by_path_witness:
  "get_subgroup (snd (subgroup mock_prom mock_root ''consensus'' mock_heap)) mock_root [''consensus'']
     = (Inr (fst (subgroup mock_prom mock_root ''consensus'' mock_heap)) :: string metrics_error + _)"
proof -
  have "get_subgroup (snd (subgroup mock_prom mock_root ''consensus'' mock_heap)) mock_root
      ([] @ [''consensus''])
     = (Inr (fst (subgroup mock_prom mock_root ''consensus'' mock_heap)) :: string metrics_error + _)"
    by (rule subgroup_found_by_path [THEN conjunct1, OF mock_prom_reachable _ prod.collapse [symmetric]])
      simp
  then show ?thesis by (simp only: append_Nil)
qed

text \<open>
  A gauge created in a group is found there under its label, and in no other group of the
  tree: the gauges of every other group, and the other labels of this one, stay as they were.
\<close>

theorem gauge_isolated:
  assumes "prom_reachable P root hp"
    and "get_subgroup hp root p = Inr self" and "get_subgroup hp root q = Inr other"
    and "create_gauge P self label unit_label hp = (Inr gauge, hp')"
  shows "get_gauge hp' other l =
    (if q = p \<and> l = label then Inr gauge else get_gauge hp other l)"
proof -
  have tree: "tree_ok root hp" by (rule prom_reachable_tree [OF assms(1)])
  have at: "walk hp root p = Some self" "walk hp root q = Some other" using assms(2,3) by simp_all
  have "gauges other = gauges self \<longleftrightarrow> q = p"
    using tree_ok_apart [OF tree at] tree_okD(5) [OF tree at(1)] tree_okD(5) [OF tree at(2)] at
    by (cases "p = q") auto
  with assms(4) show ?thesis
    by (auto simp: get_gauge_def get_metric_def elim!: create_gauge_frame)
qed

theorem gauge_isolated_witness:
  "\<exists>g hp. create_gauge mock_prom mock_root ''view'' None mock_heap = (Inr g, hp) \<and>
     get_gauge hp mock_root ''view'' = (Inr g :: string metrics_error + _)"
proof -
  obtain g hp where run: "create_gauge mock_prom mock_root ''view'' None mock_heap = (Inr g, hp)"
    by (simp add: mock_prom_eval)
  have "get_gauge hp mock_root ''view'' = (Inr g :: string metrics_error + _)"
    by (rule gauge_isolated [OF mock_prom_reachable, of "[]" mock_root "[]", THEN trans, OF _ _ run])
      simp_all
  with run show ?thesis by blast
qed

section \<open>Labels\<close>

lemma split_on_clean: "c \<notin> set s \<Longrightarrow> split_on c s = [s]"
  by (induction s) auto

lemma split_on_clean_append: "c \<notin> set s \<Longrightarrow> split_on c (s @ c # t) = s # split_on c t"
  by (induction s) auto

lemma split_on_joined:
  assumes "\<forall>s \<in> set segs. c \<notin> set s" and "segs \<noteq> []"
  shows "split_on c (joined [c] segs) = segs"
  using assms
  by (induction "[c]" segs rule: joined.induct) (auto simp: split_on_clean split_on_clean_append)

lemma split_on_segments: "\<forall>s \<in> set (split_on c t). c \<notin> set s"
proof (induction t)
  case Nil
  then show ?case by simp
next
  case (Cons x t)
  then show ?case by (cases "split_on c t") auto
qed

lemma joined_nonempty: "segs \<noteq> [] \<Longrightarrow> \<forall>s \<in> set segs. s \<noteq> [] \<Longrightarrow> joined sep segs \<noteq> []"
  by (cases "(sep, segs)" rule: joined.cases) auto

text \<open>
  A label created in a group whose path has only nonempty names without underscores is found
  by \<^verbatim>\<open>get_label\<close>, and is empty until it is set.
\<close>

theorem label_found:
  assumes "\<forall>s \<in> set (namespace self). s \<noteq> [] \<and> CHR ''_'' \<notin> set s"
    and "create_label self name hp = (cell, hp')"
  shows "get_label hp' self name = Inr cell \<and> label_get cell hp' = [] \<and>
    label_get cell (label_set cell value hp') = value"
proof -
  have "label_fq_name (metric_opts self name None) = namespace self @ [name]"
  proof (cases "namespace self")
    case Nil
    then show ?thesis by (simp add: label_fq_name_def metric_opts_sel)
  next
    case (Cons ns names)
    with assms(1) have "ns \<noteq> []" "split_on (CHR ''_'') ns = [ns]"
      and "\<forall>s \<in> set names. CHR ''_'' \<notin> set s" "\<forall>s \<in> set names. s \<noteq> []"
      by (simp_all add: split_on_clean)
    then show ?thesis
      using Cons split_on_joined [of names "CHR ''_''"] joined_nonempty [of names "''_''"]
      by (cases "names = []") (simp_all add: label_fq_name_def metric_opts_sel)
  qed
  with create_label_effect [OF assms(2)] show ?thesis
    by (simp add: get_label_def registry_get_label_def label_get_def label_set_def)
qed

theorem label_found_witness:
  "get_label (snd (create_label (mock_root\<lparr>namespace := [''consensus'', ''da'']\<rparr>) ''version'' mock_heap))
     (mock_root\<lparr>namespace := [''consensus'', ''da'']\<rparr>) ''version'' =
   (Inr (fst (create_label (mock_root\<lparr>namespace := [''consensus'', ''da'']\<rparr>) ''version'' mock_heap))
      :: string metrics_error + nat)"
  by (rule label_found [THEN conjunct1, OF _ prod.collapse [symmetric]]) simp

text \<open>
  In a group whose path has a name with an underscore, a label is stored under another name
  than \<^verbatim>\<open>get_label\<close> looks up: creating it leaves every lookup of it in that group unchanged, so a
  label that was not there before is reported missing.
\<close>

theorem label_lost_in_underscore_group:
  assumes "s \<in> set (namespace self)" and "CHR ''_'' \<in> set s"
    and "create_label self name hp = (cell, hp')"
  shows "get_label hp' self name = get_label hp self name"
proof -
  have "\<forall>w \<in> set (butlast (label_fq_name os)). CHR ''_'' \<notin> set w" for os
    by (simp add: label_fq_name_def butlast_append ball_Un split_on_segments)
  then have "butlast (label_fq_name (metric_opts self name None)) \<noteq> namespace self"
    using assms(1,2) by metis
  then have "label_fq_name (metric_opts self name None) \<noteq> namespace self @ [name]" by force
  with create_label_effect [OF assms(3)] show ?thesis
    by (simp add: get_label_def registry_get_label_def)
qed

theorem label_lost_in_underscore_group_witness:
  "let grp = mock_root\<lparr>namespace := [''my_group'']\<rparr>;
       (cell, hp) = create_label grp ''version'' mock_heap
   in get_label hp grp ''version'' =
      (Inl (NoSuchMetric [''my_group''] ''version'') :: string metrics_error + _)"
proof -
  let ?g = "mock_root\<lparr>namespace := [''my_group'']\<rparr>"
  have "get_label mock_heap ?g ''version'' =
      (Inl (NoSuchMetric [''my_group''] ''version'') :: string metrics_error + _)"
    by (simp add: get_label_def registry_get_label_def mock_prom_eval)
  moreover have "get_label (snd (create_label ?g ''version'' mock_heap)) ?g ''version'' =
      (get_label mock_heap ?g ''version'' :: string metrics_error + _)"
    by (rule label_lost_in_underscore_group [of "''my_group''", OF _ _ prod.collapse [symmetric]])
      simp_all
  ultimately show ?thesis by (simp add: case_prod_beta Let_def)
qed

section \<open>Gauges\<close>

text \<open>
  \<^verbatim>\<open>Gauge::update\<close> adds the signed delta modulo \<open>2 ^ 64\<close> for every delta when arithmetic
  wraps, \<^verbatim>\<open>i64::MIN\<close> included; with overflow checks it does the same except for that one delta,
  on which it panics. The prometheus gauge adds and subtracts with wrap-around, as atomics do.
\<close>

theorem gauge_update_exact:
  assumes "\<And>x p. gauge_value P (gauge_add P g x p) g = gauge_value P p g + x"
    and "\<And>x p. gauge_value P (gauge_sub P g x p) g = gauge_value P p g - x"
  shows "(\<exists>hp'. gauge_update False P g delta hp = (Inr (), hp') \<and>
      uint (gauge_get P g hp') = (uint (gauge_get P g hp) + sint delta) mod 2 ^ 64) \<and>
    gauge_update True P g delta hp =
      (if sint delta = - (2 ^ 63) then (Inl (Panic ''attempt to negate with overflow''), hp)
       else gauge_update False P g delta hp)"
proof -
  obtain hp' where run: "gauge_update False P g delta hp = (Inr (), hp')"
    and get: "gauge_get P g hp' = gauge_get P g hp + delta"
    using assms by (cases "sint delta \<ge> 0") (simp_all add: gauge_update_def gauge_get_def)
  have "uint (v + d) = (uint v + sint d) mod 2 ^ 64" for v d :: "64 word"
  proof -
    have "v + d = word_of_int (uint v + sint d)" by simp
    then show ?thesis by (simp only: uint_word_of_int len_num0 len_bit0 len_num1) simp
  qed
  with run get show ?thesis by (auto simp: gauge_update_def)
qed

definition mock_opts :: opts where
  "mock_opts = \<lparr>opt_name = ''view'', opt_help = ''view'', opt_namespace = [], opt_subsystem = []\<rparr>"

theorem gauge_update_exact_witness:
  "\<exists>hp. gauge_update False mock_prom (0, mock_opts) (- 5) mock_heap = (Inr (), hp) \<and>
     uint (gauge_get mock_prom (0, mock_opts) hp) = 2 ^ 64 - 5"
proof -
  have "gauge_value mock_prom (gauge_add mock_prom g x p) g = gauge_value mock_prom p g + x"
    "gauge_value mock_prom (gauge_sub mock_prom g x p) g = gauge_value mock_prom p g - x" for g x p
    by (simp_all add: mock_prom_def Let_def split: prod.splits)
  from gauge_update_exact [of mock_prom "(0, mock_opts)" "- 5" mock_heap, OF this]
  show ?thesis by (auto simp: gauge_get_def mock_prom_eval)
qed

end
