(* ===== verification/StatusSource.thy ===== *)
theory StatusSource
  imports PromProps QueryErrors
begin

text \<open>
  The status module: the provided methods of \<^verbatim>\<open>StatusDataSource\<close>
  (\<^verbatim>\<open>src/status/data_source.rs\<close>), the metrics-only data source (\<^verbatim>\<open>src/data_source/metrics.rs\<close>) and
  the handlers of the status API (\<^verbatim>\<open>src/status.rs\<close>). The text of an error, derived by snafu, is
  the argument \<open>display\<close>; \<^verbatim>\<open>f64\<close> division and conversion are \<open>fdiv\<close> and \<open>of_usize\<close>.
\<close>

record mempool_query_data =
  transaction_count :: "64 word"
  memory_footprint :: "64 word"

text \<open>The operations a \<^verbatim>\<open>StatusDataSource\<close> must have.\<close>

record ('ds, 'r) status_ops =
  src_block_height :: "'ds \<Rightarrow> query_error + 64 word"
  src_metrics :: "'ds \<Rightarrow> 'r prom_metrics"

definition metrics_err :: "('err metrics_error \<Rightarrow> string) \<Rightarrow> 'err metrics_error \<Rightarrow> query_error" where
  "metrics_err display err = QueryError (display err)"

definition consensus_metrics where
  "consensus_metrics display D ds hp =
     map_err (metrics_err display) (get_subgroup hp (src_metrics D ds) [''consensus''])"

definition mempool_info where
  "mempool_info display P D ds hp =
     and_then (consensus_metrics display D ds hp) (\<lambda>consensus.
     and_then (map_err (metrics_err display) (get_gauge hp consensus ''outstanding_transactions''))
       (\<lambda>txns.
     and_then (consensus_metrics display D ds hp) (\<lambda>consensus.
     and_then (map_err (metrics_err display)
         (get_gauge hp consensus ''outstanding_transactions_memory_size'')) (\<lambda>memory.
       Inr \<lparr>transaction_count = gauge_get P txns hp, memory_footprint = gauge_get P memory hp\<rparr>))))"

definition success_rate where
  "success_rate display P fdiv of_usize D ds hp =
     and_then (consensus_metrics display D ds hp) (\<lambda>consensus.
     and_then (map_err (metrics_err display) (get_gauge hp consensus ''current_view'')) (\<lambda>gauge.
     let total_views = of_usize (gauge_get P gauge hp) in
     and_then (src_block_height D ds) (\<lambda>height. Inr (fdiv (of_usize height) total_views))))"

definition export_metrics where
  "export_metrics display P order utf8_error D ds hp =
     map_err (metrics_err display) (prometheus_text P order utf8_error (src_metrics D ds) hp)"

definition populate_metrics where
  "populate_metrics P D ds hp = subgroup P (src_metrics D ds) ''consensus'' hp"

section \<open>The metrics data source\<close>

record 'r metrics_data_source =
  mds_metrics :: "'r prom_metrics"

definition metrics_block_height where
  "metrics_block_height display P self hp =
     and_then (map_err (metrics_err display) (get_subgroup hp (mds_metrics self) [''consensus'']))
       (\<lambda>consensus.
     and_then (map_err (\<lambda>err. QueryError (display err))
         (get_gauge hp consensus ''last_synced_block_height'')) (\<lambda>gauge.
     let last_synced_height = gauge_get P gauge hp in
     if last_synced_height = 0 then Inr 1 else Inr last_synced_height))"

definition metrics_source_ops where
  "metrics_source_ops display P hp =
     \<lparr>src_block_height = (\<lambda>self. metrics_block_height display P self hp),
      src_metrics = mds_metrics\<rparr>"

section \<open>The status API\<close>

text \<open>Every handler maps the query error it gets to an internal error with its text.\<close>

definition handle_latest_block_height where
  "handle_latest_block_height show_err D ds =
     map_err (status_internal_error \<circ> show_err) (src_block_height D ds)"

definition handle_mempool_info where
  "handle_mempool_info show_err display P D ds hp =
     map_err (status_internal_error \<circ> show_err) (mempool_info display P D ds hp)"

definition handle_success_rate where
  "handle_success_rate show_err display P fdiv of_usize D ds hp =
     map_err (status_internal_error \<circ> show_err) (success_rate display P fdiv of_usize D ds hp)"

definition handle_metrics where
  "handle_metrics show_err display P order utf8_error D ds hp =
     map_err (status_internal_error \<circ> show_err) (export_metrics display P order utf8_error D ds hp)"

section \<open>Properties\<close>

lemma walk_one: "walk hp root [s] = child_maps hp (children root) s"
  by (simp split: option.splits)

text \<open>
  C32. What HotShot writes is what the status API reads: after consensus creates its two mempool
  gauges in the group \<^verbatim>\<open>populate_metrics\<close> gives it, \<^verbatim>\<open>mempool_info\<close> returns their values at any
  later moment, whatever values the metrics have taken since.
\<close>

theorem mempool_info_reads_gauges:
  assumes "prom_reachable P (src_metrics D ds) hp"
    and "populate_metrics P D ds hp = (consensus, hp1)"
    and "create_gauge P consensus ''outstanding_transactions'' u1 hp1 = (Inr txns, hp2)"
    and "create_gauge P consensus ''outstanding_transactions_memory_size'' u2 hp2 = (Inr mem, hp3)"
  shows "mempool_info display P D ds (hp3\<lparr>prom := p\<rparr>) =
    Inr \<lparr>transaction_count = gauge_value P p txns, memory_footprint = gauge_value P p mem\<rparr>"
proof -
  let ?root = "src_metrics D ds"
  have root: "walk hp ?root [] = Some ?root" by simp
  have "walk hp1 ?root ([] @ [''consensus'']) = Some consensus"
    by (rule subgroup_tree(2) [OF prom_reachable_tree [OF assms(1)] root
        assms(2) [unfolded populate_metrics_def]])
  then have "child_maps hp1 (children ?root) ''consensus'' = Some consensus"
    by (simp only: append_Nil walk_one)
  moreover from assms(3) obtain p1 where "hp2 = hp1\<lparr>prom := p1, gauge_maps := (gauge_maps hp1)
      (gauges consensus := (gauge_maps hp1 (gauges consensus))
        (''outstanding_transactions'' \<mapsto> txns))\<rparr>"
    by (rule create_gauge_frame)
  moreover from assms(4) obtain p2 where "hp3 = hp2\<lparr>prom := p2, gauge_maps := (gauge_maps hp2)
      (gauges consensus := (gauge_maps hp2 (gauges consensus))
        (''outstanding_transactions_memory_size'' \<mapsto> mem))\<rparr>"
    by (rule create_gauge_frame)
  ultimately show ?thesis
    by (simp add: mempool_info_def consensus_metrics_def get_gauge_def get_metric_def gauge_get_def)
qed

definition mock_source :: "(unit metrics_data_source, unit) status_ops" where
  "mock_source = metrics_source_ops (\<lambda>_ :: string metrics_error. ''error'') mock_prom mock_heap"

theorem mempool_info_reads_gauges_witness:
  "\<exists>(hp :: mock_heap_state) txns mem.
     mempool_info (\<lambda>_ :: string metrics_error. ''error'') mock_prom mock_source \<lparr>mds_metrics = mock_root\<rparr> hp =
     Inr \<lparr>transaction_count = gauge_value mock_prom (0, \<lambda>_. 7, []) txns,
          memory_footprint = gauge_value mock_prom (0, \<lambda>_. 7, []) mem\<rparr>"
proof -
  let ?ds = "\<lparr>mds_metrics = mock_root\<rparr>"
  have reach: "prom_reachable mock_prom (src_metrics mock_source ?ds) mock_heap"
    using mock_prom_reachable by (simp add: mock_source_def metrics_source_ops_def)
  obtain g hp1 where g: "populate_metrics mock_prom mock_source ?ds mock_heap = (g, hp1)" by fastforce
  have p1: "prom hp1 = (0, (\<lambda>_. 0), [])"
    using g by (auto simp: populate_metrics_def mock_source_def metrics_source_ops_def mock_prom_eval)
  from mock_create_gauge [OF p1, of "''outstanding_transactions''"] obtain a hp2
    where a: "create_gauge mock_prom g ''outstanding_transactions'' None hp1 = (Inr a, hp2)"
      and p2: "prom hp2 = (1, (\<lambda>_. 0)(0 := 0), [metric_opts g ''outstanding_transactions'' None])"
    by fastforce
  from mock_create_gauge [OF p2, of "''outstanding_transactions_memory_size''"] obtain b hp3
    where b: "create_gauge mock_prom g ''outstanding_transactions_memory_size'' None hp2 = (Inr b, hp3)"
    by (fastforce simp: metric_opts_sel)
  show ?thesis by (intro exI) (rule mempool_info_reads_gauges [OF reach g a b])
qed

text \<open>
  The block height a metrics data source reports is never zero: it is the last synced height,
  or one before anything was decided, as if the genesis block had been counted.
\<close>

theorem metrics_block_height_positive:
  fixes display :: "'err metrics_error \<Rightarrow> string"
  assumes "metrics_block_height display P self hp = Inr height"
  shows "height \<noteq> 0 \<and> (\<exists>consensus gauge.
    get_subgroup hp (mds_metrics self) [''consensus''] = (Inr consensus :: 'err metrics_error + _) \<and>
    get_gauge hp consensus ''last_synced_block_height'' = (Inr gauge :: 'err metrics_error + _) \<and>
    unat height = max 1 (unat (gauge_get P gauge hp)))"
proof -
  from assms obtain consensus gauge where found:
    "get_subgroup hp (mds_metrics self) [''consensus''] = (Inr consensus :: 'err metrics_error + _)"
    "get_gauge hp consensus ''last_synced_block_height'' = (Inr gauge :: 'err metrics_error + _)"
    and height: "height = (if gauge_get P gauge hp = 0 then 1 else gauge_get P gauge hp)"
    unfolding metrics_block_height_def and_then_ok map_err_ok by (auto simp: Let_def split: if_splits)
  have "1 \<le> unat (gauge_get P gauge hp)" if "gauge_get P gauge hp \<noteq> 0"
    using that by (simp add: Suc_le_eq unat_gt_0)
  with height have "height \<noteq> 0" "unat height = max 1 (unat (gauge_get P gauge hp))" by auto
  with found show ?thesis by blast
qed

definition mock_synced :: mock_heap_state where
  "mock_synced = \<lparr>prom = (1, (\<lambda>_. 0), []), fresh = 20,
     child_maps = (\<lambda>a. if a = 1 then [''consensus'' \<mapsto>
       \<lparr>metrics = \<lparr>prometheus = (), labels = 0\<rparr>, namespace = [''consensus''], children = 6,
        counters = 7, gauges = 8, histograms = 9\<rparr>] else Map.empty),
     counter_maps = (\<lambda>_. Map.empty),
     gauge_maps = (\<lambda>a. if a = 8 then [''last_synced_block_height'' \<mapsto>
       (0, \<lparr>opt_name = [], opt_help = [], opt_namespace = [], opt_subsystem = []\<rparr>)] else Map.empty),
     histogram_maps = (\<lambda>_. Map.empty), label_maps = (\<lambda>_. Map.empty), label_cells = (\<lambda>_. [])\<rparr>"

lemma mock_synced_height:
  "metrics_block_height (\<lambda>_ :: string metrics_error. ''error'') mock_prom
     \<lparr>mds_metrics = mock_root\<rparr> mock_synced = Inr 1"
  by (simp add: metrics_block_height_def get_gauge_def get_metric_def gauge_get_def mock_synced_def
      mock_prom_eval)

theorem metrics_block_height_positive_witness: "(1 :: 64 word) \<noteq> 0"
  using metrics_block_height_positive [OF mock_synced_height] by simp

end
