(* ===== verification/Extension.thy ===== *)
theory Extension
  imports UpdateProps AvailabilityApi StatusSource
begin

text \<open>
  \<^verbatim>\<open>src/data_source/extension.rs\<close>: a data source together with user data. Every trait is
  implemented by the inner data source; the functions below lift its operations.
\<close>

section \<open>The wrapper\<close>

record ('d, 'u) extensible =
  data_source :: 'd
  user_data :: 'u

definition ext_new where "ext_new ds user = \<lparr>data_source = ds, user_data = user\<rparr>"

definition ext_inner where "ext_inner self = data_source self"

text \<open>\<^verbatim>\<open>inner_mut\<close>: the caller's mutation \<open>f\<close> of the inner data source.\<close>

definition ext_inner_mut where "ext_inner_mut f self = self\<lparr>data_source := f (data_source self)\<rparr>"

definition ext_as_ref where "ext_as_ref self = user_data self"

definition ext_as_mut where "ext_as_mut f self = self\<lparr>user_data := f (user_data self)\<rparr>"

text \<open>A call on the inner data source.\<close>

definition on_inner where
  "on_inner call self = on_field (\<lambda>d. self\<lparr>data_source := d\<rparr>) (call (data_source self))"

record ('ds, 'e) versioned_ops =
  vd_commit :: "'ds \<Rightarrow> ('e, unit, 'ds) outcome"
  vd_revert :: "'ds \<Rightarrow> ('e, unit, 'ds) outcome"

definition ext_versioned_ops where
  "ext_versioned_ops C = \<lparr>vd_commit = on_inner (vd_commit C), vd_revert = on_inner (vd_revert C)\<rparr>"

definition ext_update_ops where
  "ext_update_ops D =
     \<lparr>ds_insert_leaf = (\<lambda>leaf. on_inner (ds_insert_leaf D leaf)),
      ds_insert_block = (\<lambda>block. on_inner (ds_insert_block D block))\<rparr>"

definition ext_avail_ops where
  "ext_avail_ops V =
     \<lparr>av_get_leaf = (\<lambda>self ident. av_get_leaf V (data_source self) ident),
      av_get_block = (\<lambda>self ident. av_get_block V (data_source self) ident),
      av_get_leaf_range = (\<lambda>self start end_bound.
        av_get_leaf_range V (data_source self) start end_bound),
      av_get_block_range = (\<lambda>self start end_bound.
        av_get_block_range V (data_source self) start end_bound),
      av_get_block_with_transaction = (\<lambda>self h. av_get_block_with_transaction V (data_source self) h),
      av_get_proposals = (\<lambda>self proposer limit. av_get_proposals V (data_source self) proposer limit),
      av_count_proposals = (\<lambda>self proposer. av_count_proposals V (data_source self) proposer),
      av_subscribe_leaves = (\<lambda>self height. av_subscribe_leaves V (data_source self) height),
      av_subscribe_blocks = (\<lambda>self height. av_subscribe_blocks V (data_source self) height)\<rparr>"

definition ext_status_ops where
  "ext_status_ops D =
     \<lparr>src_block_height = (\<lambda>self. src_block_height D (data_source self)),
      src_metrics = (\<lambda>self. src_metrics D (data_source self))\<rparr>"

section \<open>Lifting is transparent\<close>

lemma on_inner_user:
  "on_inner call self = (r, self') \<Longrightarrow> user_data self' = user_data self"
  by (cases "call (data_source self)") (auto simp: on_inner_def)

lemma on_inner_attempt:
  "attempt (on_inner f self) (\<lambda>x. on_inner (g x)) = on_inner (\<lambda>ds. attempt (f ds) g) self"
  by (cases "f (data_source self)"; cases "fst (f (data_source self))")
    (auto simp: on_inner_def)

lemma on_inner_return: "(Inr x, self) = on_inner (\<lambda>ds. (Inr x, ds)) self"
  "(Inl e, self) = on_inner (\<lambda>ds. (Inl e, ds)) self"
  by (simp_all add: on_inner_def)

lemma update_one_ext:
  "update_one N dbg (ext_update_ops D) qc leaf self = on_inner (update_one N dbg D qc leaf) self"
proof (cases "leaf_query_data_new N leaf qc")
  case (Inl e)
  then show ?thesis by (simp add: update_one_def on_inner_def)
next
  case (Inr lq)
  have block: "(case leaf_block_payload N leaf of
        None \<Rightarrow> (Inr (), s)
      | Some block \<Rightarrow>
          (case block_query_data_new N dbg leaf qc block of
             Inl (Panic m) \<Rightarrow> (Inl (Panic m), s)
           | Inl _ \<Rightarrow> (Inl (Panic ''inconsistent block''), s)
           | Inr block_data \<Rightarrow> ds_insert_block (ext_update_ops D) block_data s)) =
    on_inner (\<lambda>ds. case leaf_block_payload N leaf of
        None \<Rightarrow> (Inr (), ds)
      | Some block \<Rightarrow>
          (case block_query_data_new N dbg leaf qc block of
             Inl (Panic m) \<Rightarrow> (Inl (Panic m), ds)
           | Inl _ \<Rightarrow> (Inl (Panic ''inconsistent block''), ds)
           | Inr block_data \<Rightarrow> ds_insert_block D block_data ds)) s" for s
    by (auto simp: ext_update_ops_def on_inner_def split: option.splits sum.splits failure.splits)
  have "update_one N dbg (ext_update_ops D) qc leaf self =
      attempt (on_inner (ds_insert_leaf D lq) self) (\<lambda>_. on_inner (\<lambda>ds.
        case leaf_block_payload N leaf of
          None \<Rightarrow> (Inr (), ds)
        | Some block \<Rightarrow>
            (case block_query_data_new N dbg leaf qc block of
               Inl (Panic m) \<Rightarrow> (Inl (Panic m), ds)
             | Inl _ \<Rightarrow> (Inl (Panic ''inconsistent block''), ds)
             | Inr block_data \<Rightarrow> ds_insert_block D block_data ds)))"
    unfolding update_one_def Inr sum.case block by (simp add: ext_update_ops_def)
  also have "\<dots> = on_inner (update_one N dbg D qc leaf) self"
    unfolding on_inner_attempt by (simp add: update_one_def [abs_def] Inr del: leaf_query_data_new_ok)
  finally show ?thesis .
qed

lemma update_leaves_ext:
  "update_leaves N dbg (ext_update_ops D) pairs self = on_inner (update_leaves N dbg D pairs) self"
proof (induction pairs arbitrary: self)
  case Nil
  then show ?case by (simp add: on_inner_def)
next
  case (Cons p pairs)
  obtain qc leaf where p: "p = (qc, leaf)" by fastforce
  have step: "update_leaves N dbg D ((qc, leaf) # pairs) =
      (\<lambda>ds. attempt (update_one N dbg D qc leaf ds) (\<lambda>_. update_leaves N dbg D pairs))"
    by (simp add: fun_eq_iff)
  note rest = ext [OF Cons.IH]
  show ?case
    unfolding p step by (simp add: update_one_ext rest on_inner_attempt)
qed

text \<open>
  Updating an extended data source with an event is updating the data source inside it, with
  the same result, and leaves the user data alone.
\<close>

theorem extension_update_transparent:
  "update N dbg (ext_update_ops D) event self =
     (case update N dbg D event (data_source self) of
        (r, ds) \<Rightarrow> (r, \<lparr>data_source = ds, user_data = user_data self\<rparr>))"
proof -
  have "update N dbg (ext_update_ops D) event self = on_inner (update N dbg D event) self"
    by (cases event) (simp_all add: update_def update_leaves_ext on_inner_def)
  then show ?thesis
    by (cases "update N dbg D event (data_source self)"; cases self) (simp add: on_inner_def)
qed

text \<open>An extended file system data source keeps the contract of the inner one.\<close>

interpretation ext_fs: panic_free_target "ext_update_ops (fs_update_ops N LA BA)"
  "\<lambda>self. fs_fields LA BA lp bp (data_source self)" "payload_indexed N"
  for N LA BA lp bp
proof unfold_locales
  fix self leaf r self'
  assume "fs_fields LA BA lp bp (data_source self)"
    and "ds_insert_leaf (ext_update_ops (fs_update_ops N LA BA)) leaf self = (r, self')"
  then show "fs_fields LA BA lp bp (data_source self')"
    by (cases "ds_insert_leaf (fs_update_ops N LA BA) leaf (data_source self)")
      (auto simp: ext_update_ops_def on_inner_def dest: fs.insert_leaf_inv)
next
  fix self block r self'
  assume "fs_fields LA BA lp bp (data_source self)"
    and "ds_insert_block (ext_update_ops (fs_update_ops N LA BA)) block self = (r, self')"
  then show "fs_fields LA BA lp bp (data_source self')"
    by (cases "ds_insert_block (fs_update_ops N LA BA) block (data_source self)")
      (auto simp: ext_update_ops_def on_inner_def dest: fs.insert_block_inv)
next
  fix self leaf x self'
  assume "fs_fields LA BA lp bp (data_source self)"
    and "ds_insert_leaf (ext_update_ops (fs_update_ops N LA BA)) leaf self = (Inl x, self')"
  then show "\<exists>e. x = Failure e"
    by (cases "ds_insert_leaf (fs_update_ops N LA BA) leaf (data_source self)")
      (auto simp: ext_update_ops_def on_inner_def dest: fs.insert_leaf_fails)
next
  fix self block x self'
  assume "fs_fields LA BA lp bp (data_source self)" and "payload_indexed N (bq_payload block)"
    and "ds_insert_block (ext_update_ops (fs_update_ops N LA BA)) block self = (Inl x, self')"
  then show "\<exists>e. x = Failure e"
    by (cases "ds_insert_block (fs_update_ops N LA BA) block (data_source self)")
      (auto simp: ext_update_ops_def on_inner_def dest: fs.insert_block_fails)
qed

end
