(* ===== verification/Service.thy ===== *)
theory Service
  imports Extension
begin

text \<open>
  \<^verbatim>\<open>run_standalone_service\<close> (\<^verbatim>\<open>src/lib.rs\<close>): set the APIs up, then feed every consensus event to
  the data source and commit after each. The web framework's registration of a module is a
  parameter; the task that serves requests only reads the data source, between two events. The
  text of the errors is given by \<open>show_api\<close>, and by \<open>show_update\<close> and \<open>show_commit\<close> for the errors
  of the data source, whose two types may differ.
\<close>

section \<open>The service\<close>

text \<open>\<^verbatim>\<open>map_err(Error::internal)?\<close> on a call of the data source.\<close>

definition internal_err where
  "internal_err show_err r =
     (map_sum (\<lambda>x. case x of Failure e \<Rightarrow> Failure (crate_internal (show_err e))
                            | Panic m \<Rightarrow> Panic m | Diverges \<Rightarrow> Diverges) id (fst r), snd r)"

lemma internal_err_ok [simp]: "internal_err show_err r = (Inr x, s) \<longleftrightarrow> r = (Inr x, s)"
  by (cases r; cases "fst r") (auto simp: internal_err_def)

fun update_loop where
  "update_loop N dbg D C show_update show_commit [] ds = (Inr (), ds)"
| "update_loop N dbg D C show_update show_commit (event # events) ds =
     attempt (internal_err show_update (update N dbg D event ds)) (\<lambda>_ ds.
     attempt (internal_err show_commit (vd_commit C ds)) (\<lambda>_ ds.
       update_loop N dbg D C show_update show_commit events ds))"

definition register_apis where
  "register_apis register_module show_api availability_api status_api app =
     and_then (map_err (crate_internal \<circ> show_api) availability_api) (\<lambda>availability_api.
     and_then (map_err (crate_internal \<circ> show_api) status_api) (\<lambda>status_api.
     and_then (map_err (crate_internal \<circ> show_api)
         (register_module ''availability'' (Inl availability_api) app)) (\<lambda>app.
       map_err (crate_internal \<circ> show_api) (register_module ''status'' (Inr status_api) app))))"

definition run_standalone_service where
  "run_standalone_service register_module show_api availability_api status_api app
      N dbg D C show_update show_commit events ds =
     (case register_apis register_module show_api availability_api status_api app of
        Inl e \<Rightarrow> (Inl (Failure e), ds)
      | Inr _ \<Rightarrow> update_loop N dbg D C show_update show_commit events ds)"

section \<open>The service over the file system data source\<close>

definition fs_versioned_ops where
  "fs_versioned_ops LA BA AS = \<lparr>vd_commit = fs_commit LA BA AS, vd_revert = fs_revert LA BA\<rparr>"

lemma fs_versioned_ops_simps [simp]:
  "vd_commit (fs_versioned_ops LA BA AS) = fs_commit LA BA AS"
  "vd_revert (fs_versioned_ops LA BA AS) = fs_revert LA BA"
  by (simp_all add: fs_versioned_ops_def)

lemma fs_commit_leaves:
  assumes ok: "log_ok LA lp (leaf_storage ds)" and fits: "log_fits LA (leaf_storage ds)"
    and run: "fs_commit LA BA AS ds = (Inr u, ds')"
  shows "log_ok LA lp (leaf_storage ds')"
    and "log_contents LA (leaf_storage ds') = log_contents LA (leaf_storage ds)"
    and "map loaded (al_iter LA (store (leaf_storage ds'))) = log_contents LA (leaf_storage ds)"
    and "pending_inserts (leaf_storage ds') = 0"
    and "cache_size (leaf_storage ds') = cache_size (leaf_storage ds)"
proof -
  obtain x log where x: "commit_version LA (leaf_storage ds) = (x, log)" by fastforce
  with run have com: "commit_version LA (leaf_storage ds) = (Inr (), log)"
    and log: "leaf_storage ds' = log"
    by (auto simp: fs_commit_def attempt_ok commit_top_storage_def split: option.splits)
  from ledger.commit_items [OF ok fits com] log
  show "log_ok LA lp (leaf_storage ds')"
    "log_contents LA (leaf_storage ds') = log_contents LA (leaf_storage ds)"
    "map loaded (al_iter LA (store (leaf_storage ds'))) = log_contents LA (leaf_storage ds)"
    by simp_all
  have laws: "append_log_laws LA lp" and inv: "log_inv LA lp (leaf_storage ds)"
    using ok by (simp_all add: log_ok_def)
  from laws inv fits com
  show "pending_inserts (leaf_storage ds') = 0" "cache_size (leaf_storage ds') = cache_size (leaf_storage ds)"
    by (cases rule: commit_version_cases; simp add: log)+
qed

text \<open>The leaves of a decided chain with their certificates, oldest first.\<close>

definition chain_entries where
  "chain_entries N chain qc = rev (zip (qc # map (leaf_justify_qc N) chain) chain)"

lemma length_chain_entries [simp]: "length (chain_entries N chain qc) = length chain"
  by (simp add: chain_entries_def)

lemma fs_update_leaf_log:
  assumes ok: "log_ok LA lp (leaf_storage ds)" and just: "justified N chain qc"
    and heights: "\<forall>i < length chain.
      unat (header_block_number N (leaf_block_header N (snd (chain_entries N chain qc ! i))))
        = log_len LA (leaf_storage ds) + i"
    and room: "pending_inserts (leaf_storage ds) + length chain \<le> cache_size (leaf_storage ds)"
    and run: "update N False (fs_update_ops N LA BA) (Decide chain qc) ds = (Inr u, ds')"
  shows "log_contents LA (leaf_storage ds') = log_contents LA (leaf_storage ds) @
      map (\<lambda>(qc, leaf). Some \<lparr>lq_leaf = leaf, lq_qc = qc\<rparr>) (chain_entries N chain qc)"
    and "log_ok LA lp (leaf_storage ds')"
    and "cache_size (leaf_storage ds') = cache_size (leaf_storage ds)"
proof -
  have "\<forall>(qc, leaf) \<in> set (chain_entries N chain qc). qc_leaf_commit N qc = leaf_commit N leaf"
    using just by (simp only: justified_def chain_entries_def set_rev)
  note same = update_leaves_justified [OF this]
  have calls: "insert_all N (fs_update_ops N LA BA) (chain_entries N chain qc) ds = (Inr u, ds')"
    using run unfolding update_def event.case decided_pairs chain_entries_def [symmetric] same .
  from insert_all_leaves [OF ok _ _ calls] heights room
  show "log_contents LA (leaf_storage ds') = log_contents LA (leaf_storage ds) @
      map (\<lambda>(qc, leaf). Some \<lparr>lq_leaf = leaf, lq_qc = qc\<rparr>) (chain_entries N chain qc)"
    "log_ok LA lp (leaf_storage ds')" "cache_size (leaf_storage ds') = cache_size (leaf_storage ds)"
    by simp_all
qed

text \<open>
  The chains a run decides: each fits the window and is justified, and together they continue a
  ledger of the given length without a gap.
\<close>

fun decides_ok where
  "decides_ok N sz len [] \<longleftrightarrow> True"
| "decides_ok N sz len ((chain, qc) # rest) \<longleftrightarrow>
     justified N chain qc \<and> length chain \<le> sz \<and> len + length chain + 1 < 2 ^ 64 \<and>
     (\<forall>i < length chain. unat (header_block_number N (leaf_block_header N
        (snd (chain_entries N chain qc ! i)))) = len + i) \<and>
     decides_ok N sz (len + length chain) rest"

lemma update_loop_leaves:
  assumes "log_ok LA lp (leaf_storage ds)" and "pending_inserts (leaf_storage ds) = 0"
    and "map loaded (al_iter LA (store (leaf_storage ds))) = log_contents LA (leaf_storage ds)"
    and "decides_ok N (cache_size (leaf_storage ds)) (log_len LA (leaf_storage ds)) decides"
    and "(update_loop N False (fs_update_ops N LA BA) (fs_versioned_ops LA BA AS) show_update show_commit
      (map (\<lambda>(chain, qc). Decide chain qc) decides) ds :: (('q, 'k) crate_error, unit, _) outcome)
      = (Inr u, ds')"
  shows "map loaded (al_iter LA (store (leaf_storage ds'))) = log_contents LA (leaf_storage ds) @
    map (\<lambda>(qc, leaf). Some \<lparr>lq_leaf = leaf, lq_qc = qc\<rparr>)
      (concat (map (\<lambda>(chain, qc). chain_entries N chain qc) decides))"
  using assms
proof (induction decides arbitrary: ds)
  case Nil
  then show ?case by simp
next
  case (Cons d decides)
  obtain chain qc where d: "d = (chain, qc)" by fastforce
  from Cons.prems(5) obtain ds1 ds2 where
    upd: "update N False (fs_update_ops N LA BA) (Decide chain qc) ds = (Inr (), ds1)"
    and com: "fs_commit LA BA AS ds1 = (Inr (), ds2)"
    and rest: "(update_loop N False (fs_update_ops N LA BA) (fs_versioned_ops LA BA AS) show_update show_commit
      (map (\<lambda>(chain, qc). Decide chain qc) decides) ds2 :: (('q, 'k) crate_error, unit, _) outcome)
      = (Inr u, ds')"
    by (auto simp: d attempt_ok)
  have pre: "justified N chain qc" "length chain \<le> cache_size (leaf_storage ds)"
    "log_len LA (leaf_storage ds) + length chain + 1 < 2 ^ 64"
    "\<forall>i < length chain. unat (header_block_number N (leaf_block_header N
        (snd (chain_entries N chain qc ! i)))) = log_len LA (leaf_storage ds) + i"
    "decides_ok N (cache_size (leaf_storage ds)) (log_len LA (leaf_storage ds) + length chain) decides"
    using Cons.prems(4) by (simp_all add: d)
  have room: "pending_inserts (leaf_storage ds) + length chain \<le> cache_size (leaf_storage ds)"
    using Cons.prems(2) pre(2) by simp
  note U = fs_update_leaf_log [OF Cons.prems(1) pre(1,4) room upd]
  have len1: "log_len LA (leaf_storage ds1) = log_len LA (leaf_storage ds) + length chain"
    using ledger.len_items [OF U(2)] ledger.len_items [OF Cons.prems(1)] U(1) by simp
  have fits: "log_fits LA (leaf_storage ds1)" using len1 pre(3) by (simp add: log_fits_len)
  note C = fs_commit_leaves [OF U(2) fits com]
  have len2: "log_len LA (leaf_storage ds2) = log_len LA (leaf_storage ds) + length chain"
    using ledger.len_items [OF C(1)] ledger.len_items [OF U(2)] C(2) len1 by simp
  have size2: "cache_size (leaf_storage ds2) = cache_size (leaf_storage ds)" using C(5) U(3) by simp
  have "map loaded (al_iter LA (store (leaf_storage ds'))) = log_contents LA (leaf_storage ds2) @
      map (\<lambda>(qc, leaf). Some \<lparr>lq_leaf = leaf, lq_qc = qc\<rparr>)
        (concat (map (\<lambda>(chain, qc). chain_entries N chain qc) decides))"
  proof (rule Cons.IH [OF C(1,4) _ _ rest])
    show "map loaded (al_iter LA (store (leaf_storage ds2))) = log_contents LA (leaf_storage ds2)"
      using C(2,3) by simp
    show "decides_ok N (cache_size (leaf_storage ds2)) (log_len LA (leaf_storage ds2)) decides"
      unfolding size2 len2 by (rule pre(5))
  qed
  then show ?case using C(2) U(1) d by simp
qed

lemma log_ok_committed:
  assumes "log_ok A pend l" "pending_inserts l = 0"
  shows "map loaded (al_iter A (store l)) = log_contents A l"
  using assms log_ok_contents [OF assms(1)] by (simp add: log_ok_def log_inv_def log_history_def)

end
