(* ===== verification/FsService.thy ===== *)
theory FsService
  imports Service
begin

text \<open>
  What the service leaves in the file system data source: the leaves from genesis on without a gap,
  every block under the leaf it belongs to, everything committed. The room the windows of the logs
  give is stated on the decided chains alone.
\<close>

section \<open>Committed states\<close>

definition fs_committed where
  "fs_committed LA BA ds \<longleftrightarrow>
     map loaded (al_iter LA (store (leaf_storage ds))) = log_contents LA (leaf_storage ds) \<and>
     map loaded (al_iter BA (store (block_storage ds))) = log_contents BA (block_storage ds)"

lemma fs_committed_pending:
  assumes "fs_ok N LA BA lp bp ds" and "fs_committed LA BA ds"
  shows "pending_inserts (leaf_storage ds) = 0" and "pending_inserts (block_storage ds) = 0"
proof -
  have "log_ok LA lp (leaf_storage ds)" "log_ok BA bp (block_storage ds)"
    using assms(1) by (simp_all add: fs_ok_def)
  from log_pending [OF this(1)] log_pending [OF this(2)] assms(2)
  show "pending_inserts (leaf_storage ds) = 0" "pending_inserts (block_storage ds) = 0"
    unfolding fs_committed_def by (metis add_cancel_left_right length_map)+
qed

section \<open>A gapless ledger\<close>

text \<open>A block belongs to a leaf: it has the leaf's header, its hash and the size of its payload.\<close>

definition block_matches where
  "block_matches N lq b \<longleftrightarrow>
     bq_header b = leaf_block_header N (lq_leaf lq) \<and> bq_hash b = header_commit N (bq_header b) \<and>
     bq_size b = payload_size N (bq_payload b)"

definition fs_gapless where
  "fs_gapless N LA BA leaves ds \<longleftrightarrow>
     log_contents LA (leaf_storage ds) = map Some leaves \<and>
     log_len BA (block_storage ds) \<le> length leaves \<and>
     (\<forall>b \<in> set (fs_blocks BA ds). \<exists>lq \<in> set leaves. block_matches N lq b)"

text \<open>The length the block log reaches when the given leaves are inserted from height \<open>len\<close> on.\<close>

fun block_reach where
  "block_reach N len blen [] = blen"
| "block_reach N len blen ((qc, leaf) # entries) =
     block_reach N (Suc len) (if leaf_block_payload N leaf = None then blen else Suc len) entries"

lemma block_reach_le: "blen \<le> len \<Longrightarrow> block_reach N len blen entries \<le> len + length entries"
proof (induction entries arbitrary: len blen)
  case (Cons e entries)
  obtain qc leaf where "e = (qc, leaf)" by fastforce
  with Cons.IH [of "if leaf_block_payload N leaf = None then blen else Suc len" "Suc len"] Cons.prems
  show ?case by auto
qed simp

definition entry_of where
  "entry_of = (\<lambda>(qc, leaf). \<lparr>lq_leaf = leaf, lq_qc = qc\<rparr>)"

text \<open>The window of the block log has room up to height \<open>upto_height\<close>.\<close>

definition block_room where
  "block_room BA upto_height ds \<longleftrightarrow>
     pending_inserts (block_storage ds) + upto_height \<le> log_len BA (block_storage ds) + cache_size (block_storage ds)"

lemma fs_insert_leaf_gapless:
  assumes reach: "fs_reachable N LA BA AS ds" and laws: "append_log_laws LA lp" "append_log_laws BA bp"
    and gen: "genesis_at_zero N" and gap: "fs_gapless N LA BA leaves ds"
    and height: "unat (leaf_height N lq) = length leaves"
    and room: "pending_inserts (leaf_storage ds) < cache_size (leaf_storage ds)"
    and run: "fs_insert_leaf N LA lq ds = (Inr u, ds')"
  shows "fs_reachable N LA BA AS ds'" and "fs_gapless N LA BA (leaves @ [lq]) ds'"
    and "pending_inserts (leaf_storage ds') = Suc (pending_inserts (leaf_storage ds))"
    and "fs_windows ds' = fs_windows ds" and "block_storage ds' = block_storage ds"
proof -
  have ok: "fs_ok N LA BA lp bp ds" using fs_reachable_ok [OF laws gen reach] by simp
  then have lok: "log_ok LA lp (leaf_storage ds)" by (simp add: fs_ok_def)
  have len: "log_len LA (leaf_storage ds) = length leaves"
    using fs_ok_lens(1) [OF ok] gap by (simp add: fs_gapless_def)
  have r: "log_room (leaf_storage ds) (log_len LA (leaf_storage ds)) (unat (leaf_height N lq))"
    and app: "log_len LA (leaf_storage ds) \<le> unat (leaf_height N lq)"
    using room height len by (simp_all add: log_room_def)
  have app': "length (log_contents LA (leaf_storage ds)) \<le> unat (leaf_height N lq)"
    using app fs_ok_lens(1) [OF ok] by simp
  show "fs_reachable N LA BA AS ds'" by (rule fs_reachable.leaf [OF reach app r run])
  note ins = fs_insert_leaf_ok [OF ok app' r run]
  show "block_storage ds' = block_storage ds" by (rule ins(3))
  then show "fs_gapless N LA BA (leaves @ [lq]) ds'"
    using ins(4) gap height by (auto simp: fs_gapless_def fs_blocks_def)
  from run obtain log where
    log: "log_insert LA (unat (leaf_height N lq)) lq (leaf_storage ds) = (Inr (), log)"
      "leaf_storage ds' = log"
    by (rule fs_insert_leafE) simp
  from log_insert_at_end [OF lok app r log(1)] log(2) ins(3) height len
  show "pending_inserts (leaf_storage ds') = Suc (pending_inserts (leaf_storage ds))"
    "fs_windows ds' = fs_windows ds"
    by (simp_all add: fs_windows_def)
qed

lemma fs_insert_block_gapless:
  assumes reach: "fs_reachable N LA BA AS ds" and laws: "append_log_laws LA lp" "append_log_laws BA bp"
    and gen: "genesis_at_zero N" and gap: "fs_gapless N LA BA (leaves @ [lq]) ds"
    and height: "unat (leaf_height N lq) = length leaves" and short: "log_len BA (block_storage ds) \<le> length leaves"
    and b: "block_matches N lq b" "payload_indexed N (bq_payload b)"
    and room: "block_room BA upto_height ds" "length leaves < upto_height"
    and run: "fs_insert_block N BA b ds = (Inr u, ds')"
  shows "fs_reachable N LA BA AS ds'" and "fs_gapless N LA BA (leaves @ [lq]) ds'"
    and "block_room BA upto_height ds'" and "fs_windows ds' = fs_windows ds"
    and "leaf_storage ds' = leaf_storage ds" and "log_len BA (block_storage ds') = Suc (length leaves)"
proof -
  have ok: "fs_ok N LA BA lp bp ds" using fs_reachable_ok [OF laws gen reach] by simp
  then have bok: "log_ok BA bp (block_storage ds)" by (simp add: fs_ok_def)
  have at: "unat (block_height N b) = length leaves"
    using b(1) height by (simp add: block_matches_def block_height_def leaf_height_def)
  have app: "log_len BA (block_storage ds) \<le> unat (block_height N b)" using short at by simp
  have r: "log_room (block_storage ds) (log_len BA (block_storage ds)) (unat (block_height N b))"
    using room short at by (simp add: log_room_def block_room_def)
  have app': "length (log_contents BA (block_storage ds)) \<le> unat (block_height N b)"
    using app fs_ok_lens(2) [OF ok] by simp
  show "fs_reachable N LA BA AS ds'" by (rule fs_reachable.block [OF reach b(2) app r run])
  note ins = fs_insert_block_ok [OF ok b(2) app' r run]
  show "leaf_storage ds' = leaf_storage ds" by (rule ins(3))
  from run b(2) obtain log where
    log: "log_insert BA (unat (block_height N b)) b (block_storage ds) = (Inr (), log)"
      "block_storage ds' = log"
    by (rule fs_insert_blockE) simp
  note L = log_insert_at_end [OF bok app r log(1)]
  show len: "log_len BA (block_storage ds') = Suc (length leaves)" using L(1) log(2) at by simp
  show "fs_gapless N LA BA (leaves @ [lq]) ds'"
    using gap b(1) len ins(2,3) by (auto simp: fs_gapless_def)
  show "block_room BA upto_height ds'"
    using L len room short at log(2) by (simp add: block_room_def)
  show "fs_windows ds' = fs_windows ds" using L(3) log(2) ins(3) by (simp add: fs_windows_def)
qed

section \<open>Consuming decided chains\<close>

lemma block_of_entry:
  "block_matches N (entry_of (qc, leaf)) \<lparr>bq_header = leaf_block_header N leaf, bq_payload = payload,
     bq_hash = header_commit N (leaf_block_header N leaf), bq_size = payload_size N payload\<rparr>"
  by (simp add: block_matches_def entry_of_def)

definition payloads_indexed where
  "payloads_indexed N entries \<longleftrightarrow>
     (\<forall>(qc, leaf) \<in> set entries. \<forall>p. leaf_block_payload N leaf = Some p \<longrightarrow> payload_indexed N p)"

lemma fs_insert_all_gapless:
  assumes laws: "append_log_laws LA lp" "append_log_laws BA bp" and gen: "genesis_at_zero N"
  shows "fs_reachable N LA BA AS ds \<Longrightarrow> fs_gapless N LA BA leaves ds \<Longrightarrow>
    \<forall>i < length entries. unat (leaf_height N (entry_of (entries ! i))) = length leaves + i \<Longrightarrow>
    payloads_indexed N entries \<Longrightarrow>
    pending_inserts (leaf_storage ds) + length entries \<le> cache_size (leaf_storage ds) \<Longrightarrow>
    block_room BA upto_height ds \<Longrightarrow> length leaves + length entries \<le> upto_height \<Longrightarrow>
    insert_all N (fs_update_ops N LA BA) entries ds = (Inr u, ds') \<Longrightarrow>
    fs_reachable N LA BA AS ds' \<and> fs_gapless N LA BA (leaves @ map entry_of entries) ds' \<and>
    fs_windows ds' = fs_windows ds \<and>
    log_len BA (block_storage ds')
      = block_reach N (length leaves) (log_len BA (block_storage ds)) entries"
proof (induction entries arbitrary: ds leaves)
  case Nil
  then show ?case by simp
next
  case (Cons e entries)
  obtain qc leaf where e: "e = (qc, leaf)" by fastforce
  let ?lq = "entry_of (qc, leaf)"
  have height: "unat (leaf_height N ?lq) = length leaves" using Cons.prems(3) by (auto simp: e)
  have room: "pending_inserts (leaf_storage ds) < cache_size (leaf_storage ds)" using Cons.prems(5) by simp
  obtain ds1 ds2 where one: "fs_insert_leaf N LA ?lq ds = (Inr (), ds1)"
    and two: "(case leaf_block_payload N leaf of
            None \<Rightarrow> (Inr (), ds1)
          | Some payload \<Rightarrow>
              fs_insert_block N BA
                \<lparr>bq_header = leaf_block_header N leaf, bq_payload = payload,
                 bq_hash = header_commit N (leaf_block_header N leaf),
                 bq_size = payload_size N payload\<rparr> ds1) = (Inr (), ds2)"
    and rest: "insert_all N (fs_update_ops N LA BA) entries ds2 = (Inr u, ds')"
    using Cons.prems(8) by (auto simp: e entry_of_def attempt_ok cong: option.case_cong)
  note L = fs_insert_leaf_gapless [OF Cons.prems(1) laws gen Cons.prems(2) height room one]
  have room1: "block_room BA upto_height ds1" "length leaves < upto_height"
    using Cons.prems(6,7) L(5) by (simp_all add: block_room_def)
  have short: "log_len BA (block_storage ds1) \<le> length leaves"
    using Cons.prems(2) L(5) by (simp add: fs_gapless_def)
  have B: "fs_reachable N LA BA AS ds2 \<and> fs_gapless N LA BA (leaves @ [?lq]) ds2 \<and>
      block_room BA upto_height ds2 \<and> fs_windows ds2 = fs_windows ds \<and>
      leaf_storage ds2 = leaf_storage ds1 \<and>
      log_len BA (block_storage ds2) = (if leaf_block_payload N leaf = None
        then log_len BA (block_storage ds) else Suc (length leaves))"
  proof (cases "leaf_block_payload N leaf")
    case None
    with two L room1 show ?thesis by simp
  next
    case (Some payload)
    have ixd: "payload_indexed N payload" using Cons.prems(4) Some by (auto simp: payloads_indexed_def e)
    show ?thesis
      using fs_insert_block_gapless [OF L(1) laws gen L(2) height short block_of_entry _ room1]
        two Some ixd L(4) by simp
  qed
  have tail: "\<forall>i < length entries. unat (leaf_height N (entry_of (entries ! i)))
      = length (leaves @ [?lq]) + i"
    using Cons.prems(3) by fastforce
  have "fs_reachable N LA BA AS ds' \<and> fs_gapless N LA BA ((leaves @ [?lq]) @ map entry_of entries) ds' \<and>
      fs_windows ds' = fs_windows ds2 \<and>
      log_len BA (block_storage ds')
        = block_reach N (length (leaves @ [?lq])) (log_len BA (block_storage ds2)) entries"
    using B Cons.prems(4,5,7) L(3,4)
    by (intro Cons.IH [OF _ _ tail _ _ _ _ rest])
      (auto simp: payloads_indexed_def e fs_windows_def)
  then show ?case using B by (simp add: e)
qed

text \<open>
  The chains a run decides, on a store with \<open>len\<close> leaves whose block log has length \<open>blen\<close>: each is
  justified, continues the ledger and fits the windows of both logs.
\<close>

fun chains_fit where
  "chains_fit N len blen [] \<longleftrightarrow> True"
| "chains_fit N len blen ((chain, qc) # rest) \<longleftrightarrow>
     justified N chain qc \<and> length chain \<le> cached_leaves_count \<and>
     len + length chain \<le> blen + cached_blocks_count \<and> len + length chain + 1 < 2 ^ 64 \<and>
     (\<forall>i < length chain. unat (leaf_height N (entry_of (chain_entries N chain qc ! i))) = len + i) \<and>
     payloads_indexed N (chain_entries N chain qc) \<and>
     chains_fit N (len + length chain) (block_reach N len blen (chain_entries N chain qc)) rest"

text \<open>The state of the data source between two events.\<close>

definition fs_served where
  "fs_served N LA BA AS leaves ds \<longleftrightarrow>
     fs_reachable N LA BA AS ds \<and> fs_gapless N LA BA leaves ds \<and> fs_committed LA BA ds \<and>
     fs_windows ds = (cached_leaves_count, cached_blocks_count) \<and> length leaves + 1 < 2 ^ 64"

lemma fs_commit_served:
  assumes laws: "append_log_laws LA lp" "append_log_laws BA bp" and gen: "genesis_at_zero N"
    and reach: "fs_reachable N LA BA AS ds" and gap: "fs_gapless N LA BA leaves ds"
    and win: "fs_windows ds = (cached_leaves_count, cached_blocks_count)"
    and small: "length leaves + 1 < 2 ^ 64" and run: "fs_commit LA BA AS ds = (Inr u, ds')"
  shows "fs_served N LA BA AS leaves ds'"
    and "log_len BA (block_storage ds') = log_len BA (block_storage ds)"
proof -
  have ok: "fs_ok N LA BA lp bp ds" using fs_reachable_ok [OF laws gen reach] by simp
  have fits: "log_fits LA (leaf_storage ds)" "log_fits BA (block_storage ds)"
    using gap small fs_ok_lens [OF ok] by (simp_all add: log_fits_len fs_gapless_def)
  note C = fs_commit_ok [OF ok fits run]
  show len: "log_len BA (block_storage ds') = log_len BA (block_storage ds)"
    using fs_ok_lens(2) [OF ok] fs_ok_lens(2) [OF C(1)] C(3) by simp
  have "fs_committed LA BA ds'" using C by (simp add: fs_committed_def)
  moreover have "fs_gapless N LA BA leaves ds'"
    using gap C(2,3) len by (simp add: fs_gapless_def fs_blocks_def)
  ultimately show "fs_served N LA BA AS leaves ds'"
    using fs_reachable.commit [OF reach fits run] fs_commit_windows [OF ok fits run] win small
    by (simp add: fs_served_def)
qed

text \<open>One decided chain, inserted and committed.\<close>

lemma fs_event_served:
  assumes laws: "append_log_laws LA lp" "append_log_laws BA bp" and gen: "genesis_at_zero N"
    and served: "fs_served N LA BA AS leaves ds"
    and fit: "chains_fit N (length leaves) (log_len BA (block_storage ds)) [(chain, qc)]"
    and upd: "update N False (fs_update_ops N LA BA) (Decide chain qc) ds = (Inr u, ds1)"
    and com: "fs_commit LA BA AS ds1 = (Inr v, ds2)"
  shows "fs_served N LA BA AS (leaves @ map entry_of (chain_entries N chain qc)) ds2"
    and "log_len BA (block_storage ds2)
      = block_reach N (length leaves) (log_len BA (block_storage ds)) (chain_entries N chain qc)"
proof -
  have reach: "fs_reachable N LA BA AS ds" and gap: "fs_gapless N LA BA leaves ds"
    and win: "fs_windows ds = (cached_leaves_count, cached_blocks_count)" and com0: "fs_committed LA BA ds"
    using served by (simp_all add: fs_served_def)
  have ok: "fs_ok N LA BA lp bp ds" using fs_reachable_ok [OF laws gen reach] by simp
  note pend = fs_committed_pending [OF ok com0]
  have "\<forall>(qc, leaf) \<in> set (chain_entries N chain qc). qc_leaf_commit N qc = leaf_commit N leaf"
    using fit by (simp add: justified_def chain_entries_def)
  note same = update_leaves_justified [OF this]
  have calls: "insert_all N (fs_update_ops N LA BA) (chain_entries N chain qc) ds = (Inr u, ds1)"
    using upd unfolding update_def event.case decided_pairs chain_entries_def [symmetric] same .
  have room: "block_room BA (length leaves + length chain) ds"
    using fit pend(2) win by (simp add: block_room_def fs_windows_def)
  have I: "fs_reachable N LA BA AS ds1 \<and>
      fs_gapless N LA BA (leaves @ map entry_of (chain_entries N chain qc)) ds1 \<and>
      fs_windows ds1 = fs_windows ds \<and>
      log_len BA (block_storage ds1)
        = block_reach N (length leaves) (log_len BA (block_storage ds)) (chain_entries N chain qc)"
    by (rule fs_insert_all_gapless [OF laws gen reach gap _ _ _ room _ calls])
      (use fit pend(1) win in \<open>simp_all add: fs_windows_def\<close>)
  have small: "length (leaves @ map entry_of (chain_entries N chain qc)) + 1 < 2 ^ 64"
    using fit by simp
  note C = fs_commit_served [OF laws gen conjunct1 [OF I] I [THEN conjunct2, THEN conjunct1] _ small com]
  show "fs_served N LA BA AS (leaves @ map entry_of (chain_entries N chain qc)) ds2"
    by (rule C(1)) (use I win in simp)
  show "log_len BA (block_storage ds2)
      = block_reach N (length leaves) (log_len BA (block_storage ds)) (chain_entries N chain qc)"
    by (subst C(2)) (use I win in simp_all)
qed

text \<open>The chains that the events of a run decide.\<close>

fun event_chains where
  "event_chains [] = []"
| "event_chains (Decide chain qc # events) = (chain, qc) # event_chains events"
| "event_chains (OtherEvent # events) = event_chains events"

lemma event_chains_append [simp]: "event_chains (xs @ ys) = event_chains xs @ event_chains ys"
  by (induction xs rule: event_chains.induct) simp_all

lemma event_chains_decides [simp]: "event_chains (map (\<lambda>(chain, qc). Decide chain qc) decides) = decides"
  by (induction decides) auto

lemma chains_fit_prefix: "chains_fit N len blen (xs @ ys) \<Longrightarrow> chains_fit N len blen xs"
proof (induction xs arbitrary: len blen)
  case (Cons x xs)
  then show ?case by (cases x) auto
qed simp

lemma fs_update_loop_served:
  assumes laws: "append_log_laws LA lp" "append_log_laws BA bp" and gen: "genesis_at_zero N"
  shows "fs_served N LA BA AS leaves ds \<Longrightarrow>
    chains_fit N (length leaves) (log_len BA (block_storage ds)) (event_chains events) \<Longrightarrow>
    (update_loop N False (fs_update_ops N LA BA) (fs_versioned_ops LA BA AS) show_update show_commit
      events ds :: (('q, 'k) crate_error, unit, _) outcome) = (Inr u, ds') \<Longrightarrow>
    fs_served N LA BA AS
      (leaves @ map entry_of (concat (map (\<lambda>(chain, qc). chain_entries N chain qc) (event_chains events)))) ds'"
proof (induction events arbitrary: ds leaves)
  case Nil
  then show ?case by simp
next
  case (Cons event events)
  from Cons.prems(3) obtain ds1 ds2 where
    upd: "update N False (fs_update_ops N LA BA) event ds = (Inr (), ds1)"
    and com: "fs_commit LA BA AS ds1 = (Inr (), ds2)"
    and rest: "(update_loop N False (fs_update_ops N LA BA) (fs_versioned_ops LA BA AS) show_update show_commit
      events ds2 :: (('q, 'k) crate_error, unit, _) outcome) = (Inr u, ds')"
    by (auto simp: attempt_ok)
  show ?case
  proof (cases event)
    case (Decide chain qc)
    have fit: "chains_fit N (length leaves) (log_len BA (block_storage ds)) [(chain, qc)]"
      using Cons.prems(2) by (simp add: Decide)
    note E = fs_event_served [OF laws gen Cons.prems(1) fit upd [unfolded Decide] com]
    have "chains_fit N (length (leaves @ map entry_of (chain_entries N chain qc)))
        (log_len BA (block_storage ds2)) (event_chains events)"
      using Cons.prems(2) E(2) by (simp add: Decide)
    from Cons.IH [OF E(1) this rest] show ?thesis by (simp add: Decide)
  next
    case OtherEvent
    then have "ds1 = ds" using upd by (simp add: update_def)
    with Cons.prems(1) com have "fs_served N LA BA AS leaves ds2"
        "log_len BA (block_storage ds2) = log_len BA (block_storage ds)"
      using fs_commit_served [OF laws gen, of AS ds leaves "()" ds2] by (auto simp: fs_served_def)
    with Cons.IH [OF _ _ rest, of leaves] Cons.prems(2) show ?thesis by (simp add: OtherEvent)
  qed
qed

section \<open>A fresh store\<close>

text \<open>The genesis block is the one of the genesis leaf.\<close>

definition genesis_matches where
  "genesis_matches N \<longleftrightarrow>
     block_matches N (leaf_query_data_genesis N) (block_query_data_genesis N)"

lemma fs_create_served:
  assumes laws: "append_log_laws LA lp" "append_log_laws BA bp" and gen: "genesis_at_zero N"
    and match: "genesis_matches N"
    and run: "fs_create_with_store N LA BA AS metrics0 ld = (Inr ds, ld')"
  shows "fs_served N LA BA AS [leaf_query_data_genesis N] ds" and "log_len BA (block_storage ds) = 1"
proof -
  note C = fs_create_with_store_ok [OF laws gen run]
  show len: "log_len BA (block_storage ds) = 1" using fs_ok_lens(2) [OF C(1)] C(9) by simp
  have "fs_gapless N LA BA [leaf_query_data_genesis N] ds"
    using C(3,8) len match by (simp add: fs_gapless_def genesis_matches_def)
  moreover have "fs_committed LA BA ds" using C(5,6,8,9) by (simp add: fs_committed_def)
  ultimately show "fs_served N LA BA AS [leaf_query_data_genesis N] ds"
    using fs_reachable.created [OF run] C(7) by (simp add: fs_served_def)
qed

text \<open>A run of the service on a fresh store.\<close>

lemma fs_service_served:
  fixes show_update :: "'e \<Rightarrow> string" and show_commit :: "'e \<Rightarrow> string"
  assumes "append_log_laws LA lp" and "append_log_laws BA bp" and "genesis_at_zero N"
    and "genesis_matches N" and "fs_create_with_store N LA BA AS metrics0 ld = (Inr ds, ld')"
    and "chains_fit N 1 1 decides"
    and "run_standalone_service register_module show_api availability_api status_api app
      N False (fs_update_ops N LA BA) (fs_versioned_ops LA BA AS) show_update show_commit
      (map (\<lambda>(chain, qc). Decide chain qc) decides) ds = (Inr u, ds')"
    and "leaves = leaf_query_data_genesis N #
      map entry_of (concat (map (\<lambda>(chain, qc). chain_entries N chain qc) decides))"
  shows "fs_served N LA BA AS leaves ds'" and "fs_ok N LA BA lp bp ds'"
    and "fs_gapless N LA BA leaves ds'" and "length leaves + 1 < 2 ^ 64"
proof -
  note created = fs_create_served [OF assms(1-5)]
  show served: "fs_served N LA BA AS leaves ds'"
    using assms(7) fs_update_loop_served [OF assms(1-3) created(1),
        where events = "map (\<lambda>(chain, qc). Decide chain qc) decides"] created(2) assms(6,8)
    unfolding run_standalone_service_def by (fastforce split: sum.splits)
  then show "fs_ok N LA BA lp bp ds'" "fs_gapless N LA BA leaves ds'" "length leaves + 1 < 2 ^ 64"
    using fs_reachable_ok [OF assms(1-3)] by (auto simp: fs_served_def)
qed

end
