(* ===== verification/DataSourceTests.thy ===== *)
theory DataSourceTests
  imports AvailabilityApi UpdateSource
begin

text \<open>
  The checks of the generic test suite for data sources (\<^verbatim>\<open>availability_tests\<close> in
  \<^verbatim>\<open>src/data_source.rs\<close>), over any data source that serves the availability API. A check passes or
  panics: on an \<^verbatim>\<open>unwrap\<close> of an error or on a failed assertion. \<open>leaf_items\<close> and \<open>block_items\<close> give the
  items of a range, or nothing if the stream never ends; \<open>distinct_of\<close> lists the members of a
  \<^verbatim>\<open>HashSet\<close> built from a list, in whatever order.
\<close>

section \<open>Checks\<close>

datatype 'e test_panic = UnwrapFailed 'e | OtherPanic | AssertFailed | NoEnd

definition check_that :: "bool \<Rightarrow> 'e test_panic + unit" where
  "check_that b = (if b then Inr () else Inl AssertFailed)"

lemma check_that_simps [simp]:
  "check_that True = Inr ()" "check_that False = Inl AssertFailed"
  "check_that b = Inr () \<longleftrightarrow> b"
  by (simp_all add: check_that_def)

definition unwrap_ok :: "'e + 'a \<Rightarrow> 'e test_panic + 'a" where
  "unwrap_ok r = map_err UnwrapFailed r"

lemma unwrap_ok_simps [simp]:
  "unwrap_ok (Inr x) = Inr x" "unwrap_ok (Inl e) = Inl (UnwrapFailed e)"
  by (simp_all add: unwrap_ok_def)

definition stream_items :: "'a list option \<Rightarrow> 'e test_panic + 'a list" where
  "stream_items r = context_opt r NoEnd"

lemma stream_items_Some [simp]: "stream_items (Some xs) = Inr xs"
  by (simp add: stream_items_def)

text \<open>\<^verbatim>\<open>entry(k).or_insert(v)\<close>: the value kept for the key, and the map.\<close>

definition or_insert :: "('k \<rightharpoonup> 'v) \<Rightarrow> 'k \<Rightarrow> 'v \<Rightarrow> 'v \<times> ('k \<rightharpoonup> 'v)" where
  "or_insert m k v = (case m k of Some old \<Rightarrow> (old, m) | None \<Rightarrow> (v, m(k \<mapsto> v)))"

section \<open>Validating a data source\<close>

text \<open>The lookups of one leaf by number, by hash and by proposer.\<close>

definition validate_leaf where
  "validate_leaf N V ds i leaf =
     and_then (check_that (leaf_height N leaf = i)) (\<lambda>_.
     and_then (check_that (leaf_hash N leaf = leaf_commit N (lq_leaf leaf))) (\<lambda>_.
     and_then (unwrap_ok (av_get_leaf V ds (Number i))) (\<lambda>by_number.
     and_then (check_that (leaf = by_number)) (\<lambda>_.
     and_then (unwrap_ok (av_get_leaf V ds (Hash (leaf_hash N leaf)))) (\<lambda>by_hash.
     and_then (check_that (leaf = by_hash)) (\<lambda>_.
     and_then (unwrap_ok (av_get_proposals V ds (leaf_proposer N leaf) None)) (\<lambda>proposals.
       check_that (leaf \<in> set proposals))))))))"

text \<open>Every transaction of a block is found by hash, at its first occurrence.\<close>

fun validate_transactions where
  "validate_transactions N V ds i [] seen = Inr seen"
| "validate_transactions N V ds i (Inl (panic :: query_error failure) # txns) seen = Inl OtherPanic"
| "validate_transactions N V ds i (Inr (j, txn) # txns) seen =
     (case or_insert seen (tx_commit N txn) (i, j) of (ix, seen) \<Rightarrow>
        and_then (unwrap_ok (av_get_block_with_transaction V ds (tx_commit N txn))) (\<lambda>(block, pos).
        and_then (check_that ((block_height N block, pos) = ix)) (\<lambda>_.
          validate_transactions N V ds i txns seen)))"

definition validate_block where
  "validate_block N V ds i leaf block seen_blocks seen_transactions =
     and_then (check_that (leaf_block_hash N leaf = bq_hash block)) (\<lambda>_.
     and_then (check_that (block_height N block = i)) (\<lambda>_.
     and_then (check_that (bq_hash block = header_commit N (bq_header block))) (\<lambda>_.
     and_then (check_that (bq_size block = payload_size N (bq_payload block))) (\<lambda>_.
     and_then (unwrap_ok (av_get_block V ds (Number i))) (\<lambda>by_number.
     and_then (check_that (block = by_number)) (\<lambda>_.
     case or_insert seen_blocks (bq_hash block) i of (ix, seen_blocks) \<Rightarrow>
     and_then (unwrap_ok (av_get_block V ds (Hash (bq_hash block)))) (\<lambda>by_hash.
     and_then (check_that (block_height N by_hash = ix)) (\<lambda>_.
     map_sum id (Pair seen_blocks)
       (validate_transactions N V ds i (payload_enumerate N (bq_payload block)) seen_transactions)))))))))"

fun validate_leaves where
  "validate_leaves N V ds i [] seen_blocks seen_transactions = Inr ()"
| "validate_leaves N V ds i (item # items) seen_blocks seen_transactions =
     and_then (unwrap_ok item) (\<lambda>leaf.
     and_then (validate_leaf N V ds i leaf) (\<lambda>_.
       case av_get_block V ds (Number i) of
         Inl _ \<Rightarrow> validate_leaves N V ds (i + 1) items seen_blocks seen_transactions
       | Inr block \<Rightarrow>
           and_then (validate_block N V ds i leaf block seen_blocks seen_transactions)
             (\<lambda>(seen_blocks, seen_transactions).
               validate_leaves N V ds (i + 1) items seen_blocks seen_transactions)))"

text \<open>The proposals of one key are its own and in order of height.\<close>

fun validate_proposal_order where
  "validate_proposal_order N proposer prev_height [] = Inr ()"
| "validate_proposal_order N proposer prev_height (leaf # leaves) =
     and_then (check_that (proposer = leaf_proposer N leaf)) (\<lambda>_.
     and_then (case prev_height of
         Some prev_height \<Rightarrow> check_that (prev_height < leaf_height N leaf)
       | None \<Rightarrow> Inr ()) (\<lambda>_.
       validate_proposal_order N proposer (Some (leaf_height N leaf)) leaves))"

definition ends_with :: "'a list \<Rightarrow> 'a list \<Rightarrow> bool" where
  "ends_with xs ys \<longleftrightarrow> length ys \<le> length xs \<and> drop (length xs - length ys) xs = ys"

definition validate_proposer where
  "validate_proposer N V ds proposer =
     and_then (unwrap_ok (av_get_proposals V ds proposer None)) (\<lambda>proposals.
     and_then (check_that (proposals \<noteq> [])) (\<lambda>_.
     and_then (unwrap_ok (av_get_proposals V ds proposer (Some (of_nat (length proposals div 2)))))
       (\<lambda>suffix.
     and_then (check_that (length suffix = length proposals div 2)) (\<lambda>_.
     and_then (check_that (ends_with proposals suffix)) (\<lambda>_.
       validate_proposal_order N proposer None proposals)))))"

fun validate_proposers where
  "validate_proposers N V ds [] = Inr ()"
| "validate_proposers N V ds (proposer # proposers) =
     and_then (validate_proposer N V ds proposer) (\<lambda>_. validate_proposers N V ds proposers)"

text \<open>\<^verbatim>\<open>res.ok()\<close> on the items of a stream.\<close>

definition ok_items :: "('e + 'a) list \<Rightarrow> 'a list" where
  "ok_items items = List.map_filter (\<lambda>item. case item of Inl _ \<Rightarrow> None | Inr x \<Rightarrow> Some x) items"

definition validate where
  "validate N leaf_items distinct_of V ds =
     and_then (unwrap_ok (av_get_leaf_range V ds Unbounded Unbounded)) (\<lambda>leaves.
     and_then (stream_items (leaf_items leaves)) (\<lambda>items.
     and_then (validate_leaves N V ds 0 items Map.empty Map.empty) (\<lambda>_.
     and_then (unwrap_ok (av_get_leaf_range V ds Unbounded Unbounded)) (\<lambda>leaves.
     and_then (stream_items (leaf_items leaves)) (\<lambda>items.
       validate_proposers N V ds (distinct_of (map (leaf_proposer N) (ok_items items))))))))"

section \<open>Ranges\<close>

text \<open>\<^verbatim>\<open>ExRange\<close>: a range whose lower bound is made exclusive; no bound becomes above zero.\<close>

fun ex_range :: "64 word bound \<Rightarrow> 64 word bound" where
  "ex_range (Included x) = Excluded x"
| "ex_range (Excluded x) = Excluded x"
| "ex_range Unbounded = Excluded 0"

text \<open>The streams yield leaves and blocks of the expected heights; what follows is not looked at.\<close>

fun range_expect where
  "range_expect N [] leaves blocks = Inr ()"
| "range_expect N (i # indices) leaves blocks =
     (case (leaves, blocks) of
        (leaf # leaves, block # blocks) \<Rightarrow>
          and_then (unwrap_ok leaf) (\<lambda>leaf.
          and_then (unwrap_ok block) (\<lambda>block.
          and_then (check_that (leaf_height N leaf = i)) (\<lambda>_.
          and_then (check_that (block_height N block = i)) (\<lambda>_.
            range_expect N indices leaves blocks))))
      | _ \<Rightarrow> Inl OtherPanic)"

definition do_range_test where
  "do_range_test N leaf_items block_items V ds start end_bound expected_indices =
     and_then (unwrap_ok (av_get_leaf_range V ds start end_bound)) (\<lambda>leaves.
     and_then (unwrap_ok (av_get_block_range V ds start end_bound)) (\<lambda>blocks.
     and_then (stream_items (leaf_items leaves)) (\<lambda>leaves.
     and_then (stream_items (block_items blocks)) (\<lambda>blocks.
       range_expect N expected_indices leaves blocks))))"

text \<open>The indices \<^verbatim>\<open>start..end\<close>.\<close>

definition indices :: "nat \<Rightarrow> nat \<Rightarrow> 64 word list" where
  "indices start end_bound = map of_nat [start..<end_bound]"

definition range_test where
  "range_test N leaf_items block_items V ds height =
     (let check = do_range_test N leaf_items block_items V ds in
      and_then (check (Included 1) (Included 2) (indices 1 3)) (\<lambda>_.
      and_then (check (Included 1) (Excluded 3) (indices 1 3)) (\<lambda>_.
      and_then (check (Included 1) Unbounded (indices 1 height)) (\<lambda>_.
      and_then (check Unbounded (Included 2) (indices 0 3)) (\<lambda>_.
      and_then (check Unbounded (Excluded 3) (indices 0 3)) (\<lambda>_.
      and_then (check Unbounded Unbounded (indices 0 height)) (\<lambda>_.
      and_then (check (ex_range (Included 0)) (Included 2) (indices 1 3)) (\<lambda>_.
      and_then (check (ex_range (Included 0)) (Excluded 3) (indices 1 3)) (\<lambda>_.
        check (ex_range (Included 0)) Unbounded (indices 1 height))))))))))"

section \<open>Non-empty blocks\<close>

text \<open>Leaves from height 1 on, zipped with the blocks from height 0 on, as in the code.\<close>

definition get_non_empty_blocks where
  "get_non_empty_blocks N leaf_items block_items V ds =
     and_then (unwrap_ok (av_get_leaf_range V ds (Included 1) Unbounded)) (\<lambda>leaves.
     and_then (unwrap_ok (av_get_block_range V ds Unbounded Unbounded)) (\<lambda>blocks.
     and_then (stream_items (leaf_items leaves)) (\<lambda>leaves.
     and_then (stream_items (block_items blocks)) (\<lambda>blocks.
       Inr (List.map_filter
         (\<lambda>entry. case entry of
            (Inr leaf, Inr block) \<Rightarrow> if \<not> block_is_empty N block then Some (leaf, block) else None
          | _ \<Rightarrow> None)
         (zip leaves blocks))))))"

section \<open>Reverting\<close>

text \<open>\<^verbatim>\<open>unwrap\<close> on a call that changes the data source.\<close>

definition run_ok ::
    "('e, 'a, 'ds) outcome \<Rightarrow> ('a \<Rightarrow> 'ds \<Rightarrow> 'q test_panic + 'b) \<Rightarrow> 'q test_panic + 'b" where
  "run_ok r k = (case r of (Inr x, ds) \<Rightarrow> k x ds | (Inl _, ds) \<Rightarrow> Inl OtherPanic)"

lemma run_ok_simps [simp]:
  "run_ok (Inr x, ds) k = k x ds" "run_ok (Inl e, ds) k = Inl OtherPanic"
  by (simp_all add: run_ok_def)

text \<open>
  \<open>bump\<close> is the genesis leaf with its block number increased, \<open>certify\<close> a certificate with another
  leaf commitment, and \<open>height_of\<close> the block height of the data source.
\<close>

definition test_revert where
  "test_revert N dbg bump certify D revert height_of V ds =
     (let leaf = bump (leaf_genesis N);
          qc = certify (leaf_commit N leaf) (qc_genesis N) in
      case block_query_data_new N dbg leaf qc (snd (header_genesis N)) of
        Inl _ \<Rightarrow> Inl OtherPanic
      | Inr block \<Rightarrow>
          (case leaf_query_data_new N leaf qc of
             Inl _ \<Rightarrow> Inl OtherPanic
           | Inr leaf \<Rightarrow>
               run_ok (ds_insert_leaf D leaf ds) (\<lambda>_ ds.
               run_ok (ds_insert_block D block ds) (\<lambda>_ ds.
               and_then (unwrap_ok (height_of ds)) (\<lambda>height.
               and_then (check_that (height = 2)) (\<lambda>_.
               and_then (unwrap_ok (av_get_leaf V ds (Number 1))) (\<lambda>stored_leaf.
               and_then (check_that (leaf = stored_leaf)) (\<lambda>_.
               and_then (unwrap_ok (av_get_block V ds (Number 1))) (\<lambda>stored_block.
               and_then (check_that (block = stored_block)) (\<lambda>_.
               run_ok (revert ds) (\<lambda>_ ds.
               and_then (unwrap_ok (height_of ds)) (\<lambda>height.
               and_then (check_that (height = 1)) (\<lambda>_.
               and_then (check_that (av_get_leaf V ds (Number 1) = Inl NotFound)) (\<lambda>_.
                 check_that (av_get_block V ds (Number 1) = Inl NotFound)))))))))))))))"

section \<open>Reading durable storage\<close>

definition collected where
  "collected items r =
     and_then (unwrap_ok r) (\<lambda>entries.
     and_then (stream_items (items entries)) (\<lambda>xs. unwrap_ok (try_collect xs)))"

text \<open>
  \<^verbatim>\<open>test_update\<close>'s check that everything read from the data source is in its storage: a data source
  newly connected to the storage lists the same blocks and leaves.
\<close>

definition reconnect_check where
  "reconnect_check leaf_items block_items V ds connected =
     (case connected of
        Inl _ \<Rightarrow> Inl OtherPanic
      | Inr storage \<Rightarrow>
          and_then (collected block_items (av_get_block_range V ds Unbounded Unbounded)) (\<lambda>blocks.
          and_then (collected block_items (av_get_block_range V storage Unbounded Unbounded)) (\<lambda>stored_blocks.
          and_then (check_that (blocks = stored_blocks)) (\<lambda>_.
          and_then (collected leaf_items (av_get_leaf_range V ds Unbounded Unbounded)) (\<lambda>leaves.
          and_then (collected leaf_items (av_get_leaf_range V storage Unbounded Unbounded)) (\<lambda>stored_leaves.
            check_that (leaves = stored_leaves)))))))"

end
