(* ===== verification/ValidateProps.thy ===== *)
theory ValidateProps
  imports FsService DataSourceTests
begin

text \<open>
  The file system data source passes the checks of the generic test suite: validation after any run
  of the service.
\<close>

section \<open>First occurrences\<close>

text \<open>
  What the map of transactions already seen holds after the entries \<open>pre\<close>: the first entry of every
  hash. In a sorted list of entries it is the least one, before and after.
\<close>

definition seen_ok :: "('h \<rightharpoonup> 'p::linorder) \<Rightarrow> ('h \<times> 'p) list \<Rightarrow> bool" where
  "seen_ok seen pre \<longleftrightarrow>
     (\<forall>h. seen h = None \<longleftrightarrow> h \<notin> fst ` set pre) \<and>
     (\<forall>h p. seen h = Some p \<longrightarrow> (h, p) \<in> set pre \<and> (\<forall>q. (h, q) \<in> set pre \<longrightarrow> p \<le> q))"

lemma seen_ok_Nil [simp]: "seen_ok Map.empty []"
  by (simp add: seen_ok_def)

definition least_entry :: "('h \<times> 'p::linorder) list \<Rightarrow> 'h \<Rightarrow> 'p \<Rightarrow> bool" where
  "least_entry entries h p \<longleftrightarrow> (h, p) \<in> set entries \<and> (\<forall>q. (h, q) \<in> set entries \<longrightarrow> p \<le> q)"

lemma or_insert_seen:
  assumes seen: "seen_ok seen pre" and sorted: "sorted (map snd (pre @ (h, p) # post))"
  shows "\<exists>q seen'. or_insert seen h p = (q, seen') \<and> least_entry (pre @ (h, p) # post) h q \<and>
    seen_ok seen' (pre @ [(h, p)])"
proof -
  have after: "q \<le> r" if "(k, q) \<in> set pre" "(k', r) \<in> set ((h, p) # post)" for k q k' r
    using sorted that by (force simp: sorted_append)
  have later: "p \<le> r" if "(k, r) \<in> set post" for k r
    using sorted that by (force simp: sorted_append)
  show ?thesis
  proof (cases "seen h")
    case None
    then have new: "h \<notin> fst ` set pre" using seen by (simp add: seen_ok_def)
    then have "\<forall>q. (h, q) \<notin> set pre" by force
    then have "least_entry (pre @ (h, p) # post) h p" using later by (auto simp: least_entry_def)
    moreover have "seen_ok (seen(h \<mapsto> p)) (pre @ [(h, p)])"
      using seen new \<open>\<forall>q. (h, q) \<notin> set pre\<close> by (auto simp: seen_ok_def split: if_splits)
    ultimately show ?thesis using None by (simp add: or_insert_def)
  next
    case (Some q)
    then have q: "(h, q) \<in> set pre" "\<And>r. (h, r) \<in> set pre \<Longrightarrow> q \<le> r"
      using seen by (auto simp: seen_ok_def)
    then have "least_entry (pre @ (h, p) # post) h q"
      using after [OF q(1)] by (auto simp: least_entry_def)
    moreover have "\<exists>x \<in> set pre. h = fst x" using q(1) by (rule rev_bexI) simp
    then have "seen_ok seen (pre @ [(h, p)])"
      using seen q Some after [OF q(1), of h p] unfolding seen_ok_def by auto
    ultimately show ?thesis using Some by (simp add: or_insert_def)
  qed
qed

text \<open>The transactions of one block are found, if lookups give the least entry of a hash.\<close>

lemma validate_transactions_ok:
  assumes lookup: "\<And>h p. least_entry all h p \<Longrightarrow>
      \<exists>b ix. av_get_block_with_transaction V ds h = Inr (b, ix) \<and> (block_height N b, ix) = p"
    and sorted: "sorted (map snd all)"
  shows "all = pre @ map (\<lambda>(ix, tx). (tx_commit N tx, (i, ix))) txs @ post \<Longrightarrow> seen_ok seen pre \<Longrightarrow>
    \<exists>seen'. validate_transactions N V ds i (map Inr txs) seen = Inr seen' \<and>
      seen_ok seen' (pre @ map (\<lambda>(ix, tx). (tx_commit N tx, (i, ix))) txs)"
proof (induction txs arbitrary: pre seen)
  case Nil
  then show ?case by simp
next
  case (Cons t txs)
  obtain j tx where t: "t = (j, tx)" by fastforce
  let ?h = "tx_commit N tx" and ?rest = "map (\<lambda>(ix, tx). (tx_commit N tx, (i, ix))) txs"
  have all: "all = pre @ (?h, (i, j)) # ?rest @ post" using Cons.prems(1) by (simp add: t)
  obtain q seen1 where one: "or_insert seen ?h (i, j) = (q, seen1)" "least_entry all ?h q"
      "seen_ok seen1 (pre @ [(?h, (i, j))])"
    using or_insert_seen [OF Cons.prems(2) sorted [unfolded all]] unfolding all by blast
  obtain b ix where "av_get_block_with_transaction V ds ?h = Inr (b, ix)" "(block_height N b, ix) = q"
    using lookup [OF one(2)] by blast
  moreover obtain seen' where "validate_transactions N V ds i (map Inr txs) seen1 = Inr seen'"
      "seen_ok seen' ((pre @ [(?h, (i, j))]) @ ?rest)"
    using Cons.IH [OF _ one(3)] all by auto
  ultimately show ?case using one(1) by (auto simp: t)
qed

lemma nth_notin_take: "distinct xs \<Longrightarrow> i < length xs \<Longrightarrow> xs ! i \<notin> set (take i xs)"
  by (auto simp: in_set_conv_nth distinct_conv_nth)

lemma unat_of_nat_64: "n < 2 ^ 64 \<Longrightarrow> unat (of_nat n :: 64 word) = n"
  by (simp add: unat_of_nat take_bit_nat_eq_self)

section \<open>The entries of a block log\<close>

text \<open>The transactions of the block at a height, and of all heights below \<open>n\<close>.\<close>

definition entries_at where
  "entries_at N blocks i = (case list_get blocks i of Some (Some b) \<Rightarrow> block_entries N b | _ \<Rightarrow> [])"

lemma entries_at_block:
  "list_get blocks i = Some (Some b) \<Longrightarrow> block_height N b = of_nat i \<Longrightarrow> entries_at N blocks i
     = map (\<lambda>(ix, tx). (tx_commit N tx, (of_nat i, ix))) (payload_transactions N (bq_payload b))"
  by (simp add: entries_at_def block_entries_def)

definition entries_below where
  "entries_below N blocks n = concat (map (entries_at N blocks) [0..<n])"

lemma entries_below_Suc [simp]:
  "entries_below N blocks 0 = []"
  "entries_below N blocks (Suc n) = entries_below N blocks n @ entries_at N blocks n"
  by (simp_all add: entries_below_def)

lemma entries_below_split:
  assumes "i < n"
  obtains post where "entries_below N blocks n = entries_below N blocks i @ entries_at N blocks i @ post"
proof -
  have "[0..<n] = [0..<i] @ i # [Suc i..<n]"
    using assms upt_add_eq_append [of 0 i "n - i"] by (simp add: upt_rec)
  then show thesis by (intro that) (simp add: entries_below_def)
qed

lemma entries_below_all:
  "length blocks \<le> n \<Longrightarrow> entries_below N blocks n = concat (map (block_entries N) (present blocks))"
proof -
  have "entries_below N blocks (length blocks) = concat (map (block_entries N) (present blocks))"
  proof (induction blocks rule: rev_induct)
    case (snoc b blocks)
    have "entries_below N (blocks @ [b]) (length blocks) = entries_below N blocks (length blocks)"
      unfolding entries_below_def
      by (intro arg_cong [where f = concat] map_cong) (simp_all add: entries_at_def list_get_append)
    with snoc show ?case by (cases b) (simp_all add: entries_at_def list_get_append)
  qed (simp add: entries_below_def)
  moreover have "entries_at N blocks i = []" if "length blocks \<le> i" for i
    using that by (simp add: entries_at_def list_get_def)
  then have "entries_below N blocks (length blocks + k) = entries_below N blocks (length blocks)" for k
    by (induction k) simp_all
  moreover assume "length blocks \<le> n"
  ultimately show ?thesis using le_Suc_ex by metis
qed

lemma entries_at_positions:
  assumes pos: "positioned (block_height N) blocks" and e: "(h, (n, ix)) \<in> set (entries_at N blocks i)"
  shows "unat n = i"
  using assms by (auto simp: entries_at_def block_entries_def positioned_def split: option.splits)

lemma entries_below_sorted:
  fixes N :: "('leaf, 'qc, 'hdr, 'pl, 'tx, 'ix::linorder, 'pf, 'h, 'pk, 'z) node_types_scheme"
    and blocks :: "('hdr, 'pl, 'h) block_query_data option list"
  assumes pos: "positioned (block_height N) blocks" and asc: "\<And>p. sorted (pl_iter N p)"
  shows "sorted (map snd (entries_below N blocks n)) \<and>
    (\<forall>(h, (m, ix)) \<in> set (entries_below N blocks n). unat m < n)"
proof (induction n)
  case 0
  then show ?case by simp
next
  case (Suc n)
  have below: "unat m < n" if "(h, (m, ix)) \<in> set (entries_below N blocks n)" for h m ix
    using Suc.IH that by auto
  have at: "sorted (map snd (entries_at N blocks n))"
  proof -
    have "sorted (map snd (block_entries N b))" for b :: "('hdr, 'pl, 'h) block_query_data"
      using asc [of "bq_payload b"]
      by (simp add: block_entries_def payload_transactions_def o_def sorted_map less_eq_prod_def)
    then show ?thesis by (simp add: entries_at_def split: option.splits)
  qed
  have "p \<le> q" if p: "(h, p) \<in> set (entries_below N blocks n)" and q: "(k, q) \<in> set (entries_at N blocks n)"
    for h p k q
  proof -
    obtain m ix m' ix' where pq: "p = (m, ix)" "q = (m', ix')" by (cases p; cases q)
    have "unat m < unat m'" using below p entries_at_positions [OF pos] q pq by fastforce
    then show ?thesis using pq by (simp add: less_eq_prod_def word_less_nat_alt)
  qed
  then show ?case
    using Suc.IH at below entries_at_positions [OF pos]
    by (auto simp: sorted_append intro: less_SucI)
qed

section \<open>Validation\<close>

text \<open>What a payload type promises: indices resolve and are listed in order.\<close>

definition payload_laws where
  "payload_laws N \<longleftrightarrow> (\<forall>p. payload_indexed N p \<and> sorted (pl_iter N p))"

lemma fs_gapless_at:
  assumes ok: "fs_ok N LA BA lp bp ds" and gap: "fs_gapless N LA BA leaves ds" and i: "i < length leaves"
  shows "unat (leaf_height N (leaves ! i)) = i" and "leaves ! i \<in> set (fs_leaves LA ds)"
proof -
  have "list_get (log_contents LA (leaf_storage ds)) i = Some (Some (leaves ! i))"
    using gap i by (simp add: fs_gapless_def list_get_def)
  then show "unat (leaf_height N (leaves ! i)) = i" using ok by (auto simp: fs_ok_def positioned_def)
  show "leaves ! i \<in> set (fs_leaves LA ds)" using gap i by (simp add: fs_gapless_def fs_leaves_def)
qed

lemma fs_get_leaf_gapless:
  assumes ok: "fs_ok N LA BA lp bp ds" and gap: "fs_gapless N LA BA leaves ds"
    and hashes: "distinct (map (leaf_hash N) leaves)" and i: "i < length leaves"
  shows "leaf_height N (leaves ! i) = of_nat i"
    and "fs_get_leaf LA (Number (of_nat i)) ds = Inr (leaves ! i)"
    and "fs_get_leaf LA (Hash (leaf_hash N (leaves ! i))) ds = Inr (leaves ! i)"
proof -
  let ?leaf = "leaves ! i"
  note at = fs_gapless_at [OF ok gap i]
  show height: "leaf_height N ?leaf = of_nat i"
    using arg_cong [OF at(1), of "of_nat :: nat \<Rightarrow> 64 word"] by simp
  show "fs_get_leaf LA (Number (of_nat i)) ds = Inr ?leaf"
    using fs_get_leaf_stored [OF ok at(2)] height by simp
  have set: "set (fs_leaves LA ds) = set leaves" using gap by (simp add: fs_gapless_def fs_leaves_def)
  have "inj_on (leaf_hash N) (set leaves)" using hashes by (simp add: distinct_map)
  with fs_get_leaf_by_hash [OF ok, of "leaf_hash N ?leaf"] at(2)
  show "fs_get_leaf LA (Hash (leaf_hash N ?leaf)) ds = Inr ?leaf"
    unfolding set by (cases "fs_get_leaf LA (Hash (leaf_hash N ?leaf)) ds") (auto dest: inj_onD)
qed

lemma fs_validate_leaf:
  assumes ok: "fs_ok N LA BA lp bp ds" and gap: "fs_gapless N LA BA leaves ds"
    and hashes: "distinct (map (leaf_hash N) leaves)" and i: "i < length leaves"
  shows "validate_leaf N (fs_avail_ops LA BA) ds (of_nat i) (leaves ! i) = Inr ()"
proof -
  let ?leaf = "leaves ! i"
  have "fs_get_proposals LA (leaf_proposer N ?leaf) None ds
      = Inr (proposals_by N LA (leaf_proposer N ?leaf) ds)"
    using fs_get_proposals_eq [OF ok, of _ None] by simp
  with fs_get_leaf_gapless [OF ok gap hashes i] fs_gapless_at(2) [OF ok gap i] show ?thesis
    by (simp add: validate_leaf_def fs_avail_ops_def proposals_by_def leaf_hash_def)
qed

text \<open>A stored block is at the height of its leaf, and is looked up there.\<close>

lemma fs_gapless_block:
  assumes ok: "fs_ok N LA BA lp bp ds" and gap: "fs_gapless N LA BA leaves ds"
    and b: "list_get (log_contents BA (block_storage ds)) i = Some (Some b)"
  shows "i < length leaves" and "block_matches N (leaves ! i) b" and "unat (block_height N b) = i"
proof -
  have "i < length (log_contents BA (block_storage ds))" using b by (simp add: list_get_Some)
  then show i: "i < length leaves" using fs_ok_lens(2) [OF ok] gap by (simp add: fs_gapless_def)
  show h: "unat (block_height N b) = i" using ok b by (auto simp: fs_ok_def positioned_def)
  have "Some b \<in> set (log_contents BA (block_storage ds))"
    using b by (metis list_get_Some nth_mem)
  then have "b \<in> set (fs_blocks BA ds)" by (simp add: fs_blocks_def)
  then obtain lq where lq: "lq \<in> set leaves" "block_matches N lq b" using gap by (auto simp: fs_gapless_def)
  then obtain j where j: "j < length leaves" "lq = leaves ! j" by (metis in_set_conv_nth)
  have "unat (leaf_height N lq) = i"
    using lq(2) h by (simp add: block_matches_def leaf_height_def block_height_def)
  then have "j = i" using fs_gapless_at(1) [OF ok gap j(1)] j(2) by simp
  then show "block_matches N (leaves ! i) b" using lq(2) j(2) by simp
qed

lemma fs_get_block_at:
  assumes ok: "fs_ok N LA BA lp bp ds" and gap: "fs_gapless N LA BA leaves ds"
    and small: "length leaves + 1 < 2 ^ 64" and i: "i < length leaves"
  shows "fs_get_block BA (Number (of_nat i)) ds
      = read_entry (list_get (log_contents BA (block_storage ds)) i)"
  using small i unfolding fs_get_block_number [OF ok] by (simp add: unat_of_nat_64)

lemma fs_get_block_gapless_hash:
  assumes ok: "fs_ok N LA BA lp bp ds" and gap: "fs_gapless N LA BA leaves ds"
    and hashes: "distinct (map (leaf_block_hash N) leaves)" and i: "i < length leaves"
  shows "fs_get_block BA (Hash (leaf_block_hash N (leaves ! i))) ds
      = fs_get_block BA (Number (of_nat i)) ds"
proof -
  note at = fs_gapless_at [OF ok gap i]
  have height: "leaf_height N (leaves ! i) = of_nat i"
    using arg_cong [OF at(1), of "of_nat :: nat \<Rightarrow> 64 word"] by simp
  have "set (fs_leaves LA ds) = set leaves" using gap by (simp add: fs_gapless_def fs_leaves_def)
  moreover have "inj_on (leaf_block_hash N) (set leaves)" using hashes by (simp add: distinct_map)
  ultimately have "leaf' = leaves ! i"
    if "leaf' \<in> set (fs_leaves LA ds)" "leaf_block_hash N leaf' = leaf_block_hash N (leaves ! i)" for leaf'
    using that i by (auto dest: inj_onD)
  then show ?thesis
    using fs_get_block_by_hash [OF ok at(2) refl] height by fastforce
qed

lemma fs_transaction_lookup:
  assumes ok: "fs_ok N LA BA lp bp ds"
    and least: "least_entry (concat (map (block_entries N) (fs_blocks BA ds))) h p"
  shows "\<exists>b ix. fs_get_block_with_transaction BA h ds = Inr (b, ix) \<and> (block_height N b, ix) = p"
proof -
  have p: "\<exists>b \<in> set (fs_blocks BA ds). (h, p) \<in> set (block_entries N b)"
    and min: "\<And>b q. b \<in> set (fs_blocks BA ds) \<Longrightarrow> (h, q) \<in> set (block_entries N b) \<Longrightarrow> p \<le> q"
    using least by (auto simp: least_entry_def)
  show ?thesis
  proof (cases "fs_get_block_with_transaction BA h ds")
    case (Inl e)
    with fs_get_block_with_transaction_found [OF ok, of h] p show ?thesis by (cases p) auto
  next
    case (Inr r)
    obtain b ix where r: "r = (b, ix)" by fastforce
    with fs_get_block_with_transaction_found [OF ok, of h] Inr
    have "b \<in> set (fs_blocks BA ds)" "(h, (block_height N b, ix)) \<in> set (block_entries N b)"
      "\<And>b' q. b' \<in> set (fs_blocks BA ds) \<Longrightarrow> (h, q) \<in> set (block_entries N b') \<Longrightarrow> (block_height N b, ix) \<le> q"
      by auto
    then have "(block_height N b, ix) = p" using p min by (meson order_antisym)
    then show ?thesis using Inr r by simp
  qed
qed

text \<open>The entries of all blocks in order, and the lookup of a hash among them.\<close>

lemma fs_gapless_entries:
  fixes N :: "('leaf, 'qc, 'hdr, 'pl, 'tx, 'ix::linorder, 'pf, 'h, 'pk) node_types"
  assumes ok: "fs_ok N LA BA lp bp ds" and gap: "fs_gapless N LA BA leaves ds" and payloads: "payload_laws N"
  shows "entries_below N (log_contents BA (block_storage ds)) (length leaves)
      = concat (map (block_entries N) (fs_blocks BA ds))"
    and "sorted (map snd (entries_below N (log_contents BA (block_storage ds)) (length leaves)))"
proof -
  show "entries_below N (log_contents BA (block_storage ds)) (length leaves)
      = concat (map (block_entries N) (fs_blocks BA ds))"
    using fs_ok_lens(2) [OF ok] gap unfolding fs_blocks_def
    by (intro entries_below_all) (simp add: fs_gapless_def)
  show "sorted (map snd (entries_below N (log_contents BA (block_storage ds)) (length leaves)))"
    using entries_below_sorted [of N "log_contents BA (block_storage ds)" "length leaves"] payloads ok
    by (simp add: fs_ok_def payload_laws_def)
qed

lemma fs_validate_block:
  fixes N :: "('leaf, 'qc, 'hdr, 'pl, 'tx, 'ix::linorder, 'pf, 'h, 'pk) node_types"
  assumes ok: "fs_ok N LA BA lp bp ds" and gap: "fs_gapless N LA BA leaves ds"
    and small: "length leaves + 1 < 2 ^ 64" and hashes: "distinct (map (leaf_block_hash N) leaves)"
    and payloads: "payload_laws N"
    and b: "list_get (log_contents BA (block_storage ds)) i = Some (Some b)"
    and sb: "dom sb \<subseteq> leaf_block_hash N ` set (take i leaves)"
    and st: "seen_ok st (entries_below N (log_contents BA (block_storage ds)) i)"
  shows "\<exists>sb' st'. validate_block N (fs_avail_ops LA BA) ds (of_nat i) (leaves ! i) b sb st = Inr (sb', st') \<and>
    dom sb' \<subseteq> leaf_block_hash N ` set (take (Suc i) leaves) \<and>
    seen_ok st' (entries_below N (log_contents BA (block_storage ds)) (Suc i))"
proof -
  let ?B = "log_contents BA (block_storage ds)" and ?n = "length leaves"
  note B = fs_gapless_block [OF ok gap b]
  have match: "bq_hash b = header_commit N (bq_header b)" "bq_size b = payload_size N (bq_payload b)"
    "leaf_block_hash N (leaves ! i) = bq_hash b"
    using B(2) by (simp_all add: block_matches_def leaf_block_hash_def)
  have height: "block_height N b = of_nat i"
    using arg_cong [OF B(3), of "of_nat :: nat \<Rightarrow> 64 word"] by simp
  have number: "fs_get_block BA (Number (of_nat i)) ds = Inr b"
    using fs_get_block_at [OF ok gap small B(1)] b by simp
  have hash: "fs_get_block BA (Hash (bq_hash b)) ds = Inr b"
    using fs_get_block_gapless_hash [OF ok gap hashes B(1)] number match(3) by simp
  have "map (leaf_block_hash N) leaves ! i \<notin> set (take i (map (leaf_block_hash N) leaves))"
    using hashes B(1) by (intro nth_notin_take) simp_all
  then have "bq_hash b \<notin> dom sb" using sb match(3) B(1) by (auto simp: take_map)
  then have new: "or_insert sb (bq_hash b) (of_nat i) = (of_nat i, sb(bq_hash b \<mapsto> of_nat i))"
    by (auto simp: or_insert_def split: option.splits)
  have dom: "dom (sb(bq_hash b \<mapsto> of_nat i)) \<subseteq> leaf_block_hash N ` set (take (Suc i) leaves)"
    using sb match(3) B(1) by (auto simp: take_Suc_conv_app_nth)
  have ixd: "payload_indexed N (bq_payload b)" using payloads by (simp add: payload_laws_def)
  note at = entries_at_block [OF b height]
  note entries = fs_gapless_entries [OF ok gap payloads]
  have lookup: "\<exists>b ix. av_get_block_with_transaction (fs_avail_ops LA BA) ds h = Inr (b, ix) \<and>
      (block_height N b, ix) = p" if "least_entry (entries_below N ?B ?n) h p" for h p
    using fs_transaction_lookup [OF ok] that by (simp add: entries(1) fs_avail_ops_def)
  obtain post where "entries_below N ?B ?n = entries_below N ?B i @ entries_at N ?B i @ post"
    using B(1) by (rule entries_below_split)
  from validate_transactions_ok [OF lookup entries(2) this [unfolded at] st]
  obtain st' where "validate_transactions N (fs_avail_ops LA BA) ds (of_nat i)
        (map Inr (payload_transactions N (bq_payload b))) st = Inr st'"
      "seen_ok st' (entries_below N ?B (Suc i))"
    by (auto simp: at)
  moreover have "av_get_block (fs_avail_ops LA BA) ds = (\<lambda>ident. fs_get_block BA ident ds)"
    by (simp add: fs_avail_ops_def)
  ultimately show ?thesis
    using match height number hash new dom
    by (simp add: validate_block_def payload_enumerate_indexed [OF ixd])
qed

lemma fs_validate_leaves:
  fixes N :: "('leaf, 'qc, 'hdr, 'pl, 'tx, 'ix::linorder, 'pf, 'h, 'pk) node_types"
  assumes ok: "fs_ok N LA BA lp bp ds" and gap: "fs_gapless N LA BA leaves ds"
    and small: "length leaves + 1 < 2 ^ 64" and hashes: "distinct (map (leaf_hash N) leaves)"
      "distinct (map (leaf_block_hash N) leaves)"
    and payloads: "payload_laws N"
  shows "i \<le> length leaves \<Longrightarrow> dom sb \<subseteq> leaf_block_hash N ` set (take i leaves) \<Longrightarrow>
    seen_ok st (entries_below N (log_contents BA (block_storage ds)) i) \<Longrightarrow>
    validate_leaves N (fs_avail_ops LA BA) ds (of_nat i) (map Inr (drop i leaves)) sb st = Inr ()"
proof (induction "length leaves - i" arbitrary: i sb st)
  case 0
  then show ?case by simp
next
  case (Suc k)
  let ?B = "log_contents BA (block_storage ds)"
  have i: "i < length leaves" and k: "k = length leaves - Suc i" using Suc.hyps(2) by simp_all
  have items: "map Inr (drop i leaves) = Inr (leaves ! i) # map Inr (drop (Suc i) leaves)"
    using i by (simp add: Cons_nth_drop_Suc [symmetric])
  have leaf: "validate_leaf N (fs_avail_ops LA BA) ds (of_nat i) (leaves ! i) = Inr ()"
    by (rule fs_validate_leaf [OF ok gap hashes(1) i])
  have get: "av_get_block (fs_avail_ops LA BA) ds (Number (of_nat i)) = read_entry (list_get ?B i)"
    using fs_get_block_at [OF ok gap small i] by (simp add: fs_avail_ops_def)
  have next_i: "of_nat i + 1 = (of_nat (Suc i) :: 64 word)" by simp
  have rest: "validate_leaves N (fs_avail_ops LA BA) ds (of_nat (Suc i)) (map Inr (drop (Suc i) leaves)) sb' st'
      = Inr ()"
    if "dom sb' \<subseteq> leaf_block_hash N ` set (take (Suc i) leaves)" "seen_ok st' (entries_below N ?B (Suc i))"
    for sb' st'
    by (rule Suc.hyps(1) [OF k _ that]) (use i in simp)
  show ?case
  proof (cases "\<exists>b. list_get ?B i = Some (Some b)")
    case True
    then obtain b where b: "list_get ?B i = Some (Some b)" by blast
    from fs_validate_block [OF ok gap small hashes(2) payloads b Suc.prems(2,3)]
    obtain sb' st' where
      block: "validate_block N (fs_avail_ops LA BA) ds (of_nat i) (leaves ! i) b sb st = Inr (sb', st')"
      and seen: "dom sb' \<subseteq> leaf_block_hash N ` set (take (Suc i) leaves)"
        "seen_ok st' (entries_below N ?B (Suc i))"
      by blast
    from rest [OF seen] show ?thesis
      unfolding items validate_leaves.simps next_i by (simp add: leaf get b block)
  next
    case False
    then have none: "\<exists>e. read_entry (list_get ?B i) = Inl e"
      by (auto simp: read_entry_cases split: option.splits)
    have at: "entries_at N ?B i = []" using False by (auto simp: entries_at_def split: option.splits)
    have seen: "dom sb \<subseteq> leaf_block_hash N ` set (take (Suc i) leaves)"
      "seen_ok st (entries_below N ?B (Suc i))"
      using Suc.prems(2,3) at i by (auto simp: take_Suc_conv_app_nth)
    from rest [OF seen] none show ?thesis
      unfolding items validate_leaves.simps next_i by (auto simp: leaf get)
  qed
qed

section \<open>Proposers\<close>

lemma validate_proposal_order_ok:
  "\<forall>lq \<in> set leaves. leaf_proposer N lq = pk \<Longrightarrow>
   sorted_wrt (\<lambda>x y. leaf_height N x < leaf_height N y) leaves \<Longrightarrow>
   \<forall>h. prev = Some h \<longrightarrow> (\<forall>lq \<in> set leaves. h < leaf_height N lq) \<Longrightarrow>
   validate_proposal_order N pk prev leaves = Inr ()"
  by (induction leaves arbitrary: prev) (auto split: option.splits)

lemma fs_gapless_ascending:
  assumes ok: "fs_ok N LA BA lp bp ds" and gap: "fs_gapless N LA BA leaves ds"
  shows "sorted_wrt (\<lambda>x y. leaf_height N x < leaf_height N y) leaves"
  unfolding sorted_wrt_iff_nth_less
proof (intro allI impI)
  fix i j assume "i < j" "j < length leaves"
  then show "leaf_height N (leaves ! i) < leaf_height N (leaves ! j)"
    using fs_gapless_at(1) [OF ok gap, of i] fs_gapless_at(1) [OF ok gap, of j]
    by (simp add: word_less_nat_alt)
qed

lemma fs_validate_proposer:
  assumes ok: "fs_ok N LA BA lp bp ds" and gap: "fs_gapless N LA BA leaves ds"
    and small: "length leaves + 1 < 2 ^ 64" and pk: "pk \<in> leaf_proposer N ` set leaves"
  shows "validate_proposer N (fs_avail_ops LA BA) ds pk = Inr ()"
proof -
  let ?P = "filter (\<lambda>lq. leaf_proposer N lq = pk) leaves"
  have P: "proposals_by N LA pk ds = ?P"
    using gap by (simp add: proposals_by_def fs_leaves_def fs_gapless_def)
  have all: "fs_get_proposals LA pk None ds = Inr ?P"
    using fs_get_proposals_eq [OF ok, of pk None] P by simp
  have "length ?P \<le> length leaves" by simp
  then have "unat (of_nat (length ?P div 2) :: 64 word) = length ?P div 2"
    using small by (intro unat_of_nat_64) linarith
  then have half: "fs_get_proposals LA pk (Some (of_nat (length ?P div 2))) ds
      = Inr (drop (length ?P - length ?P div 2) ?P)"
    using fs_get_proposals_eq [OF ok, of pk "Some (of_nat (length ?P div 2))"] P by simp
  have order: "validate_proposal_order N pk None ?P = Inr ()"
    by (rule validate_proposal_order_ok)
      (auto intro: sorted_wrt_filter fs_gapless_ascending [OF ok gap])
  have "?P \<noteq> []" using pk by (auto simp: filter_empty_conv)
  with all half order show ?thesis
    by (simp add: validate_proposer_def fs_avail_ops_def ends_with_def)
qed

lemma validate_proposers_ok:
  "\<forall>pk \<in> set pks. validate_proposer N V ds pk = Inr () \<Longrightarrow> validate_proposers N V ds pks = Inr ()"
  by (induction pks) auto

lemma ok_items_Inr [simp]: "ok_items (map Inr xs) = xs"
  by (induction xs) (simp_all add: ok_items_def)

lemma fs_leaf_range_all:
  assumes ok: "fs_ok N LA BA lp bp ds" and gap: "fs_gapless N LA BA leaves ds"
    and small: "length leaves + 1 < 2 ^ 64"
  shows "fs_get_leaf_range LA Unbounded Unbounded ds = Some (map Inr leaves)"
proof -
  have lok: "log_ok LA lp (leaf_storage ds)" using ok by (simp add: fs_ok_def)
  have "log_fits LA (leaf_storage ds)"
    using fs_ok_lens(1) [OF ok] gap small by (simp add: log_fits_len fs_gapless_def)
  moreover have "log_visible LA (leaf_storage ds)" using lok by (simp add: log_ok_def)
  ultimately show ?thesis
    using gap by (simp add: fs_get_leaf_range_def range_stream_contents fs_gapless_def)
qed

text \<open>A gapless data source passes validation.\<close>

lemma fs_gapless_validates:
  fixes N :: "('leaf, 'qc, 'hdr, 'pl, 'tx, 'ix::linorder, 'pf, 'h, 'pk) node_types"
  assumes ok: "fs_ok N LA BA lp bp ds" and gap: "fs_gapless N LA BA leaves ds"
    and small: "length leaves + 1 < 2 ^ 64" and hashes: "distinct (map (leaf_hash N) leaves)"
      "distinct (map (leaf_block_hash N) leaves)"
    and payloads: "payload_laws N" and members: "\<And>xs. set (distinct_of xs) \<subseteq> set xs"
  shows "validate N id distinct_of (fs_avail_ops LA BA) ds = Inr ()"
proof -
  have range: "av_get_leaf_range (fs_avail_ops LA BA) ds Unbounded Unbounded = Inr (Some (map Inr leaves))"
    using fs_leaf_range_all [OF ok gap small] by (simp add: fs_avail_ops_def)
  have "validate_leaves N (fs_avail_ops LA BA) ds 0 (map Inr leaves) Map.empty Map.empty = Inr ()"
    using fs_validate_leaves [OF ok gap small hashes payloads, of 0 Map.empty Map.empty] by simp
  moreover have "validate_proposers N (fs_avail_ops LA BA) ds (distinct_of (map (leaf_proposer N) leaves))
      = Inr ()"
    using members [of "map (leaf_proposer N) leaves"]
    by (intro validate_proposers_ok ballI fs_validate_proposer [OF ok gap small]) auto
  ultimately show ?thesis by (simp add: validate_def range)
qed

section \<open>Properties\<close>

text \<open>
  C2. A service started on a fresh file system store, whatever decided chains it consumes, leaves a
  data source that the repository's own generic validation accepts: no assertion of it fails and
  nothing it unwraps is an error. The chains continue the ledger within the windows, and commitments
  of its leaves and headers do not collide.
\<close>

theorem fs_service_validates:
  fixes N :: "('leaf, 'qc, 'hdr, 'pl, 'tx, 'ix::linorder, 'pf, 'h, 'pk) node_types"
    and show_update :: "'e \<Rightarrow> string" and show_commit :: "'e \<Rightarrow> string"
  assumes "append_log_laws LA lp" and "append_log_laws BA bp" and "genesis_at_zero N"
    and "genesis_matches N" and "payload_laws N"
    and "fs_create_with_store N LA BA AS metrics0 ld = (Inr ds, ld')"
    and "chains_fit N 1 1 decides"
    and "run_standalone_service register_module show_api availability_api status_api app
      N False (fs_update_ops N LA BA) (fs_versioned_ops LA BA AS) show_update show_commit
      (map (\<lambda>(chain, qc). Decide chain qc) decides) ds = (Inr u, ds')"
    and "leaves = leaf_query_data_genesis N #
      map entry_of (concat (map (\<lambda>(chain, qc). chain_entries N chain qc) decides))"
    and "distinct (map (leaf_hash N) leaves)" and "distinct (map (leaf_block_hash N) leaves)"
    and "\<And>xs. set (distinct_of xs) \<subseteq> set xs"
  shows "validate N id distinct_of (fs_avail_ops LA BA) ds' = Inr ()"
proof -
  note served = fs_service_served [OF assms(1-4,6-9)]
  show ?thesis by (rule fs_gapless_validates [OF served(2-4) assms(10,11,5,12)])
qed

text \<open>A run that decides two leaves whose blocks share a transaction.\<close>

abbreviation mock_decided where
  "mock_decided \<equiv> [([(2, 5, 1014, Some [9]), (1, 4, 1000, Some [8, 9, 8])], 1025 :: nat)]"

abbreviation mock_fs_updates where
  "mock_fs_updates \<equiv> fs_update_ops mock_types (mock_leaves False) (mock_blocks False)"

abbreviation mock_fs_versions where
  "mock_fs_versions \<equiv> fs_versioned_ops (mock_leaves False) (mock_blocks False) mock_store"

definition mock_updated where
  "mock_updated = snd (update mock_types False mock_fs_updates
     (Decide [(2, 5, 1014, Some [9]), (1, 4, 1000, Some [8, 9, 8])] 1025) mock_created)"

definition mock_validated where
  "mock_validated = snd (fs_commit (mock_leaves False) (mock_blocks False) mock_store mock_updated)"

lemma mock_updated_run:
  "update mock_types False mock_fs_updates
     (Decide [(2, 5, 1014, Some [9]), (1, 4, 1000, Some [8, 9, 8])] 1025) mock_created = (Inr (), mock_updated)"
  unfolding mock_updated_def
  by (simp add: update_def decided_qcs_def update_one_def leaf_query_data_new_def
      block_query_data_new_def mock_eval mock_created_def update_index_by_hash_def push_proposal_def)

lemma mock_validated_run:
  "fs_commit (mock_leaves False) (mock_blocks False) mock_store mock_updated = (Inr (), mock_validated)"
  unfolding mock_validated_def mock_updated_def
  by (simp add: update_def decided_qcs_def update_one_def leaf_query_data_new_def
      block_query_data_new_def mock_eval mock_created_def update_index_by_hash_def push_proposal_def)

lemma mock_payloads_indexed [simp]: "payloads_indexed mock_types entries"
  by (auto simp: payloads_indexed_def)

lemma mock_service_hypotheses:
  "genesis_matches mock_types" "payload_laws mock_types" "chains_fit mock_types 1 1 mock_decided"
proof -
  show "genesis_matches mock_types"
    by (simp add: genesis_matches_def block_matches_def mock_types_simps)
  show "payload_laws mock_types" by (simp add: payload_laws_def) (simp add: mock_types_def)
  show "chains_fit mock_types 1 1 mock_decided"
    by (simp add: chain_entries_def cached_leaves_count_def cached_blocks_count_def)
      (simp add: justified_def entry_of_def mock_types_simps nth_Cons split: nat.splits)
qed

theorem fs_service_validates_witness:
  "validate mock_types id remdups (fs_avail_ops (mock_leaves False) (mock_blocks False)) mock_validated
     = Inr ()"
proof -
  have run: "run_standalone_service (\<lambda>_ _ app. Inr app) id (Inr ()) (Inr ()) ()
      mock_types False mock_fs_updates mock_fs_versions id id
      (map (\<lambda>(chain, qc). Decide chain qc) mock_decided) mock_created = (Inr (), mock_validated)"
    by (simp add: run_standalone_service_def register_apis_def internal_err_def
        mock_updated_run mock_validated_run del: One_nat_def)
  show ?thesis
    by (rule fs_service_validates [OF mock_logs_laws mock_genesis mock_service_hypotheses(1,2)
        mock_created_run mock_service_hypotheses(3) run refl])
      (simp_all add: chain_entries_def entry_of_def mock_types_simps)
qed

end
