(* ===== verification/SuiteProps.thy ===== *)
theory SuiteProps
  imports ValidateProps
begin

text \<open>
  More checks of the generic test suite on the file system data source: ranges, the pairing of leaves
  with blocks, and reverting.
\<close>

section \<open>Ranges\<close>

text \<open>The indices a range of an unbroken ledger of the given length has.\<close>

definition range_indices where
  "range_indices len start end_bound = map of_nat [range_from start..<range_until len end_bound]"

lemma range_expect_ok:
  "length ls = length bs \<Longrightarrow> map (leaf_height N) ls = is \<Longrightarrow> map (block_height N) bs = is \<Longrightarrow>
   range_expect N is (map Inr ls) (map Inr bs) = Inr ()"
  by (induction ls bs arbitrary: "is" rule: list_induct2) auto

lemma positioned_heights:
  assumes "positioned height (map Some xs)"
  shows "map height (take k (drop i xs)) = map of_nat [i..<min (i + k) (length xs)]"
proof (rule nth_equalityI)
  fix j assume j: "j < length (map height (take k (drop i xs)))"
  then have at: "i + j < min (i + k) (length xs)" by auto
  then have "list_get (map Some xs) (i + j) = Some (Some (xs ! (i + j)))" by (simp add: list_get_def)
  then have "unat (height (xs ! (i + j))) = i + j" using assms by (auto simp: positioned_def)
  moreover have "map of_nat [i..<min (i + k) (length xs)] ! j = (of_nat (i + j) :: 64 word)"
    using at by (simp del: min_less_iff_conj)
  moreover have "map height (take k (drop i xs)) ! j = height (xs ! (i + j))"
    using at j by simp
  ultimately show "map height (take k (drop i xs)) ! j = map of_nat [i..<min (i + k) (length xs)] ! j"
    using arg_cong [of _ _ "of_nat :: nat \<Rightarrow> 64 word"] by (metis of_nat_unat ucast_id)
qed simp


lemma mock_validated_served:
  "fs_served mock_types (mock_leaves False) (mock_blocks False) mock_store
     [\<lparr>lq_leaf = (0, 0, 1000, Some []), lq_qc = 1000\<rparr>,
      \<lparr>lq_leaf = (1, 4, 1000, Some [8, 9, 8]), lq_qc = 1014\<rparr>,
      \<lparr>lq_leaf = (2, 5, 1014, Some [9]), lq_qc = 1025\<rparr>] mock_validated"
proof -
  note created = fs_create_served [OF mock_logs_laws mock_genesis mock_service_hypotheses(1) mock_created_run]
  have fit: "chains_fit mock_types (length [leaf_query_data_genesis mock_types])
      (log_len (mock_blocks False) (block_storage mock_created)) mock_decided"
    using mock_service_hypotheses(3) created(2) by simp
  from fs_event_served(1) [OF mock_logs_laws mock_genesis created(1) fit mock_updated_run mock_validated_run]
  show ?thesis by (simp add: chain_entries_def entry_of_def mock_types_simps)
qed

lemma mock_validated_blocks:
  "log_contents (mock_blocks False) (block_storage mock_validated)
     = map Some [mock_block 0 [], mock_block 1 [8, 9, 8], mock_block 2 [9]]"
  unfolding mock_validated_def mock_updated_def
  by (simp add: update_def decided_qcs_def update_one_def leaf_query_data_new_def log_contents_def
      block_query_data_new_def mock_eval mock_created_def update_index_by_hash_def push_proposal_def)


section \<open>Pairing leaves with blocks\<close>

text \<open>
  The suite's \<^verbatim>\<open>get_non_empty_blocks\<close> is meant to list the non-empty blocks after genesis with
  their leaves, but it zips the leaves from height 1 on with the blocks from height 0 on: every block
  it returns comes with the leaf of the next height, and the last block is never looked at.
\<close>

theorem non_empty_blocks_misaligned:
  fixes N :: "('leaf, 'qc, 'hdr, 'pl, 'tx, 'ix::linorder, 'pf, 'h, 'pk) node_types"
  assumes "append_log_laws LA lp" and "append_log_laws BA bp" and "genesis_at_zero N"
    and "fs_reachable N LA BA AS ds"
    and "log_contents LA (leaf_storage ds) = map Some leaves"
    and "log_contents BA (block_storage ds) = map Some blocks"
    and "length blocks = length leaves" and "length leaves + 1 < 2 ^ 64"
  shows "get_non_empty_blocks N id id (fs_avail_ops LA BA) ds
      = Inr (filter (\<lambda>(leaf, block). \<not> block_is_empty N block) (zip (drop 1 leaves) blocks)) \<and>
    (\<forall>(leaf, block) \<in> set (zip (drop 1 leaves) blocks). leaf_height N leaf = block_height N block + 1) \<and>
    (blocks \<noteq> [] \<longrightarrow> length (zip (drop 1 leaves) blocks) = length blocks - 1)"
proof -
  have ok: "fs_ok N LA BA lp bp ds" using fs_reachable_ok [OF assms(1-4)] by blast
  then have logs: "log_visible LA (leaf_storage ds)" "log_visible BA (block_storage ds)"
      "positioned (leaf_height N) (map Some leaves)" "positioned (block_height N) (map Some blocks)"
    using assms(5,6) by (simp_all add: fs_ok_def log_ok_def)
  have fits: "log_fits LA (leaf_storage ds)" "log_fits BA (block_storage ds)"
    using fs_ok_lens [OF ok] assms(5-8) by (simp_all add: log_fits_len)
  have streams: "fs_get_leaf_range LA (Included 1) Unbounded ds = Some (map Inr (drop 1 leaves))"
    "fs_get_block_range BA Unbounded Unbounded ds = Some (map Inr blocks)"
    using range_stream_contents [OF logs(1) fits(1)] range_stream_contents [OF logs(2) fits(2)]
    by (simp_all add: fs_get_leaf_range_def fs_get_block_range_def assms(5,6) drop_map)
  have "List.map_filter (\<lambda>entry. case entry of
          (Inr leaf, Inr block) \<Rightarrow> if \<not> block_is_empty N block then Some (leaf, block) else None
        | _ \<Rightarrow> None) (zip (map Inr ls) (map Inr bs))
      = filter (\<lambda>(leaf, block). \<not> block_is_empty N block) (zip ls bs)" for ls bs
    by (induction ls bs rule: list_induct2') simp_all
  then have "get_non_empty_blocks N id id (fs_avail_ops LA BA) ds
      = Inr (filter (\<lambda>(leaf, block). \<not> block_is_empty N block) (zip (drop 1 leaves) blocks))"
    using streams by (simp add: get_non_empty_blocks_def fs_avail_ops_def)
  moreover have "leaf_height N leaf = block_height N block + 1"
    if pair: "(leaf, block) \<in> set (zip (drop 1 leaves) blocks)" for leaf block
  proof -
    obtain i where i: "i + 1 < length leaves" "i < length blocks" "leaf = leaves ! (i + 1)" "block = blocks ! i"
      using pair by (auto simp: set_zip less_diff_conv)
    have "unat (leaf_height N leaf) = i + 1" "unat (block_height N block) = i"
      using i logs(3,4) by (auto simp: positioned_def list_get_def)
    then show ?thesis
      using assms(8) i(1) unat_plus_one_64 [of "block_height N block"] by (simp add: word_unat_eq_iff)
  qed
  ultimately show ?thesis using assms(7) by auto
qed

theorem non_empty_blocks_misaligned_witness:
  "get_non_empty_blocks mock_types id id (fs_avail_ops (mock_leaves False) (mock_blocks False)) mock_validated
     = Inr [(\<lparr>lq_leaf = (2, 5, 1014, Some [9]), lq_qc = 1025\<rparr>, mock_block 1 [8, 9, 8])]"
proof -
  note served = mock_validated_served [unfolded fs_served_def fs_gapless_def]
  note contents = served [THEN conjunct2, THEN conjunct1, THEN conjunct1]
  from non_empty_blocks_misaligned [OF mock_logs_laws mock_genesis conjunct1 [OF served] contents
      mock_validated_blocks]
  show ?thesis by (simp add: block_is_empty_def block_len_def mock_block_def mock_types_def)
qed

section \<open>Reverting\<close>

text \<open>
  The suite's revert test passes on a fresh file system data source whenever the storage accepts
  the insertions and the revert: what was inserted is read back before the revert and gone after it,
  and the block height goes from 2 back to 1.
\<close>

theorem fs_revert_test_passes:
  fixes N :: "('leaf, 'qc, 'hdr, 'pl, 'tx, 'ix::linorder, 'pf, 'h, 'pk) node_types"
  assumes "append_log_laws LA lp" and "append_log_laws BA bp" and "genesis_at_zero N"
    and "fs_create_with_store N LA BA AS metrics0 ld = (Inr ds, ld')"
    and "leaf = bump (leaf_genesis N)" and "header_block_number N (leaf_block_header N leaf) = 1"
    and "qc = certify (leaf_commit N leaf) (qc_genesis N)" and "qc_leaf_commit N qc = leaf_commit N leaf"
    and "block_query_data_new N dbg leaf qc (snd (header_genesis N)) = Inr block"
    and "payload_indexed N (snd (header_genesis N))"
    and "fs_insert_leaf N LA \<lparr>lq_leaf = leaf, lq_qc = qc\<rparr> ds = (Inr (), ds1)"
    and "fs_insert_block N BA block ds1 = (Inr (), ds2)" and "(fs_revert LA BA ds2 :: ('err, unit, _) outcome) = (Inr (), ds3)"
  shows "test_revert N dbg bump certify (fs_update_ops N LA BA)
    (fs_revert LA BA :: _ \<Rightarrow> ('err, unit, _) outcome) (fs_block_height LA)
    (fs_avail_ops LA BA) ds = Inr ()"
proof -
  let ?lq = "\<lparr>lq_leaf = leaf, lq_qc = qc\<rparr>"
  note C = fs_create_with_store_ok [OF assms(1-4)]
  have reach: "fs_reachable N LA BA AS ds" by (rule fs_reachable.created [OF assms(4)])
  have com: "fs_committed LA BA ds" using C(5,6,8,9) by (simp add: fs_committed_def)
  note pend = fs_committed_pending [OF C(1) com]
  have win: "cache_size (leaf_storage ds) = 100" "cache_size (block_storage ds) = 100"
    using C(7) by (simp_all add: fs_windows_def cached_leaves_count_def cached_blocks_count_def)
  have lh: "leaf_height N ?lq = 1" using assms(6) by (simp add: leaf_height_def)
  note new = block_query_data_new_ok [OF assms(9)]
  have bh: "block_height N block = 1" using new(2) assms(6) by (simp add: block_height_def)
  have app1: "length (log_contents LA (leaf_storage ds)) \<le> unat (leaf_height N ?lq)" using C(8) lh by simp
  have room1: "log_room (leaf_storage ds) (log_len LA (leaf_storage ds)) (unat (leaf_height N ?lq))"
    using pend win lh by (simp add: log_room_def)
  note L = fs_insert_leaf_ok [OF C(1) app1 room1 assms(11)]
  have ixd: "payload_indexed N (bq_payload block)" using new(3) assms(10) by simp
  have app2: "length (log_contents BA (block_storage ds1)) \<le> unat (block_height N block)"
    using C(9) L(3) bh by simp
  have room2: "log_room (block_storage ds1) (log_len BA (block_storage ds1)) (unat (block_height N block))"
    using pend win bh L(3) by (simp add: log_room_def)
  note B = fs_insert_block_ok [OF L(1) ixd app2 room2 assms(12)]
  have contents: "log_contents LA (leaf_storage ds2) = [Some (leaf_query_data_genesis N), Some ?lq]"
    "log_contents BA (block_storage ds2) = [Some (block_query_data_genesis N), Some block]"
    using L(3,4) B(3,4) C(8,9) lh bh by simp_all
  obtain llog blog where logs:
    "log_insert LA (unat (leaf_height N ?lq)) ?lq (leaf_storage ds) = (Inr (), llog)" "leaf_storage ds1 = llog"
    "log_insert BA (unat (block_height N block)) block (block_storage ds1) = (Inr (), blog)"
    "block_storage ds2 = blog"
    by (rule fs_insert_leafE [OF assms(11)], rule fs_insert_blockE [OF assms(12) ixd]) simp
  have oks: "log_ok LA lp (leaf_storage ds)" "log_ok BA bp (block_storage ds1)"
    using C(1) L(1) by (simp_all add: fs_ok_def)
  have stored: "map loaded (al_iter LA (store (leaf_storage ds2))) = [Some (leaf_query_data_genesis N)]"
    "map loaded (al_iter BA (store (block_storage ds2))) = [Some (block_query_data_genesis N)]"
    using ledger.put_durable [OF oks(1) logs(1)] ledger.put_durable [OF oks(2) logs(3)] C(5,6)
      logs(2,4) L(3) B(3) by simp_all
  note R = fs_revert_logs [OF B(1) assms(13)]
  have read: "fs_get_leaf LA (Number 1) ds2 = Inr ?lq" "fs_get_block BA (Number 1) ds2 = Inr block"
    using fs_get_leaf_number [OF B(1), of 1] fs_get_block_number [OF B(1), of 1] contents
    by (simp_all add: list_get_def)
  have gone: "fs_get_leaf LA (Number 1) ds3 = Inl NotFound" "fs_get_block BA (Number 1) ds3 = Inl NotFound"
    using log_nth_contents [OF R(1), of 1] log_nth_contents [OF R(2), of 1] R(3,4) stored
    by (simp_all add: fs_get_leaf_def fs_get_block_def list_get_def)
  have height: "log_len LA (leaf_storage ds2) = 2" "log_len LA (leaf_storage ds3) = 1"
    using fs_ok_lens(1) [OF B(1)] contents(1) ledger.len_items [OF R(1)] R(3) stored(1) by simp_all
  show ?thesis
    unfolding test_revert_def Let_def assms(5) [symmetric] assms(7) [symmetric] assms(9)
    by (simp add: leaf_query_data_new_def assms(8,11-13) fs_block_height_def height read gone
        fs_avail_ops_def)
qed

theorem fs_revert_test_passes_witness:
  "test_revert mock_types False (\<lambda>(n, pk, qc, pl). (n + 1, pk, qc, pl)) (\<lambda>h qc. h) mock_fs_updates
     (fs_revert (mock_leaves False) (mock_blocks False) :: _ \<Rightarrow> (string, unit, _) outcome)
     (fs_block_height (mock_leaves False)) (fs_avail_ops (mock_leaves False) (mock_blocks False)) mock_created = Inr ()"
proof -
  let ?lq = "\<lparr>lq_leaf = (1, 0, 1000, Some []), lq_qc = 1010\<rparr> :: mock_leaf"
  let ?ds1 = "snd (fs_insert_leaf mock_types (mock_leaves False) ?lq mock_created)"
  let ?ds2 = "snd (fs_insert_block mock_types (mock_blocks False) (mock_block 1 []) ?ds1)"
  have runs: "fs_insert_leaf mock_types (mock_leaves False) ?lq mock_created = (Inr (), ?ds1)"
    "fs_insert_block mock_types (mock_blocks False) (mock_block 1 []) ?ds1 = (Inr (), ?ds2)"
    "(fs_revert (mock_leaves False) (mock_blocks False) ?ds2 :: (string, unit, _) outcome)
      = (Inr (), snd (fs_revert (mock_leaves False) (mock_blocks False) ?ds2 :: (string, unit, _) outcome))"
    by (simp_all add: mock_eval mock_created_def fs_revert_def revert_version_def
        update_index_by_hash_def push_proposal_def)
  have block: "block_query_data_new mock_types False (1, 0, 1000, Some []) 1010
      (snd (header_genesis mock_types)) = Inr (mock_block 1 [])"
    by (simp add: block_query_data_new_def mock_types_simps mock_block_def)
  show ?thesis
    by (rule fs_revert_test_passes [OF mock_logs_laws mock_genesis mock_created_run _ _ _ _ block
          mock_payload_indexed runs])
      (simp_all add: mock_types_simps)
qed

end
