(* ===== verification/FsProps.thy ===== *)
theory FsProps
  imports FsMock
begin

text \<open>
  The properties of the file system data source, over its reachable states: what every query
  answers, what creating, committing and reopening guarantee, and where reverting and a failed
  commit break the documented contract. The witnesses run the mock data source.
\<close>

section \<open>Concrete states\<close>

abbreviation fs_mock where "fs_mock \<equiv> mock_types"
abbreviation leaf_log where "leaf_log \<equiv> mock_leaves False"
abbreviation block_log where "block_log \<equiv> mock_blocks False"

lemma mock_ok:
  "fs_ok fs_mock leaf_log block_log snd snd mock_created"
  "fs_ok fs_mock leaf_log block_log snd snd mock_with_leaf"
  "fs_ok fs_mock leaf_log block_log snd snd mock_with_block"
  using fs_reachable_ok [OF mock_logs_laws mock_genesis] mock_reachable by blast+

definition mock_committed :: mock_fs where
  "mock_committed = mock_with_block\<lparr>
     leaf_storage := (leaf_storage mock_with_block)
       \<lparr>store := (fst (store (leaf_storage mock_with_block))
                   @ snd (store (leaf_storage mock_with_block)), []),
        pending_inserts := 0,
        stream := stream (leaf_storage mock_with_block) @ [mock_leaf 1 4], stream_pos := 2\<rparr>,
     block_storage := (block_storage mock_with_block)
       \<lparr>store := (fst (store (block_storage mock_with_block))
                   @ snd (store (block_storage mock_with_block)), []),
        pending_inserts := 0,
        stream := stream (block_storage mock_with_block) @ [mock_block 1 [8, 9, 8]],
        stream_pos := 2\<rparr>\<rparr>"

lemma mock_commit_run:
  "fs_commit leaf_log block_log mock_store mock_with_block = (Inr (), mock_committed)"
  by (simp add: mock_eval mock_created_def mock_with_leaf_def mock_with_block_def
      mock_committed_def)

definition mock_reverted :: mock_fs where
  "mock_reverted = mock_with_leaf\<lparr>leaf_storage := leaf_storage mock_created\<rparr>"

lemma mock_revert_run: "fs_revert leaf_log block_log mock_with_leaf = (Inr (), mock_reverted)"
  by (simp add: fs_revert_def revert_version_def mock_created_def mock_with_leaf_def
      mock_reverted_def)

section \<open>Creating\<close>

text \<open>
  A created data source holds the genesis leaf and block, durably: its block height is 1, both
  objects are found by number and the leaf by hash, and no crash before the first commit loses
  them.
\<close>

theorem fs_create_genesis:
  assumes "append_log_laws LA lp" and "append_log_laws BA bp" and "genesis_at_zero N"
    and "fs_create_with_store N LA BA AS metrics0 ld = (Inr ds, ld')"
  shows "fs_block_height LA ds = Inr 1 \<and>
    fs_get_leaf LA (Number 0) ds = Inr (leaf_query_data_genesis N) \<and>
    fs_get_leaf LA (Hash (leaf_hash N (leaf_query_data_genesis N))) ds
      = Inr (leaf_query_data_genesis N) \<and>
    fs_get_block BA (Number 0) ds = Inr (block_query_data_genesis N) \<and>
    map loaded (al_iter LA (store (leaf_storage ds))) = [Some (leaf_query_data_genesis N)] \<and>
    map loaded (al_iter BA (store (block_storage ds))) = [Some (block_query_data_genesis N)]"
proof -
  note C = fs_create_with_store_ok [OF assms]
  have g: "leaf_height N (leaf_query_data_genesis N) = 0"
    "block_height N (block_query_data_genesis N) = 0"
    using assms(3) by (simp_all add: genesis_at_zero_def)
  have leaf: "fs_get_leaf LA (Number 0) ds = Inr (leaf_query_data_genesis N)"
    using fs_get_leaf_stored [OF C(1), of "leaf_query_data_genesis N"] C(2) g by simp
  have block: "fs_get_block BA (Number 0) ds = Inr (block_query_data_genesis N)"
    using fs_get_block_stored [OF C(1), of "block_query_data_genesis N"] C(3) g by simp
  have "fs_get_leaf LA (Hash (leaf_hash N (leaf_query_data_genesis N))) ds
      = Inr (leaf_query_data_genesis N)"
    using fs_get_leaf_by_hash [OF C(1), of "leaf_hash N (leaf_query_data_genesis N)"] C(2)
    by (auto split: sum.splits)
  with leaf block C(4-6) show ?thesis by (simp add: fs_block_height_def)
qed

theorem fs_create_genesis_witness:
  "fs_block_height leaf_log mock_created = (Inr 1 :: query_error + nat)"
  using fs_create_genesis [OF mock_logs_laws mock_genesis mock_created_run] by blast

section \<open>Indices\<close>



section \<open>Queries\<close>

text \<open>
  Looking a leaf up by hash returns a stored leaf with that hash, or \<^verbatim>\<open>NotFound\<close> exactly when
  no stored leaf has it; it never answers \<^verbatim>\<open>Missing\<close>. By number, past the end is \<^verbatim>\<open>NotFound\<close>, a
  placeholder is \<^verbatim>\<open>Missing\<close>, and anything else is the leaf of that height.
\<close>

theorem fs_get_leaf_answers:
  assumes "append_log_laws LA lp" and "append_log_laws BA bp" and "genesis_at_zero N"
    and "fs_reachable N LA BA AS ds"
  shows "(case fs_get_leaf LA (Hash h) ds of
      Inr leaf \<Rightarrow> leaf \<in> set (fs_leaves LA ds) \<and> leaf_hash N leaf = h
    | Inl e \<Rightarrow> e = NotFound \<and> h \<notin> leaf_hash N ` set (fs_leaves LA ds)) \<and>
    fs_get_leaf LA (Number n) ds =
      (case list_get (log_contents LA (leaf_storage ds)) (unat n) of
         None \<Rightarrow> Inl NotFound
       | Some None \<Rightarrow> Inl Missing
       | Some (Some leaf) \<Rightarrow> Inr leaf)"
proof -
  have ok: "fs_ok N LA BA lp bp ds" using fs_reachable_ok [OF assms] by blast
  show ?thesis
    using fs_get_leaf_by_hash [OF ok, of h] fs_get_leaf_number [OF ok, of n]
    by (simp only: read_entry_cases)
qed

theorem fs_get_leaf_answers_witness:
  "fs_get_leaf leaf_log (Number 1) mock_with_block = Inr (mock_leaf 1 4)"
  using fs_get_leaf_answers [OF mock_logs_laws mock_genesis mock_reachable(3), of 0 1]
  by (simp add: mock_contents list_get_def)

text \<open>
  A block hash resolves to the block at the least height whose leaf carries it: when several
  leaves do, the one sequenced first wins, in whatever order they were indexed.
\<close>

theorem fs_get_block_earliest:
  assumes "append_log_laws LA lp" and "append_log_laws BA bp" and "genesis_at_zero N"
    and "fs_reachable N LA BA AS ds"
    and "leaf \<in> set (fs_leaves LA ds)"
    and "\<And>leaf'. leaf' \<in> set (fs_leaves LA ds) \<Longrightarrow>
      leaf_block_hash N leaf' = leaf_block_hash N leaf \<Longrightarrow> leaf_height N leaf \<le> leaf_height N leaf'"
  shows "fs_get_block BA (Hash (leaf_block_hash N leaf)) ds =
    (case list_get (log_contents BA (block_storage ds)) (unat (leaf_height N leaf)) of
       None \<Rightarrow> Inl NotFound
     | Some None \<Rightarrow> Inl Missing
     | Some (Some block) \<Rightarrow> Inr block)"
proof -
  have ok: "fs_ok N LA BA lp bp ds" using fs_reachable_ok [OF assms(1-4)] by blast
  show ?thesis
    using fs_get_block_by_hash [OF ok assms(5) refl assms(6)]
      fs_get_block_number [OF ok, of "leaf_height N leaf"]
    by (simp only: read_entry_cases)
qed

lemma mock_fs_leaves:
  "fs_leaves leaf_log mock_with_block =
     [mock_leaf 0 0\<lparr>lq_leaf := (0, 0, 1000, Some [])\<rparr>, mock_leaf 1 4]"
  "fs_blocks block_log mock_with_block = [mock_block 0 [], mock_block 1 [8, 9, 8]]"
  by (simp_all add: fs_leaves_def fs_blocks_def mock_contents)

theorem fs_get_block_earliest_witness:
  "fs_get_block block_log (Hash 501) mock_with_block = Inr (mock_block 1 [8, 9, 8])"
proof -
  have "leaf_block_hash mock_types (mock_leaf 1 4) = 501" "leaf_height mock_types (mock_leaf 1 4) = 1"
    by (simp_all add: mock_types_simps mock_leaf_def)
  then show ?thesis
    using fs_get_block_earliest [OF mock_logs_laws mock_genesis mock_reachable(3),
        where leaf = "mock_leaf 1 4"]
    by (simp add: mock_fs_leaves mock_contents list_get_def)
      (simp add: mock_types_simps mock_leaf_def)
qed

text \<open>
  C20. Looking a transaction up by hash returns the earliest occurrence in the ledger: a stored
  block and an index at which it holds the transaction, before every other occurrence by height
  and index; \<^verbatim>\<open>NotFound\<close> exactly when no stored block holds one.
\<close>

theorem fs_transaction_earliest:
  assumes "append_log_laws LA lp" and "append_log_laws BA bp" and "genesis_at_zero N"
    and "fs_reachable N LA BA AS ds"
  shows "case fs_get_block_with_transaction BA h ds of
      Inr (b, ix) \<Rightarrow> b \<in> set (fs_blocks BA ds) \<and>
        (\<exists>tx. (ix, tx) \<in> set (payload_transactions N (bq_payload b)) \<and> tx_commit N tx = h) \<and>
        (\<forall>b' \<in> set (fs_blocks BA ds). \<forall>ix' tx'.
          (ix', tx') \<in> set (payload_transactions N (bq_payload b')) \<longrightarrow> tx_commit N tx' = h \<longrightarrow>
          (block_height N b, ix) \<le> (block_height N b', ix'))
    | Inl e \<Rightarrow> e = NotFound \<and>
        (\<forall>b \<in> set (fs_blocks BA ds). \<forall>ix tx.
          (ix, tx) \<in> set (payload_transactions N (bq_payload b)) \<longrightarrow> tx_commit N tx \<noteq> h)"
proof -
  have ok: "fs_ok N LA BA lp bp ds" using fs_reachable_ok [OF assms] by blast
  show ?thesis
    using fs_get_block_with_transaction_found [OF ok, of h]
    by (cases "fs_get_block_with_transaction BA h ds") (auto simp: block_entries_iff)
qed

theorem fs_transaction_earliest_witness:
  "case fs_get_block_with_transaction block_log 7008 mock_with_block of
     Inr (b, ix) \<Rightarrow> b = mock_block 1 [8, 9, 8] \<and> ix = 0 | Inl e \<Rightarrow> False"
proof -
  have txs: "payload_transactions mock_types (bq_payload (mock_block 1 [8, 9, 8]))
      = [(0, 8), (1, 9), (2, 8)]" "payload_transactions mock_types (bq_payload (mock_block 0 [])) = []"
    "block_height mock_types (mock_block 1 [8, 9, 8]) = 1"
    "tx_commit mock_types tx = 7008 \<longleftrightarrow> tx = 8" for tx
    by (simp_all add: payload_transactions_def mock_types_simps mock_block_def list_get_def
        numeral_3_eq_3)
  from fs_transaction_earliest [OF mock_logs_laws mock_genesis mock_reachable(3), of 7008]
  show ?thesis
    by (auto simp: mock_fs_leaves txs simp del: One_nat_def split: sum.splits)
qed

text \<open>
  The proposals of a key are the stored leaves it proposed, in ledger order; a limit keeps the
  most recent ones; the count is the number of all of them. No listing fails.
\<close>

theorem fs_proposals_answers:
  assumes "append_log_laws LA lp" and "append_log_laws BA bp" and "genesis_at_zero N"
    and "fs_reachable N LA BA AS ds"
  shows "\<exists>leaves. leaves = filter (\<lambda>leaf. leaf_proposer N leaf = pk) (fs_leaves LA ds) \<and>
    fs_get_proposals LA pk None ds = Inr leaves \<and>
    fs_get_proposals LA pk (Some k) ds = Inr (drop (length leaves - unat k) leaves) \<and>
    fs_count_proposals pk ds = (Inr (length leaves) :: query_error + nat)"
proof -
  have ok: "fs_ok N LA BA lp bp ds" using fs_reachable_ok [OF assms] by blast
  show ?thesis
    using fs_get_proposals_eq [OF ok, of pk None] fs_get_proposals_eq [OF ok, of pk "Some k"]
      fs_count_proposals_eq [OF ok, of pk]
    by (simp add: proposals_by_def)
qed

theorem fs_proposals_answers_witness:
  "fs_get_proposals leaf_log 4 (Some 1) mock_with_block = Inr [mock_leaf 1 4]"
proof -
  have "filter (\<lambda>leaf. leaf_proposer mock_types leaf = 4) (fs_leaves leaf_log mock_with_block)
      = [mock_leaf 1 4]"
    by (simp add: mock_fs_leaves) (simp add: mock_types_simps mock_leaf_def)
  then show ?thesis
    using fs_proposals_answers [OF mock_logs_laws mock_genesis mock_reachable(3), of 4 1] by simp
qed

text \<open>
  A range of leaves yields exactly the entries of the log between its bounds, placeholders as
  \<^verbatim>\<open>Missing\<close>, and ends at the end of the range or of the log. The one excluded start is past the
  largest \<^verbatim>\<open>usize\<close>.
\<close>

theorem fs_leaf_range_contents:
  assumes "append_log_laws LA lp" and "append_log_laws BA bp" and "genesis_at_zero N"
    and "fs_reachable N LA BA AS ds" and "log_fits LA (leaf_storage ds)"
    and "start \<noteq> Excluded (- 1)"
  shows "fs_get_leaf_range LA start end_bound ds =
    (let entries = log_contents LA (leaf_storage ds)
     in Some (map (\<lambda>x. context_opt x Missing)
          (take (range_until (length entries) end_bound - range_from start)
            (drop (range_from start) entries))))"
proof -
  have "log_visible LA (leaf_storage ds)"
    using fs_reachable_ok [OF assms(1-4)] by (auto simp: fs_ok_def log_ok_def)
  then show ?thesis
    unfolding fs_get_leaf_range_def Let_def by (rule range_stream_contents [OF _ assms(5,6)])
qed

theorem fs_leaf_range_contents_witness:
  "fs_get_leaf_range leaf_log (Excluded 0) (Included 7) mock_with_block = Some [Inr (mock_leaf 1 4)]"
  using fs_leaf_range_contents [OF mock_logs_laws mock_genesis mock_reachable(3), of "Excluded 0" "Included 7"]
  by (simp add: mock_contents log_fits_def)
    (simp add: mock_with_block_def mock_with_leaf_def mock_created_def)

section \<open>Inserting\<close>

text \<open>
  A leaf inserted in order is afterwards found by its height and by its hash, is the last of
  its proposer's proposals, and every leaf stored before is still found by its height.
\<close>

theorem fs_insert_leaf_found:
  assumes "append_log_laws LA lp" and "append_log_laws BA bp" and "genesis_at_zero N"
    and "fs_reachable N LA BA AS ds"
    and "log_len LA (leaf_storage ds) \<le> unat (leaf_height N leaf)"
    and "log_room (leaf_storage ds) (log_len LA (leaf_storage ds)) (unat (leaf_height N leaf))"
    and "fs_insert_leaf N LA leaf ds = (Inr u, ds')"
  shows "fs_get_leaf LA (Number (leaf_height N leaf)) ds' = Inr leaf \<and>
    fs_get_leaf LA (Hash (leaf_hash N leaf)) ds' = Inr leaf \<and>
    fs_block_height LA ds' = (Inr (unat (leaf_height N leaf) + 1) :: query_error + nat) \<and>
    fs_get_proposals LA (leaf_proposer N leaf) (Some 1) ds' = Inr [leaf] \<and>
    (\<forall>l \<in> set (fs_leaves LA ds). fs_get_leaf LA (Number (leaf_height N l)) ds' = Inr l)"
proof -
  have ok: "fs_ok N LA BA lp bp ds" using fs_reachable_ok [OF assms(1-4)] by blast
  have app: "length (log_contents LA (leaf_storage ds)) \<le> unat (leaf_height N leaf)"
    using assms(5) fs_ok_lens(1) [OF ok] by simp
  note I = fs_insert_leaf_ok [OF ok app assms(6,7)]
  have stored: "fs_get_leaf LA (Number (leaf_height N l)) ds' = Inr l"
    if "l \<in> set (fs_leaves LA ds')" for l
    by (rule fs_get_leaf_stored [OF I(1) that])
  have here: "fs_get_leaf LA (Number (leaf_height N leaf)) ds' = Inr leaf" using stored I(2) by simp
  have "index_by_leaf_hash ds' (leaf_hash N leaf) = Some (leaf_height N leaf)"
    using assms(7) by (rule fs_insert_leafE) simp
  then have "fs_get_leaf LA (Hash (leaf_hash N leaf)) ds' = Inr leaf"
    using here by (simp add: fs_get_leaf_def)
  moreover have "log_len LA (leaf_storage ds') = unat (leaf_height N leaf) + 1"
    unfolding fs_ok_lens(1) [OF I(1)] I(4) using app by simp
  moreover have "fs_get_proposals LA (leaf_proposer N leaf) (Some 1) ds' = Inr [leaf]"
    unfolding fs_get_proposals_eq [OF I(1)] by (simp add: proposals_by_def I(2))
  ultimately show ?thesis using here stored I(2) by (simp add: fs_block_height_def)
qed

theorem fs_insert_leaf_found_witness:
  "fs_get_leaf leaf_log (Hash (leaf_hash mock_types (mock_leaf 1 4))) mock_with_leaf
     = Inr (mock_leaf 1 4)"
  using fs_insert_leaf_found [OF mock_logs_laws mock_genesis mock_reachable(1) _ _
      mock_with_leaf_run]
  by (simp add: mock_types_simps log_len_eq log_room_def)
    (simp add: mock_leaf_def mock_created_def)

section \<open>Committing and reopening\<close>

text \<open>
  C22. After a successful commit, opening the storage again gives a data source with the same
  leaves, the same blocks and the same four indices.
\<close>

theorem fs_reopen_same:
  assumes "append_log_laws LA lp" and "append_log_laws BA bp" and "genesis_at_zero N"
    and "fs_reachable N LA BA AS ds"
    and "log_fits LA (leaf_storage ds)" and "log_fits BA (block_storage ds)"
    and "fs_commit LA BA AS ds = (Inr u, ds')"
    and "al_load LA ld ''leaves'' log_file_size = (Inr ls, ld1)"
    and "al_load BA ld1 ''blocks'' log_file_size = (Inr bs, ld2)"
    and "al_iter LA ls = al_iter LA (store (leaf_storage ds'))"
    and "al_iter BA bs = al_iter BA (store (block_storage ds'))"
  shows "\<exists>ds2. fs_open_with_store N LA BA AS metrics0 ld = (Inr ds2, ld2) \<and>
    log_contents LA (leaf_storage ds2) = log_contents LA (leaf_storage ds) \<and>
    log_contents BA (block_storage ds2) = log_contents BA (block_storage ds) \<and>
    index_by_leaf_hash ds2 = index_by_leaf_hash ds \<and>
    index_by_block_hash ds2 = index_by_block_hash ds \<and>
    index_by_txn_hash ds2 = index_by_txn_hash ds \<and>
    index_by_proposer_id ds2 = index_by_proposer_id ds"
proof -
  from fs_reachable_ok [OF assms(1-4)] have ok: "fs_ok N LA BA lp bp ds"
    and "0 < log_len LA (leaf_storage ds)" by auto
  then have "log_contents LA (leaf_storage ds) \<noteq> []" using fs_ok_lens(1) [OF ok] by auto
  from fs_commit_reopen [OF assms(1,2) ok assms(5,6) this assms(7-11)]
  show ?thesis by metis
qed

definition mock_stored :: mock_loader where
  "mock_stored =
     ([Some (mock_leaf 0 0\<lparr>lq_leaf := (0, 0, 1000, Some [])\<rparr>), Some (mock_leaf 1 4)],
      [Some (mock_block 0 []), Some (mock_block 1 [8, 9, 8])])"

lemma mock_committed_stored:
  "store (leaf_storage mock_committed) = (fst mock_stored, [])"
  "store (block_storage mock_committed) = (snd mock_stored, [])"
  by (simp_all add: mock_stored_def mock_committed_def mock_with_block_def mock_with_leaf_def
      mock_created_def)

lemma mock_fits:
  "log_fits leaf_log (leaf_storage mock_with_block)"
  "log_fits block_log (block_storage mock_with_block)"
  by (simp_all add: log_fits_def mock_with_block_def mock_with_leaf_def mock_created_def)

theorem fs_reopen_same_witness:
  "\<exists>ds2. fs_open_with_store mock_types leaf_log block_log mock_store () mock_stored
      = (Inr ds2, mock_stored) \<and>
    index_by_txn_hash ds2 = index_by_txn_hash mock_with_block"
proof -
  have load: "al_load leaf_log mock_stored ''leaves'' log_file_size
      = (Inr (fst mock_stored, []), mock_stored)"
    "al_load block_log mock_stored ''blocks'' log_file_size
      = (Inr (snd mock_stored, []), mock_stored)"
    by simp_all
  have same: "al_iter leaf_log (fst mock_stored, []) = al_iter leaf_log (store (leaf_storage mock_committed))"
    "al_iter block_log (snd mock_stored, []) = al_iter block_log (store (block_storage mock_committed))"
    by (simp_all add: mock_committed_stored)
  from fs_reopen_same [OF mock_logs_laws mock_genesis mock_reachable(3) mock_fits mock_commit_run
      load same, of "()"]
  show ?thesis by blast
qed

text \<open>
  C39. A commit is not atomic across the two logs: when the block log fails to commit, the error is
  returned but the leaf log is already durable, so a reopened data source has the leaves without
  their blocks.
\<close>

theorem fs_commit_partial:
  assumes "append_log_laws LA lp" and "append_log_laws BA bp" and "genesis_at_zero N"
    and "fs_reachable N LA BA AS ds"
    and "log_fits LA (leaf_storage ds)" and "log_fits BA (block_storage ds)"
    and "commit_version LA (leaf_storage ds) = (Inr u, leaves)"
    and "commit_version BA (block_storage ds) = (Inl e, blocks)"
  shows "\<exists>ds'. fs_commit LA BA AS ds = (Inl e, ds') \<and>
    map loaded (al_iter LA (store (leaf_storage ds'))) = log_contents LA (leaf_storage ds) \<and>
    map loaded (al_iter BA (store (block_storage ds')))
      = map loaded (al_iter BA (store (block_storage ds)))"
proof -
  have "fs_ok N LA BA lp bp ds" using fs_reachable_ok [OF assms(1-4)] by blast
  then have lok: "log_ok LA lp (leaf_storage ds)" and bok: "log_ok BA bp (block_storage ds)"
    by (simp_all add: fs_ok_def)
  show ?thesis
    using ledger.commit_items [OF lok assms(5,7)] ledger.commit_failed [OF bok assms(6,8)] assms(7,8)
    by (simp add: fs_commit_def)
qed

text \<open>A reopened data source whose block log cannot commit.\<close>

definition opened_log :: "'a option list \<Rightarrow> ('a option mock_log, 'a) ledger_log" where
  "opened_log xs = \<lparr>cache_start = length xs - 100, cache_size = 100, cache = drop (length xs - 100) xs,
     store = (xs, []), pending_inserts = 0, stream = [], stream_pos = length (available_prefix xs)\<rparr>"

lemma opened_log_run:
  "log_open (mock_leaves b) ld f cached_leaves_count = (Inr (opened_log (fst ld)), ld)"
  "log_open (mock_blocks b) ld f cached_blocks_count = (Inr (opened_log (snd ld)), ld)"
  using log_open_eq [of "mock_leaves b" ld f "(fst ld, [])" ld cached_leaves_count]
    log_open_eq [of "mock_blocks b" ld f "(snd ld, [])" ld cached_blocks_count]
  by (simp_all add: opened_log_def cached_leaves_count_def cached_blocks_count_def drop_map o_def)

lemma opened_log_visible:
  "log_visible (mock_leaves b) (opened_log lxs)" "log_visible (mock_blocks b) (opened_log bxs)"
  by (simp_all add: log_visible_def opened_log_def)

lemma opened_log_contents:
  "log_contents (mock_leaves b) (opened_log lxs) = lxs"
  "log_contents (mock_blocks b) (opened_log bxs) = bxs"
  by (simp_all add: log_contents_def opened_log_def take_map o_def)

definition mock_half_open :: mock_fs where
  "mock_half_open = fs_reopened mock_types (opened_log (fst mock_stored))
     (opened_log (snd mock_stored)) (present (fst mock_stored)) (present (snd mock_stored)) ()"

lemma mock_half_open_storage:
  "leaf_storage mock_half_open = opened_log (fst mock_stored)"
  "block_storage mock_half_open = opened_log (snd mock_stored)"
  by (simp_all add: mock_half_open_def fs_reopened_def split: prod.splits)

lemma mock_half_open_run:
  "fs_open_with_store mock_types leaf_log (mock_blocks True) mock_store () mock_stored
     = (Inr mock_half_open, mock_stored)"
proof -
  have fits: "log_fits leaf_log (opened_log (fst mock_stored))"
    "log_fits (mock_blocks True) (opened_log (snd mock_stored))"
    by (simp_all add: log_fits_def opened_log_def mock_stored_def)
  have "log_objects leaf_log (opened_log (fst mock_stored)) = Some (present (fst mock_stored))"
    "log_objects (mock_blocks True) (opened_log (snd mock_stored)) = Some (present (snd mock_stored))"
    using log_objects_contents [OF opened_log_visible(1) fits(1)]
      log_objects_contents [OF opened_log_visible(2) fits(2)]
    by (simp_all add: opened_log_contents)
  then have "fs_open_with_store mock_types leaf_log (mock_blocks True) mock_store () mock_stored
      = built (fs_insert_genesis mock_types leaf_log (mock_blocks True) mock_store mock_half_open)
          mock_stored"
    unfolding mock_half_open_def
    by (rule fs_open_with_store_eq [OF opened_log_run(1) opened_log_run(2)]) simp
  moreover have "fs_insert_genesis mock_types leaf_log (mock_blocks True) mock_store mock_half_open
      = (Inr (), mock_half_open)"
    by (rule fs_insert_genesis_present)
      (simp add: mock_half_open_storage log_len_eq opened_log_def mock_stored_def)
  ultimately show ?thesis by simp
qed

lemma mock_half_open_reachable:
  "fs_reachable mock_types leaf_log (mock_blocks True) mock_store mock_half_open"
proof (rule fs_reachable.opened [where ld = mock_stored and ls = "(fst mock_stored, [])"
      and bs = "(snd mock_stored, [])"])
  show "fs_open_with_store mock_types leaf_log (mock_blocks True) mock_store () mock_stored
      = (Inr mock_half_open, mock_stored)" by (rule mock_half_open_run)
  show "al_load leaf_log mock_stored ''leaves'' log_file_size
      = (Inr (fst mock_stored, []), mock_stored)" by simp
  show "al_load (mock_blocks True) mock_stored ''blocks'' log_file_size
      = (Inr (snd mock_stored, []), mock_stored)" by simp
  show "positioned (leaf_height mock_types) (map loaded (al_iter leaf_log (fst mock_stored, [])))"
    by (auto simp: positioned_def mock_stored_def list_get_def less_Suc_eq)
      (simp_all add: mock_types_simps mock_leaf_def)
  show "positioned (block_height mock_types) (map loaded (al_iter (mock_blocks True) (snd mock_stored, [])))"
    by (auto simp: positioned_def mock_stored_def list_get_def less_Suc_eq)
      (simp_all add: mock_types_simps mock_block_def)
qed (simp_all add: mock_stored_def)

theorem fs_commit_partial_witness:
  "\<exists>ds'. fs_commit leaf_log (mock_blocks True) mock_store mock_half_open
      = (Inl (Failure ''io''), ds')"
proof -
  have leaves: "commit_version leaf_log (leaf_storage mock_half_open)
      = (Inr (), leaf_storage mock_half_open)"
    by (simp add: commit_version_def mock_half_open_storage opened_log_def mock_stored_def
        broadcast_loop_stop iter_nth_def log_iter_def)
  have blocks: "commit_version (mock_blocks True) (block_storage mock_half_open)
      = (Inl (Failure ''io''), block_storage mock_half_open)"
    by (simp add: commit_version_def mock_half_open_storage opened_log_def)
  have fits: "log_fits leaf_log (leaf_storage mock_half_open)"
    "log_fits (mock_blocks True) (block_storage mock_half_open)"
    by (simp_all add: log_fits_def mock_half_open_storage opened_log_def mock_stored_def)
  from fs_commit_partial [OF mock_logs_laws(1) mock_logs_laws(2) mock_genesis
      mock_half_open_reachable fits leaves blocks]
  show ?thesis by blast
qed

section \<open>Reverting\<close>

text \<open>
  C38. Reverting restores the leaves but not the indices: a leaf that was inserted and reverted is
  still counted among its proposer's proposals, and listing them fails, although every leaf that
  remains can be read.
\<close>

theorem fs_revert_keeps_stale_index:
  assumes "append_log_laws LA lp" and "append_log_laws BA bp" and "genesis_at_zero N"
    and "fs_reachable N LA BA AS ds"
    and "map loaded (al_iter LA (store (leaf_storage ds))) = log_contents LA (leaf_storage ds)"
    and "log_len LA (leaf_storage ds) \<le> unat (leaf_height N leaf)"
    and "log_room (leaf_storage ds) (log_len LA (leaf_storage ds)) (unat (leaf_height N leaf))"
    and "fs_insert_leaf N LA leaf ds = (Inr u, ds1)" and "fs_revert LA BA ds1 = (Inr v, ds2)"
  shows "log_contents LA (leaf_storage ds2) = log_contents LA (leaf_storage ds) \<and>
    fs_count_proposals (leaf_proposer N leaf) ds2 =
      (Inr (length (filter (\<lambda>l. leaf_proposer N l = leaf_proposer N leaf) (fs_leaves LA ds)) + 1)
       :: query_error + nat) \<and>
    fs_get_proposals LA (leaf_proposer N leaf) None ds2 = Inl NotFound"
proof -
  have ok: "fs_ok N LA BA lp bp ds" using fs_reachable_ok [OF assms(1-4)] by blast
  have app: "length (log_contents LA (leaf_storage ds)) \<le> unat (leaf_height N leaf)"
    using assms(6) fs_ok_lens(1) [OF ok] by simp
  from fs_revert_stale [OF ok assms(5) app assms(7-9)] show ?thesis
    by (simp add: proposals_by_def)
qed

theorem fs_revert_keeps_stale_index_witness:
  "fs_get_proposals leaf_log (leaf_proposer mock_types (mock_leaf 1 4)) None mock_reverted
     = Inl NotFound"
proof -
  have "map loaded (al_iter leaf_log (store (leaf_storage mock_created)))
      = log_contents leaf_log (leaf_storage mock_created)"
    "log_len leaf_log (leaf_storage mock_created) \<le> unat (leaf_height mock_types (mock_leaf 1 4))"
    "log_room (leaf_storage mock_created) (log_len leaf_log (leaf_storage mock_created))
      (unat (leaf_height mock_types (mock_leaf 1 4)))"
    by (simp_all add: mock_created_def log_contents_def log_len_eq log_room_def)
      (simp_all add: mock_types_simps mock_leaf_def)
  from fs_revert_keeps_stale_index [OF mock_logs_laws mock_genesis mock_reachable(1) this
      mock_with_leaf_run mock_revert_run]
  show ?thesis by blast
qed

end
