(* ===== verification/ReconnectProps.thy ===== *)
theory ReconnectProps
  imports SuiteProps FsProps
begin

text \<open>
  The suite's check that what a data source shows is in its storage (\<^verbatim>\<open>test_update\<close> in
  \<^verbatim>\<open>src/data_source.rs\<close>), for the file system data source.
\<close>

section \<open>Connecting to the storage again\<close>

lemma collected_entries:
  "collected id (Inr (Some (map (\<lambda>x. context_opt x Missing) xs))) =
     (if None \<in> set xs then Inl (UnwrapFailed Missing) else Inr (map the xs))"
proof -
  have "try_collect (map (\<lambda>x. context_opt x Missing) xs)
      = (if None \<in> set xs then Inl Missing else Inr (map the xs))"
  proof (induction xs)
    case (Cons x xs)
    then show ?case by (cases x) auto
  qed simp
  then show ?thesis by (simp add: collected_def)
qed

lemma fs_ranges_all:
  assumes "fs_ok N LA BA lp bp ds" and "log_fits LA (leaf_storage ds)" and "log_fits BA (block_storage ds)"
  shows "av_get_leaf_range (fs_avail_ops LA BA) ds Unbounded Unbounded
      = Inr (Some (map (\<lambda>x. context_opt x Missing) (log_contents LA (leaf_storage ds))))"
    and "av_get_block_range (fs_avail_ops LA BA) ds Unbounded Unbounded
      = Inr (Some (map (\<lambda>x. context_opt x Missing) (log_contents BA (block_storage ds))))"
proof -
  have "log_visible LA (leaf_storage ds)" "log_visible BA (block_storage ds)"
    using assms(1) by (simp_all add: fs_ok_def log_ok_def)
  then show "av_get_leaf_range (fs_avail_ops LA BA) ds Unbounded Unbounded
      = Inr (Some (map (\<lambda>x. context_opt x Missing) (log_contents LA (leaf_storage ds))))"
    "av_get_block_range (fs_avail_ops LA BA) ds Unbounded Unbounded
      = Inr (Some (map (\<lambda>x. context_opt x Missing) (log_contents BA (block_storage ds))))"
    using range_stream_contents [OF _ assms(2), of Unbounded Unbounded]
      range_stream_contents [OF _ assms(3), of Unbounded Unbounded]
    by (simp_all add: fs_avail_ops_def fs_get_leaf_range_def fs_get_block_range_def)
qed

text \<open>
  After a commit, a data source newly opened on the storage lists the same leaves and blocks, so
  the suite's durability check passes exactly when no entry is missing; a missing block, of a leaf
  that was decided without a payload, makes it panic though nothing is lost.
\<close>

theorem fs_reconnect_check:
  assumes "append_log_laws LA lp" and "append_log_laws BA bp" and "genesis_at_zero N"
    and "fs_reachable N LA BA AS ds"
    and "log_fits LA (leaf_storage ds)" and "log_fits BA (block_storage ds)"
    and "fs_commit LA BA AS ds = (Inr u, ds')"
    and "as_load AS path ''hotshot_data_source'' = Inr ld"
    and "al_load LA ld ''leaves'' log_file_size = (Inr ls, ld1)"
    and "al_load BA ld1 ''blocks'' log_file_size = (Inr bs, ld2)"
    and "al_iter LA ls = al_iter LA (store (leaf_storage ds'))"
    and "al_iter BA bs = al_iter BA (store (block_storage ds'))"
    and "as_open AS ld2 = Inr st"
  shows "reconnect_check id id (fs_avail_ops LA BA) ds' (fs_open N LA BA AS metrics0 path) =
    (if None \<in> set (log_contents BA (block_storage ds)) \<or> None \<in> set (log_contents LA (leaf_storage ds))
     then Inl (UnwrapFailed Missing) else Inr ())"
proof -
  have ok: "fs_ok N LA BA lp bp ds" and pos: "0 < log_len LA (leaf_storage ds)"
    using fs_reachable_ok [OF assms(1-4)] by simp_all
  have some: "log_contents LA (leaf_storage ds) \<noteq> []" using pos fs_ok_lens(1) [OF ok] by auto
  note C = fs_commit_ok [OF ok assms(5-7)]
  obtain ds2 where open2: "fs_open_with_store N LA BA AS metrics0 ld = (Inr ds2, ld2)" "fs_ok N LA BA lp bp ds2"
      "log_contents LA (leaf_storage ds2) = log_contents LA (leaf_storage ds)"
      "log_contents BA (block_storage ds2) = log_contents BA (block_storage ds)"
    by (rule fs_commit_reopen [OF assms(1,2) ok assms(5,6) some assms(7,9-12)])
  let ?ds2 = "ds2\<lparr>top_storage := Some st\<rparr>"
  have opened: "fs_open N LA BA AS metrics0 path = Inr ?ds2" using open2(1) assms(8,13) by (simp add: fs_open_def)
  have ok2: "fs_ok N LA BA lp bp ?ds2"
    using open2(2) by (simp add: fs_ok_def fs_indexed_def fs_leaves_def fs_blocks_def)
  have fits: "log_fits LA (leaf_storage ds')" "log_fits BA (block_storage ds')"
    "log_fits LA (leaf_storage ?ds2)" "log_fits BA (block_storage ?ds2)"
    using assms(5,6) fs_ok_lens [OF ok] fs_ok_lens [OF C(1)] fs_ok_lens [OF ok2] C(2,3) open2(3,4)
    by (simp_all add: log_fits_len)
  show ?thesis
    using fs_ranges_all [OF C(1) fits(1,2)] fs_ranges_all [OF ok2 fits(3,4)] C(2,3) open2(3,4)
    by (simp add: reconnect_check_def opened collected_entries)
qed

theorem fs_reconnect_check_witness:
  "reconnect_check id id (fs_avail_ops leaf_log block_log) mock_committed
     (fs_open mock_types leaf_log block_log mock_store () mock_stored) = Inr ()"
proof -
  have load: "as_load mock_store mock_stored ''hotshot_data_source'' = Inr mock_stored"
    "al_load leaf_log mock_stored ''leaves'' log_file_size = (Inr (fst mock_stored, []), mock_stored)"
    "al_load block_log mock_stored ''blocks'' log_file_size = (Inr (snd mock_stored, []), mock_stored)"
    "as_open mock_store mock_stored = Inr 0"
    by (simp_all add: mock_store_def)
  have same: "al_iter leaf_log (fst mock_stored, []) = al_iter leaf_log (store (leaf_storage mock_committed))"
    "al_iter block_log (snd mock_stored, []) = al_iter block_log (store (block_storage mock_committed))"
    by (simp_all add: mock_committed_stored)
  from fs_reconnect_check [OF mock_logs_laws mock_genesis mock_reachable(3) mock_fits mock_commit_run
      load(1-3) same load(4), of "()"] mock_contents
  show ?thesis by simp
qed

end
