(* ===== verification/BufferedChannel.thy ===== *)
theory BufferedChannel
  imports Prelude
begin

text \<open>
  \<^verbatim>\<open>src/data_source/buffered_channel.rs\<close>: a broadcast channel that holds messages back until they
  are flushed. The broadcast sender is the list of messages sent so far; a failed send is ignored
  by the code, so it is recorded all the same.
\<close>

record 'a buffered_channel =
  pending :: "'a list"
  inner :: "'a list"

definition channel_init :: "'a buffered_channel" where
  "channel_init = \<lparr>pending = [], inner = []\<rparr>"

definition channel_push :: "'a \<Rightarrow> 'a buffered_channel \<Rightarrow> 'a buffered_channel" where
  "channel_push msg ch = ch\<lparr>pending := pending ch @ [msg]\<rparr>"

text \<open>\<^verbatim>\<open>std::mem::take\<close> empties the buffer before the first message is sent.\<close>

definition channel_flush :: "'a buffered_channel \<Rightarrow> 'a buffered_channel" where
  "channel_flush ch =
     fold (\<lambda>msg ch. ch\<lparr>inner := inner ch @ [msg]\<rparr>) (pending ch) (ch\<lparr>pending := []\<rparr>)"

definition channel_clear :: "'a buffered_channel \<Rightarrow> 'a buffered_channel" where
  "channel_clear ch = ch\<lparr>pending := []\<rparr>"

text \<open>
  \<^verbatim>\<open>subscribe\<close> takes a handle at the current end of the sent messages; the stream it returns
  yields what is sent after that.
\<close>

definition channel_subscribe :: "'a buffered_channel \<Rightarrow> nat" where
  "channel_subscribe ch = length (inner ch)"

definition channel_received :: "nat \<Rightarrow> 'a buffered_channel \<Rightarrow> 'a list" where
  "channel_received handle ch = drop handle (inner ch)"

lemma channel_flush_eq: "channel_flush ch = ch\<lparr>inner := inner ch @ pending ch, pending := []\<rparr>"
proof -
  have "fold (\<lambda>msg ch. ch\<lparr>inner := inner ch @ [msg]\<rparr>) msgs ch = ch\<lparr>inner := inner ch @ msgs\<rparr>"
    for msgs :: "'a list" and ch
    by (induction msgs arbitrary: ch) simp_all
  from this [of "pending ch" "ch\<lparr>pending := []\<rparr>"] show ?thesis
    unfolding channel_flush_def by simp
qed

section \<open>The contract\<close>

text \<open>
  A message buffer: pushed messages are queued, a flush delivers the queue in order, clearing
  drops it. Nothing else changes what has been delivered.
\<close>

locale message_buffer =
  fixes push :: "'a \<Rightarrow> 'c \<Rightarrow> 'c"
    and flush clear :: "'c \<Rightarrow> 'c"
    and queued delivered :: "'c \<Rightarrow> 'a list"
  assumes push_queued: "queued (push x c) = queued c @ [x]"
    and push_delivered: "delivered (push x c) = delivered c"
    and flush_queued: "queued (flush c) = []"
    and flush_delivered: "delivered (flush c) = delivered c @ queued c"
    and clear_queued: "queued (clear c) = []"
    and clear_delivered: "delivered (clear c) = delivered c"
begin

lemma push_all: "queued (fold push xs c) = queued c @ xs \<and> delivered (fold push xs c) = delivered c"
  by (induction xs arbitrary: c) (simp_all add: push_queued push_delivered)

lemma push_flush: "delivered (flush (fold push xs c)) = delivered c @ queued c @ xs"
  using push_all [of xs c] by (simp add: flush_delivered)

lemma push_clear_flush: "delivered (flush (fold push ys (clear (fold push xs c)))) = delivered c @ ys"
  using push_all [of ys "clear (fold push xs c)"] push_all [of xs c]
  by (simp add: flush_delivered clear_queued clear_delivered)

lemma flush_twice: "delivered (flush (flush c)) = delivered (flush c)"
  by (simp add: flush_delivered flush_queued)

end

interpretation channel: message_buffer channel_push channel_flush channel_clear pending inner
  by unfold_locales (simp_all add: channel_push_def channel_flush_eq channel_clear_def)

text \<open>
  Of the messages pushed to a buffered channel, a subscriber receives those pushed between a
  clear and a flush, in order and once; those pushed before the clear are never delivered.
\<close>

theorem channel_delivers:
  "channel_received (channel_subscribe ch)
     (channel_flush (channel_flush (fold channel_push ys (channel_clear (fold channel_push xs ch)))))
   = ys"
proof -
  have "inner (channel_flush (channel_flush (fold channel_push ys
      (channel_clear (fold channel_push xs ch))))) = inner ch @ ys"
    by (simp only: channel.flush_twice channel.push_clear_flush)
  then show ?thesis by (simp add: channel_received_def channel_subscribe_def)
qed

end
