(* ===== verification/Migrations.thy ===== *)
theory Migrations
  imports Prelude "HOL-Library.Multiset"
begin

text \<open>
  The migration list and the client configuration of \<^verbatim>\<open>src/data_source/sql.rs\<close>:
  \<^verbatim>\<open>default_migrations\<close>, \<^verbatim>\<open>validate_migrations\<close>, \<^verbatim>\<open>add_custom_migrations\<close> and the \<^verbatim>\<open>Config\<close>
  builder. A \<^verbatim>\<open>Migration\<close> is a type of the refinery crate: \<open>'m\<close>, with its version, order and
  display as parameters.
\<close>

section \<open>Validation\<close>

record 'm migration_ops =
  version :: "'m \<Rightarrow> nat"
  migration_le :: "'m \<Rightarrow> 'm \<Rightarrow> bool"
  migration_display :: "'m \<Rightarrow> string"

text \<open>\<^verbatim>\<open>sort_by_key\<close> sorts in place and is stable; the slice stays sorted when the check fails.\<close>

definition validate_migrations ::
    "'m migration_ops \<Rightarrow> 'm list \<Rightarrow> (string + unit) \<times> 'm list" where
  "validate_migrations M migrations =
     (let sorted_migrations = sort_key (version M) migrations
      in case List.find (\<lambda>(prev, next). migration_le M next prev)
             (zip sorted_migrations (drop 1 sorted_migrations)) of
           Some (prev, next) \<Rightarrow>
             (Inl (''migration versions are not strictly increasing ('' @ migration_display M prev
                   @ ''->'' @ migration_display M next @ '')''), sorted_migrations)
         | None \<Rightarrow> (Inr (), sorted_migrations))"

text \<open>
  \<^verbatim>\<open>include_migrations!\<close>: a migration from every file of an embedded directory, or the panic of the
  first file that is not one. \<open>unapplied\<close> is refinery's \<^verbatim>\<open>Migration::unapplied\<close>.
\<close>

record embedded_file =
  file_path :: string
  file_utf8_name :: "string option"
  file_utf8_contents :: "string option"

definition include_migrations ::
    "(string \<Rightarrow> string \<Rightarrow> string + 'm) \<Rightarrow> embedded_file list \<Rightarrow> string failure + 'm list" where
  "include_migrations unapplied files =
     try_collect (map (\<lambda>file.
       case file_utf8_name file of
         None \<Rightarrow> Inl (Panic (''migration file '' @ file_path file @ '' must have a non-empty UTF-8 name''))
       | Some name \<Rightarrow>
           (case file_utf8_contents file of
              None \<Rightarrow> Inl (Panic (''migration file '' @ name @ '' must use UTF-8 encoding''))
            | Some sql \<Rightarrow>
                (case unapplied name sql of
                   Inl e \<Rightarrow> Inl (Panic (''invalid migration: '' @ e))
                 | Inr m \<Rightarrow> Inr m))) files)"

text \<open>
  The embedded migrations are the list \<open>embedded\<close>. Both checks panic; the loop reports the first
  version that is not a positive multiple of 10.
\<close>

definition default_migrations ::
    "'m migration_ops \<Rightarrow> 'm list \<Rightarrow> string failure + 'm list" where
  "default_migrations M embedded =
     (case validate_migrations M embedded of
        (Inl e, _) \<Rightarrow> Inl (Panic (''default migrations are invalid: '' @ e))
      | (Inr _, migrations) \<Rightarrow>
          (case List.find (\<lambda>m. version M m = 0 \<or> version M m mod 10 \<noteq> 0) migrations of
             Some m \<Rightarrow> Inl (Panic (''default migration version '' @ decimal (version M m)
                                   @ '' is not a positive multiple of 10''))
           | None \<Rightarrow> Inr migrations))"

section \<open>Merging\<close>

text \<open>
  \<^verbatim>\<open>merge_join_by\<close> of the itertools crate is a parameter. Its documented behaviour compares the
  heads of both sequences with the given ordering and yields the smaller, or both when equal.
\<close>

datatype ('a, 'b) either_or_both = LeftOnly 'a | RightOnly 'b | Both 'a 'b

datatype ordering = Less | Equal | Greater

definition cmp_nat :: "nat \<Rightarrow> nat \<Rightarrow> ordering" where
  "cmp_nat m n = (if m < n then Less else if m = n then Equal else Greater)"

definition merge_join_laws ::
    "(('a \<Rightarrow> 'b \<Rightarrow> ordering) \<Rightarrow> 'a list \<Rightarrow> 'b list \<Rightarrow> ('a, 'b) either_or_both list) \<Rightarrow> bool" where
  "merge_join_laws mj \<longleftrightarrow>
     (\<forall>cmp ls. mj cmp ls [] = map LeftOnly ls) \<and>
     (\<forall>cmp rs. mj cmp [] rs = map RightOnly rs) \<and>
     (\<forall>cmp l ls r rs. mj cmp (l # ls) (r # rs) =
        (case cmp l r of
           Less \<Rightarrow> LeftOnly l # mj cmp ls (r # rs)
         | Equal \<Rightarrow> Both l r # mj cmp ls rs
         | Greater \<Rightarrow> RightOnly r # mj cmp (l # ls) rs))"

fun reduce :: "('a \<Rightarrow> 'a \<Rightarrow> 'a) \<Rightarrow> ('a, 'a) either_or_both \<Rightarrow> 'a" where
  "reduce f (LeftOnly l) = l"
| "reduce f (RightOnly r) = r"
| "reduce f (Both l r) = f l r"

definition add_custom_migrations ::
    "(('m \<Rightarrow> 'm \<Rightarrow> ordering) \<Rightarrow> 'm list \<Rightarrow> 'm list \<Rightarrow> ('m, 'm) either_or_both list)
      \<Rightarrow> 'm migration_ops \<Rightarrow> 'm list \<Rightarrow> 'm list \<Rightarrow> 'm list" where
  "add_custom_migrations mj M defaults custom =
     map (reduce (\<lambda>_ custom. custom))
       (mj (\<lambda>l r. cmp_nat (version M l) (version M r)) defaults custom)"

section \<open>Client configuration\<close>

record 'm config =
  cfg_host :: string
  cfg_port :: "16 word"
  cfg_user :: "string option"
  cfg_password :: "string option"
  cfg_database :: "string option"
  cfg_migrations :: "'m list"
  cfg_no_migrations :: bool

definition config_default :: "'m config" where
  "config_default = \<lparr>cfg_host = ''localhost'', cfg_port = 5432, cfg_user = None,
     cfg_password = None, cfg_database = None, cfg_migrations = [], cfg_no_migrations = False\<rparr>"

definition config_host :: "string \<Rightarrow> 'm config \<Rightarrow> 'm config" where
  "config_host host cfg = cfg\<lparr>cfg_host := host\<rparr>"

definition config_port :: "16 word \<Rightarrow> 'm config \<Rightarrow> 'm config" where
  "config_port port cfg = cfg\<lparr>cfg_port := port\<rparr>"

definition config_user :: "string \<Rightarrow> 'm config \<Rightarrow> 'm config" where
  "config_user user cfg = cfg\<lparr>cfg_user := Some user\<rparr>"

definition config_password :: "string \<Rightarrow> 'm config \<Rightarrow> 'm config" where
  "config_password password cfg = cfg\<lparr>cfg_password := Some password\<rparr>"

definition config_database :: "string \<Rightarrow> 'm config \<Rightarrow> 'm config" where
  "config_database database cfg = cfg\<lparr>cfg_database := Some database\<rparr>"

definition config_migrations :: "'m list \<Rightarrow> 'm config \<Rightarrow> 'm config" where
  "config_migrations migrations cfg = cfg\<lparr>cfg_migrations := cfg_migrations cfg @ migrations\<rparr>"

definition config_no_migrations :: "'m config \<Rightarrow> 'm config" where
  "config_no_migrations cfg = cfg\<lparr>cfg_no_migrations := True\<rparr>"

section \<open>Strictly increasing versions\<close>

abbreviation versions where "versions M ms \<equiv> map (version M) ms"

lemma adjacent_find_None:
  assumes "\<And>a b. migration_le M a b \<longleftrightarrow> version M a \<le> version M b"
  shows "List.find (\<lambda>(prev, next). migration_le M next prev) (zip ms (drop 1 ms)) = None
    \<longleftrightarrow> sorted_wrt (<) (versions M ms)"
proof (induction ms rule: induct_list012)
  case (3 x y zs)
  then show ?case
    by (auto simp: assms) (meson less_trans not_less list.set_intros)+
qed simp_all

lemma validate_migrations_ok:
  assumes order: "\<And>a b. migration_le M a b \<longleftrightarrow> version M a \<le> version M b"
  shows "fst (validate_migrations M ms) = Inr () \<longleftrightarrow> distinct (versions M ms)"
    and "mset (snd (validate_migrations M ms)) = mset ms"
    and "sorted (versions M (snd (validate_migrations M ms)))"
proof -
  let ?s = "sort_key (version M) ms"
  have snd: "snd (validate_migrations M ms) = ?s"
    by (auto simp: validate_migrations_def Let_def split: option.splits)
  show "mset (snd (validate_migrations M ms)) = mset ms"
    "sorted (versions M (snd (validate_migrations M ms)))" by (simp_all add: snd)
  have "fst (validate_migrations M ms) = Inr () \<longleftrightarrow>
      List.find (\<lambda>(prev, next). migration_le M next prev) (zip ?s (drop 1 ?s)) = None"
    by (auto simp: validate_migrations_def Let_def split: option.splits)
  also have "\<dots> \<longleftrightarrow> sorted_wrt (<) (versions M ?s)" by (rule adjacent_find_None [OF order])
  also have "\<dots> \<longleftrightarrow> distinct (versions M ?s)"
    by (simp add: strict_sorted_iff)
  also have "\<dots> \<longleftrightarrow> distinct (versions M ms)"
    by (metis mset_map mset_sort mset_eq_imp_distinct_iff)
  finally show "fst (validate_migrations M ms) = Inr () \<longleftrightarrow> distinct (versions M ms)" .
qed

section \<open>The merged sequence\<close>

text \<open>A reference definition of the merge, and its specification.\<close>

fun merge_prefer :: "'m migration_ops \<Rightarrow> 'm list \<Rightarrow> 'm list \<Rightarrow> 'm list" where
  "merge_prefer M [] cs = cs"
| "merge_prefer M (d # ds) [] = d # ds"
| "merge_prefer M (d # ds) (c # cs) =
     (if version M d < version M c then d # merge_prefer M ds (c # cs)
      else if version M d = version M c then c # merge_prefer M ds cs
      else c # merge_prefer M (d # ds) cs)"

lemma add_custom_migrations_merge:
  assumes "merge_join_laws mj"
  shows "add_custom_migrations mj M ds cs = merge_prefer M ds cs"
proof (induction M ds cs rule: merge_prefer.induct)
  case (1 M cs)
  then show ?case using assms by (simp add: add_custom_migrations_def merge_join_laws_def o_def)
next
  case (2 M d ds)
  then show ?case using assms by (simp add: add_custom_migrations_def merge_join_laws_def o_def)
next
  case (3 M d ds c cs)
  have "mj cmp (d # ds) (c # cs) =
        (case cmp d c of
           Less \<Rightarrow> LeftOnly d # mj cmp ds (c # cs)
         | Equal \<Rightarrow> Both d c # mj cmp ds cs
         | Greater \<Rightarrow> RightOnly c # mj cmp (d # ds) cs)" for cmp
    using assms by (simp add: merge_join_laws_def)
  with 3 show ?case by (simp add: add_custom_migrations_def cmp_nat_def)
qed

lemma set_merge_prefer:
  assumes "sorted_wrt (<) (versions M ds)" and "sorted_wrt (<) (versions M cs)"
  shows "set (merge_prefer M ds cs)
    = set cs \<union> {d \<in> set ds. version M d \<notin> version M ` set cs}"
  using assms
proof (induction M ds cs rule: merge_prefer.induct)
  case (3 M d ds c cs)
  consider (lt) "version M d < version M c" | (eq) "version M d = version M c"
    | (gt) "version M c < version M d" by linarith
  then show ?case
  proof cases
    case lt
    then have "version M d \<notin> version M ` set (c # cs)" using 3(5) by auto
    then show ?thesis using lt 3 by auto
  next
    case eq
    then have "version M x \<noteq> version M c" if "x \<in> set ds" for x using that 3(4) by auto
    then show ?thesis using eq 3 by auto
  next
    case gt
    then have "version M x \<noteq> version M c" if "x \<in> set (d # ds)" for x using that 3(4) by auto
    then show ?thesis using gt 3 by auto
  qed
qed auto

lemma sorted_merge_prefer:
  assumes "sorted_wrt (<) (versions M ds)" and "sorted_wrt (<) (versions M cs)"
  shows "sorted_wrt (<) (versions M (merge_prefer M ds cs))"
  using assms
proof (induction M ds cs rule: merge_prefer.induct)
  case (3 M d ds c cs)
  consider (lt) "version M d < version M c" | (eq) "version M d = version M c"
    | (gt) "version M c < version M d" by linarith
  then show ?case
  proof cases
    case lt
    then show ?thesis using 3 set_merge_prefer [of M ds "c # cs"] by auto
  next
    case eq
    then show ?thesis using 3 set_merge_prefer [of M ds cs] by auto
  next
    case gt
    then show ?thesis using 3 set_merge_prefer [of M "d # ds" cs] by auto
  qed
qed auto

section \<open>Properties\<close>

text \<open>
  Validation sorts the migrations by version without losing or inventing any, and accepts them
  exactly when their versions are distinct; an accepted list is strictly increasing.
\<close>

theorem validate_migrations_sorts:
  assumes "\<And>a b. migration_le M a b \<longleftrightarrow> version M a \<le> version M b"
    and "validate_migrations M ms = (res, ms')"
  shows "mset ms' = mset ms \<and> sorted (versions M ms') \<and>
    (res = Inr () \<longleftrightarrow> distinct (versions M ms)) \<and>
    (res = Inr () \<longrightarrow> sorted_wrt (<) (versions M ms'))"
proof -
  note V = validate_migrations_ok [OF assms(1), of ms]
  have "distinct (versions M ms') \<longleftrightarrow> distinct (versions M ms)"
    using V(2) assms(2) by (metis mset_map mset_eq_imp_distinct_iff snd_conv)
  with V assms(2) show ?thesis by (auto simp: strict_sorted_iff)
qed

definition nat_migrations :: "nat migration_ops" where
  "nat_migrations = \<lparr>version = \<lambda>n. n div 100, migration_le = \<lambda>a b. a div 100 \<le> b div 100,
     migration_display = decimal\<rparr>"

theorem validate_migrations_sorts_witness:
  "fst (validate_migrations nat_migrations [3001, 1002, 2003]) = Inr () \<and>
   fst (validate_migrations nat_migrations [1001, 1002]) \<noteq> Inr ()"
  using validate_migrations_sorts [of nat_migrations "[3001, 1002, 2003]", OF _ prod.collapse [symmetric]]
    validate_migrations_sorts [of nat_migrations "[1001, 1002]", OF _ prod.collapse [symmetric]]
  by (simp add: nat_migrations_def)

text \<open>
  Merging validated default and custom migrations gives a strictly increasing sequence with
  every custom migration and exactly those default ones whose version no custom one takes.
\<close>

theorem add_custom_migrations_merges:
  assumes "merge_join_laws mj"
    and "sorted_wrt (<) (versions M defaults)" and "sorted_wrt (<) (versions M custom)"
  shows "sorted_wrt (<) (versions M (add_custom_migrations mj M defaults custom)) \<and>
    set (add_custom_migrations mj M defaults custom)
      = set custom \<union> set (filter (\<lambda>d. version M d \<notin> version M ` set custom) defaults)"
  unfolding set_filter add_custom_migrations_merge [OF assms(1)]
  using sorted_merge_prefer [OF assms(2,3)] set_merge_prefer [OF assms(2,3)] by blast

fun merge_join :: "('a \<Rightarrow> 'b \<Rightarrow> ordering) \<Rightarrow> 'a list \<Rightarrow> 'b list \<Rightarrow> ('a, 'b) either_or_both list" where
  "merge_join cmp ls [] = map LeftOnly ls"
| "merge_join cmp [] (r # rs) = map RightOnly (r # rs)"
| "merge_join cmp (l # ls) (r # rs) =
     (case cmp l r of
        Less \<Rightarrow> LeftOnly l # merge_join cmp ls (r # rs)
      | Equal \<Rightarrow> Both l r # merge_join cmp ls rs
      | Greater \<Rightarrow> RightOnly r # merge_join cmp (l # ls) rs)"

lemma merge_join_laws_hold: "merge_join_laws (merge_join :: ('a \<Rightarrow> 'b \<Rightarrow> ordering) \<Rightarrow> _)"
proof -
  have "merge_join cmp [] rs = map RightOnly rs" for cmp :: "'a \<Rightarrow> 'b \<Rightarrow> ordering" and rs
    by (cases rs) simp_all
  then show ?thesis by (simp add: merge_join_laws_def)
qed

theorem add_custom_migrations_merges_witness:
  "set (add_custom_migrations merge_join nat_migrations [1001, 2001, 3001] [2002, 2502])
     = {1001, 2002, 2502, 3001}"
proof -
  have "sorted_wrt (<) (versions nat_migrations [1001, 2001, 3001])"
    "sorted_wrt (<) (versions nat_migrations [2002, 2502])"
    by (simp_all add: nat_migrations_def)
  from add_custom_migrations_merges [OF merge_join_laws_hold this]
  show ?thesis by (simp add: nat_migrations_def) blast
qed

end
