(* ===== verification/SqlDataSource.thy ===== *)
theory SqlDataSource
  imports QueryData QueryErrors BufferedChannel Migrations
begin

text \<open>
  \<^verbatim>\<open>src/data_source/sql.rs\<close>: the data source backed by PostgreSQL. The client of
  \<^verbatim>\<open>tokio_postgres\<close>, its rows, and the \<^verbatim>\<open>serde_json\<close> conversions are records of operations. SQL
  texts are kept as the strings the code builds, with runs of white space written as one space.
\<close>

section \<open>Client, rows and conversions\<close>

text \<open>
  Parameters keep the width of the SQL type: \<^verbatim>\<open>i64\<close> is \<open>SqlBigint\<close>, \<^verbatim>\<open>i32\<close> is \<open>SqlInteger\<close>.
\<close>

datatype 'j sql_value =
    SqlBigint "64 word"
  | SqlInteger "32 word"
  | SqlText string
  | SqlBytes "nat list"
  | SqlJson 'j

text \<open>
  \<open>'c\<close> is the client, \<open>'row\<close> a row, \<open>'pe\<close> the error of \<^verbatim>\<open>tokio_postgres\<close>. Queries do not change
  the client's state; the \<open>row_\<close> operations are \<^verbatim>\<open>try_get\<close> at the type the code asks for, and
  \<open>row_first_\<close> is \<^verbatim>\<open>get(0)\<close>, which panics where \<^verbatim>\<open>try_get\<close> fails.
\<close>

record ('c, 'row, 'j, 'pe) client_ops =
  query_opt :: "'c \<Rightarrow> string \<Rightarrow> 'j sql_value list \<Rightarrow> 'pe + 'row option"
  query_one :: "'c \<Rightarrow> string \<Rightarrow> 'j sql_value list \<Rightarrow> 'pe + 'row"
  query_raw :: "'c \<Rightarrow> string \<Rightarrow> 'j sql_value list \<Rightarrow> 'pe + ('pe + 'row) list"
  execute_raw :: "'c \<Rightarrow> string \<Rightarrow> 'j sql_value list \<Rightarrow> ('pe + 64 word) \<times> 'c"
  batch_execute :: "'c \<Rightarrow> string \<Rightarrow> ('pe + unit) \<times> 'c"
  row_json :: "'row \<Rightarrow> string \<Rightarrow> 'pe + 'j"
  row_text :: "'row \<Rightarrow> string \<Rightarrow> 'pe + string"
  row_integer_opt :: "'row \<Rightarrow> string \<Rightarrow> 'pe + 32 word option"
  row_bytes_opt :: "'row \<Rightarrow> string \<Rightarrow> 'pe + nat list option"
  row_first_bigint :: "'row \<Rightarrow> 'pe + 64 word"
  row_first_bigint_opt :: "'row \<Rightarrow> 'pe + 64 word option"
  pe_display :: "'pe \<Rightarrow> string"

text \<open>
  JSON and text conversions; an error is the message it displays as. \<open>encode_error\<close> is the
  message of a failed \<^verbatim>\<open>BlockPayload::encode\<close>.
\<close>

record ('leaf, 'qc, 'hdr, 'pl, 'ix, 'h, 'pk, 'md, 'j) serde_ops =
  leaf_to_json :: "'leaf \<Rightarrow> string + 'j"
  leaf_from_json :: "'j \<Rightarrow> string + 'leaf"
  qc_to_json :: "'qc \<Rightarrow> string + 'j"
  qc_from_json :: "'j \<Rightarrow> string + 'qc"
  header_to_json :: "'hdr \<Rightarrow> string + 'j"
  header_from_json :: "'j \<Rightarrow> string + 'hdr"
  index_to_json :: "'ix \<Rightarrow> string + 'j"
  index_from_json :: "'j \<Rightarrow> string + 'ix"
  hash_to_string :: "'h \<Rightarrow> string"
  hash_from_string :: "string \<Rightarrow> string + 'h"
  pk_to_string :: "'pk \<Rightarrow> string"
  header_metadata :: "'hdr \<Rightarrow> 'md"
  payload_from_bytes :: "nat list \<Rightarrow> 'md \<Rightarrow> 'pl"
  encode_error :: "'pl \<Rightarrow> string"

section \<open>State\<close>

record ('c, 'm, 'lq, 'bq) sql_data_source =
  client :: 'c
  tx_in_progress :: bool
  leaf_stream :: "'lq buffered_channel"
  block_stream :: "'bq buffered_channel"
  sql_metrics :: 'm
  kill :: bool

text \<open>\<^verbatim>\<open>map_err(|err| QueryError::Error { message: err.to_string() })\<close>.\<close>

definition db_err where
  "db_err C r = map_sum (\<lambda>err. QueryError (pe_display C err)) id r"

text \<open>The same with a prefix, for a result whose error is already a message.\<close>

definition msg_err :: "string \<Rightarrow> string + 'a \<Rightarrow> query_error + 'a" where
  "msg_err prefix r = map_sum (\<lambda>err. QueryError (prefix @ err)) id r"

definition row_err where
  "row_err C prefix r = msg_err prefix (map_sum (pe_display C) id r)"

section \<open>Rows to objects\<close>

definition parse_leaf where
  "parse_leaf C S row =
     and_then (row_err C ''error extracting leaf from query results: '' (row_json C row ''leaf''))
       (\<lambda>leaf. and_then (msg_err ''malformed leaf: '' (leaf_from_json S leaf))
       (\<lambda>leaf. and_then (row_err C ''error extracting QC from query results: '' (row_json C row ''qc''))
       (\<lambda>qc. and_then (msg_err ''malformed QC: '' (qc_from_json S qc))
       (\<lambda>qc. Inr \<lparr>lq_leaf = leaf, lq_qc = qc\<rparr>))))"

definition block_columns :: string where
  "block_columns =
     ''h.hash AS hash, h.data AS header_data, p.size AS payload_size, p.data AS payload_data''"

text \<open>\<^verbatim>\<open>size.zip(payload_data)\<close>, and \<^verbatim>\<open>i32 as u64\<close>, which extends the sign.\<close>

definition zip_opt :: "'a option \<Rightarrow> 'b option \<Rightarrow> ('a \<times> 'b) option" where
  "zip_opt x y = (case (x, y) of (Some a, Some b) \<Rightarrow> Some (a, b) | _ \<Rightarrow> None)"

definition i32_as_u64 :: "32 word \<Rightarrow> 64 word" where
  "i32_as_u64 w = scast w"

definition parse_block where
  "parse_block C S row =
     and_then (row_err C ''error extracting payload size from query results: ''
                 (row_integer_opt C row ''payload_size''))
       (\<lambda>size_opt. and_then (row_err C ''error extracting payload data from query results: ''
                      (row_bytes_opt C row ''payload_data''))
       (\<lambda>data_opt. and_then (context_opt (zip_opt size_opt data_opt) Missing)
       (\<lambda>(sz, payload_data). and_then (row_err C ''error extracting header data from query results: ''
                      (row_json C row ''header_data''))
       (\<lambda>header_data. and_then (msg_err ''malformed header: '' (header_from_json S header_data))
       (\<lambda>header. and_then (row_err C ''error extracting block hash from query results: ''
                      (row_text C row ''hash''))
       (\<lambda>hash. and_then (msg_err ''malformed block hash: '' (hash_from_string S hash))
       (\<lambda>hash. Inr \<lparr>bq_header = header,
                    bq_payload = payload_from_bytes S payload_data (header_metadata S header),
                    bq_hash = hash, bq_size = i32_as_u64 sz\<rparr>)))))))"

section \<open>Ranges\<close>

text \<open>One condition: the pushed parameter (\<^verbatim>\<open>usize as i64\<close>) and the rendered comparison.\<close>

definition push_bound ::
    "string \<Rightarrow> (string \<times> 64 word) option \<Rightarrow> string list \<times> 64 word list
      \<Rightarrow> string list \<times> 64 word list" where
  "push_bound column cond = (\<lambda>(bounds, params).
     (case cond of
        None \<Rightarrow> (bounds, params)
      | Some (op, n) \<Rightarrow>
          (let params = params @ [n]
           in (bounds @ [column @ '' '' @ op @ '' $'' @ decimal (length params)], params))))"

fun start_condition :: "64 word bound \<Rightarrow> (string \<times> 64 word) option" where
  "start_condition (Included n) = Some (''>='', n)"
| "start_condition (Excluded n) = Some (''>'', n)"
| "start_condition Unbounded = None"

fun end_condition :: "64 word bound \<Rightarrow> (string \<times> 64 word) option" where
  "end_condition (Included n) = Some (''<='', n)"
| "end_condition (Excluded n) = Some (''<'', n)"
| "end_condition Unbounded = None"

definition bounds_to_where_clause ::
    "64 word bound \<Rightarrow> 64 word bound \<Rightarrow> string \<Rightarrow> string \<times> 64 word list" where
  "bounds_to_where_clause start end_bound column =
     (let (bounds, params) =
            push_bound column (end_condition end_bound)
              (push_bound column (start_condition start) ([], []));
          where_clause = joined '' AND '' bounds;
          where_clause = (if where_clause \<noteq> [] then '' WHERE '' @ where_clause else where_clause)
      in (where_clause, params))"

section \<open>Queries\<close>

definition sql_get_leaf where
  "sql_get_leaf C S ident ds =
     (let (where_clause, param) =
            (case ident of
               Number n \<Rightarrow> (''height = $1'', SqlBigint n)
             | Hash h \<Rightarrow> (''hash = $1'', SqlText (hash_to_string S h)));
          query = ''SELECT leaf, qc FROM leaf WHERE '' @ where_clause
      in and_then (db_err C (query_opt C (client ds) query [param])) (\<lambda>row.
           and_then (context_opt row NotFound) (\<lambda>row. parse_leaf C S row)))"

definition sql_get_block where
  "sql_get_block C S ident ds =
     (let (where_clause, param) =
            (case ident of
               Number n \<Rightarrow> (''h.height = $1'', SqlBigint n)
             | Hash h \<Rightarrow> (''h.hash = $1'', SqlText (hash_to_string S h)));
          query = ''SELECT '' @ block_columns
            @ '' FROM header AS h JOIN payload AS p ON h.height = p.height WHERE '' @ where_clause
            @ '' ORDER BY h.height ASC LIMIT 1''
      in and_then (db_err C (query_opt C (client ds) query [param])) (\<lambda>row.
           and_then (context_opt row NotFound) (\<lambda>row. parse_block C S row)))"

text \<open>A range is the list of what the stream yields; a row that fails yields its error.\<close>

definition sql_get_leaf_range where
  "sql_get_leaf_range C S start end_bound ds =
     (let (where_clause, params) = bounds_to_where_clause start end_bound ''height'';
          query = ''SELECT leaf, qc FROM leaf '' @ where_clause @ '' ORDER BY height ASC''
      in and_then (db_err C (query_raw C (client ds) query (map SqlBigint params))) (\<lambda>rows.
           Inr (map (\<lambda>res. and_then (db_err C res) (\<lambda>row. parse_leaf C S row)) rows)))"

definition sql_get_block_range where
  "sql_get_block_range C S start end_bound ds =
     (let (where_clause, params) = bounds_to_where_clause start end_bound ''h.height'';
          query = ''SELECT '' @ block_columns
            @ '' FROM header AS h JOIN payload AS p ON h.height = p.height '' @ where_clause
            @ '' ORDER BY h.height ASC''
      in and_then (db_err C (query_raw C (client ds) query (map SqlBigint params))) (\<lambda>rows.
           Inr (map (\<lambda>res. and_then (db_err C res) (\<lambda>row. parse_block C S row)) rows)))"

definition sql_get_block_with_transaction where
  "sql_get_block_with_transaction C S hash ds =
     (let query = ''SELECT '' @ block_columns
            @ '', t.index AS tx_index FROM header AS h JOIN payload AS p ON h.height = p.height''
            @ '' JOIN transaction AS t ON t.block_height = h.height WHERE t.hash = $1''
            @ '' ORDER BY t.id ASC LIMIT 1''
      in and_then (db_err C (query_opt C (client ds) query [SqlText (hash_to_string S hash)])) (\<lambda>row.
         and_then (context_opt row NotFound) (\<lambda>row.
         and_then (row_err C ''error extracting transaction index from query results: ''
                     (row_json C row ''tx_index'')) (\<lambda>index.
         and_then (msg_err ''malformed transaction index: '' (index_from_json S index)) (\<lambda>index.
         and_then (parse_block C S row) (\<lambda>block. Inr (block, index)))))))"

definition sql_get_proposals where
  "sql_get_proposals C S proposer limit ds =
     (let query = ''SELECT leaf, qc FROM leaf WHERE proposer = $1'';
          query = (case limit of
                     Some limit \<Rightarrow> query @ '' ORDER BY height DESC limit ''
                                     @ decimal (unat (limit :: 64 word))
                   | None \<Rightarrow> query)
      in and_then (db_err C (query_raw C (client ds) query [SqlText (pk_to_string S proposer)])) (\<lambda>rows.
         and_then (try_collect
             (map (\<lambda>res. and_then (db_err C res) (\<lambda>row. parse_leaf C S row)) rows)) (\<lambda>leaves.
           Inr (if limit \<noteq> None then rev leaves else leaves))))"

definition sql_count_proposals where
  "sql_count_proposals C S proposer ds =
     and_then (map_sum Failure id (db_err C (query_one C (client ds)
         ''SELECT count(*) FROM leaf WHERE proposer = $1'' [SqlText (pk_to_string S proposer)])))
       (\<lambda>row. case row_first_bigint C row of
          Inl err \<Rightarrow> Inl (Panic (''error retrieving column 0: '' @ pe_display C err))
        | Inr n \<Rightarrow> Inr n)"

text \<open>
  A subscription is what is current (a range from \<open>height\<close> on) followed by what the channel
  delivers after the handle was taken.
\<close>

definition sql_subscribe_leaves where
  "sql_subscribe_leaves C S height ds =
     and_then (sql_get_leaf_range C S (Included height) Unbounded ds) (\<lambda>current_leaves.
       Inr (current_leaves, channel_subscribe (leaf_stream ds)))"

definition sql_subscribe_blocks where
  "sql_subscribe_blocks C S height ds =
     and_then (sql_get_block_range C S (Included height) Unbounded ds) (\<lambda>current_blocks.
       Inr (current_blocks, channel_subscribe (block_stream ds)))"

definition sql_stream_items where
  "sql_stream_items sub channel =
     fst sub @ map Inr (channel_received (snd sub) channel)"

text \<open>\<^verbatim>\<open>height as usize + 1\<close> wraps like a release build.\<close>

definition sql_block_height where
  "sql_block_height C ds =
     and_then (map_sum Failure id (db_err C (query_one C (client ds)
         ''SELECT max(height) FROM header'' [])))
       (\<lambda>row. case row_first_bigint_opt C row of
          Inl err \<Rightarrow> Inl (Panic (''error retrieving column 0: '' @ pe_display C err))
        | Inr (Some height) \<Rightarrow> Inr (height + 1)
        | Inr None \<Rightarrow> Inr 0)"

section \<open>Transactions\<close>

text \<open>
  \<^verbatim>\<open>transaction\<close> opens a database transaction unless one is in progress; the returned handle is
  the client itself.
\<close>

definition sql_transaction where
  "sql_transaction C ds =
     (if \<not> tx_in_progress ds
      then attempt (on_field (\<lambda>c. ds\<lparr>client := c\<rparr>) (foreign (batch_execute C (client ds) ''BEGIN'')))
             (\<lambda>_ ds. (Inr (), ds\<lparr>tx_in_progress := True\<rparr>))
      else (Inr (), ds))"

definition tx_execute where
  "tx_execute C c statement params =
     (case execute_raw C c statement params of (Inl e, c) \<Rightarrow> (Inl (Failure e), c) | (Inr _, c) \<Rightarrow> (Inr (), c))"

fun tx_execute_many where
  "tx_execute_many C c [] = (Inr (), c)"
| "tx_execute_many C c ((stmt, params) # statements) =
     attempt (tx_execute C c stmt params) (\<lambda>_ c. tx_execute_many C c statements)"

text \<open>\<^verbatim>\<open>self.query\<close> and the transaction's \<^verbatim>\<open>query\<close> hand the statement to the client.\<close>

definition sql_query where
  "sql_query C query params ds = query_raw C (client ds) query params"

definition tx_query where
  "tx_query C query params c = query_raw C c query params"

definition sql_commit where
  "sql_commit C ds =
     attempt
       (if tx_in_progress ds
        then attempt
               (on_field (\<lambda>c. ds\<lparr>client := c\<rparr>) (foreign (batch_execute C (client ds) ''COMMIT'')))
               (\<lambda>_ ds. (Inr (), ds\<lparr>tx_in_progress := False\<rparr>))
        else (Inr (), ds))
       (\<lambda>_ ds.
          let ds = ds\<lparr>leaf_stream := channel_flush (leaf_stream ds)\<rparr>;
              ds = ds\<lparr>block_stream := channel_flush (block_stream ds)\<rparr>
          in (Inr (), ds))"

definition sql_revert where
  "sql_revert C ds =
     attempt
       (if tx_in_progress ds
        then (case batch_execute C (client ds) ''ROLLBACK'' of
                (Inl e, c) \<Rightarrow>
                  (Inl (Panic (''DB rollback succeeds: '' @ pe_display C e)), ds\<lparr>client := c\<rparr>)
              | (Inr _, c) \<Rightarrow> (Inr (), ds\<lparr>client := c, tx_in_progress := False\<rparr>))
        else (Inr (), ds))
       (\<lambda>_ ds.
          let ds = ds\<lparr>leaf_stream := channel_clear (leaf_stream ds)\<rparr>;
              ds = ds\<lparr>block_stream := channel_clear (block_stream ds)\<rparr>
          in (Inr (), ds))"

text \<open>Both insertions run their statements in the open transaction and report errors as text.\<close>

definition failure_err where
  "failure_err C r =
     (case r of
        (Inl (Failure e), s) \<Rightarrow> (Inl (Failure (QueryError (pe_display C e))), s)
      | (Inl (Panic m), s) \<Rightarrow> (Inl (Panic m), s)
      | (Inl Diverges, s) \<Rightarrow> (Inl Diverges, s)
      | (Inr x, s) \<Rightarrow> (Inr x, s))"

definition run_statements where
  "run_statements C stmts ds =
     attempt (failure_err C (sql_transaction C ds)) (\<lambda>_ ds.
       on_field (\<lambda>c. ds\<lparr>client := c\<rparr>) (failure_err C (tx_execute_many C (client ds) stmts)))"

section \<open>Insertions\<close>

definition leaf_statements where
  "leaf_statements N S leaf =
     and_then (msg_err ''failed to serialize header: ''
                 (header_to_json S (leaf_block_header N (lq_leaf leaf)))) (\<lambda>header_json.
     and_then (msg_err ''failed to serialize leaf: '' (leaf_to_json S (lq_leaf leaf))) (\<lambda>leaf_json.
     and_then (msg_err ''failed to serialize QC: '' (qc_to_json S (lq_qc leaf))) (\<lambda>qc_json.
       Inr
        [(''INSERT INTO header (height, hash, data) VALUES ($1, $2, $3)'',
          [SqlBigint (leaf_height N leaf), SqlText (hash_to_string S (leaf_block_hash N leaf)),
           SqlJson header_json]),
         (''INSERT INTO payload (height) VALUES ($1)'', [SqlBigint (leaf_height N leaf)]),
         (''INSERT INTO leaf (height, hash, proposer, block_hash, leaf, qc)''
            @ '' VALUES ($1, $2, $3, $4, $5, $6)'',
          [SqlBigint (leaf_height N leaf), SqlText (hash_to_string S (leaf_hash N leaf)),
           SqlText (pk_to_string S (leaf_proposer N leaf)),
           SqlText (hash_to_string S (leaf_block_hash N leaf)), SqlJson leaf_json,
           SqlJson qc_json])])))"

definition sql_insert_leaf where
  "sql_insert_leaf N C S leaf ds =
     (case leaf_statements N S leaf of
        Inl e \<Rightarrow> (Inl (Failure e), ds)
      | Inr stmts \<Rightarrow>
          attempt (run_statements C stmts ds) (\<lambda>_ ds.
            (Inr (), ds\<lparr>leaf_stream := channel_push leaf (leaf_stream ds)\<rparr>)))"

text \<open>
  The loop over the enumerated transactions accumulates the value tuples and their parameters; a
  panic of the iterator or a failed conversion ends it.
\<close>

fun transaction_rows where
  "transaction_rows N S height [] values params = Inr (values, params)"
| "transaction_rows N S height (Inl e # items) values params = Inl e"
| "transaction_rows N S height (Inr (txn_ix, txn) # items) values params =
     (case msg_err ''failed to serialize transaction index: '' (index_to_json S txn_ix) of
        Inl e \<Rightarrow> Inl (Failure e)
      | Inr ix_json \<Rightarrow>
          transaction_rows N S height items
            (values @ [''($'' @ decimal (length params + 1) @ '',$'' @ decimal (length params + 2)
                         @ '',$'' @ decimal (length params + 3) @ '')''])
            (params @ [SqlText (hash_to_string S (tx_commit N txn)), SqlBigint height,
                       SqlJson ix_json]))"

text \<open>\<^verbatim>\<open>u64 as i32\<close> keeps the low 32 bits.\<close>

definition u64_as_i32 :: "64 word \<Rightarrow> 32 word" where
  "u64_as_i32 w = ucast w"

definition block_statements where
  "block_statements N S block =
     (case pl_encode N (bq_payload block) of
        None \<Rightarrow> Inl (Failure (QueryError
                  (''failed to serialize block: '' @ encode_error S (bq_payload block))))
      | Some payload \<Rightarrow>
          and_then
            (transaction_rows N S (block_height N block) (payload_enumerate N (bq_payload block)) [] [])
            (\<lambda>(values, params).
               Inr ((''UPDATE payload SET (data, size) = ($1, $2) WHERE height = $3'',
                     [SqlBytes payload, SqlInteger (u64_as_i32 (bq_size block)),
                      SqlBigint (block_height N block)]) #
                    (if values \<noteq> []
                     then [(''INSERT INTO transaction (hash, block_height, index) VALUES ''
                              @ joined '','' values, params)]
                     else []))))"

definition sql_insert_block where
  "sql_insert_block N C S block ds =
     (case block_statements N S block of
        Inl e \<Rightarrow> (Inl e, ds)
      | Inr stmts \<Rightarrow>
          attempt (run_statements C stmts ds) (\<lambda>_ ds.
            (Inr (), ds\<lparr>block_stream := channel_push block (block_stream ds)\<rparr>)))"

section \<open>Connecting\<close>

text \<open>
  Genesis is inserted when the header table is empty. \<open>E\<close> converts the errors of the calls into
  the crate's \<^verbatim>\<open>anyhow\<close> error, as \<^verbatim>\<open>?\<close> does.
\<close>

definition any_err where
  "any_err E r =
     (case r of
        (Inl (Failure e), s) \<Rightarrow> (Inl (Failure (E e)), s)
      | (Inl (Panic m), s) \<Rightarrow> (Inl (Panic m), s)
      | (Inl Diverges, s) \<Rightarrow> (Inl Diverges, s)
      | (Inr x, s) \<Rightarrow> (Inr x, s))"

definition sql_insert_genesis where
  "sql_insert_genesis N C S EQ EP ds =
     attempt (any_err EQ (sql_block_height C ds, ds)) (\<lambda>height ds.
       if height = 0
       then attempt (any_err EQ (sql_insert_leaf N C S (leaf_query_data_genesis N) ds)) (\<lambda>_ ds.
              attempt (any_err EQ (sql_insert_block N C S (block_query_data_genesis N) ds)) (\<lambda>_ ds.
                any_err EP (sql_commit C ds)))
       else (Inr (), ds))"

text \<open>
  What \<^verbatim>\<open>connect\<close> uses of the network, the driver and refinery: opening a client from the
  configuration, and running or inspecting migrations.
\<close>

record ('m, 'c, 'err) connect_ops =
  open_client :: "'m config \<Rightarrow> 'err + 'c"
  last_applied :: "'m list \<Rightarrow> 'c \<Rightarrow> ('err + 'm option) \<times> 'c"
  run_migrations :: "'m list \<Rightarrow> 'c \<Rightarrow> ('err + unit) \<times> 'c"
  any_msg :: "string \<Rightarrow> 'err"

definition last_opt :: "'a list \<Rightarrow> 'a option" where
  "last_opt xs = (if xs = [] then None else Some (last xs))"

definition sql_prepare_schema where
  "sql_prepare_schema K M mj embedded cfg c =
     (case validate_migrations M (cfg_migrations cfg) of
        (Inl e, _) \<Rightarrow> (Inl (Failure (any_msg K e)), c)
      | (Inr _, custom) \<Rightarrow>
          (case default_migrations M embedded of
             Inl (Panic m) \<Rightarrow> (Inl (Panic m), c)
           | Inl (Failure m) \<Rightarrow> (Inl (Panic m), c)
           | Inl Diverges \<Rightarrow> (Inl Diverges, c)
           | Inr defaults \<Rightarrow>
               (let migrations = add_custom_migrations mj M defaults custom
                in if cfg_no_migrations cfg
                   then attempt (foreign (last_applied K migrations c)) (\<lambda>applied c.
                          if applied \<noteq> last_opt migrations
                          then (Inl (Failure (any_msg K ''DB is out of date'')), c)
                          else (Inr (), c))
                   else foreign (run_migrations K migrations c))))"

definition sql_connect where
  "sql_connect K M mj embedded N C S EQ EP metrics0 cfg =
     (case open_client K cfg of
        Inl e \<Rightarrow> Inl (Failure e)
      | Inr c \<Rightarrow>
          (case sql_prepare_schema K M mj embedded cfg c of
             (Inl e, c) \<Rightarrow> Inl e
           | (Inr _, c) \<Rightarrow>
               fst (built
                 (sql_insert_genesis N C S EQ EP
                   \<lparr>client = c, tx_in_progress = False, leaf_stream = channel_init,
                    block_stream = channel_init, sql_metrics = metrics0, kill = True\<rparr>) c)))"

text \<open>Dropping the data source sends the kill signal once.\<close>

definition sql_drop where
  "sql_drop ds = (kill ds, ds\<lparr>kill := False\<rparr>)"

end
