(* ===== verification/SqlTx.thy ===== *)
theory SqlTx
  imports SqlDataSource
begin

text \<open>
  What the SQL data source does to the open transaction and to its channels: the promises of the
  database driver about transactions, the effect of every operation under them, and how PostgreSQL
  reads the bounds of a range. \<open>SqlProps\<close> and \<open>SqlTables\<close> build on it.
\<close>

section \<open>Signed readings\<close>

lemma sint_64: "sint (w :: 64 word) = (uint w + 2 ^ 63) mod 2 ^ 64 - 2 ^ 63"
  by (simp add: sint_uint signed_take_bit_eq_take_bit_shift take_bit_eq_mod)

lemma sint_32: "sint (w :: 32 word) = (uint w + 2 ^ 31) mod 2 ^ 32 - 2 ^ 31"
  by (simp add: sint_uint signed_take_bit_eq_take_bit_shift take_bit_eq_mod)

lemma uint_less_64: "uint (w :: 64 word) < 2 ^ 64"
  using unat_less_64 [of w] by (metis of_nat_less_iff of_nat_numeral of_nat_power uint_nat)

lemma sint_64_small: "uint (w :: 64 word) < 2 ^ 63 \<Longrightarrow> sint w = uint w"
  by (simp add: sint_64)

lemma sint_64_large: "2 ^ 63 \<le> uint (w :: 64 word) \<Longrightarrow> sint w < 0"
proof -
  assume "2 ^ 63 \<le> uint w"
  then have "(uint w + 2 ^ 63) mod 2 ^ 64 = uint w + 2 ^ 63 - 2 ^ 64"
    using uint_less_64 [of w] by (simp add: mod_pos_geq)
  then show ?thesis using uint_less_64 [of w] by (simp add: sint_64)
qed

lemma uint_u64_as_i32: "uint (u64_as_i32 w) = uint w mod 2 ^ 32"
  by (simp add: u64_as_i32_def unsigned_ucast_eq take_bit_eq_mod)

lemma size_read_back:
  "uint (i32_as_u64 (u64_as_i32 w)) = ((uint w mod 2 ^ 32 + 2 ^ 31) mod 2 ^ 32 - 2 ^ 31) mod 2 ^ 64"
proof -
  have "uint (i32_as_u64 x) = sint x mod 2 ^ 64" for x
    unfolding i32_as_u64_def scast_eq uint_word_of_int by simp
  from this [of "u64_as_i32 w"] show ?thesis unfolding sint_32 uint_u64_as_i32 .
qed

lemma stored_size_small: "uint w < 2 ^ 31 \<Longrightarrow> i32_as_u64 (u64_as_i32 w) = w"
proof -
  assume "uint w < 2 ^ 31"
  then have "uint (i32_as_u64 (u64_as_i32 w)) = uint w" unfolding size_read_back by simp
  then show ?thesis by (simp add: word_uint_eq_iff)
qed

section \<open>Ranges\<close>

text \<open>How PostgreSQL compares a \<^verbatim>\<open>BIGINT\<close> column with a parameter.\<close>

fun sql_holds :: "64 word \<Rightarrow> string \<times> 64 word \<Rightarrow> bool" where
  "sql_holds h (op, n) =
     (if op = ''>='' then sint n \<le> sint h
      else if op = ''>'' then sint n < sint h
      else if op = ''<='' then sint h \<le> sint n
      else op = ''<'' \<and> sint h < sint n)"

definition conditions :: "64 word bound \<Rightarrow> 64 word bound \<Rightarrow> (string \<times> 64 word) list" where
  "conditions start end_bound =
     (case start_condition start of None \<Rightarrow> [] | Some c \<Rightarrow> [c]) @
     (case end_condition end_bound of None \<Rightarrow> [] | Some c \<Rightarrow> [c])"

text \<open>What \<^verbatim>\<open>RangeBounds::contains\<close> says of a \<^verbatim>\<open>usize\<close>.\<close>

definition range_contains :: "64 word bound \<Rightarrow> 64 word bound \<Rightarrow> 64 word \<Rightarrow> bool" where
  "range_contains start end_bound h \<longleftrightarrow>
     (case start of Included n \<Rightarrow> n \<le> h | Excluded n \<Rightarrow> n < h | Unbounded \<Rightarrow> True) \<and>
     (case end_bound of Included n \<Rightarrow> h \<le> n | Excluded n \<Rightarrow> h < n | Unbounded \<Rightarrow> True)"

fun bound_value :: "64 word bound \<Rightarrow> 64 word" where
  "bound_value (Included n) = n"
| "bound_value (Excluded n) = n"
| "bound_value Unbounded = 0"

lemma bounds_to_where_clause_conditions:
  "bounds_to_where_clause start end_bound column =
     (let texts = map (\<lambda>(k, op, n). column @ '' '' @ op @ '' $'' @ decimal k)
            (zip [1..<3] (conditions start end_bound))
      in (if texts = [] then [] else '' WHERE '' @ joined '' AND '' texts,
          map snd (conditions start end_bound)))"
  by (cases start; cases end_bound)
    (simp_all add: bounds_to_where_clause_def conditions_def push_bound_def numeral_3_eq_3
      upt_rec)

text \<open>The text of a where clause with the given conditions on a column.\<close>

definition where_text :: "string \<Rightarrow> (string \<times> 64 word) list \<Rightarrow> string" where
  "where_text column conds =
     (let texts = map (\<lambda>(k, op, n). column @ '' '' @ op @ '' $'' @ decimal k)
            (zip [1..<Suc (length conds)] conds)
      in if texts = [] then [] else '' WHERE '' @ joined '' AND '' texts)"

lemma bounds_to_where_clause_text:
  "bounds_to_where_clause start end_bound column =
     (where_text column (conditions start end_bound), map snd (conditions start end_bound))"
  by (cases start; cases end_bound)
    (simp_all add: bounds_to_where_clause_conditions where_text_def conditions_def numeral_3_eq_3
      upt_rec)

lemma conditions_hold:
  assumes "uint h < 2 ^ 63" and "uint (bound_value start) < 2 ^ 63"
    and "uint (bound_value end_bound) < 2 ^ 63"
  shows "(\<forall>c \<in> set (conditions start end_bound). sql_holds h c) \<longleftrightarrow> range_contains start end_bound h"
  using assms
  by (cases start; cases end_bound)
    (auto simp: conditions_def range_contains_def sint_64_small word_le_def word_less_def)

section \<open>Transactions\<close>

text \<open>
  What the driver documents of transactions: \<^verbatim>\<open>BEGIN\<close> opens one, \<^verbatim>\<open>COMMIT\<close> and \<^verbatim>\<open>ROLLBACK\<close>
  close it, a failed control statement and every other statement leave it as it was.
\<close>

definition client_laws where
  "client_laws C in_tx \<longleftrightarrow>
     (\<forall>c u c'. batch_execute C c ''BEGIN'' = (Inr u, c') \<longrightarrow> in_tx c') \<and>
     (\<forall>c u c'. batch_execute C c ''COMMIT'' = (Inr u, c') \<longrightarrow> \<not> in_tx c') \<and>
     (\<forall>c u c'. batch_execute C c ''ROLLBACK'' = (Inr u, c') \<longrightarrow> \<not> in_tx c') \<and>
     (\<forall>c s e c'. batch_execute C c s = (Inl e, c') \<longrightarrow> in_tx c' = in_tx c) \<and>
     (\<forall>c s ps r c'. execute_raw C c s ps = (r, c') \<longrightarrow> in_tx c' = in_tx c)"

definition sql_synced where
  "sql_synced in_tx ds \<longleftrightarrow> tx_in_progress ds = in_tx (client ds)"

inductive sql_step for N C S where
  leaf: "sql_insert_leaf N C S leaf ds = (r, ds') \<Longrightarrow> sql_step N C S ds ds'"
| block: "sql_insert_block N C S block ds = (r, ds') \<Longrightarrow> sql_step N C S ds ds'"
| commit: "sql_commit C ds = (r, ds') \<Longrightarrow> sql_step N C S ds ds'"
| revert: "sql_revert C ds = (r :: query_error failure + unit, ds') \<Longrightarrow> sql_step N C S ds ds'"
| transaction: "sql_transaction C ds = (r, ds') \<Longrightarrow> sql_step N C S ds ds'"

lemma tx_execute_many_tx:
  assumes "client_laws C in_tx"
  shows "tx_execute_many C c stmts = (r, c') \<Longrightarrow> in_tx c' = in_tx c"
proof (induction stmts arbitrary: c)
  case Nil
  then show ?case by simp
next
  case (Cons stmt stmts)
  obtain q ps where stmt: "stmt = (q, ps)" by fastforce
  obtain x c1 where x: "execute_raw C c q ps = (x, c1)" by fastforce
  then have "in_tx c1 = in_tx c" using assms by (simp add: client_laws_def)
  with Cons x stmt show ?case by (cases x) (auto simp: tx_execute_def)
qed

lemma failure_err_state [simp]: "snd (failure_err C r) = snd r"
  by (auto simp: failure_err_def split: prod.splits sum.splits failure.splits)

lemma failure_err_eq:
  "failure_err C r = (x, s) \<Longrightarrow> \<exists>y. r = (y, s) \<and> (x = Inr u \<longleftrightarrow> y = Inr u)"
  by (auto simp: failure_err_def split: prod.splits sum.splits failure.splits)

lemma sql_transaction_synced:
  assumes "client_laws C in_tx" and "sql_synced in_tx ds" and "sql_transaction C ds = (r, ds')"
  shows "sql_synced in_tx ds'" and "leaf_stream ds' = leaf_stream ds"
    and "block_stream ds' = block_stream ds" and "r = Inr () \<Longrightarrow> in_tx (client ds')"
proof -
  obtain x c where x: "batch_execute C (client ds) ''BEGIN'' = (x, c)" by fastforce
  have "sql_synced in_tx ds' \<and> leaf_stream ds' = leaf_stream ds \<and>
      block_stream ds' = block_stream ds \<and> (r = Inr () \<longrightarrow> in_tx (client ds'))"
  proof (cases "tx_in_progress ds")
    case True
    with assms show ?thesis by (auto simp: sql_transaction_def sql_synced_def)
  next
    case False
    show ?thesis
    proof (cases x)
      case (Inl e)
      then have "in_tx c = in_tx (client ds)" using assms(1) x unfolding client_laws_def by blast
      with False Inl assms(2,3) x show ?thesis by (auto simp: sql_transaction_def sql_synced_def)
    next
      case (Inr u)
      then have "in_tx c" using assms(1) x unfolding client_laws_def by blast
      with False Inr assms(2,3) x show ?thesis by (auto simp: sql_transaction_def sql_synced_def)
    qed
  qed
  then show "sql_synced in_tx ds'" "leaf_stream ds' = leaf_stream ds"
    "block_stream ds' = block_stream ds" "r = Inr () \<Longrightarrow> in_tx (client ds')" by blast+
qed

lemma run_statements_synced:
  assumes laws: "client_laws C in_tx" and sync: "sql_synced in_tx ds"
    and run: "run_statements C stmts ds = (r, ds')"
  shows "sql_synced in_tx ds'" and "leaf_stream ds' = leaf_stream ds"
    and "block_stream ds' = block_stream ds"
proof -
  obtain x ds1 where x: "sql_transaction C ds = (x, ds1)" by fastforce
  note one = sql_transaction_synced [OF laws sync x]
  obtain y ds1' where y: "failure_err C (sql_transaction C ds) = (y, ds1')" by fastforce
  then have "ds1' = ds1" using x failure_err_state [of C "sql_transaction C ds"] by simp
  obtain z c where z: "tx_execute_many C (client ds1) stmts = (z, c)" by fastforce
  have c: "in_tx c = in_tx (client ds1)" by (rule tx_execute_many_tx [OF laws z])
  have snd_z: "snd (failure_err C (tx_execute_many C (client ds1) stmts)) = c" using z by simp
  have "ds' = ds1 \<or> ds' = ds1\<lparr>client := c\<rparr>"
    using run y \<open>ds1' = ds1\<close> snd_z by (cases y) (auto simp: run_statements_def)
  then show "sql_synced in_tx ds'" "leaf_stream ds' = leaf_stream ds"
    "block_stream ds' = block_stream ds"
    using one c by (auto simp: sql_synced_def)
qed

text \<open>What an insertion does to the channels: a message is queued exactly when it succeeds.\<close>

lemma sql_insert_leaf_effect:
  assumes "client_laws C in_tx" and "sql_synced in_tx ds"
    and "sql_insert_leaf N C S leaf ds = (r, ds')"
  shows "sql_synced in_tx ds'" and "block_stream ds' = block_stream ds"
    and "leaf_stream ds' = (if r = Inr () then channel_push leaf (leaf_stream ds) else leaf_stream ds)"
proof -
  have "sql_synced in_tx ds' \<and> block_stream ds' = block_stream ds \<and>
    leaf_stream ds' = (if r = Inr () then channel_push leaf (leaf_stream ds) else leaf_stream ds)"
  proof (cases "leaf_statements N S leaf")
    case (Inl e)
    with assms show ?thesis by (auto simp: sql_insert_leaf_def)
  next
    case (Inr stmts)
    obtain x ds1 where x: "run_statements C stmts ds = (x, ds1)" by fastforce
    note run_statements_synced [OF assms(1,2) x]
    with assms(3) Inr x show ?thesis by (cases x) (auto simp: sql_insert_leaf_def sql_synced_def)
  qed
  then show "sql_synced in_tx ds'" "block_stream ds' = block_stream ds"
    "leaf_stream ds' = (if r = Inr () then channel_push leaf (leaf_stream ds) else leaf_stream ds)"
    by blast+
qed

lemma sql_insert_block_effect:
  assumes "client_laws C in_tx" and "sql_synced in_tx ds"
    and "sql_insert_block N C S block ds = (r, ds')"
  shows "sql_synced in_tx ds'" and "leaf_stream ds' = leaf_stream ds"
    and "block_stream ds' = (if r = Inr () then channel_push block (block_stream ds)
      else block_stream ds)"
proof -
  have "sql_synced in_tx ds' \<and> leaf_stream ds' = leaf_stream ds \<and>
    block_stream ds' = (if r = Inr () then channel_push block (block_stream ds) else block_stream ds)"
  proof (cases "block_statements N S block")
    case (Inl e)
    with assms show ?thesis by (auto simp: sql_insert_block_def)
  next
    case (Inr stmts)
    obtain x ds1 where x: "run_statements C stmts ds = (x, ds1)" by fastforce
    note run_statements_synced [OF assms(1,2) x]
    with assms(3) Inr x show ?thesis by (cases x) (auto simp: sql_insert_block_def sql_synced_def)
  qed
  then show "sql_synced in_tx ds'" "leaf_stream ds' = leaf_stream ds"
    "block_stream ds' = (if r = Inr () then channel_push block (block_stream ds) else block_stream ds)"
    by blast+
qed

lemma sql_commit_cases:
  assumes "client_laws C in_tx" and "sql_synced in_tx ds" and "sql_commit C ds = (r, ds')"
  obtains
    (failed) e c where "r = Inl (Failure e)" "ds' = ds\<lparr>client := c\<rparr>" "in_tx c = in_tx (client ds)"
  | (finished) c where "r = Inr ()" "\<not> in_tx c"
      "ds' = ds\<lparr>client := c, tx_in_progress := False,
         leaf_stream := channel_flush (leaf_stream ds),
         block_stream := channel_flush (block_stream ds)\<rparr>"
proof (cases "tx_in_progress ds")
  case False
  then have "\<not> in_tx (client ds)" using assms(2) by (simp add: sql_synced_def)
  moreover have "r = Inr ()" "ds' = ds\<lparr>client := client ds, tx_in_progress := False,
         leaf_stream := channel_flush (leaf_stream ds),
         block_stream := channel_flush (block_stream ds)\<rparr>"
    using False assms(3) by (auto simp: sql_commit_def Let_def)
  ultimately show thesis using finished by blast
next
  case True
  obtain x c where x: "batch_execute C (client ds) ''COMMIT'' = (x, c)" by fastforce
  show thesis
  proof (cases x)
    case (Inl e)
    then have "in_tx c = in_tx (client ds)" using assms(1) x unfolding client_laws_def by blast
    moreover have "r = Inl (Failure e)" "ds' = ds\<lparr>client := c\<rparr>"
      using True Inl assms(3) x by (auto simp: sql_commit_def)
    ultimately show thesis using failed by blast
  next
    case (Inr u)
    then have "\<not> in_tx c" using assms(1) x unfolding client_laws_def by blast
    moreover have "r = Inr ()" "ds' = ds\<lparr>client := c, tx_in_progress := False,
         leaf_stream := channel_flush (leaf_stream ds),
         block_stream := channel_flush (block_stream ds)\<rparr>"
      using True Inr assms(3) x by (auto simp: sql_commit_def Let_def)
    ultimately show thesis using finished by blast
  qed
qed

lemma sql_revert_cases:
  assumes "client_laws C in_tx" and "sql_synced in_tx ds" and "sql_revert C ds = (r, ds')"
  obtains
    (panic) m c where "r = Inl (Panic m)" "ds' = ds\<lparr>client := c\<rparr>" "in_tx c = in_tx (client ds)"
  | (finished) c where "r = Inr ()" "\<not> in_tx c"
      "ds' = ds\<lparr>client := c, tx_in_progress := False,
         leaf_stream := channel_clear (leaf_stream ds),
         block_stream := channel_clear (block_stream ds)\<rparr>"
proof (cases "tx_in_progress ds")
  case False
  then have "\<not> in_tx (client ds)" using assms(2) by (simp add: sql_synced_def)
  moreover have "r = Inr ()" "ds' = ds\<lparr>client := client ds, tx_in_progress := False,
         leaf_stream := channel_clear (leaf_stream ds),
         block_stream := channel_clear (block_stream ds)\<rparr>"
    using False assms(3) by (auto simp: sql_revert_def Let_def)
  ultimately show thesis using finished by blast
next
  case True
  obtain x c where x: "batch_execute C (client ds) ''ROLLBACK'' = (x, c)" by fastforce
  show thesis
  proof (cases x)
    case (Inl e)
    then have "in_tx c = in_tx (client ds)" using assms(1) x unfolding client_laws_def by blast
    moreover have "r = Inl (Panic (''DB rollback succeeds: '' @ pe_display C e))"
        "ds' = ds\<lparr>client := c\<rparr>"
      using True Inl assms(3) x by (auto simp: sql_revert_def)
    ultimately show thesis using panic by blast
  next
    case (Inr u)
    then have "\<not> in_tx c" using assms(1) x unfolding client_laws_def by blast
    moreover have "r = Inr ()" "ds' = ds\<lparr>client := c, tx_in_progress := False,
         leaf_stream := channel_clear (leaf_stream ds),
         block_stream := channel_clear (block_stream ds)\<rparr>"
      using True Inr assms(3) x by (auto simp: sql_revert_def Let_def)
    ultimately show thesis using finished by blast
  qed
qed

section \<open>Statements\<close>

text \<open>The tuple of the \<open>k\<close>-th transaction and the parameters it refers to.\<close>

definition value_tuple :: "nat \<Rightarrow> string" where
  "value_tuple k = ''($'' @ decimal (3 * k + 1) @ '',$'' @ decimal (3 * k + 2) @ '',$''
     @ decimal (3 * k + 3) @ '')''"

lemma transaction_rows_numbered:
  assumes "transaction_rows N S height items vals params = Inr (vals', params')"
    and "vals = map value_tuple [0..<n]" and "length params = 3 * n"
  shows "vals' = map value_tuple [0..<n + length items] \<and>
    length params' = 3 * (n + length items) \<and> take (3 * n) params' = params \<and>
    (\<forall>k < length items. \<exists>ix tx json. items ! k = Inr (ix, tx) \<and> index_to_json S ix = Inr json \<and>
       take 3 (drop (3 * (n + k)) params')
         = [SqlText (hash_to_string S (tx_commit N tx)), SqlBigint height, SqlJson json])"
  using assms
proof (induction N S height items vals params arbitrary: n rule: transaction_rows.induct)
  case (1 N S height vals params)
  then show ?case by simp
next
  case (2 N S height e items vals params)
  then show ?case by simp
next
  case (3 N S height txn_ix txn items vals params)
  then obtain json where json: "index_to_json S txn_ix = Inr json"
    by (cases "index_to_json S txn_ix") (auto simp: msg_err_def)
  let ?row = "[SqlText (hash_to_string S (tx_commit N txn)), SqlBigint height, SqlJson json]"
  have IH: "vals' = map value_tuple [0..<Suc n + length items] \<and>
    length params' = 3 * (Suc n + length items) \<and> take (3 * Suc n) params' = params @ ?row \<and>
    (\<forall>k < length items. \<exists>ix tx json. items ! k = Inr (ix, tx) \<and> index_to_json S ix = Inr json \<and>
       take 3 (drop (3 * (Suc n + k)) params')
         = [SqlText (hash_to_string S (tx_commit N tx)), SqlBigint height, SqlJson json])"
  proof (rule "3.IH")
    show "msg_err ''failed to serialize transaction index: '' (index_to_json S txn_ix) = Inr json"
      by (simp add: json msg_err_def)
    show "transaction_rows N S height items
        (vals @ [''($'' @ decimal (length params + 1) @ '',$'' @ decimal (length params + 2)
                   @ '',$'' @ decimal (length params + 3) @ '')''])
        (params @ [SqlText (hash_to_string S (tx_commit N txn)), SqlBigint height, SqlJson json])
      = Inr (vals', params')"
      using 3(2) by (simp add: json msg_err_def)
    show "vals @ [''($'' @ decimal (length params + 1) @ '',$'' @ decimal (length params + 2)
                   @ '',$'' @ decimal (length params + 3) @ '')''] = map value_tuple [0..<Suc n]"
      using 3(3,4) by (simp add: value_tuple_def)
  qed (use 3(4) in simp)
  have prefix: "take (3 * n) params' = params"
    using IH 3(4) by (metis append_eq_conv_conj le_add2 min.absorb1 mult_Suc_right take_take)
  have row: "take 3 (drop (3 * n) params') = ?row"
    using IH 3(4) by (metis append_eq_conv_conj add.commute drop_take mult_Suc_right diff_add_inverse)
  show ?case
  proof (intro conjI allI impI)
    show "vals' = map value_tuple [0..<n + length (Inr (txn_ix, txn) # items)]"
      "length params' = 3 * (n + length (Inr (txn_ix, txn) # items))" using IH by simp_all
    show "take (3 * n) params' = params" by (rule prefix)
    fix k
    assume "k < length (Inr (txn_ix, txn) # items)"
    then show "\<exists>ix tx json. (Inr (txn_ix, txn) # items) ! k = Inr (ix, tx) \<and>
        index_to_json S ix = Inr json \<and>
        take 3 (drop (3 * (n + k)) params')
          = [SqlText (hash_to_string S (tx_commit N tx)), SqlBigint height, SqlJson json]"
      using row json IH by (cases k) auto
  qed
qed

section \<open>Sequences of insertions\<close>

fun sql_insert_leaves where
  "sql_insert_leaves N C S [] ds = (Inr (), ds)"
| "sql_insert_leaves N C S (leaf # leaves) ds =
     attempt (sql_insert_leaf N C S leaf ds) (\<lambda>_ ds. sql_insert_leaves N C S leaves ds)"

lemma sql_insert_leaves_effect:
  assumes laws: "client_laws C in_tx"
  shows "sql_synced in_tx ds \<Longrightarrow> sql_insert_leaves N C S leaves ds = (Inr u, ds') \<Longrightarrow>
    sql_synced in_tx ds' \<and> leaf_stream ds' = fold channel_push leaves (leaf_stream ds)"
proof (induction leaves arbitrary: ds)
  case Nil
  then show ?case by simp
next
  case (Cons leaf leaves)
  obtain ds1 where one: "sql_insert_leaf N C S leaf ds = (Inr (), ds1)"
      "sql_insert_leaves N C S leaves ds1 = (Inr u, ds')"
    using Cons.prems(2) by (auto simp: attempt_ok)
  show ?case
    using sql_insert_leaf_effect [OF laws Cons.prems(1) one(1)] Cons.IH one(2) by simp
qed

end
