(* ===== verification/SqlProps.thy ===== *)
theory SqlProps
  imports SqlTx
begin

text \<open>
  The properties of the SQL data source: its transaction state machine, what reaches subscribers
  when, the ranges it asks the database for, the conversions of sizes, and the parameter numbering
  of the statements it builds.
\<close>

section \<open>Ranges\<close>

text \<open>
  The where clause of a range has one numbered parameter per bound, and a stored height
  satisfies its conditions exactly when it lies in the range, as long as the bounds are below
  \<open>2 ^ 63\<close>.
\<close>

theorem where_clause_selects_range:
  assumes "uint h < 2 ^ 63" and "uint (bound_value start) < 2 ^ 63"
    and "uint (bound_value end_bound) < 2 ^ 63"
  shows "bounds_to_where_clause start end_bound column =
     (let texts = map (\<lambda>(k, op, n). column @ '' '' @ op @ '' $'' @ decimal k)
            (zip [1..<3] (conditions start end_bound))
      in (if texts = [] then [] else '' WHERE '' @ joined '' AND '' texts,
          map snd (conditions start end_bound))) \<and>
    ((\<forall>c \<in> set (conditions start end_bound). sql_holds h c) \<longleftrightarrow> range_contains start end_bound h)"
  using bounds_to_where_clause_conditions conditions_hold [OF assms] by blast

theorem where_clause_selects_range_witness:
  "bounds_to_where_clause (Included 5) (Excluded 9) ''height''
     = ('' WHERE height >= $1 AND height < $2'', [5, 9])"
  using where_clause_selects_range [of 7 "Included 5" "Excluded 9" "''height''"]
  by (simp add: conditions_def numeral_3_eq_3 upt_rec decimal_digit)

text \<open>
  A range that starts at or above \<open>2 ^ 63\<close> is passed as a negative number: every stored height
  satisfies the condition although none lies in the range.
\<close>

theorem where_clause_wraps:
  assumes "uint h < 2 ^ 63" and "2 ^ 63 \<le> uint n"
  shows "(\<forall>c \<in> set (conditions (Included n) Unbounded). sql_holds h c) \<and>
    \<not> range_contains (Included n) Unbounded h"
proof -
  have "sint n \<le> sint h"
    using sint_64_small [OF assms(1)] sint_64_large [OF assms(2)] uint_ge_0 [of h] by linarith
  then show ?thesis using assms by (simp add: conditions_def range_contains_def word_le_def)
qed

theorem where_clause_wraps_witness:
  "sql_holds 3 (''>='', 9223372036854775808) \<and>
   \<not> range_contains (Included 9223372036854775808) Unbounded 3"
  using where_clause_wraps [of 3 9223372036854775808] by (simp add: conditions_def)

section \<open>Sizes\<close>

text \<open>
  The size of a block is stored as a 32-bit integer: sizes below \<open>2 ^ 31\<close> read back unchanged,
  and no size between \<open>2 ^ 31\<close> and \<open>2 ^ 64 - 2 ^ 31\<close> does.
\<close>

theorem stored_size_round_trip:
  "(uint w < 2 ^ 31 \<longrightarrow> i32_as_u64 (u64_as_i32 w) = w) \<and>
   (2 ^ 31 \<le> uint w \<and> uint w < 2 ^ 64 - 2 ^ 31 \<longrightarrow> i32_as_u64 (u64_as_i32 w) \<noteq> w)"
proof (intro conjI impI)
  assume "uint w < 2 ^ 31"
  then show "i32_as_u64 (u64_as_i32 w) = w" by (rule stored_size_small)
next
  assume w: "2 ^ 31 \<le> uint w \<and> uint w < 2 ^ 64 - 2 ^ 31"
  define r where "r = (uint w mod 2 ^ 32 + 2 ^ 31) mod 2 ^ 32 - 2 ^ 31"
  have r: "- (2 ^ 31) \<le> r" "r < 2 ^ 31" by (simp_all add: r_def)
  have "uint (i32_as_u64 (u64_as_i32 w)) = r mod 2 ^ 64" unfolding size_read_back r_def ..
  also have "\<dots> = (if 0 \<le> r then r else r + 2 ^ 64)"
  proof (cases "0 \<le> r")
    case False
    then have "r mod 2 ^ 64 = (r + 2 ^ 64) mod 2 ^ 64" by simp
    also have "\<dots> = r + 2 ^ 64" using False r by (intro mod_pos_pos_trivial) auto
    finally show ?thesis using False by simp
  qed (use r in simp)
  finally have "uint (i32_as_u64 (u64_as_i32 w)) \<noteq> uint w" using r w by auto
  then show "i32_as_u64 (u64_as_i32 w) \<noteq> w" by auto
qed

theorem stored_size_round_trip_witness:
  "i32_as_u64 (u64_as_i32 1000) = 1000 \<and> i32_as_u64 (u64_as_i32 (2 ^ 31)) \<noteq> 2 ^ 31"
  using stored_size_round_trip [of 1000] stored_size_round_trip [of "2 ^ 31"] by simp

section \<open>Statements\<close>

text \<open>
  The multi-row insertion of a block's transactions is consistent: one tuple per transaction,
  the \<open>k\<close>-th naming the parameters \<open>3k+1\<close> to \<open>3k+3\<close>, and these are the transaction's hash, the
  block's height and its index.
\<close>

theorem transaction_rows_consistent:
  assumes "transaction_rows N S height items [] [] = Inr (vals, params)"
  shows "vals = map value_tuple [0..<length items] \<and> length params = 3 * length items \<and>
    (\<forall>k < length items. \<exists>ix tx json. items ! k = Inr (ix, tx) \<and> index_to_json S ix = Inr json \<and>
       take 3 (drop (3 * k) params)
         = [SqlText (hash_to_string S (tx_commit N tx)), SqlBigint height, SqlJson json])"
  using transaction_rows_numbered [OF assms, of 0] by simp

text \<open>Conversions for the mock types: JSON is a list of numbers.\<close>

definition mock_serde ::
    "(nat \<times> nat \<times> nat \<times> nat list option, nat, nat, nat list, nat, nat, nat, unit, nat list)
       serde_ops" where
  "mock_serde =
     \<lparr>leaf_to_json = (\<lambda>(n, pk, qc, pl). Inr ([n, pk, qc] @ (case pl of None \<Rightarrow> [] | Some p \<Rightarrow> 1 # p))),
      leaf_from_json = (\<lambda>j. Inr (j ! 0, j ! 1, j ! 2, if length j = 3 then None else Some (drop 4 j))),
      qc_to_json = (\<lambda>q. Inr [q]), qc_from_json = (\<lambda>j. Inr (j ! 0)),
      header_to_json = (\<lambda>h. Inr [h]), header_from_json = (\<lambda>j. Inr (j ! 0)),
      index_to_json = (\<lambda>i. Inr [i]), index_from_json = (\<lambda>j. Inr (j ! 0)),
      hash_to_string = decimal, hash_from_string = (\<lambda>s. Inr (parse_decimal s)),
      pk_to_string = decimal, header_metadata = (\<lambda>_. ()),
      payload_from_bytes = (\<lambda>bytes _. bytes), encode_error = (\<lambda>_. [])\<rparr>"

theorem transaction_rows_consistent_witness:
  "\<exists>params. transaction_rows mock_types mock_serde 3 [Inr (0, 8), Inr (1, 9)] [] []
     = Inr ([value_tuple 0, value_tuple 1], params) \<and> length params = 6"
proof -
  obtain vals params where
    run: "transaction_rows mock_types mock_serde 3 [Inr (0, 8), Inr (1, 9)] [] [] = Inr (vals, params)"
    by (simp add: msg_err_def mock_serde_def)
  from transaction_rows_consistent [OF run] run show ?thesis by (simp add: upt_rec)
qed

section \<open>Reading back\<close>

text \<open>
  A stored block reads back as itself when its size fits 31 bits and the conversions round
  trip; a row without payload is \<^verbatim>\<open>Missing\<close>.
\<close>

theorem parse_block_round_trip:
  assumes "row_integer_opt C row ''payload_size'' = Inr (Some (u64_as_i32 (bq_size b)))"
    and "row_bytes_opt C row ''payload_data'' = Inr (Some bytes)"
    and "row_json C row ''header_data'' = Inr json"
    and "row_text C row ''hash'' = Inr (hash_to_string S (bq_hash b))"
    and "header_from_json S json = Inr (bq_header b)"
    and "hash_from_string S (hash_to_string S (bq_hash b)) = Inr (bq_hash b)"
    and "payload_from_bytes S bytes (header_metadata S (bq_header b)) = bq_payload b"
    and "uint (bq_size b) < 2 ^ 31"
  shows "parse_block C S row = Inr b"
proof -
  have "i32_as_u64 (u64_as_i32 (bq_size b)) = bq_size b"
    by (rule stored_size_small [OF assms(8)])
  with assms(1-7) show ?thesis
    by (simp add: parse_block_def row_err_def msg_err_def zip_opt_def)
qed

text \<open>A client whose rows are association lists and which holds no data.\<close>

type_synonym mock_row = "(string \<times> nat list sql_value) list"

definition mock_client :: "(bool \<times> bool \<times> nat, mock_row, nat list, string) client_ops" where
  "mock_client =
     \<lparr>query_opt = (\<lambda>c q ps. Inr None), query_one = (\<lambda>c q ps. Inl ''no row''),
      query_raw = (\<lambda>c q ps. Inr []),
      execute_raw = (\<lambda>(tx, ab, n) q ps.
        if ab \<or> (\<exists>p \<in> set ps. p = SqlBigint 666) then (Inl ''refused'', (tx, True, n))
        else (Inr 1, (tx, ab, n))),
      batch_execute = (\<lambda>(tx, ab, n) q.
        if q = ''BEGIN'' then (Inr (), (True, False, n))
        else if q = ''COMMIT'' then (Inr (), (False, False, if ab then n else n + 1))
        else (Inr (), (False, False, n))),
      row_json = (\<lambda>row col. case map_of row col of Some (SqlJson j) \<Rightarrow> Inr j | _ \<Rightarrow> Inl col),
      row_text = (\<lambda>row col. case map_of row col of Some (SqlText t) \<Rightarrow> Inr t | _ \<Rightarrow> Inl col),
      row_integer_opt = (\<lambda>row col. case map_of row col of
        Some (SqlInteger n) \<Rightarrow> Inr (Some n) | None \<Rightarrow> Inr None | _ \<Rightarrow> Inl col),
      row_bytes_opt = (\<lambda>row col. case map_of row col of
        Some (SqlBytes bs) \<Rightarrow> Inr (Some bs) | None \<Rightarrow> Inr None | _ \<Rightarrow> Inl col),
      row_first_bigint = (\<lambda>row. Inr 0), row_first_bigint_opt = (\<lambda>row. Inr None),
      pe_display = id\<rparr>"

theorem parse_block_round_trip_witness:
  "parse_block mock_client mock_serde
     [(''payload_size'', SqlInteger 3), (''payload_data'', SqlBytes [8, 9, 8]),
      (''header_data'', SqlJson [4]), (''hash'', SqlText (decimal 1))]
   = Inr \<lparr>bq_header = 4, bq_payload = [8, 9, 8], bq_hash = 1, bq_size = 3\<rparr>"
  by (rule parse_block_round_trip [where bytes = "[8, 9, 8]" and json = "[4]"])
    (simp_all add: mock_client_def mock_serde_def u64_as_i32_def)

section \<open>The state machine\<close>


lemma mock_client_laws: "client_laws mock_client fst"
  by (auto simp: client_laws_def mock_client_def split: if_splits)

definition mock_sql0 ::
    "(bool \<times> bool \<times> nat, unit, (nat \<times> nat \<times> nat \<times> nat list option, nat) leaf_query_data,
      (nat, nat list, nat) block_query_data) sql_data_source" where
  "mock_sql0 = \<lparr>client = (False, False, 0), tx_in_progress = False, leaf_stream = channel_init,
     block_stream = channel_init, sql_metrics = (), kill = True\<rparr>"

definition mock_lq :: "nat \<Rightarrow> (nat \<times> nat \<times> nat \<times> nat list option, nat) leaf_query_data" where
  "mock_lq n = \<lparr>lq_leaf = (n, 4, 0, None), lq_qc = 1000\<rparr>"

lemmas mock_sql_eval = sql_insert_leaf_def leaf_statements_def run_statements_def
  sql_transaction_def failure_err_def tx_execute_def mock_sql0_def mock_client_def mock_serde_def
  mock_lq_def msg_err_def mock_types_simps channel_init_def channel_push_def

lemma mock_sql_leaf:
  "sql_insert_leaf mock_types mock_client mock_serde (mock_lq 3) mock_sql0
     = (Inr (), mock_sql0\<lparr>client := (True, False, 0), tx_in_progress := True,
          leaf_stream := \<lparr>pending = [mock_lq 3], inner = []\<rparr>\<rparr>)"
  by (simp add: mock_sql_eval)


section \<open>What subscribers see\<close>


lemma mock_sql_leaves:
  "sql_insert_leaves mock_types mock_client mock_serde [mock_lq 3] mock_sql0
     = (Inr (), mock_sql0\<lparr>client := (True, False, 0), tx_in_progress := True,
          leaf_stream := \<lparr>pending = [mock_lq 3], inner = []\<rparr>\<rparr>)"
  by (simp add: mock_sql_leaf)

lemma mock_sql0_synced: "sql_synced fst mock_sql0"
  by (simp add: sql_synced_def mock_sql0_def)


text \<open>
  Leaves inserted and then reverted reach no subscriber, not even after a later commit of
  other leaves; reverting either succeeds and leaves no transaction open, or panics.
\<close>

theorem sql_revert_drops:
  assumes "client_laws C in_tx" and "sql_synced in_tx ds"
    and "sql_insert_leaves N C S leaves ds = (Inr u, ds1)" and "sql_revert C ds1 = (r, ds2)"
  shows "(r = Inr () \<and> \<not> in_tx (client ds2) \<and>
      (\<forall>more ds3 ds4. sql_insert_leaves N C S more ds2 = (Inr (), ds3) \<longrightarrow>
         sql_commit C ds3 = (Inr (), ds4) \<longrightarrow>
         channel_received (channel_subscribe (leaf_stream ds)) (leaf_stream ds4) = more)) \<or>
    (\<exists>m. r = Inl (Panic m))"
proof -
  from sql_insert_leaves_effect [OF assms(1-3)] have sync: "sql_synced in_tx ds1"
    and leaves: "leaf_stream ds1 = fold channel_push leaves (leaf_stream ds)" by blast+
  from assms(1) sync assms(4) show ?thesis
  proof (cases rule: sql_revert_cases)
    case (panic m c)
    then show ?thesis by simp
  next
    case (finished c)
    then have sync2: "sql_synced in_tx ds2"
      and stream2: "leaf_stream ds2 = channel_clear (fold channel_push leaves (leaf_stream ds))"
      by (simp_all add: sql_synced_def leaves)
    have "channel_received (channel_subscribe (leaf_stream ds)) (leaf_stream ds4) = more"
      if ins: "sql_insert_leaves N C S more ds2 = (Inr (), ds3)"
        and com: "sql_commit C ds3 = (Inr (), ds4)" for more ds3 ds4
    proof -
      from sql_insert_leaves_effect [OF assms(1) sync2 ins] have sync3: "sql_synced in_tx ds3"
        and stream3: "leaf_stream ds3 = fold channel_push more (leaf_stream ds2)" by blast+
      from assms(1) sync3 com have "leaf_stream ds4 = channel_flush (leaf_stream ds3)"
        by (cases rule: sql_commit_cases) simp_all
      then have "inner (leaf_stream ds4) = inner (leaf_stream ds) @ more"
        unfolding stream3 stream2 by (simp only: channel.push_clear_flush)
      then show ?thesis by (simp add: channel_received_def channel_subscribe_def)
    qed
    with finished show ?thesis by simp
  qed
qed

theorem sql_revert_drops_witness:
  "fst (sql_revert mock_client (mock_sql0\<lparr>client := (True, False, 0), tx_in_progress := True,
     leaf_stream := \<lparr>pending = [mock_lq 3], inner = []\<rparr>\<rparr>)) = Inr ()"
proof -
  have "fst (sql_revert mock_client (mock_sql0\<lparr>client := (True, False, 0), tx_in_progress := True,
     leaf_stream := \<lparr>pending = [mock_lq 3], inner = []\<rparr>\<rparr>)) \<noteq> Inl (Panic m)" for m
    by (simp add: sql_revert_def mock_client_def Let_def)
  with sql_revert_drops [OF mock_client_laws mock_sql0_synced mock_sql_leaves prod.collapse [symmetric]]
  show ?thesis by blast
qed

text \<open>
  PostgreSQL documents that a statement failing inside a transaction aborts it, and that
  committing an aborted transaction rolls it back and still succeeds. \<open>durable\<close> reads what other
  connections see.
\<close>

definition abort_laws where
  "abort_laws C aborted durable \<longleftrightarrow>
     (\<forall>c s ps e c'. execute_raw C c s ps = (Inl e, c') \<longrightarrow> aborted c') \<and>
     (\<forall>c s ps r c'. execute_raw C c s ps = (r, c') \<longrightarrow> durable c' = durable c) \<and>
     (\<forall>c. aborted c \<longrightarrow> (\<exists>c'. batch_execute C c ''COMMIT'' = (Inr (), c') \<and> durable c' = durable c))"

lemma tx_execute_many_aborts:
  assumes laws: "abort_laws C aborted durable"
  shows "tx_execute_many C c stmts = (r, c') \<Longrightarrow>
    durable c' = durable c \<and> (r \<noteq> Inr () \<longrightarrow> aborted c')"
proof (induction stmts arbitrary: c)
  case Nil
  then show ?case by simp
next
  case (Cons stmt stmts)
  obtain q ps where stmt: "stmt = (q, ps)" by fastforce
  obtain x c1 where x: "execute_raw C c q ps = (x, c1)" by fastforce
  have d: "durable c1 = durable c" using laws x unfolding abort_laws_def by blast
  show ?case
  proof (cases x)
    case (Inl e)
    then have "aborted c1" using laws x unfolding abort_laws_def by blast
    with Cons.prems stmt x Inl d show ?thesis by (auto simp: tx_execute_def)
  next
    case (Inr v)
    with Cons stmt x d show ?thesis by (auto simp: tx_execute_def)
  qed
qed


lemma mock_client_abort_laws: "abort_laws mock_client (\<lambda>c. fst (snd c)) (\<lambda>c. snd (snd c))"
  by (auto simp: abort_laws_def mock_client_def split: if_splits prod.splits)

definition mock_bad_block :: "(nat, nat list, nat) block_query_data" where
  "mock_bad_block = \<lparr>bq_header = 666, bq_payload = [], bq_hash = 1, bq_size = 0\<rparr>"

definition mock_sql_open where
  "mock_sql_open = mock_sql0\<lparr>client := (True, False, 0), tx_in_progress := True,
     leaf_stream := \<lparr>pending = [mock_lq 3], inner = []\<rparr>\<rparr>"

lemma mock_bad_statements:
  "\<exists>stmts. block_statements mock_types mock_serde mock_bad_block = Inr stmts"
  by (simp add: block_statements_def mock_bad_block_def mock_types_simps)

lemma mock_bad_insert:
  "\<exists>e ds1. sql_insert_block mock_types mock_client mock_serde mock_bad_block mock_sql_open
     = (Inl e, ds1)"
  by (simp add: sql_insert_block_def block_statements_def mock_bad_block_def mock_sql_open_def
      mock_sql_eval)


section \<open>Subscriptions\<close>

text \<open>
  A subscription from a height does not filter what the channel delivers: a leaf below the
  height that is inserted and committed after the subscription is yielded all the same.
\<close>

theorem sql_subscription_ignores_height:
  assumes "client_laws C in_tx" and "sql_synced in_tx ds"
    and "sql_subscribe_leaves C S height ds = Inr sub"
    and "sql_insert_leaf N C S leaf ds = (Inr u, ds1)" and "sql_commit C ds1 = (Inr v, ds2)"
  shows "Inr leaf \<in> set (sql_stream_items sub (leaf_stream ds2))"
proof -
  have one: "sql_insert_leaves N C S [leaf] ds = (Inr (), ds1)" using assms(4) by simp
  from sql_insert_leaves_effect [OF assms(1,2) one] have sync: "sql_synced in_tx ds1"
    and ch: "leaf_stream ds1 = fold channel_push [leaf] (leaf_stream ds)" by blast+
  from assms(1) sync assms(5) have "leaf_stream ds2 = channel_flush (leaf_stream ds1)"
    by (cases rule: sql_commit_cases) simp_all
  then have "inner (leaf_stream ds2) = inner (leaf_stream ds) @ pending (leaf_stream ds) @ [leaf]"
    unfolding ch by (simp only: channel.push_flush)
  moreover have "snd sub = length (inner (leaf_stream ds))"
    using assms(3) by (auto simp: sql_subscribe_leaves_def channel_subscribe_def)
  ultimately show ?thesis by (simp add: sql_stream_items_def channel_received_def)
qed

theorem sql_subscription_ignores_height_witness:
  "\<exists>sub ds2. sql_subscribe_leaves mock_client mock_serde 10 mock_sql0 = Inr sub \<and>
    leaf_height mock_types (mock_lq 3) < 10 \<and>
    sql_commit mock_client (mock_sql0\<lparr>client := (True, False, 0), tx_in_progress := True,
      leaf_stream := \<lparr>pending = [mock_lq 3], inner = []\<rparr>\<rparr>) = (Inr (), ds2) \<and>
    Inr (mock_lq 3) \<in> set (sql_stream_items sub (leaf_stream ds2))"
proof -
  obtain sub where sub: "sql_subscribe_leaves mock_client mock_serde 10 mock_sql0 = Inr sub"
    by (simp add: sql_subscribe_leaves_def sql_get_leaf_range_def mock_client_def db_err_def
        split: prod.splits)
  obtain ds2 where com: "sql_commit mock_client (mock_sql0\<lparr>client := (True, False, 0),
      tx_in_progress := True, leaf_stream := \<lparr>pending = [mock_lq 3], inner = []\<rparr>\<rparr>) = (Inr (), ds2)"
    by (simp add: sql_commit_def mock_client_def Let_def)
  have "leaf_height mock_types (mock_lq 3) < 10" by (simp add: mock_types_simps mock_lq_def)
  moreover have "Inr (mock_lq 3) \<in> set (sql_stream_items sub (leaf_stream ds2))"
    by (rule sql_subscription_ignores_height [OF mock_client_laws mock_sql0_synced sub mock_sql_leaf com])
  ultimately show ?thesis using sub com by (intro exI [of _ sub] exI [of _ ds2]) simp
qed

end
