(* ===== verification/SqlSchema.thy ===== *)
theory SqlSchema
  imports SqlTx "HOL-Library.Multiset"
begin

text \<open>
  The tables of \<^verbatim>\<open>migrations/V10__init_schema.sql\<close> and what PostgreSQL documents of the
  statements \<^verbatim>\<open>src/data_source/sql.rs\<close> builds: \<open>tabs c\<close> are the tables as the connection \<open>c\<close>
  sees them, \<open>durable c\<close> as everybody else does. The promises speak of statements that succeed;
  one that fails aborts the open transaction. The connection is the only writer.
\<close>

section \<open>Tables\<close>

text \<open>
  \<^verbatim>\<open>BIGINT\<close> and \<^verbatim>\<open>INTEGER\<close> columns keep their width, a nullable column is an option, \<^verbatim>\<open>JSONB\<close> is
  the JSON type. A table is a list that stands for its rows in some order; the rows of
  \<^verbatim>\<open>transaction\<close> are in the order of their \<^verbatim>\<open>SERIAL\<close> key, which no statement reads otherwise.
\<close>

record 'j header_row =
  hr_height :: "64 word"
  hr_hash :: string
  hr_data :: 'j

record payload_row =
  pr_height :: "64 word"
  pr_size :: "32 word option"
  pr_data :: "nat list option"

record 'j leaf_row =
  lr_height :: "64 word"
  lr_hash :: string
  lr_proposer :: string
  lr_block_hash :: string
  lr_leaf :: 'j
  lr_qc :: 'j

record 'j transaction_row =
  tr_hash :: string
  tr_block_height :: "64 word"
  tr_index :: 'j

record 'j database =
  header_table :: "'j header_row list"
  payload_table :: "payload_row list"
  leaf_table :: "'j leaf_row list"
  transaction_table :: "'j transaction_row list"

definition empty_database :: "'j database" where
  "empty_database =
     \<lparr>header_table = [], payload_table = [], leaf_table = [], transaction_table = []\<rparr>"

text \<open>The primary keys, the unique column and the foreign keys of the schema.\<close>

definition schema_constraints :: "'j database \<Rightarrow> bool" where
  "schema_constraints db \<longleftrightarrow>
     distinct (map hr_height (header_table db)) \<and>
     distinct (map pr_height (payload_table db)) \<and>
     distinct (map lr_height (leaf_table db)) \<and>
     distinct (map lr_hash (leaf_table db)) \<and>
     set (map pr_height (payload_table db)) \<subseteq> set (map hr_height (header_table db)) \<and>
     set (map lr_height (leaf_table db)) \<subseteq> set (map hr_height (header_table db)) \<and>
     set (map tr_block_height (transaction_table db)) \<subseteq> set (map hr_height (header_table db))"

section \<open>Statements that change the tables\<close>

definition transaction_params :: "'j transaction_row list \<Rightarrow> 'j sql_value list" where
  "transaction_params rows =
     concat (map (\<lambda>r. [SqlText (tr_hash r), SqlBigint (tr_block_height r), SqlJson (tr_index r)]) rows)"

definition exec_laws ::
    "('c, 'row, 'j, 'pe) client_ops \<Rightarrow> ('c \<Rightarrow> 'j database) \<Rightarrow> bool" where
  "exec_laws C tabs \<longleftrightarrow>
     (\<forall>c h t j n c'.
        execute_raw C c ''INSERT INTO header (height, hash, data) VALUES ($1, $2, $3)''
          [SqlBigint h, SqlText t, SqlJson j] = (Inr n, c') \<longrightarrow>
        tabs c' = (tabs c)\<lparr>header_table := header_table (tabs c) @
          [\<lparr>hr_height = h, hr_hash = t, hr_data = j\<rparr>]\<rparr>) \<and>
     (\<forall>c h n c'.
        execute_raw C c ''INSERT INTO payload (height) VALUES ($1)'' [SqlBigint h] = (Inr n, c') \<longrightarrow>
        tabs c' = (tabs c)\<lparr>payload_table := payload_table (tabs c) @
          [\<lparr>pr_height = h, pr_size = None, pr_data = None\<rparr>]\<rparr>) \<and>
     (\<forall>c h t pk bt lj qj n c'.
        execute_raw C c
          (''INSERT INTO leaf (height, hash, proposer, block_hash, leaf, qc)''
             @ '' VALUES ($1, $2, $3, $4, $5, $6)'')
          [SqlBigint h, SqlText t, SqlText pk, SqlText bt, SqlJson lj, SqlJson qj] = (Inr n, c') \<longrightarrow>
        tabs c' = (tabs c)\<lparr>leaf_table := leaf_table (tabs c) @
          [\<lparr>lr_height = h, lr_hash = t, lr_proposer = pk, lr_block_hash = bt, lr_leaf = lj,
            lr_qc = qj\<rparr>]\<rparr>) \<and>
     (\<forall>c bytes sz h n c'.
        execute_raw C c ''UPDATE payload SET (data, size) = ($1, $2) WHERE height = $3''
          [SqlBytes bytes, SqlInteger sz, SqlBigint h] = (Inr n, c') \<longrightarrow>
        tabs c' = (tabs c)\<lparr>payload_table :=
          map (\<lambda>p. if pr_height p = h then p\<lparr>pr_size := Some sz, pr_data := Some bytes\<rparr> else p)
            (payload_table (tabs c))\<rparr>) \<and>
     (\<forall>c rows n c'. rows \<noteq> [] \<longrightarrow>
        execute_raw C c
          (''INSERT INTO transaction (hash, block_height, index) VALUES ''
             @ joined '','' (map value_tuple [0..<length rows]))
          (transaction_params rows) = (Inr n, c') \<longrightarrow>
        tabs c' = (tabs c)\<lparr>transaction_table := transaction_table (tabs c) @ rows\<rparr>)"

section \<open>Transactions\<close>

text \<open>
  Outside a transaction the connection sees what is durable. A statement inside one changes
  nothing durable; it cannot succeed once another has failed. \<^verbatim>\<open>COMMIT\<close> makes the transaction
  durable, or rolls it back when it is aborted; \<^verbatim>\<open>ROLLBACK\<close> always does.
\<close>

definition tx_laws ::
    "('c, 'row, 'j, 'pe) client_ops \<Rightarrow> ('c \<Rightarrow> bool) \<Rightarrow> ('c \<Rightarrow> bool) \<Rightarrow> ('c \<Rightarrow> 'j database)
      \<Rightarrow> ('c \<Rightarrow> 'j database) \<Rightarrow> bool" where
  "tx_laws C in_tx aborted tabs durable \<longleftrightarrow>
     (\<forall>c. \<not> in_tx c \<longrightarrow> \<not> aborted c \<and> tabs c = durable c) \<and>
     (\<forall>c r c'. batch_execute C c ''BEGIN'' = (r, c') \<longrightarrow> \<not> in_tx c \<longrightarrow>
        tabs c' = tabs c \<and> durable c' = durable c \<and> \<not> aborted c') \<and>
     (\<forall>c s ps r c'. execute_raw C c s ps = (r, c') \<longrightarrow> in_tx c \<longrightarrow> durable c' = durable c) \<and>
     (\<forall>c s ps n c'. execute_raw C c s ps = (Inr n, c') \<longrightarrow> in_tx c \<longrightarrow> \<not> aborted c \<and> \<not> aborted c') \<and>
     (\<forall>c s ps e c'. execute_raw C c s ps = (Inl e, c') \<longrightarrow> in_tx c \<longrightarrow> aborted c') \<and>
     (\<forall>c u c'. batch_execute C c ''COMMIT'' = (Inr u, c') \<longrightarrow> in_tx c \<longrightarrow>
        durable c' = (if aborted c then durable c else tabs c)) \<and>
     (\<forall>c u c'. batch_execute C c ''ROLLBACK'' = (Inr u, c') \<longrightarrow> durable c' = durable c)"

section \<open>Queries\<close>

text \<open>
  The rows of a query come as a list, in the order it asks for; a connection error may end the
  list early. \<open>streamed P rows xs\<close>: the rows show the results \<open>xs\<close>, up to the first error.
\<close>

fun streamed :: "('row \<Rightarrow> 'a \<Rightarrow> bool) \<Rightarrow> ('pe + 'row) list \<Rightarrow> 'a list \<Rightarrow> bool" where
  "streamed P [] xs \<longleftrightarrow> xs = []"
| "streamed P (Inl e # rows) xs \<longleftrightarrow> True"
| "streamed P (Inr row # rows) [] \<longleftrightarrow> False"
| "streamed P (Inr row # rows) (x # xs) \<longleftrightarrow> P row x \<and> streamed P rows xs"

definition shows_leaf ::
    "('c, 'row, 'j, 'pe) client_ops \<Rightarrow> 'row \<Rightarrow> 'j leaf_row \<Rightarrow> bool" where
  "shows_leaf C row r \<longleftrightarrow>
     row_json C row ''leaf'' = Inr (lr_leaf r) \<and> row_json C row ''qc'' = Inr (lr_qc r)"

definition shows_block ::
    "('c, 'row, 'j, 'pe) client_ops \<Rightarrow> 'row \<Rightarrow> 'j header_row \<times> payload_row \<Rightarrow> bool" where
  "shows_block C row = (\<lambda>(h, p).
     row_text C row ''hash'' = Inr (hr_hash h) \<and> row_json C row ''header_data'' = Inr (hr_data h) \<and>
     row_integer_opt C row ''payload_size'' = Inr (pr_size p) \<and>
     row_bytes_opt C row ''payload_data'' = Inr (pr_data p))"

text \<open>\<^verbatim>\<open>header AS h JOIN payload AS p ON h.height = p.height\<close>, and the join with \<^verbatim>\<open>transaction\<close>.\<close>

definition joined_blocks :: "'j database \<Rightarrow> ('j header_row \<times> payload_row) list" where
  "joined_blocks db =
     concat (map (\<lambda>h. map (Pair h) (filter (\<lambda>p. hr_height h = pr_height p) (payload_table db)))
       (header_table db))"

definition joined_transactions ::
    "'j database \<Rightarrow> ('j transaction_row \<times> 'j header_row \<times> payload_row) list" where
  "joined_transactions db =
     concat (map (\<lambda>t. map (Pair t) (filter (\<lambda>(h, p). tr_block_height t = hr_height h) (joined_blocks db)))
       (transaction_table db))"

text \<open>Heights are compared and sorted as signed integers.\<close>

definition leaves_by_height :: "'j leaf_row list \<Rightarrow> 'j leaf_row list" where
  "leaves_by_height rows = sort_key (\<lambda>r. sint (lr_height r)) rows"

definition blocks_by_height ::
    "('j header_row \<times> payload_row) list \<Rightarrow> ('j header_row \<times> payload_row) list" where
  "blocks_by_height rows = sort_key (\<lambda>(h, p). sint (hr_height h)) rows"

text \<open>\<^verbatim>\<open>query_opt\<close> fails unless there is at most one row.\<close>

definition reads_opt :: "('row \<Rightarrow> 'a \<Rightarrow> bool) \<Rightarrow> 'row option \<Rightarrow> 'a list \<Rightarrow> bool" where
  "reads_opt P r xs \<longleftrightarrow> (case r of None \<Rightarrow> xs = [] | Some row \<Rightarrow> \<exists>x. xs = [x] \<and> P row x)"

definition leaf_select_laws ::
    "('c, 'row, 'j, 'pe) client_ops \<Rightarrow> ('c \<Rightarrow> 'j database) \<Rightarrow> bool" where
  "leaf_select_laws C tabs \<longleftrightarrow>
     (\<forall>c n r. query_opt C c ''SELECT leaf, qc FROM leaf WHERE height = $1'' [SqlBigint n] = Inr r \<longrightarrow>
        reads_opt (shows_leaf C) r (filter (\<lambda>l. lr_height l = n) (leaf_table (tabs c)))) \<and>
     (\<forall>c t r. query_opt C c ''SELECT leaf, qc FROM leaf WHERE hash = $1'' [SqlText t] = Inr r \<longrightarrow>
        reads_opt (shows_leaf C) r (filter (\<lambda>l. lr_hash l = t) (leaf_table (tabs c)))) \<and>
     (\<forall>c start end_bound rows.
        query_raw C c
          (''SELECT leaf, qc FROM leaf '' @ where_text ''height'' (conditions start end_bound)
             @ '' ORDER BY height ASC'')
          (map (\<lambda>cond. SqlBigint (snd cond)) (conditions start end_bound)) = Inr rows \<longrightarrow>
        streamed (shows_leaf C) rows
          (leaves_by_height
            (filter (\<lambda>l. \<forall>cond \<in> set (conditions start end_bound). sql_holds (lr_height l) cond)
              (leaf_table (tabs c))))) \<and>
     (\<forall>c pk rows.
        query_raw C c ''SELECT leaf, qc FROM leaf WHERE proposer = $1'' [SqlText pk] = Inr rows \<longrightarrow>
        (\<exists>ls. mset ls = mset (filter (\<lambda>l. lr_proposer l = pk) (leaf_table (tabs c))) \<and>
           streamed (shows_leaf C) rows ls)) \<and>
     (\<forall>c pk k rows.
        query_raw C c
          (''SELECT leaf, qc FROM leaf WHERE proposer = $1'' @ '' ORDER BY height DESC limit ''
             @ decimal k) [SqlText pk] = Inr rows \<longrightarrow>
        streamed (shows_leaf C) rows
          (take k (rev (leaves_by_height
            (filter (\<lambda>l. lr_proposer l = pk) (leaf_table (tabs c))))))) \<and>
     (\<forall>c pk row.
        query_one C c ''SELECT count(*) FROM leaf WHERE proposer = $1'' [SqlText pk] = Inr row \<longrightarrow>
        row_first_bigint C row =
          Inr (of_nat (length (filter (\<lambda>l. lr_proposer l = pk) (leaf_table (tabs c))))))"

definition block_query :: "string \<Rightarrow> string" where
  "block_query rest =
     ''SELECT '' @ block_columns
       @ '' FROM header AS h JOIN payload AS p ON h.height = p.height'' @ rest"

definition block_select_laws ::
    "('c, 'row, 'j, 'pe) client_ops \<Rightarrow> ('c \<Rightarrow> 'j database) \<Rightarrow> bool" where
  "block_select_laws C tabs \<longleftrightarrow>
     (\<forall>c n r. query_opt C c (block_query '' WHERE h.height = $1 ORDER BY h.height ASC LIMIT 1'')
          [SqlBigint n] = Inr r \<longrightarrow>
        reads_opt (shows_block C) r
          (take 1 (blocks_by_height (filter (\<lambda>(h, p). hr_height h = n) (joined_blocks (tabs c)))))) \<and>
     (\<forall>c t r. query_opt C c (block_query '' WHERE h.hash = $1 ORDER BY h.height ASC LIMIT 1'')
          [SqlText t] = Inr r \<longrightarrow>
        reads_opt (shows_block C) r
          (take 1 (blocks_by_height (filter (\<lambda>(h, p). hr_hash h = t) (joined_blocks (tabs c)))))) \<and>
     (\<forall>c start end_bound rows.
        query_raw C c
          (block_query ('' '' @ where_text ''h.height'' (conditions start end_bound)
             @ '' ORDER BY h.height ASC''))
          (map (\<lambda>cond. SqlBigint (snd cond)) (conditions start end_bound)) = Inr rows \<longrightarrow>
        streamed (shows_block C) rows
          (blocks_by_height
            (filter (\<lambda>(h, p). \<forall>cond \<in> set (conditions start end_bound). sql_holds (hr_height h) cond)
              (joined_blocks (tabs c))))) \<and>
     (\<forall>c t r. query_opt C c
          (''SELECT '' @ block_columns @ '', t.index AS tx_index''
             @ '' FROM header AS h JOIN payload AS p ON h.height = p.height''
             @ '' JOIN transaction AS t ON t.block_height = h.height WHERE t.hash = $1''
             @ '' ORDER BY t.id ASC LIMIT 1'') [SqlText t] = Inr r \<longrightarrow>
        reads_opt
          (\<lambda>row (tx, block). shows_block C row block \<and> row_json C row ''tx_index'' = Inr (tr_index tx))
          r (take 1 (filter (\<lambda>(tx, block). tr_hash tx = t) (joined_transactions (tabs c))))) \<and>
     (\<forall>c row. query_one C c ''SELECT max(height) FROM header'' [] = Inr row \<longrightarrow>
        (case header_table (tabs c) of
           [] \<Rightarrow> row_first_bigint_opt C row = Inr None
         | _ \<Rightarrow> (\<exists>h \<in> set (header_table (tabs c)).
              row_first_bigint_opt C row = Inr (Some (hr_height h)) \<and>
              (\<forall>h' \<in> set (header_table (tabs c)). sint (hr_height h') \<le> sint (hr_height h)))))"

text \<open>All that is assumed of the database.\<close>

definition postgres_laws ::
    "('c, 'row, 'j, 'pe) client_ops \<Rightarrow> ('c \<Rightarrow> bool) \<Rightarrow> ('c \<Rightarrow> bool) \<Rightarrow> ('c \<Rightarrow> 'j database)
      \<Rightarrow> ('c \<Rightarrow> 'j database) \<Rightarrow> bool" where
  "postgres_laws C in_tx aborted tabs durable \<longleftrightarrow>
     client_laws C in_tx \<and> exec_laws C tabs \<and> tx_laws C in_tx aborted tabs durable \<and>
     leaf_select_laws C tabs \<and> block_select_laws C tabs \<and>
     (\<forall>c. schema_constraints (tabs c))"

lemma postgres_lawsD:
  assumes "postgres_laws C in_tx aborted tabs durable"
  shows "client_laws C in_tx" and "exec_laws C tabs" and "tx_laws C in_tx aborted tabs durable"
    and "leaf_select_laws C tabs" and "block_select_laws C tabs"
    and "schema_constraints (tabs c)"
  using assms by (simp_all add: postgres_laws_def)

lemmas postgres_insert = conjuncts5 [OF postgres_lawsD(2) [unfolded exec_laws_def], rule_format]

lemma postgres_idle:
  assumes "postgres_laws C in_tx aborted tabs durable" and "\<not> in_tx c"
  shows "\<not> aborted c" and "tabs c = durable c"
  using assms by (simp_all add: postgres_laws_def tx_laws_def)

lemma postgres_begin:
  assumes "postgres_laws C in_tx aborted tabs durable" and "\<not> in_tx c"
    and "batch_execute C c ''BEGIN'' = (r, c')"
  shows "tabs c' = tabs c" and "durable c' = durable c" and "\<not> aborted c'"
  using postgres_lawsD(3) [OF assms(1)] assms(2,3) unfolding tx_laws_def by metis+

lemma postgres_execute:
  assumes "postgres_laws C in_tx aborted tabs durable" and "in_tx c"
    and "execute_raw C c s ps = (r, c')"
  shows "in_tx c'" and "durable c' = durable c"
    and "r = Inr n \<Longrightarrow> \<not> aborted c \<and> \<not> aborted c'" and "r = Inl e \<Longrightarrow> aborted c'"
  using postgres_lawsD(1,3) [OF assms(1)] assms(2,3) unfolding tx_laws_def client_laws_def by metis+

lemma postgres_commit:
  assumes "postgres_laws C in_tx aborted tabs durable" and "in_tx c"
    and "batch_execute C c ''COMMIT'' = (Inr u, c')"
  shows "\<not> in_tx c'" and "durable c' = (if aborted c then durable c else tabs c)"
  using postgres_lawsD(1,3) [OF assms(1)] assms(2,3) unfolding tx_laws_def client_laws_def by metis+

lemma postgres_rollback:
  assumes "postgres_laws C in_tx aborted tabs durable"
    and "batch_execute C c ''ROLLBACK'' = (Inr u, c')"
  shows "\<not> in_tx c'" and "durable c' = durable c"
  using postgres_lawsD(1,3) [OF assms(1)] assms(2) unfolding tx_laws_def client_laws_def by metis+

lemmas postgres_select_leaf =
  conjuncts6 [OF postgres_lawsD(4) [unfolded leaf_select_laws_def], rule_format]

lemmas postgres_select_block =
  conjuncts5 [OF postgres_lawsD(5) [unfolded block_select_laws_def], rule_format]

end
