(* ===== verification/SqlTables.thy ===== *)
theory SqlTables
  imports SqlSchema
begin

text \<open>
  What the tables of the SQL data source represent: a ledger of leaves, each with its block once
  that is known, and the transactions in the order they were indexed. Insertions, commits and
  reverts are simulated by the operations of this ledger, committed atomically.
\<close>

section \<open>The ledger\<close>

record ('lq, 'bq, 'h, 'ix) sql_ledger =
  sl_entries :: "('lq \<times> 'bq option) list"
  sl_txs :: "('h \<times> 64 word \<times> 'ix) list"

definition empty_ledger :: "('lq, 'bq, 'h, 'ix) sql_ledger" where
  "empty_ledger = \<lparr>sl_entries = [], sl_txs = []\<rparr>"

definition ledger_add_leaf ::
    "'lq \<Rightarrow> ('lq, 'bq, 'h, 'ix) sql_ledger \<Rightarrow> ('lq, 'bq, 'h, 'ix) sql_ledger" where
  "ledger_add_leaf leaf L = L\<lparr>sl_entries := sl_entries L @ [(leaf, None)]\<rparr>"

definition ledger_add_block where
  "ledger_add_block N block L =
     L\<lparr>sl_entries := map (\<lambda>(leaf, b). if leaf_height N leaf = block_height N block
           then (leaf, Some block) else (leaf, b)) (sl_entries L),
       sl_txs := sl_txs L @ map (\<lambda>(ix, tx). (tx_commit N tx, block_height N block, ix))
         (payload_transactions N (bq_payload block))\<rparr>"

section \<open>What the tables show\<close>

text \<open>The promises of the conversions: what is written reads back.\<close>

definition serde_laws ::
    "('leaf, 'qc, 'hdr, 'pl, 'ix, 'h, 'pk, 'md, 'j) serde_ops \<Rightarrow> bool" where
  "serde_laws S \<longleftrightarrow>
     (\<forall>x j. leaf_to_json S x = Inr j \<longrightarrow> leaf_from_json S j = Inr x) \<and>
     (\<forall>x j. qc_to_json S x = Inr j \<longrightarrow> qc_from_json S j = Inr x) \<and>
     (\<forall>x j. header_to_json S x = Inr j \<longrightarrow> header_from_json S j = Inr x) \<and>
     (\<forall>x j. index_to_json S x = Inr j \<longrightarrow> index_from_json S j = Inr x) \<and>
     (\<forall>h. hash_from_string S (hash_to_string S h) = Inr h) \<and> inj (pk_to_string S)"

definition header_shown ::
    "('leaf, 'qc, 'hdr, 'pl, 'tx, 'ix, 'pf, 'h, 'pk) node_types
      \<Rightarrow> ('leaf, 'qc, 'hdr, 'pl, 'ix, 'h, 'pk, 'md, 'j) serde_ops
      \<Rightarrow> ('leaf, 'qc) leaf_query_data \<times> ('hdr, 'pl, 'h) block_query_data option \<Rightarrow> 'j header_row \<Rightarrow> bool" where
  "header_shown N S entry row \<longleftrightarrow>
     hr_height row = leaf_height N (fst entry) \<and>
     hr_hash row = hash_to_string S (leaf_block_hash N (fst entry)) \<and>
     header_from_json S (hr_data row) = Inr (leaf_block_header N (lq_leaf (fst entry)))"

definition payload_shown ::
    "('leaf, 'qc, 'hdr, 'pl, 'tx, 'ix, 'pf, 'h, 'pk) node_types
      \<Rightarrow> ('leaf, 'qc) leaf_query_data \<times> ('hdr, 'pl, 'h) block_query_data option \<Rightarrow> payload_row \<Rightarrow> bool" where
  "payload_shown N entry row \<longleftrightarrow>
     pr_height row = leaf_height N (fst entry) \<and>
     (case snd entry of
        None \<Rightarrow> pr_size row = None \<and> pr_data row = None
      | Some block \<Rightarrow> pr_size row = Some (u64_as_i32 (bq_size block)) \<and>
          (\<exists>bytes. pl_encode N (bq_payload block) = Some bytes \<and> pr_data row = Some bytes))"

definition leaf_shown ::
    "('leaf, 'qc, 'hdr, 'pl, 'tx, 'ix, 'pf, 'h, 'pk) node_types
      \<Rightarrow> ('leaf, 'qc, 'hdr, 'pl, 'ix, 'h, 'pk, 'md, 'j) serde_ops
      \<Rightarrow> ('leaf, 'qc) leaf_query_data \<times> ('hdr, 'pl, 'h) block_query_data option \<Rightarrow> 'j leaf_row \<Rightarrow> bool" where
  "leaf_shown N S entry row \<longleftrightarrow>
     lr_height row = leaf_height N (fst entry) \<and>
     lr_hash row = hash_to_string S (leaf_hash N (fst entry)) \<and>
     lr_proposer row = pk_to_string S (leaf_proposer N (fst entry)) \<and>
     leaf_from_json S (lr_leaf row) = Inr (lq_leaf (fst entry)) \<and>
     qc_from_json S (lr_qc row) = Inr (lq_qc (fst entry))"

definition transaction_shown ::
    "('leaf, 'qc, 'hdr, 'pl, 'ix, 'h, 'pk, 'md, 'j) serde_ops \<Rightarrow> 'h \<times> 64 word \<times> 'ix
      \<Rightarrow> 'j transaction_row \<Rightarrow> bool" where
  "transaction_shown S tx row \<longleftrightarrow>
     tr_hash row = hash_to_string S (fst tx) \<and> tr_block_height row = fst (snd tx) \<and>
     index_from_json S (tr_index row) = Inr (snd (snd tx))"

definition ledger_shown ::
    "('leaf, 'qc, 'hdr, 'pl, 'tx, 'ix, 'pf, 'h, 'pk) node_types
      \<Rightarrow> ('leaf, 'qc, 'hdr, 'pl, 'ix, 'h, 'pk, 'md, 'j) serde_ops
      \<Rightarrow> (('leaf, 'qc) leaf_query_data, ('hdr, 'pl, 'h) block_query_data, 'h, 'ix) sql_ledger
      \<Rightarrow> 'j database \<Rightarrow> bool" where
  "ledger_shown N S L db \<longleftrightarrow>
     list_all2 (header_shown N S) (sl_entries L) (header_table db) \<and>
     list_all2 (payload_shown N) (sl_entries L) (payload_table db) \<and>
     list_all2 (leaf_shown N S) (sl_entries L) (leaf_table db) \<and>
     list_all2 (transaction_shown S) (sl_txs L) (transaction_table db)"

lemma ledger_shown_empty [simp]: "ledger_shown N S empty_ledger empty_database"
  by (simp add: ledger_shown_def empty_ledger_def empty_database_def)

lemma header_shown_block:
  "header_shown N S (leaf, b) = header_shown N S (leaf, b')"
  "leaf_shown N S (leaf, b) = leaf_shown N S (leaf, b')"
  by (simp_all add: fun_eq_iff header_shown_def leaf_shown_def)

section \<open>Statements\<close>

lemma tx_execute_ok:
  "tx_execute C c s ps = (Inr u, c') \<longleftrightarrow> (\<exists>n. execute_raw C c s ps = (Inr n, c'))"
  by (auto simp: tx_execute_def split: prod.splits sum.splits)

lemma failure_err_ok [simp]: "failure_err C r = (Inr x, s) \<longleftrightarrow> r = (Inr x, s)"
  by (auto simp: failure_err_def split: prod.splits sum.splits failure.splits)

text \<open>
  Running statements from a state in step with the database: nothing durable changes; on success
  they ran one after the other inside a transaction that is not aborted; on failure either the
  transaction did not open, or it is aborted.
\<close>

lemma tx_execute_many_open:
  assumes laws: "postgres_laws C in_tx aborted tabs durable"
  shows "in_tx c \<Longrightarrow> tx_execute_many C c stmts = (r, c') \<Longrightarrow>
    in_tx c' \<and> durable c' = durable c \<and> (r \<noteq> Inr () \<longrightarrow> aborted c') \<and>
    (r = Inr () \<longrightarrow> aborted c' = aborted c \<and> (stmts \<noteq> [] \<longrightarrow> \<not> aborted c))"
proof (induction stmts arbitrary: c)
  case Nil
  then show ?case by simp
next
  case (Cons stmt stmts)
  obtain q ps where stmt: "stmt = (q, ps)" by fastforce
  obtain x c1 where x: "execute_raw C c q ps = (x, c1)" by fastforce
  note c1 = postgres_execute [OF laws Cons.prems(1) x]
  show ?case
  proof (cases x)
    case (Inl e)
    then have "aborted c1" by (rule c1(4))
    with Cons.prems stmt x Inl c1 show ?thesis by (auto simp: tx_execute_def)
  next
    case (Inr v)
    then have "\<not> aborted c" "\<not> aborted c1" using c1(3) by blast+
    moreover have "tx_execute_many C c1 stmts = (r, c')"
      using Cons.prems(2) stmt x Inr by (simp add: tx_execute_def)
    ultimately show ?thesis using Cons.IH [OF c1(1)] c1 by auto
  qed
qed

lemma sql_transaction_open:
  assumes laws: "postgres_laws C in_tx aborted tabs durable" and sync: "sql_synced in_tx ds"
    and run: "sql_transaction C ds = (r, ds')"
  shows "tabs (client ds') = tabs (client ds)" and "durable (client ds') = durable (client ds)"
    and "r = Inr () \<Longrightarrow> in_tx (client ds')"
    and "aborted (client ds') = aborted (client ds)"
proof -
  have cl: "client_laws C in_tx" using laws by (simp add: postgres_laws_def)
  show "r = Inr () \<Longrightarrow> in_tx (client ds')" by (rule sql_transaction_synced(4) [OF cl sync run])
  have "tabs (client ds') = tabs (client ds) \<and> durable (client ds') = durable (client ds) \<and>
      aborted (client ds') = aborted (client ds)"
  proof (cases "tx_in_progress ds")
    case True
    with run show ?thesis by (auto simp: sql_transaction_def)
  next
    case False
    then have out: "\<not> in_tx (client ds)" using sync by (simp add: sql_synced_def)
    obtain x c where x: "batch_execute C (client ds) ''BEGIN'' = (x, c)" by fastforce
    note postgres_begin [OF laws out x] postgres_idle(1) [OF laws out]
    moreover have "client ds' = c"
      using run False x by (cases x) (auto simp: sql_transaction_def)
    ultimately show ?thesis by simp
  qed
  then show "tabs (client ds') = tabs (client ds)" "durable (client ds') = durable (client ds)"
    "aborted (client ds') = aborted (client ds)" by blast+
qed

lemma run_statements_open:
  assumes laws: "postgres_laws C in_tx aborted tabs durable" and sync: "sql_synced in_tx ds"
    and run: "run_statements C stmts ds = (r, ds')"
  shows "durable (client ds') = durable (client ds)"
    and "r = Inr () \<Longrightarrow> in_tx (client ds') \<and> aborted (client ds') = aborted (client ds) \<and>
      (stmts \<noteq> [] \<longrightarrow> \<not> aborted (client ds)) \<and>
      (\<exists>c. in_tx c \<and> tabs c = tabs (client ds) \<and> tx_execute_many C c stmts = (Inr (), client ds'))"
    and "r \<noteq> Inr () \<Longrightarrow> aborted (client ds') \<or>
      (aborted (client ds') = aborted (client ds) \<and> tabs (client ds') = tabs (client ds))"
proof -
  obtain x ds1 where x: "sql_transaction C ds = (x, ds1)" by fastforce
  note one = sql_transaction_open [OF laws sync x]
  obtain z c where z: "tx_execute_many C (client ds1) stmts = (z, c)" by fastforce
  have run': "run_statements C stmts ds = (case x of
      Inr u \<Rightarrow> (fst (failure_err C (z, c)), ds1\<lparr>client := c\<rparr>)
    | Inl e \<Rightarrow> (fst (failure_err C (Inl e, ds1)), ds1))"
    using x z
    by (auto simp: run_statements_def failure_err_def split: sum.splits failure.splits)
  have "durable (client ds') = durable (client ds) \<and>
    (r = Inr () \<longrightarrow> in_tx (client ds') \<and> aborted (client ds') = aborted (client ds) \<and>
      (stmts \<noteq> [] \<longrightarrow> \<not> aborted (client ds)) \<and>
      (\<exists>c. in_tx c \<and> tabs c = tabs (client ds) \<and> tx_execute_many C c stmts = (Inr (), client ds'))) \<and>
    (r \<noteq> Inr () \<longrightarrow> aborted (client ds') \<or>
      (aborted (client ds') = aborted (client ds) \<and> tabs (client ds') = tabs (client ds)))"
  proof (cases x)
    case (Inl e)
    then have "ds' = ds1" "r \<noteq> Inr ()"
      using run run' by (auto simp: failure_err_def split: failure.splits)
    with one show ?thesis by simp
  next
    case (Inr u)
    then have in1: "in_tx (client ds1)" using one(3) by simp
    have "ds' = ds1\<lparr>client := c\<rparr>" and r: "r = Inr () \<longleftrightarrow> z = Inr ()"
      using run run' Inr by (auto simp: failure_err_def split: failure.splits sum.splits)
    with tx_execute_many_open [OF laws in1 z] one in1 z show ?thesis by auto
  qed
  then show "durable (client ds') = durable (client ds)"
    "r = Inr () \<Longrightarrow> in_tx (client ds') \<and> aborted (client ds') = aborted (client ds) \<and>
      (stmts \<noteq> [] \<longrightarrow> \<not> aborted (client ds)) \<and>
      (\<exists>c. in_tx c \<and> tabs c = tabs (client ds) \<and> tx_execute_many C c stmts = (Inr (), client ds'))"
    "r \<noteq> Inr () \<Longrightarrow> aborted (client ds') \<or>
      (aborted (client ds') = aborted (client ds) \<and> tabs (client ds') = tabs (client ds))"
    by blast+
qed

section \<open>Insertions\<close>

lemma sql_insert_leaf_shown:
  assumes laws: "postgres_laws C in_tx aborted tabs durable" and serde: "serde_laws S"
    and sync: "sql_synced in_tx ds" and shown: "ledger_shown N S L (tabs (client ds))"
    and run: "sql_insert_leaf N C S leaf ds = (Inr u, ds')"
  shows "ledger_shown N S (ledger_add_leaf leaf L) (tabs (client ds'))"
proof -
  obtain hj lj qj where json:
      "header_to_json S (leaf_block_header N (lq_leaf leaf)) = Inr hj"
      "leaf_to_json S (lq_leaf leaf) = Inr lj" "qc_to_json S (lq_qc leaf) = Inr qj"
    using run
    by (cases "header_to_json S (leaf_block_header N (lq_leaf leaf))";
        cases "leaf_to_json S (lq_leaf leaf)"; cases "qc_to_json S (lq_qc leaf)")
      (simp_all add: sql_insert_leaf_def leaf_statements_def msg_err_def)
  have parsed: "header_from_json S hj = Inr (leaf_block_header N (lq_leaf leaf))"
      "leaf_from_json S lj = Inr (lq_leaf leaf)" "qc_from_json S qj = Inr (lq_qc leaf)"
    using json serde unfolding serde_laws_def by blast+
  obtain stmts where stmts: "leaf_statements N S leaf = Inr stmts"
    using json by (simp add: leaf_statements_def msg_err_def)
  obtain ds1 where "run_statements C stmts ds = (Inr (), ds1)" and ds1: "client ds' = client ds1"
    using run stmts by (auto simp: sql_insert_leaf_def attempt_ok)
  then obtain c where c: "tabs c = tabs (client ds)"
      "tx_execute_many C c stmts = (Inr (), client ds1)"
    using run_statements_open(2) [OF laws sync] by blast
  obtain c1 c2 n1 n2 n3 where ran:
    "execute_raw C c ''INSERT INTO header (height, hash, data) VALUES ($1, $2, $3)''
        [SqlBigint (leaf_height N leaf), SqlText (hash_to_string S (leaf_block_hash N leaf)),
         SqlJson hj] = (Inr n1, c1)"
    "execute_raw C c1 ''INSERT INTO payload (height) VALUES ($1)''
        [SqlBigint (leaf_height N leaf)] = (Inr n2, c2)"
    "execute_raw C c2 (''INSERT INTO leaf (height, hash, proposer, block_hash, leaf, qc)''
         @ '' VALUES ($1, $2, $3, $4, $5, $6)'')
        [SqlBigint (leaf_height N leaf), SqlText (hash_to_string S (leaf_hash N leaf)),
         SqlText (pk_to_string S (leaf_proposer N leaf)),
         SqlText (hash_to_string S (leaf_block_hash N leaf)), SqlJson lj, SqlJson qj]
      = (Inr n3, client ds1)"
    using c(2) stmts json
    by (auto simp: leaf_statements_def msg_err_def attempt_ok tx_execute_ok simp del: append.simps)
  have "tabs (client ds') = (tabs (client ds))
      \<lparr>header_table := header_table (tabs (client ds)) @ [\<lparr>hr_height = leaf_height N leaf,
         hr_hash = hash_to_string S (leaf_block_hash N leaf), hr_data = hj\<rparr>],
       payload_table := payload_table (tabs (client ds)) @
         [\<lparr>pr_height = leaf_height N leaf, pr_size = None, pr_data = None\<rparr>],
       leaf_table := leaf_table (tabs (client ds)) @ [\<lparr>lr_height = leaf_height N leaf,
         lr_hash = hash_to_string S (leaf_hash N leaf),
         lr_proposer = pk_to_string S (leaf_proposer N leaf),
         lr_block_hash = hash_to_string S (leaf_block_hash N leaf), lr_leaf = lj, lr_qc = qj\<rparr>]\<rparr>"
    by (simp add: ds1 postgres_insert(3) [OF laws ran(3)]
        postgres_insert(2) [OF laws ran(2)] postgres_insert(1) [OF laws ran(1)] c(1))
  then show ?thesis
    using shown parsed
    by (simp add: ledger_shown_def ledger_add_leaf_def list_all2_appendI header_shown_def
        payload_shown_def leaf_shown_def)
qed

text \<open>The value tuples and parameters of the indexed transactions are rows of the table.\<close>

lemma transaction_rows_table:
  assumes serde: "serde_laws S"
  shows "transaction_rows N S height items (map value_tuple [0..<n]) params = Inr (vals, params') \<Longrightarrow>
    length params = 3 * n \<Longrightarrow>
    \<exists>txs rows. items = map Inr txs \<and> vals = map value_tuple [0..<n + length rows] \<and>
      params' = params @ transaction_params rows \<and> length rows = length items \<and>
      list_all2 (transaction_shown S) (map (\<lambda>(ix, tx). (tx_commit N tx, height, ix)) txs) rows"
proof (induction items arbitrary: n params)
  case Nil
  then show ?case by (auto simp: transaction_params_def)
next
  case (Cons item items)
  obtain ix tx where item: "item = Inr (ix, tx)" using Cons.prems(1) by (cases item) auto
  obtain j where j: "index_to_json S ix = Inr j"
    using Cons.prems(1) item by (cases "index_to_json S ix") (auto simp: msg_err_def)
  let ?row = "\<lparr>tr_hash = hash_to_string S (tx_commit N tx), tr_block_height = height, tr_index = j\<rparr>"
  have tuple: "value_tuple n = ''($'' @ decimal (length params + 1) @ '',$''
      @ decimal (length params + 2) @ '',$'' @ decimal (length params + 3) @ '')''"
    by (simp only: value_tuple_def Cons.prems(2))
  have "transaction_rows N S height items (map value_tuple [0..<Suc n])
      (params @ [SqlText (hash_to_string S (tx_commit N tx)), SqlBigint height, SqlJson j])
    = Inr (vals, params')"
    using Cons.prems(1) tuple by (simp add: item j msg_err_def)
  from Cons.IH [OF this] Cons.prems(2) obtain txs rows where
    "items = map Inr txs" "vals = map value_tuple [0..<Suc n + length rows]"
    "params' = (params @ [SqlText (hash_to_string S (tx_commit N tx)), SqlBigint height, SqlJson j])
       @ transaction_params rows" "length rows = length items"
    "list_all2 (transaction_shown S) (map (\<lambda>(ix, tx). (tx_commit N tx, height, ix)) txs) rows"
    by auto
  moreover have "index_from_json S j = Inr ix" using serde j unfolding serde_laws_def by blast
  ultimately show ?case
    by (intro exI [of _ "(ix, tx) # txs"] exI [of _ "?row # rows"])
      (simp add: item transaction_params_def transaction_shown_def [of S "(_, _)"])
qed

lemma payload_enumerate_ok:
  "payload_enumerate Q p = map Inr txs \<Longrightarrow> txs = payload_transactions Q p"
proof -
  have "map (\<lambda>ix. case payload_transaction Q p ix of Some tx \<Rightarrow> Inr (ix, tx)
      | None \<Rightarrow> Inl (Panic ''called Option::unwrap() on a None value'')) ixs = map Inr txs \<Longrightarrow>
    txs = map (\<lambda>ix. (ix, the (payload_transaction Q p ix))) ixs" for ixs
    by (induction ixs arbitrary: txs) (auto split: option.splits)
  then show "payload_enumerate Q p = map Inr txs \<Longrightarrow> txs = payload_transactions Q p"
    unfolding payload_enumerate_def payload_transactions_def by blast
qed

lemma sql_insert_block_shown:
  assumes laws: "postgres_laws C in_tx aborted tabs durable" and serde: "serde_laws S"
    and sync: "sql_synced in_tx ds" and shown: "ledger_shown N S L (tabs (client ds))"
    and run: "sql_insert_block N C S block ds = (Inr u, ds')"
  shows "ledger_shown N S (ledger_add_block N block L) (tabs (client ds'))"
proof -
  obtain stmts where stmts: "block_statements N S block = Inr stmts"
    using run by (auto simp: sql_insert_block_def split: sum.splits)
  then obtain bytes items vals params where bytes: "pl_encode N (bq_payload block) = Some bytes"
    and rows: "transaction_rows N S (block_height N block) items [] [] = Inr (vals, params)"
    and enum: "payload_enumerate N (bq_payload block) = items"
    by (auto simp: block_statements_def split: option.splits)
  have "\<exists>txs rows. items = map Inr txs \<and>
      vals = map value_tuple [0..<length rows] \<and> params = transaction_params rows \<and>
      length rows = length items \<and>
      list_all2 (transaction_shown S)
        (map (\<lambda>(ix, tx). (tx_commit N tx, block_height N block, ix)) txs) rows"
    using transaction_rows_table [OF serde, of N "block_height N block" items 0 "[]" vals params] rows
    by simp
  then obtain txs rows where items: "items = map Inr txs"
    and vals: "vals = map value_tuple [0..<length rows]" and params: "params = transaction_params rows"
    and indexed: "list_all2 (transaction_shown S)
      (map (\<lambda>(ix, tx). (tx_commit N tx, block_height N block, ix)) txs) rows"
    by blast
  have txs: "txs = payload_transactions N (bq_payload block)" by (rule payload_enumerate_ok [OF enum [unfolded items]])
  obtain ds1 where "run_statements C stmts ds = (Inr (), ds1)" and ds1: "client ds' = client ds1"
    using run stmts by (auto simp: sql_insert_block_def attempt_ok)
  then obtain c where c: "tabs c = tabs (client ds)"
      "tx_execute_many C c stmts = (Inr (), client ds1)"
    using run_statements_open(2) [OF laws sync] by blast
  obtain c1 n where update:
    "execute_raw C c ''UPDATE payload SET (data, size) = ($1, $2) WHERE height = $3''
       [SqlBytes bytes, SqlInteger (u64_as_i32 (bq_size block)), SqlBigint (block_height N block)]
     = (Inr n, c1)"
    and rest: "tx_execute_many C c1 (if vals \<noteq> []
       then [(''INSERT INTO transaction (hash, block_height, index) VALUES '' @ joined '','' vals, params)]
       else []) = (Inr (), client ds1)"
    using c(2) stmts bytes rows enum
    by (auto simp: block_statements_def attempt_ok tx_execute_ok simp del: append.simps)
  have "tabs (client ds1) = (tabs c1)\<lparr>transaction_table := transaction_table (tabs c1) @ rows\<rparr>"
  proof (cases "rows = []")
    case True
    with rest vals show ?thesis by simp
  next
    case False
    then obtain n' where "execute_raw C c1
        (''INSERT INTO transaction (hash, block_height, index) VALUES ''
          @ joined '','' (map value_tuple [0..<length rows])) (transaction_params rows)
      = (Inr n', client ds1)"
      using rest vals params by (auto simp: attempt_ok tx_execute_ok simp del: append.simps)
    then show ?thesis by (rule postgres_insert(5) [OF laws False])
  qed
  then have "tabs (client ds') = (tabs (client ds))
      \<lparr>payload_table := map (\<lambda>p. if pr_height p = block_height N block
         then p\<lparr>pr_size := Some (u64_as_i32 (bq_size block)), pr_data := Some bytes\<rparr> else p)
         (payload_table (tabs (client ds))),
       transaction_table := transaction_table (tabs (client ds)) @ rows\<rparr>"
    by (simp add: ds1 postgres_insert(4) [OF laws update] c(1))
  then show ?thesis
    using shown indexed txs bytes
    by (auto simp: ledger_shown_def ledger_add_block_def list_all2_appendI list_all2_map1
        list_all2_map2 header_shown_def payload_shown_def leaf_shown_def
        elim!: list_all2_mono split: option.splits)
qed

end
