(* ===== verification/SqlRefine.thy ===== *)
theory SqlRefine
  imports SqlTables
begin

text \<open>
  The refinement of the SQL data source to a ledger that is committed atomically: a committed
  ledger and the current one, which is lost when a statement fails (\<open>None\<close>) until the transaction
  is closed.
\<close>

section \<open>The abstract machine\<close>

inductive ledger_step for N where
  add_leaf: "ledger_step N (D, Some W) (D, Some (ledger_add_leaf leaf W))"
| add_block: "ledger_step N (D, Some W) (D, Some (ledger_add_block N block W))"
| fail: "ledger_step N (D, Some W) (D, None)"
| commit: "ledger_step N (D, Some W) (W, Some W)"
| revert: "ledger_step N (D, w) (D, Some D)"

text \<open>
  The runs considered: insertions, whatever they return, commits and reverts that return. (A commit
  that fails leaves open whether it took place; a revert that fails panics.)
\<close>

inductive sql_run_step ::
    "('leaf, 'qc, 'hdr, 'pl, 'tx, 'ix, 'pf, 'h, 'pk) node_types \<Rightarrow> ('c, 'row, 'j, 'pe) client_ops
      \<Rightarrow> ('leaf, 'qc, 'hdr, 'pl, 'ix, 'h, 'pk, 'md, 'j) serde_ops
      \<Rightarrow> ('c, 'm, ('leaf, 'qc) leaf_query_data, ('hdr, 'pl, 'h) block_query_data) sql_data_source
      \<Rightarrow> ('c, 'm, ('leaf, 'qc) leaf_query_data, ('hdr, 'pl, 'h) block_query_data) sql_data_source
      \<Rightarrow> bool" for N C S where
  leaf: "sql_insert_leaf N C S leaf ds = (r, ds') \<Longrightarrow> sql_run_step N C S ds ds'"
| block: "sql_insert_block N C S block ds = (r, ds') \<Longrightarrow> sql_run_step N C S ds ds'"
| commit: "sql_commit C ds = (Inr (), ds') \<Longrightarrow> sql_run_step N C S ds ds'"
| revert: "sql_revert C ds = (Inr () :: query_error failure + unit, ds') \<Longrightarrow> sql_run_step N C S ds ds'"

text \<open>The data source \<open>ds\<close> represents the committed ledger \<open>D\<close> and the current one \<open>w\<close>.\<close>

definition sql_rep ::
    "('c \<Rightarrow> bool) \<Rightarrow> ('c \<Rightarrow> bool) \<Rightarrow> ('c \<Rightarrow> 'j database) \<Rightarrow> ('c \<Rightarrow> 'j database)
      \<Rightarrow> ('leaf, 'qc, 'hdr, 'pl, 'tx, 'ix, 'pf, 'h, 'pk) node_types
      \<Rightarrow> ('leaf, 'qc, 'hdr, 'pl, 'ix, 'h, 'pk, 'md, 'j) serde_ops
      \<Rightarrow> (('leaf, 'qc) leaf_query_data, ('hdr, 'pl, 'h) block_query_data, 'h, 'ix) sql_ledger
      \<Rightarrow> (('leaf, 'qc) leaf_query_data, ('hdr, 'pl, 'h) block_query_data, 'h, 'ix) sql_ledger option
      \<Rightarrow> ('c, 'm, ('leaf, 'qc) leaf_query_data, ('hdr, 'pl, 'h) block_query_data) sql_data_source
      \<Rightarrow> bool" where
  "sql_rep in_tx aborted tabs durable N S D w ds \<longleftrightarrow>
     sql_synced in_tx ds \<and> ledger_shown N S D (durable (client ds)) \<and>
     (case w of
        None \<Rightarrow> aborted (client ds)
      | Some W \<Rightarrow> \<not> aborted (client ds) \<and> ledger_shown N S W (tabs (client ds)))"

section \<open>Simulation\<close>

lemma insertion_rep:
  assumes laws: "postgres_laws C in_tx aborted tabs durable"
    and rep: "sql_rep in_tx aborted tabs durable N S D w ds"
    and run: "run_statements C stmts ds = (x, ds1)" and stmts: "stmts \<noteq> []"
    and c: "client ds' = client ds1" and sync: "sql_synced in_tx ds'"
    and shown: "\<And>W. x = Inr () \<Longrightarrow> ledger_shown N S W (tabs (client ds)) \<Longrightarrow>
      ledger_shown N S (f W) (tabs (client ds'))"
  shows "x = Inr () \<Longrightarrow> \<exists>W. w = Some W \<and> sql_rep in_tx aborted tabs durable N S D (Some (f W)) ds'"
    and "x \<noteq> Inr () \<Longrightarrow> \<exists>w'. (w' = w \<or> w' = None) \<and> sql_rep in_tx aborted tabs durable N S D w' ds'"
proof -
  have "sql_synced in_tx ds" using rep by (simp add: sql_rep_def)
  note stmt = run_statements_open [OF laws this run]
  show "\<exists>W. w = Some W \<and> sql_rep in_tx aborted tabs durable N S D (Some (f W)) ds'" if "x = Inr ()"
  proof -
    from that have ok: "\<not> aborted (client ds)" "\<not> aborted (client ds')"
      using stmt(2) stmts c by auto
    then obtain W where W: "w = Some W" "ledger_shown N S W (tabs (client ds))"
      using rep by (auto simp: sql_rep_def split: option.splits)
    with shown [OF that W(2)] ok rep stmt(1) c sync show ?thesis by (simp add: sql_rep_def)
  qed
  show "\<exists>w'. (w' = w \<or> w' = None) \<and> sql_rep in_tx aborted tabs durable N S D w' ds'" if "x \<noteq> Inr ()"
    using stmt(1,3) that c rep sync by (auto simp: sql_rep_def split: option.splits)
qed

lemma sql_insert_leaf_rep:
  assumes laws: "postgres_laws C in_tx aborted tabs durable" and serde: "serde_laws S"
    and rep: "sql_rep in_tx aborted tabs durable N S D w ds"
    and run: "sql_insert_leaf N C S leaf ds = (r, ds')"
  shows "r = Inr () \<Longrightarrow>
      \<exists>W. w = Some W \<and> sql_rep in_tx aborted tabs durable N S D (Some (ledger_add_leaf leaf W)) ds'"
    and "r \<noteq> Inr () \<Longrightarrow> \<exists>w'. (w' = w \<or> w' = None) \<and> sql_rep in_tx aborted tabs durable N S D w' ds'"
proof -
  have cl: "client_laws C in_tx" and sync: "sql_synced in_tx ds"
    using laws rep by (simp_all add: postgres_laws_def sql_rep_def)
  have sync': "sql_synced in_tx ds'" by (rule sql_insert_leaf_effect(1) [OF cl sync run])
  have "(r = Inr () \<longrightarrow> (\<exists>W. w = Some W \<and>
        sql_rep in_tx aborted tabs durable N S D (Some (ledger_add_leaf leaf W)) ds')) \<and>
    (r \<noteq> Inr () \<longrightarrow> (\<exists>w'. (w' = w \<or> w' = None) \<and> sql_rep in_tx aborted tabs durable N S D w' ds'))"
  proof (cases "leaf_statements N S leaf")
    case (Inl e)
    with run rep show ?thesis by (auto simp: sql_insert_leaf_def)
  next
    case (Inr stmts)
    then have ne: "stmts \<noteq> []" by (auto simp: leaf_statements_def)
    obtain x ds1 where x: "run_statements C stmts ds = (x, ds1)" by fastforce
    have c: "client ds' = client ds1" and r: "r = Inr () \<longleftrightarrow> x = Inr ()"
      using run x Inr by (cases x; auto simp: sql_insert_leaf_def)+
    have "ledger_shown N S (ledger_add_leaf leaf W) (tabs (client ds'))"
      if "x = Inr ()" "ledger_shown N S W (tabs (client ds))" for W
      using run r that by (intro sql_insert_leaf_shown [OF laws serde sync that(2)]) simp
    from insertion_rep [where f = "ledger_add_leaf leaf", OF laws rep x ne c sync'] this r show ?thesis by blast
  qed
  then show "r = Inr () \<Longrightarrow>
      \<exists>W. w = Some W \<and> sql_rep in_tx aborted tabs durable N S D (Some (ledger_add_leaf leaf W)) ds'"
    "r \<noteq> Inr () \<Longrightarrow> \<exists>w'. (w' = w \<or> w' = None) \<and> sql_rep in_tx aborted tabs durable N S D w' ds'"
    by blast+
qed

lemma sql_insert_block_rep:
  assumes laws: "postgres_laws C in_tx aborted tabs durable" and serde: "serde_laws S"
    and rep: "sql_rep in_tx aborted tabs durable N S D w ds"
    and run: "sql_insert_block N C S block ds = (r, ds')"
  shows "r = Inr () \<Longrightarrow>
      \<exists>W. w = Some W \<and> sql_rep in_tx aborted tabs durable N S D (Some (ledger_add_block N block W)) ds'"
    and "r \<noteq> Inr () \<Longrightarrow> \<exists>w'. (w' = w \<or> w' = None) \<and> sql_rep in_tx aborted tabs durable N S D w' ds'"
proof -
  have cl: "client_laws C in_tx" and sync: "sql_synced in_tx ds"
    using laws rep by (simp_all add: postgres_laws_def sql_rep_def)
  have sync': "sql_synced in_tx ds'" by (rule sql_insert_block_effect(1) [OF cl sync run])
  have "(r = Inr () \<longrightarrow> (\<exists>W. w = Some W \<and>
        sql_rep in_tx aborted tabs durable N S D (Some (ledger_add_block N block W)) ds')) \<and>
    (r \<noteq> Inr () \<longrightarrow> (\<exists>w'. (w' = w \<or> w' = None) \<and> sql_rep in_tx aborted tabs durable N S D w' ds'))"
  proof (cases "block_statements N S block")
    case (Inl e)
    with run rep show ?thesis by (auto simp: sql_insert_block_def)
  next
    case (Inr stmts)
    then have ne: "stmts \<noteq> []" by (auto simp: block_statements_def split: option.splits)
    obtain x ds1 where x: "run_statements C stmts ds = (x, ds1)" by fastforce
    have c: "client ds' = client ds1" and r: "r = Inr () \<longleftrightarrow> x = Inr ()"
      using run x Inr by (cases x; auto simp: sql_insert_block_def)+
    have "ledger_shown N S (ledger_add_block N block W) (tabs (client ds'))"
      if "x = Inr ()" "ledger_shown N S W (tabs (client ds))" for W
      using run r that by (intro sql_insert_block_shown [OF laws serde sync that(2)]) simp
    from insertion_rep [where f = "ledger_add_block N block", OF laws rep x ne c sync'] this r show ?thesis by blast
  qed
  then show "r = Inr () \<Longrightarrow>
      \<exists>W. w = Some W \<and> sql_rep in_tx aborted tabs durable N S D (Some (ledger_add_block N block W)) ds'"
    "r \<noteq> Inr () \<Longrightarrow> \<exists>w'. (w' = w \<or> w' = None) \<and> sql_rep in_tx aborted tabs durable N S D w' ds'"
    by blast+
qed

lemma sql_insert_leaf_reps:
  assumes "postgres_laws C in_tx aborted tabs durable" and "serde_laws S"
    and "sql_rep in_tx aborted tabs durable N S D w ds"
    and "sql_insert_leaf N C S leaf ds = (r, ds')"
  shows "\<exists>w'. sql_rep in_tx aborted tabs durable N S D w' ds'"
  using sql_insert_leaf_rep [OF assms] by (cases "r = Inr ()") blast+

lemma sql_insert_block_reps:
  assumes "postgres_laws C in_tx aborted tabs durable" and "serde_laws S"
    and "sql_rep in_tx aborted tabs durable N S D w ds"
    and "sql_insert_block N C S block ds = (r, ds')"
  shows "\<exists>w'. sql_rep in_tx aborted tabs durable N S D w' ds'"
  using sql_insert_block_rep [OF assms] by (cases "r = Inr ()") blast+

text \<open>A commit that returns makes the current ledger durable, or what was durable current again.\<close>

lemma sql_idle_rep:
  assumes "postgres_laws C in_tx aborted tabs durable" and "sql_synced in_tx ds"
    and "\<not> in_tx (client ds)" and "ledger_shown N S D (durable (client ds))"
  shows "sql_rep in_tx aborted tabs durable N S D (Some D) ds"
  using assms postgres_idle [OF assms(1,3)] by (simp add: sql_rep_def)

lemma sql_commit_rep:
  assumes laws: "postgres_laws C in_tx aborted tabs durable"
    and rep: "sql_rep in_tx aborted tabs durable N S D w ds" and run: "sql_commit C ds = (Inr u, ds')"
  shows "w = Some W \<Longrightarrow> sql_rep in_tx aborted tabs durable N S W (Some W) ds'"
    and "w = None \<Longrightarrow> sql_rep in_tx aborted tabs durable N S D (Some D) ds'"
    and "\<not> in_tx (client ds')"
proof -
  have cl: "client_laws C in_tx" and sync: "sql_synced in_tx ds"
    using laws rep by (simp_all add: postgres_laws_def sql_rep_def)
  from cl sync run have "\<not> in_tx (client ds') \<and> sql_synced in_tx ds'"
    by (cases rule: sql_commit_cases) (auto simp: sql_synced_def)
  then have out: "\<not> in_tx (client ds')" and sync': "sql_synced in_tx ds'" by blast+
  from out show "\<not> in_tx (client ds')" .
  have dur: "durable (client ds') =
    (if aborted (client ds) then durable (client ds) else tabs (client ds))"
  proof (cases "tx_in_progress ds")
    case True
    then have "in_tx (client ds)" using sync by (simp add: sql_synced_def)
    moreover obtain v where "batch_execute C (client ds) ''COMMIT'' = (Inr v, client ds')"
      using run True
      by (cases "batch_execute C (client ds) ''COMMIT''"; cases "fst (batch_execute C (client ds) ''COMMIT'')")
        (auto simp: sql_commit_def Let_def)
    ultimately show ?thesis using postgres_commit(2) [OF laws] by blast
  next
    case False
    then have "\<not> in_tx (client ds)" using sync by (simp add: sql_synced_def)
    note postgres_idle [OF laws this]
    moreover have "client ds' = client ds" using run False by (auto simp: sql_commit_def Let_def)
    ultimately show ?thesis by simp
  qed
  show "sql_rep in_tx aborted tabs durable N S W (Some W) ds'" if "w = Some W"
    by (rule sql_idle_rep [OF laws sync' out]) (use rep dur that in \<open>simp add: sql_rep_def\<close>)
  show "sql_rep in_tx aborted tabs durable N S D (Some D) ds'" if "w = None"
    by (rule sql_idle_rep [OF laws sync' out]) (use rep dur that in \<open>simp add: sql_rep_def\<close>)
qed

lemma sql_revert_rep:
  assumes laws: "postgres_laws C in_tx aborted tabs durable"
    and rep: "sql_rep in_tx aborted tabs durable N S D w ds"
    and run: "sql_revert C ds = (Inr u, ds')"
  shows "sql_rep in_tx aborted tabs durable N S D (Some D) ds'" and "\<not> in_tx (client ds')"
proof -
  have cl: "client_laws C in_tx" and sync: "sql_synced in_tx ds"
    using laws rep by (simp_all add: postgres_laws_def sql_rep_def)
  from cl sync run have "\<not> in_tx (client ds') \<and> sql_synced in_tx ds'"
    by (cases rule: sql_revert_cases) (auto simp: sql_synced_def)
  then have out: "\<not> in_tx (client ds')" and sync': "sql_synced in_tx ds'" by blast+
  from out show "\<not> in_tx (client ds')" .
  have "durable (client ds') = durable (client ds)"
  proof (cases "tx_in_progress ds")
    case True
    then obtain v where "batch_execute C (client ds) ''ROLLBACK'' = (Inr v, client ds')"
      using run by (auto simp: sql_revert_def attempt_ok Let_def split: prod.splits sum.splits)
    then show ?thesis by (rule postgres_rollback(2) [OF laws])
  next
    case False
    with run show ?thesis by (auto simp: sql_revert_def Let_def)
  qed
  with rep show "sql_rep in_tx aborted tabs durable N S D (Some D) ds'"
    by (intro sql_idle_rep [OF laws sync' out]) (simp add: sql_rep_def)
qed

text \<open>Every step of the data source is a step of the ledger, or none.\<close>

lemma sql_run_step_rep:
  assumes laws: "postgres_laws C in_tx aborted tabs durable" and serde: "serde_laws S"
    and rep: "sql_rep in_tx aborted tabs durable N S D w ds" and step: "sql_run_step N C S ds ds'"
  shows "\<exists>D' w'. (ledger_step N)\<^sup>*\<^sup>* (D, w) (D', w') \<and> sql_rep in_tx aborted tabs durable N S D' w' ds'"
proof -
  have moved: ?thesis
    if "ledger_step N (D, w) (D', w')" "sql_rep in_tx aborted tabs durable N S D' w' ds'" for D' w'
    using that by blast
  have failed: ?thesis if "w' = w \<or> w' = None" "sql_rep in_tx aborted tabs durable N S D w' ds'" for w'
  proof (cases "w' = w")
    case True
    with that show ?thesis by blast
  next
    case False
    with that obtain W where "w = Some W" "w' = None" by (cases w) auto
    with that(2) show ?thesis by (intro moved [of D w']) (auto intro: ledger_step.fail)
  qed
  from step show ?thesis
  proof cases
    case (leaf leaf r)
    note sim = sql_insert_leaf_rep [OF laws serde rep leaf]
    show ?thesis
    proof (cases "r = Inr ()")
      case True
      then obtain W where W: "w = Some W"
          "sql_rep in_tx aborted tabs durable N S D (Some (ledger_add_leaf leaf W)) ds'"
        using sim(1) by blast
      show ?thesis by (rule moved [OF _ W(2)]) (simp add: W(1) ledger_step.add_leaf)
    next
      case False
      with sim(2) failed show ?thesis by blast
    qed
  next
    case (block block r)
    note sim = sql_insert_block_rep [OF laws serde rep block]
    show ?thesis
    proof (cases "r = Inr ()")
      case True
      then obtain W where W: "w = Some W"
          "sql_rep in_tx aborted tabs durable N S D (Some (ledger_add_block N block W)) ds'"
        using sim(1) by blast
      show ?thesis by (rule moved [OF _ W(2)]) (simp add: W(1) ledger_step.add_block)
    next
      case False
      with sim(2) failed show ?thesis by blast
    qed
  next
    case commit
    show ?thesis
    proof (cases w)
      case None
      from sql_commit_rep(2) [OF laws rep commit None] show ?thesis
        by (rule moved [OF ledger_step.revert])
    next
      case (Some W)
      from sql_commit_rep(1) [OF laws rep commit Some] show ?thesis
        by (rule moved [rotated]) (simp add: Some ledger_step.commit)
    qed
  next
    case revert
    from sql_revert_rep(1) [OF laws rep revert] show ?thesis
      by (rule moved [OF ledger_step.revert])
  qed
qed

lemma sql_run_rep:
  assumes laws: "postgres_laws C in_tx aborted tabs durable" and serde: "serde_laws S"
    and rep: "sql_rep in_tx aborted tabs durable N S D w ds" and run: "(sql_run_step N C S)\<^sup>*\<^sup>* ds ds'"
  shows "\<exists>D' w'. (ledger_step N)\<^sup>*\<^sup>* (D, w) (D', w') \<and> sql_rep in_tx aborted tabs durable N S D' w' ds'"
  using run
proof (induction rule: rtranclp_induct)
  case base
  then show ?case using rep by blast
next
  case (step ds1 ds2)
  then show ?case using sql_run_step_rep [OF laws serde] by (meson rtranclp_trans)
qed

end
