(* ===== verification/SqlQueries.thy ===== *)
theory SqlQueries
  imports SqlTables
begin

text \<open>
  What the queries of the SQL data source answer, in terms of the ledger its tables show: the same
  as a query of the ledger, or the error of the database.
\<close>

section \<open>Lists in relation\<close>

lemma list_all2_filter:
  "list_all2 R xs ys \<Longrightarrow> (\<And>x y. R x y \<Longrightarrow> P x = Q y) \<Longrightarrow>
     list_all2 R (filter P xs) (filter Q ys)"
  by (induction rule: list_all2_induct) auto

lemma list_all2_sort_key:
  assumes "list_all2 R xs ys" and "\<And>x y. R x y \<Longrightarrow> f x = g y"
  shows "list_all2 R (sort_key f xs) (sort_key g ys)"
proof -
  have insort: "list_all2 R as bs \<Longrightarrow> R a b \<Longrightarrow>
      list_all2 R (insort_key f a as) (insort_key g b bs)" for a b as bs
    by (induction rule: list_all2_induct) (auto simp: assms(2))
  from assms(1) show ?thesis
    by (induction rule: list_all2_induct) (auto intro: insort)
qed

lemma list_all2_take: "list_all2 R xs ys \<Longrightarrow> list_all2 R (take n xs) (take n ys)"
  by (simp add: list_all2_conv_all_nth)

lemma list_all2_single: "list_all2 R xs [y] \<longleftrightarrow> (\<exists>x. xs = [x] \<and> R x y)"
  by (cases xs; cases "tl xs") auto

lemma find_filter: "List.find P xs = (case filter P xs of [] \<Rightarrow> None | x # _ \<Rightarrow> Some x)"
  by (induction xs) auto

lemma filter_key_unique:
  "distinct (map k xs) \<Longrightarrow> i < length xs \<Longrightarrow> filter (\<lambda>x. k (xs ! i) = k x) xs = [xs ! i]"
proof (induction xs arbitrary: i)
  case Nil
  then show ?case by simp
next
  case (Cons x xs)
  show ?case
  proof (cases i)
    case 0
    with Cons.prems show ?thesis by (auto simp: filter_empty_conv)
  next
    case (Suc j)
    with Cons.prems have "k (xs ! j) \<in> k ` set xs" by simp
    with Cons.prems have "k (xs ! j) \<noteq> k x" by auto
    with Cons Suc show ?thesis by simp
  qed
qed

section \<open>Answers\<close>

text \<open>A query answers as specified, or with an error of the database.\<close>

definition answers :: "query_error + 'a \<Rightarrow> query_error + 'a \<Rightarrow> bool" where
  "answers r s \<longleftrightarrow> r = s \<or> (\<exists>m. r = Inl (QueryError m))"

fun answers_all :: "(query_error + 'a) list \<Rightarrow> (query_error + 'a) list \<Rightarrow> bool" where
  "answers_all [] spec \<longleftrightarrow> spec = []"
| "answers_all (Inl (QueryError m) # items) spec \<longleftrightarrow> True"
| "answers_all (item # items) spec \<longleftrightarrow>
     (case spec of [] \<Rightarrow> False | s # spec \<Rightarrow> item = s \<and> answers_all items spec)"

lemma answers_all_Cons:
  "item = s \<Longrightarrow> answers_all items spec \<Longrightarrow> answers_all (item # items) (s # spec)"
  by (cases item; cases "projl item") auto

lemma db_err_cases: "db_err C r = (case r of Inl e \<Rightarrow> Inl (QueryError (pe_display C e)) | Inr x \<Rightarrow> Inr x)"
  by (cases r) (simp_all add: db_err_def)

lemma streamed_answers:
  assumes "streamed P rows ys" and "list_all2 R xs ys"
    and "\<And>row x y. R x y \<Longrightarrow> P row y \<Longrightarrow> parse row = spec x"
  shows "answers_all (map (\<lambda>res. and_then (db_err C res) parse) rows) (map spec xs)"
  using assms
proof (induction P rows ys arbitrary: xs rule: streamed.induct)
  case (4 P row rows y ys)
  then obtain x xs' where xs: "xs = x # xs'" and rel: "R x y" "list_all2 R xs' ys"
    by (auto simp: list_all2_Cons2)
  have "parse row = spec x" using 4 rel(1) by simp
  moreover have "answers_all (map (\<lambda>res. and_then (db_err C res) parse) rows) (map spec xs')"
    using 4 rel(2) by simp
  ultimately show ?case by (simp add: xs db_err_cases answers_all_Cons)
qed (auto simp: db_err_cases)

lemma streamed_collect:
  assumes "streamed P rows ys" and "list_all2 R xs ys"
    and "\<And>row x y. R x y \<Longrightarrow> P row y \<Longrightarrow> parse row = Inr (f x)"
  shows "answers (try_collect (map (\<lambda>res. and_then (db_err C res) parse) rows)) (Inr (map f xs))"
  using assms
proof (induction P rows ys arbitrary: xs rule: streamed.induct)
  case (4 P row rows y ys)
  then obtain x xs' where xs: "xs = x # xs'" and rel: "R x y" "list_all2 R xs' ys"
    by (auto simp: list_all2_Cons2)
  have "parse row = Inr (f x)" using 4 rel(1) by simp
  moreover have "answers (try_collect (map (\<lambda>res. and_then (db_err C res) parse) rows)) (Inr (map f xs'))"
    using 4 rel(2) by simp
  ultimately show ?case by (auto simp: xs db_err_cases answers_def)
qed (auto simp: db_err_cases answers_def)

text \<open>A query for at most one row, against the list it selects from.\<close>

lemma query_opt_answers:
  assumes rows: "\<And>r. q = Inr r \<Longrightarrow> reads_opt P r ys" and rel: "list_all2 R xs ys"
    and parse: "\<And>row x y. R x y \<Longrightarrow> P row y \<Longrightarrow> parse row = spec x"
  shows "answers (and_then (db_err C q) (\<lambda>row. and_then (context_opt row NotFound) parse))
    (case xs of [] \<Rightarrow> Inl NotFound | x # _ \<Rightarrow> spec x)"
proof (cases q)
  case (Inl e)
  then show ?thesis by (simp add: db_err_cases answers_def)
next
  case (Inr r)
  then have reads: "reads_opt P r ys" by (rule rows)
  show ?thesis
  proof (cases r)
    case None
    with reads rel Inr show ?thesis by (simp add: reads_opt_def db_err_cases answers_def)
  next
    case (Some row)
    with reads rel obtain x y where "xs = [x]" "R x y" "P row y"
      by (auto simp: reads_opt_def list_all2_single)
    with Some Inr parse show ?thesis by (simp add: db_err_cases answers_def)
  qed
qed

section \<open>Rows and entries\<close>

lemma parse_leaf_shown:
  assumes "shows_leaf C row r" and "leaf_shown N S entry r"
  shows "parse_leaf C S row = Inr (fst entry)"
  using assms by (simp add: parse_leaf_def shows_leaf_def leaf_shown_def row_err_def msg_err_def)

text \<open>
  The block that is read back: header and hash come from the leaf's row, the payload is decoded
  with the header's metadata, and the size went through 32 bits. It is the inserted block when
  that belongs to the leaf and its size fits (\<open>block_fits\<close>).
\<close>

definition read_block where
  "read_block N S leaf block =
     \<lparr>bq_header = leaf_block_header N (lq_leaf leaf),
      bq_payload = payload_from_bytes S (the (pl_encode N (bq_payload block)))
        (header_metadata S (leaf_block_header N (lq_leaf leaf))),
      bq_hash = leaf_block_hash N leaf, bq_size = i32_as_u64 (u64_as_i32 (bq_size block))\<rparr>"

definition entry_block ::
    "('leaf, 'qc, 'hdr, 'pl, 'tx, 'ix, 'pf, 'h, 'pk) node_types
      \<Rightarrow> ('leaf, 'qc, 'hdr, 'pl, 'ix, 'h, 'pk, 'md, 'j) serde_ops
      \<Rightarrow> ('leaf, 'qc) leaf_query_data \<times> ('hdr, 'pl, 'h) block_query_data option
      \<Rightarrow> query_error + ('hdr, 'pl, 'h) block_query_data" where
  "entry_block N S entry =
     (case snd entry of None \<Rightarrow> Inl Missing | Some block \<Rightarrow> Inr (read_block N S (fst entry) block))"

definition block_fits where
  "block_fits N S leaf block \<longleftrightarrow>
     bq_header block = leaf_block_header N (lq_leaf leaf) \<and> bq_hash block = leaf_block_hash N leaf \<and>
     uint (bq_size block) < 2 ^ 31 \<and>
     (\<forall>bytes. pl_encode N (bq_payload block) = Some bytes \<longrightarrow>
        payload_from_bytes S bytes (header_metadata S (bq_header block)) = bq_payload block) \<and>
     pl_encode N (bq_payload block) \<noteq> None"

lemma read_block_fits:
  fixes block :: "('hdr, 'pl, 'h) block_query_data"
  assumes "block_fits N S leaf block"
  shows "read_block N S leaf block = block"
proof -
  have "i32_as_u64 (u64_as_i32 (bq_size block)) = bq_size block"
    using assms by (intro stored_size_small) (simp add: block_fits_def)
  then show ?thesis using assms by (auto simp: read_block_def block_fits_def)
qed

lemma parse_block_shown:
  assumes serde: "serde_laws S" and row: "shows_block C row (h, p)"
    and "header_shown N S entry h" and "payload_shown N entry p"
  shows "parse_block C S row = entry_block N S entry"
proof -
  have "hash_from_string S (hash_to_string S x) = Inr x" for x
    using serde unfolding serde_laws_def by blast
  then show ?thesis
    using assms(2-4)
    by (cases "snd entry")
      (auto simp: parse_block_def shows_block_def header_shown_def payload_shown_def entry_block_def
        read_block_def row_err_def msg_err_def zip_opt_def)
qed

definition block_shown ::
    "('leaf, 'qc, 'hdr, 'pl, 'tx, 'ix, 'pf, 'h, 'pk) node_types
      \<Rightarrow> ('leaf, 'qc, 'hdr, 'pl, 'ix, 'h, 'pk, 'md, 'j) serde_ops
      \<Rightarrow> ('leaf, 'qc) leaf_query_data \<times> ('hdr, 'pl, 'h) block_query_data option
      \<Rightarrow> 'j header_row \<times> payload_row \<Rightarrow> bool" where
  "block_shown N S entry row \<longleftrightarrow> header_shown N S entry (fst row) \<and> payload_shown N entry (snd row)"

lemma parse_block_row:
  assumes "serde_laws S" and "block_shown N S entry y" and "shows_block C row y"
  shows "parse_block C S row = entry_block N S entry"
proof (cases y)
  case (Pair h p)
  show ?thesis
    by (rule parse_block_shown [OF assms(1)]) (use assms(2,3) Pair in \<open>auto simp: block_shown_def\<close>)
qed

lemma joined_blocks_zip:
  assumes dist: "distinct (map pr_height (payload_table db))"
    and same: "map hr_height (header_table db) = map pr_height (payload_table db)"
  shows "joined_blocks db = zip (header_table db) (payload_table db)"
proof -
  let ?hs = "header_table db" and ?ps = "payload_table db"
  have len: "length ?hs = length ?ps" using same by (metis length_map)
  have one: "map (Pair (?hs ! i)) (filter (\<lambda>p. hr_height (?hs ! i) = pr_height p) ?ps)
      = [(?hs ! i, ?ps ! i)]" if i: "i < length ?hs" for i
  proof -
    have "hr_height (?hs ! i) = pr_height (?ps ! i)" using i len same by (metis nth_map)
    then show ?thesis using filter_key_unique [OF dist, of i] i len by simp
  qed
  have "joined_blocks db
      = concat (map (\<lambda>i. map (Pair (?hs ! i)) (filter (\<lambda>p. hr_height (?hs ! i) = pr_height p) ?ps))
          [0..<length ?hs])"
    unfolding joined_blocks_def by (intro arg_cong [where f = concat] nth_equalityI) simp_all
  also have "\<dots> = concat (map (\<lambda>i. [(?hs ! i, ?ps ! i)]) [0..<length ?hs])"
    using one by (intro arg_cong [where f = concat] map_cong) auto
  also have "\<dots> = zip ?hs ?ps" by (rule nth_equalityI) (simp_all add: len concat_map_singleton)
  finally show ?thesis .
qed

lemma ledger_shown_heights:
  assumes "ledger_shown N S L db"
  shows "map hr_height (header_table db) = map (\<lambda>e. leaf_height N (fst e)) (sl_entries L)"
    and "map pr_height (payload_table db) = map (\<lambda>e. leaf_height N (fst e)) (sl_entries L)"
    and "map lr_height (leaf_table db) = map (\<lambda>e. leaf_height N (fst e)) (sl_entries L)"
  using assms
  by (auto simp: ledger_shown_def list_all2_conv_all_nth header_shown_def payload_shown_def
      leaf_shown_def intro!: nth_equalityI)

lemma ledger_shown_joined:
  assumes "schema_constraints db" and shown: "ledger_shown N S L db"
  shows "list_all2 (block_shown N S) (sl_entries L) (joined_blocks db)"
proof -
  note ledger_shown_heights [OF shown]
  then have "joined_blocks db = zip (header_table db) (payload_table db)"
    using assms(1) by (intro joined_blocks_zip) (simp_all add: schema_constraints_def)
  then show ?thesis
    using shown by (simp add: ledger_shown_def list_all2_conv_all_nth block_shown_def)
qed

lemma ledger_heights_distinct:
  assumes "schema_constraints db" and "ledger_shown N S L db"
  shows "distinct (map (\<lambda>e. leaf_height N (fst e)) (sl_entries L))"
  using assms(1) ledger_shown_heights(1) [OF assms(2)] by (simp add: schema_constraints_def)

section \<open>Queries of the ledger\<close>

definition ledger_by_height where
  "ledger_by_height N L = sort_key (\<lambda>e. sint (leaf_height N (fst e))) (sl_entries L)"

definition ledger_leaf where
  "ledger_leaf N L ident =
     (case filter (\<lambda>e. case ident of Number n \<Rightarrow> leaf_height N (fst e) = n
                                  | Hash h \<Rightarrow> leaf_hash N (fst e) = h) (sl_entries L) of
        [] \<Rightarrow> Inl NotFound
      | e # _ \<Rightarrow> Inr (fst e))"

definition ledger_block where
  "ledger_block N S L ident =
     (case filter (\<lambda>e. case ident of Number n \<Rightarrow> leaf_height N (fst e) = n
                                  | Hash h \<Rightarrow> leaf_block_hash N (fst e) = h)
             (ledger_by_height N L) of
        [] \<Rightarrow> Inl NotFound
      | e # _ \<Rightarrow> entry_block N S e)"

definition ledger_range where
  "ledger_range N L start end_bound =
     filter (\<lambda>e. range_contains start end_bound (leaf_height N (fst e))) (ledger_by_height N L)"

text \<open>Heights and bounds below \<open>2 ^ 63\<close>, where \<^verbatim>\<open>as i64\<close> keeps the value.\<close>

definition ledger_small where
  "ledger_small N L \<longleftrightarrow> (\<forall>e \<in> set (sl_entries L). uint (leaf_height N (fst e)) < 2 ^ 63)"

lemma hash_text_eq:
  assumes "serde_laws S"
  shows "hash_to_string S h = hash_to_string S h' \<longleftrightarrow> h = h'"
proof -
  have "hash_from_string S (hash_to_string S h) = Inr h" for h
    using assms unfolding serde_laws_def by blast
  then show ?thesis by (metis sum.inject(2))
qed

lemma sql_get_leaf_ledger:
  assumes laws: "postgres_laws C in_tx aborted tabs durable" and serde: "serde_laws S"
    and shown: "ledger_shown N S L (tabs (client ds))"
  shows "answers (sql_get_leaf C S ident ds) (ledger_leaf N L ident)"
proof -
  have rows: "list_all2 (leaf_shown N S) (sl_entries L) (leaf_table (tabs (client ds)))"
    using shown by (simp add: ledger_shown_def)
  note parse = parse_leaf_shown
  show ?thesis
  proof (cases ident)
    case (Number n)
    have "list_all2 (leaf_shown N S) (filter (\<lambda>e. leaf_height N (fst e) = n) (sl_entries L))
        (filter (\<lambda>l. lr_height l = n) (leaf_table (tabs (client ds))))"
      by (rule list_all2_filter [OF rows]) (simp add: leaf_shown_def)
    from query_opt_answers [OF postgres_select_leaf(1) [OF laws] this parse] Number show ?thesis
      by (simp add: sql_get_leaf_def ledger_leaf_def)
  next
    case (Hash h)
    have "list_all2 (leaf_shown N S) (filter (\<lambda>e. leaf_hash N (fst e) = h) (sl_entries L))
        (filter (\<lambda>l. lr_hash l = hash_to_string S h) (leaf_table (tabs (client ds))))"
      by (rule list_all2_filter [OF rows]) (simp add: leaf_shown_def hash_text_eq [OF serde])
    from query_opt_answers [OF postgres_select_leaf(2) [OF laws] this parse] Hash show ?thesis
      by (simp add: sql_get_leaf_def ledger_leaf_def)
  qed
qed

lemma sql_get_block_ledger:
  assumes laws: "postgres_laws C in_tx aborted tabs durable" and serde: "serde_laws S"
    and shown: "ledger_shown N S L (tabs (client ds))"
  shows "answers (sql_get_block C S ident ds) (ledger_block N S L ident)"
proof -
  let ?db = "tabs (client ds)"
  have rows: "list_all2 (block_shown N S) (sl_entries L) (joined_blocks ?db)"
    by (rule ledger_shown_joined [OF postgres_lawsD(6) [OF laws] shown])
  have sorted: "list_all2 (block_shown N S) (take 1 (filter P (ledger_by_height N L)))
      (take 1 (blocks_by_height (filter Q (joined_blocks ?db))))"
    if "\<And>e r. block_shown N S e r \<Longrightarrow> P e = Q r" for P Q
  proof -
    have "list_all2 (block_shown N S) (filter P (ledger_by_height N L))
        (filter Q (blocks_by_height (joined_blocks ?db)))"
      unfolding ledger_by_height_def blocks_by_height_def
      by (rule list_all2_filter [OF list_all2_sort_key [OF rows] that])
        (auto simp: block_shown_def header_shown_def)
    then show ?thesis unfolding blocks_by_height_def filter_sort by (rule list_all2_take)
  qed
  note parse = parse_block_row [OF serde]
  have first: "(case take 1 xs of [] \<Rightarrow> Inl NotFound | e # _ \<Rightarrow> entry_block N S e)
      = (case xs of [] \<Rightarrow> Inl NotFound | e # _ \<Rightarrow> entry_block N S e)" for xs
    by (cases xs) simp_all
  show ?thesis
  proof (cases ident)
    case (Number n)
    have "list_all2 (block_shown N S)
        (take 1 (filter (\<lambda>e. leaf_height N (fst e) = n) (ledger_by_height N L)))
        (take 1 (blocks_by_height (filter (\<lambda>(h, p). hr_height h = n) (joined_blocks ?db))))"
      by (rule sorted) (auto simp: block_shown_def header_shown_def)
    from this have "answers (and_then (db_err C (query_opt C (client ds)
          (block_query '' WHERE h.height = $1 ORDER BY h.height ASC LIMIT 1'') [SqlBigint n]))
        (\<lambda>row. and_then (context_opt row NotFound) (parse_block C S)))
      (case take 1 (filter (\<lambda>e. leaf_height N (fst e) = n) (ledger_by_height N L)) of
         [] \<Rightarrow> Inl NotFound | e # _ \<Rightarrow> entry_block N S e)"
      by (rule query_opt_answers [rotated]) (erule (1) parse, erule postgres_select_block(1) [OF laws])
    with Number show ?thesis
      unfolding first by (simp add: sql_get_block_def ledger_block_def block_query_def)
  next
    case (Hash h)
    have "list_all2 (block_shown N S)
        (take 1 (filter (\<lambda>e. leaf_block_hash N (fst e) = h) (ledger_by_height N L)))
        (take 1 (blocks_by_height
          (filter (\<lambda>(r, p). hr_hash r = hash_to_string S h) (joined_blocks ?db))))"
      by (rule sorted) (auto simp: block_shown_def header_shown_def hash_text_eq [OF serde])
    from this have "answers (and_then (db_err C (query_opt C (client ds)
          (block_query '' WHERE h.hash = $1 ORDER BY h.height ASC LIMIT 1'')
          [SqlText (hash_to_string S h)]))
        (\<lambda>row. and_then (context_opt row NotFound) (parse_block C S)))
      (case take 1 (filter (\<lambda>e. leaf_block_hash N (fst e) = h) (ledger_by_height N L)) of
         [] \<Rightarrow> Inl NotFound | e # _ \<Rightarrow> entry_block N S e)"
      by (rule query_opt_answers [rotated]) (erule (1) parse, erule postgres_select_block(2) [OF laws])
    with Hash show ?thesis
      unfolding first by (simp add: sql_get_block_def ledger_block_def block_query_def)
  qed
qed

lemma bounds_hold:
  assumes "ledger_small N L" and "uint (bound_value start) < 2 ^ 63"
    and "uint (bound_value end_bound) < 2 ^ 63" and "e \<in> set (ledger_by_height N L)"
  shows "(\<forall>cond \<in> set (conditions start end_bound). sql_holds (leaf_height N (fst e)) cond)
    \<longleftrightarrow> range_contains start end_bound (leaf_height N (fst e))"
  using assms by (intro conditions_hold) (auto simp: ledger_small_def ledger_by_height_def)

lemma list_all2_by_height:
  assumes rows: "list_all2 R (sl_entries L) rows"
    and height: "\<And>e r. R e r \<Longrightarrow> leaf_height N (fst e) = height r"
    and small: "ledger_small N L" and bounds: "uint (bound_value start) < 2 ^ 63"
      "uint (bound_value end_bound) < 2 ^ 63"
  shows "list_all2 R (ledger_range N L start end_bound)
    (sort_key (\<lambda>r. sint (height r))
      (filter (\<lambda>r. \<forall>cond \<in> set (conditions start end_bound). sql_holds (height r) cond) rows))"
proof -
  have "ledger_range N L start end_bound =
      filter (\<lambda>e. \<forall>cond \<in> set (conditions start end_bound). sql_holds (leaf_height N (fst e)) cond)
        (ledger_by_height N L)"
    unfolding ledger_range_def using bounds_hold [OF small bounds] by (intro filter_cong) auto
  then show ?thesis
    unfolding filter_sort [symmetric] ledger_by_height_def
    by (simp only:)
      (rule list_all2_filter [OF list_all2_sort_key [OF rows]]; simp only: height)
qed

lemma sql_get_leaf_range_ledger:
  assumes laws: "postgres_laws C in_tx aborted tabs durable"
    and shown: "ledger_shown N S L (tabs (client ds))"
    and small: "ledger_small N L" "uint (bound_value start) < 2 ^ 63"
      "uint (bound_value end_bound) < 2 ^ 63"
    and run: "sql_get_leaf_range C S start end_bound ds = Inr items"
  shows "answers_all items (map (\<lambda>e. Inr (fst e)) (ledger_range N L start end_bound))"
proof -
  obtain rows where rows: "query_raw C (client ds)
      (''SELECT leaf, qc FROM leaf '' @ where_text ''height'' (conditions start end_bound)
        @ '' ORDER BY height ASC'')
      (map (\<lambda>cond. SqlBigint (snd cond)) (conditions start end_bound)) = Inr rows"
    and items: "items = map (\<lambda>res. and_then (db_err C res) (parse_leaf C S)) rows"
    using run
    by (auto simp: sql_get_leaf_range_def bounds_to_where_clause_text db_err_cases comp_def
        split: sum.splits)
  let ?ls = "leaves_by_height (filter (\<lambda>l. \<forall>cond \<in> set (conditions start end_bound).
      sql_holds (lr_height l) cond) (leaf_table (tabs (client ds))))"
  have rel: "list_all2 (leaf_shown N S) (ledger_range N L start end_bound) ?ls"
    unfolding leaves_by_height_def
    by (rule list_all2_by_height [OF _ _ small])
      (use shown in \<open>auto simp: ledger_shown_def leaf_shown_def\<close>)
  show ?thesis
    unfolding items
    by (rule streamed_answers [OF postgres_select_leaf(3) [OF laws rows, folded leaves_by_height_def] rel])
      (rule parse_leaf_shown)
qed

lemma sql_get_block_range_ledger:
  assumes laws: "postgres_laws C in_tx aborted tabs durable" and serde: "serde_laws S"
    and shown: "ledger_shown N S L (tabs (client ds))"
    and small: "ledger_small N L" "uint (bound_value start) < 2 ^ 63"
      "uint (bound_value end_bound) < 2 ^ 63"
    and run: "sql_get_block_range C S start end_bound ds = Inr items"
  shows "answers_all items (map (entry_block N S) (ledger_range N L start end_bound))"
proof -
  let ?db = "tabs (client ds)"
  obtain rows where rows: "query_raw C (client ds)
      (block_query ('' '' @ where_text ''h.height'' (conditions start end_bound)
        @ '' ORDER BY h.height ASC''))
      (map (\<lambda>cond. SqlBigint (snd cond)) (conditions start end_bound)) = Inr rows"
    and items: "items = map (\<lambda>res. and_then (db_err C res) (parse_block C S)) rows"
    using run
    by (auto simp: sql_get_block_range_def bounds_to_where_clause_text db_err_cases comp_def
        block_query_def split: sum.splits)
  have blocks: "list_all2 (block_shown N S) (sl_entries L) (joined_blocks ?db)"
    by (rule ledger_shown_joined [OF postgres_lawsD(6) [OF laws] shown])
  have sort: "blocks_by_height rs = sort_key (\<lambda>r. sint (hr_height (fst r))) rs"
    for rs :: "('z header_row \<times> payload_row) list"
    by (simp add: blocks_by_height_def split_def)
  have rel: "list_all2 (block_shown N S) (ledger_range N L start end_bound)
      (blocks_by_height (filter (\<lambda>(h, p). \<forall>cond \<in> set (conditions start end_bound).
        sql_holds (hr_height h) cond) (joined_blocks ?db)))"
    unfolding sort case_prod_beta
    by (rule list_all2_by_height [OF blocks _ small]) (simp add: block_shown_def header_shown_def)
  show ?thesis
    unfolding items
    by (rule streamed_answers [OF postgres_select_block(3) [OF laws rows] rel])
      (rule parse_block_row [OF serde])
qed

section \<open>Transactions\<close>

definition ledger_transaction where
  "ledger_transaction N S L hash =
     (case filter (\<lambda>t. fst t = hash) (sl_txs L) of
        [] \<Rightarrow> Inl NotFound
      | t # _ \<Rightarrow>
          (case filter (\<lambda>e. fst (snd t) = leaf_height N (fst e)) (sl_entries L) of
             [] \<Rightarrow> Inl NotFound
           | e # _ \<Rightarrow> and_then (entry_block N S e) (\<lambda>block. Inr (block, snd (snd t)))))"

lemma filter_join:
  "filter (\<lambda>(t, e). P t) (concat (map (\<lambda>t. map (Pair t) (g t)) ts))
     = concat (map (\<lambda>t. map (Pair t) (g t)) (filter P ts))"
  by (induction ts) (auto simp: filter_map comp_def)

lemma sql_get_block_with_transaction_ledger:
  assumes laws: "postgres_laws C in_tx aborted tabs durable" and serde: "serde_laws S"
    and shown: "ledger_shown N S L (tabs (client ds))"
  shows "answers (sql_get_block_with_transaction C S hash ds) (ledger_transaction N S L hash)"
proof -
  let ?db = "tabs (client ds)"
  let ?g = "\<lambda>t. filter (\<lambda>e. fst (snd t) = leaf_height N (fst e)) (sl_entries L)"
  let ?R = "\<lambda>(t, e) (tr, hp). transaction_shown S t tr \<and> block_shown N S e hp"
  have blocks: "list_all2 (block_shown N S) (sl_entries L) (joined_blocks ?db)"
    by (rule ledger_shown_joined [OF postgres_lawsD(6) [OF laws] shown])
  have txs: "list_all2 (transaction_shown S) (sl_txs L) (transaction_table ?db)"
    using shown by (simp add: ledger_shown_def)
  have one: "list_all2 (\<lambda>e hp. ?R (t, e) (tr, hp)) (?g t)
      (filter (\<lambda>(h, p). tr_block_height tr = hr_height h) (joined_blocks ?db))"
    if "transaction_shown S t tr" for t tr
    using that
    by (simp, intro list_all2_filter [OF blocks])
      (auto simp: transaction_shown_def block_shown_def header_shown_def)
  have "list_all2 (list_all2 ?R) (map (\<lambda>t. map (Pair t) (?g t)) (sl_txs L))
      (map (\<lambda>tr. map (Pair tr) (filter (\<lambda>(h, p). tr_block_height tr = hr_height h) (joined_blocks ?db)))
        (transaction_table ?db))"
    unfolding list_all2_map1 list_all2_map2 using txs by (rule list_all2_mono) (rule one)
  then have "list_all2 ?R (concat (map (\<lambda>t. map (Pair t) (?g t)) (sl_txs L))) (joined_transactions ?db)"
    unfolding joined_transactions_def by (rule concat_transfer [THEN rel_funD])
  then have "list_all2 ?R
      (filter (\<lambda>(t, e). fst t = hash) (concat (map (\<lambda>t. map (Pair t) (?g t)) (sl_txs L))))
      (filter (\<lambda>(tx, block). tr_hash tx = hash_to_string S hash) (joined_transactions ?db))"
    by (rule list_all2_filter) (auto simp: transaction_shown_def hash_text_eq [OF serde])
  then have rel: "list_all2 ?R
      (take 1 (concat (map (\<lambda>t. map (Pair t) (?g t)) (filter (\<lambda>t. fst t = hash) (sl_txs L)))))
      (take 1 (filter (\<lambda>(tx, block). tr_hash tx = hash_to_string S hash) (joined_transactions ?db)))"
    unfolding filter_join by (rule list_all2_take)
  let ?q = "query_opt C (client ds) (''SELECT '' @ block_columns @ '', t.index AS tx_index''
      @ '' FROM header AS h JOIN payload AS p ON h.height = p.height''
      @ '' JOIN transaction AS t ON t.block_height = h.height WHERE t.hash = $1''
      @ '' ORDER BY t.id ASC LIMIT 1'') [SqlText (hash_to_string S hash)]"
  let ?parse = "\<lambda>row. and_then (row_err C ''error extracting transaction index from query results: ''
        (row_json C row ''tx_index''))
      (\<lambda>index. and_then (msg_err ''malformed transaction index: '' (index_from_json S index))
      (\<lambda>index. and_then (parse_block C S row) (\<lambda>block. Inr (block, index))))"
  let ?spec = "\<lambda>(t, e). and_then (entry_block N S e) (\<lambda>block. Inr (block, snd (snd t)))"
  have parse: "?parse row = ?spec te"
    if "?R te y" "(\<lambda>(tx, block). shows_block C row block \<and> row_json C row ''tx_index'' = Inr (tr_index tx)) y"
    for row te y
  proof -
    obtain t e tx hp where pairs: "te = (t, e)" "y = (tx, hp)" by (cases te; cases y)
    with that have "parse_block C S row = entry_block N S e"
      by (intro parse_block_row [OF serde]) auto
    with that pairs show ?thesis by (simp add: row_err_def msg_err_def transaction_shown_def)
  qed
  have "answers (and_then (db_err C ?q) (\<lambda>row. and_then (context_opt row NotFound) ?parse))
    (case take 1 (concat (map (\<lambda>t. map (Pair t) (?g t)) (filter (\<lambda>t. fst t = hash) (sl_txs L)))) of
       [] \<Rightarrow> Inl NotFound | te # _ \<Rightarrow> ?spec te)"
    by (rule query_opt_answers [OF _ rel], erule postgres_select_block(4) [OF laws])
      (rule parse, assumption+)
  moreover have "?g t \<noteq> []" if t: "t \<in> set (sl_txs L)" for t
  proof -
    obtain tr where tr: "tr \<in> set (transaction_table ?db)" "transaction_shown S t tr"
      using txs t by (metis in_set_conv_nth list_all2_conv_all_nth)
    then have "fst (snd t) \<in> tr_block_height ` set (transaction_table ?db)"
      by (metis imageI transaction_shown_def)
    then have "fst (snd t) \<in> hr_height ` set (header_table ?db)"
      using postgres_lawsD(6) [OF laws, where c = "client ds"]
      by (auto simp: schema_constraints_def)
    also have "hr_height ` set (header_table ?db) = (\<lambda>e. leaf_height N (fst e)) ` set (sl_entries L)"
      using ledger_shown_heights [OF shown] by (metis set_map)
    finally show ?thesis by (auto simp: filter_empty_conv)
  qed
  then have "(case take 1 (concat (map (\<lambda>t. map (Pair t) (?g t)) ts)) of
       [] \<Rightarrow> Inl NotFound | te # _ \<Rightarrow> ?spec te) =
    (case ts of [] \<Rightarrow> Inl NotFound | t # _ \<Rightarrow>
       (case ?g t of [] \<Rightarrow> Inl NotFound | e # _ \<Rightarrow> ?spec (t, e)))"
    if "set ts \<subseteq> set (sl_txs L)" for ts
    using that by (cases ts; cases "?g (hd ts)") auto
  ultimately show ?thesis
    by (simp add: sql_get_block_with_transaction_def ledger_transaction_def cong: list.case_cong)
qed

section \<open>Proposals and heights\<close>

lemma sql_get_proposals_ledger:
  assumes laws: "postgres_laws C in_tx aborted tabs durable" and serde: "serde_laws S"
    and shown: "ledger_shown N S L (tabs (client ds))"
  shows "answers (sql_get_proposals C S pk (Some k) ds)
      (Inr (rev (take (unat k) (rev (map fst
        (filter (\<lambda>e. leaf_proposer N (fst e) = pk) (ledger_by_height N L)))))))"
    and "\<exists>es. mset es = mset (filter (\<lambda>e. leaf_proposer N (fst e) = pk) (sl_entries L)) \<and>
      answers (sql_get_proposals C S pk None ds) (Inr (map fst es))"
proof -
  let ?db = "tabs (client ds)"
  have rows: "list_all2 (leaf_shown N S) (sl_entries L) (leaf_table ?db)"
    using shown by (simp add: ledger_shown_def)
  have same: "leaf_shown N S e r \<Longrightarrow> (leaf_proposer N (fst e) = pk) = (lr_proposer r = pk_to_string S pk)"
    for e r
    using serde by (auto simp: leaf_shown_def serde_laws_def inj_eq)
  let ?run = "\<lambda>q. query_raw C (client ds) q [SqlText (pk_to_string S pk)]"
  have limited: "answers (sql_get_proposals C S pk (Some k) ds) (Inr (rev (map fst es)))"
    if "list_all2 (leaf_shown N S) es (take (unat k) (rev (leaves_by_height
      (filter (\<lambda>l. lr_proposer l = pk_to_string S pk) (leaf_table ?db)))))" for es
  proof (cases "?run (''SELECT leaf, qc FROM leaf WHERE proposer = $1'' @
      '' ORDER BY height DESC limit '' @ decimal (unat k))")
    case (Inl e)
    then show ?thesis by (simp add: sql_get_proposals_def db_err_cases answers_def)
  next
    case (Inr rs)
    from streamed_collect [OF postgres_select_leaf(5) [OF laws Inr] that parse_leaf_shown]
    have "answers (try_collect (map (\<lambda>res. and_then (db_err C res) (parse_leaf C S)) rs)) (Inr (map fst es))" .
    with Inr show ?thesis by (auto simp: sql_get_proposals_def db_err_cases answers_def)
  qed
  have "list_all2 (leaf_shown N S)
      (take (unat k) (rev (filter (\<lambda>e. leaf_proposer N (fst e) = pk) (ledger_by_height N L))))
      (take (unat k) (rev (leaves_by_height
        (filter (\<lambda>l. lr_proposer l = pk_to_string S pk) (leaf_table ?db)))))"
    unfolding leaves_by_height_def filter_sort [symmetric] ledger_by_height_def
    by (intro list_all2_take list_all2_rev [THEN iffD2] list_all2_filter list_all2_sort_key [OF rows])
      (auto simp: leaf_shown_def same)
  from limited [OF this]
  show "answers (sql_get_proposals C S pk (Some k) ds)
      (Inr (rev (take (unat k) (rev (map fst
        (filter (\<lambda>e. leaf_proposer N (fst e) = pk) (ledger_by_height N L)))))))"
    by (simp add: take_map rev_map)
  show "\<exists>es. mset es = mset (filter (\<lambda>e. leaf_proposer N (fst e) = pk) (sl_entries L)) \<and>
      answers (sql_get_proposals C S pk None ds) (Inr (map fst es))"
  proof (cases "?run ''SELECT leaf, qc FROM leaf WHERE proposer = $1''")
    case (Inl e)
    then show ?thesis
      by (intro exI [of _ "filter (\<lambda>e. leaf_proposer N (fst e) = pk) (sl_entries L)"])
        (simp add: sql_get_proposals_def db_err_cases answers_def)
  next
    case (Inr rs)
    obtain ls where ls: "mset ls = mset (filter (\<lambda>l. lr_proposer l = pk_to_string S pk) (leaf_table ?db))"
      and str: "streamed (shows_leaf C) rs ls"
      using postgres_select_leaf(4) [OF laws Inr] by blast
    have "list_all2 (\<lambda>r e. leaf_shown N S e r)
        (filter (\<lambda>l. lr_proposer l = pk_to_string S pk) (leaf_table ?db))
        (filter (\<lambda>e. leaf_proposer N (fst e) = pk) (sl_entries L))"
      using list_all2_filter [OF rows, of "\<lambda>e. leaf_proposer N (fst e) = pk"] same
      by (simp add: list_all2_conv_all_nth)
    from list_all2_reorder_left_invariance [OF this ls] obtain es
      where es: "list_all2 (\<lambda>r e. leaf_shown N S e r) ls es"
        "mset es = mset (filter (\<lambda>e. leaf_proposer N (fst e) = pk) (sl_entries L))"
      by blast
    then have "list_all2 (leaf_shown N S) es ls" by (simp add: list_all2_conv_all_nth)
    from streamed_collect [OF str this parse_leaf_shown]
    have "answers (try_collect (map (\<lambda>res. and_then (db_err C res) (parse_leaf C S)) rs)) (Inr (map fst es))" .
    with Inr have "answers (sql_get_proposals C S pk None ds) (Inr (map fst es))"
      by (auto simp: sql_get_proposals_def db_err_cases answers_def)
    with es(2) show ?thesis by blast
  qed
qed

lemma sql_count_proposals_ledger:
  assumes laws: "postgres_laws C in_tx aborted tabs durable" and serde: "serde_laws S"
    and shown: "ledger_shown N S L (tabs (client ds))"
  shows "sql_count_proposals C S pk ds
      = Inr (of_nat (length (filter (\<lambda>e. leaf_proposer N (fst e) = pk) (sl_entries L)))) \<or>
    (\<exists>m. sql_count_proposals C S pk ds = Inl (Failure (QueryError m)))"
proof -
  have "list_all2 (leaf_shown N S) (filter (\<lambda>e. leaf_proposer N (fst e) = pk) (sl_entries L))
      (filter (\<lambda>l. lr_proposer l = pk_to_string S pk) (leaf_table (tabs (client ds))))"
    using shown serde
    by (intro list_all2_filter) (auto simp: ledger_shown_def leaf_shown_def serde_laws_def inj_eq)
  note len = list_all2_lengthD [OF this]
  show ?thesis
    by (cases "query_one C (client ds) ''SELECT count(*) FROM leaf WHERE proposer = $1''
        [SqlText (pk_to_string S pk)]")
      (simp_all add: sql_count_proposals_def db_err_cases postgres_select_leaf(6) [OF laws] len)
qed

text \<open>One more than the largest height, 0 when there is no leaf.\<close>

definition ledger_height where
  "ledger_height N L =
     (if sl_entries L = [] then 0 else Max ((\<lambda>e. leaf_height N (fst e)) ` set (sl_entries L)) + 1)"

lemma sql_block_height_ledger:
  assumes laws: "postgres_laws C in_tx aborted tabs durable"
    and shown: "ledger_shown N S L (tabs (client ds))" and small: "ledger_small N L"
  shows "sql_block_height C ds = Inr (ledger_height N L) \<or>
    (\<exists>m. sql_block_height C ds = Inl (Failure (QueryError m)))"
proof (cases "query_one C (client ds) ''SELECT max(height) FROM header'' []")
  case (Inl e)
  then show ?thesis by (simp add: sql_block_height_def db_err_cases)
next
  case (Inr row)
  note law = postgres_select_block(5) [OF laws Inr]
  have heights: "hr_height ` set (header_table (tabs (client ds)))
      = (\<lambda>e. leaf_height N (fst e)) ` set (sl_entries L)"
    using ledger_shown_heights(1) [OF shown] by (metis set_map)
  show ?thesis
  proof (cases "header_table (tabs (client ds))")
    case Nil
    then have "sl_entries L = []" using heights by simp
    with Nil law Inr show ?thesis by (simp add: sql_block_height_def db_err_cases ledger_height_def)
  next
    case (Cons x xs)
    with law obtain h where h: "h \<in> set (header_table (tabs (client ds)))"
      "row_first_bigint_opt C row = Inr (Some (hr_height h))"
      "\<forall>h' \<in> set (header_table (tabs (client ds))). sint (hr_height h') \<le> sint (hr_height h)"
      by auto
    have sint: "sint (hr_height h') = uint (hr_height h')"
      if "h' \<in> set (header_table (tabs (client ds)))" for h'
    proof -
      have "hr_height h' \<in> (\<lambda>e. leaf_height N (fst e)) ` set (sl_entries L)"
        using that heights by blast
      then obtain e where e: "e \<in> set (sl_entries L)" "hr_height h' = leaf_height N (fst e)" by auto
      with small have "uint (leaf_height N (fst e)) < 2 ^ 63" unfolding ledger_small_def by blast
      then show ?thesis unfolding e(2) by (rule sint_64_small)
    qed
    have "Max (hr_height ` set (header_table (tabs (client ds)))) = hr_height h"
      using h(1,3) sint by (intro Max_eqI) (auto simp: word_le_def)
    moreover have "sl_entries L \<noteq> []" using heights Cons by auto
    ultimately have "ledger_height N L = hr_height h + 1"
      unfolding ledger_height_def heights [symmetric] by simp
    with h(2) Inr show ?thesis by (simp add: sql_block_height_def db_err_cases)
  qed
qed

end
