(* ===== verification/SqlMock.thy ===== *)
theory SqlMock
  imports SqlProps SqlRefine SqlQueries
begin

text \<open>
  A database in memory that keeps the promises of \<open>postgres_laws\<close>, for the witnesses: a session is
  the durable tables and, inside a transaction, the current ones with the flag of an aborted
  transaction. Statements it does not know fail.
\<close>

section \<open>Sessions\<close>

type_synonym db = "nat list database"
type_synonym db_session = "db \<times> (db \<times> bool) option"

definition valid :: "db \<Rightarrow> db" where
  "valid db = (if schema_constraints db then db else empty_database)"

lemma valid_constraints [simp]: "schema_constraints (valid db)"
  by (simp add: valid_def schema_constraints_def empty_database_def)

lemma valid_id [simp]: "schema_constraints db \<Longrightarrow> valid db = db"
  by (simp add: valid_def)

definition db_in_tx :: "db_session \<Rightarrow> bool" where "db_in_tx c \<longleftrightarrow> snd c \<noteq> None"

definition db_aborted :: "db_session \<Rightarrow> bool" where
  "db_aborted c = (case snd c of None \<Rightarrow> False | Some (_, failed) \<Rightarrow> failed)"

definition db_durable :: "db_session \<Rightarrow> db" where "db_durable c = valid (fst c)"

definition db_tabs :: "db_session \<Rightarrow> db" where
  "db_tabs c = (case snd c of None \<Rightarrow> valid (fst c) | Some (db, _) \<Rightarrow> valid db)"

section \<open>Statements\<close>

fun parse_rows :: "nat list sql_value list \<Rightarrow> nat list transaction_row list option" where
  "parse_rows [] = Some []"
| "parse_rows (SqlText h # SqlBigint b # SqlJson j # ps) =
     map_option ((#) \<lparr>tr_hash = h, tr_block_height = b, tr_index = j\<rparr>) (parse_rows ps)"
| "parse_rows _ = None"

lemma parse_rows_params [simp]: "parse_rows (transaction_params rows) = Some rows"
  by (induction rows) (simp_all add: transaction_params_def)

definition db_statement :: "string \<Rightarrow> nat list sql_value list \<Rightarrow> db \<Rightarrow> db option" where
  "db_statement q ps db =
     (if q = ''INSERT INTO header (height, hash, data) VALUES ($1, $2, $3)''
      then (case ps of [SqlBigint h, SqlText t, SqlJson j] \<Rightarrow>
          Some (db\<lparr>header_table := header_table db @ [\<lparr>hr_height = h, hr_hash = t, hr_data = j\<rparr>]\<rparr>)
        | _ \<Rightarrow> None)
      else if q = ''INSERT INTO payload (height) VALUES ($1)''
      then (case ps of [SqlBigint h] \<Rightarrow>
          Some (db\<lparr>payload_table := payload_table db @
            [\<lparr>pr_height = h, pr_size = None, pr_data = None\<rparr>]\<rparr>)
        | _ \<Rightarrow> None)
      else if q = ''INSERT INTO leaf (height, hash, proposer, block_hash, leaf, qc)''
        @ '' VALUES ($1, $2, $3, $4, $5, $6)''
      then (case ps of [SqlBigint h, SqlText t, SqlText pk, SqlText bt, SqlJson lj, SqlJson qj] \<Rightarrow>
          Some (db\<lparr>leaf_table := leaf_table db @ [\<lparr>lr_height = h, lr_hash = t, lr_proposer = pk,
            lr_block_hash = bt, lr_leaf = lj, lr_qc = qj\<rparr>]\<rparr>)
        | _ \<Rightarrow> None)
      else if q = ''UPDATE payload SET (data, size) = ($1, $2) WHERE height = $3''
      then (case ps of [SqlBytes bytes, SqlInteger sz, SqlBigint h] \<Rightarrow>
          Some (db\<lparr>payload_table := map (\<lambda>p. if pr_height p = h
            then p\<lparr>pr_size := Some sz, pr_data := Some bytes\<rparr> else p) (payload_table db)\<rparr>)
        | _ \<Rightarrow> None)
      else (case parse_rows ps of
          Some rows \<Rightarrow>
            (if rows \<noteq> [] \<and> q = ''INSERT INTO transaction (hash, block_height, index) VALUES ''
               @ joined '','' (map value_tuple [0..<length rows])
             then Some (db\<lparr>transaction_table := transaction_table db @ rows\<rparr>) else None)
        | None \<Rightarrow> None))"

definition db_put :: "db \<Rightarrow> db_session \<Rightarrow> db_session" where
  "db_put db c = (case snd c of None \<Rightarrow> (db, None) | Some (_, failed) \<Rightarrow> (fst c, Some (db, failed)))"

definition db_fail :: "db_session \<Rightarrow> db_session" where
  "db_fail c = (case snd c of None \<Rightarrow> c | Some (db, _) \<Rightarrow> (fst c, Some (db, True)))"

definition db_execute ::
    "db_session \<Rightarrow> string \<Rightarrow> nat list sql_value list \<Rightarrow> (string + 64 word) \<times> db_session" where
  "db_execute c q ps =
     (if db_aborted c then (Inl ''transaction is aborted'', c)
      else case db_statement q ps (db_tabs c) of
             None \<Rightarrow> (Inl ''syntax error'', db_fail c)
           | Some db \<Rightarrow> if schema_constraints db then (Inr 1, db_put db c)
                        else (Inl ''constraint violated'', db_fail c))"

definition db_batch :: "db_session \<Rightarrow> string \<Rightarrow> (string + unit) \<times> db_session" where
  "db_batch c q =
     (if q = ''BEGIN'' then
        (case snd c of None \<Rightarrow> (Inr (), (fst c, Some (db_durable c, False))) | Some _ \<Rightarrow> (Inr (), c))
      else if q = ''COMMIT'' then
        (Inr (), (if db_aborted c then db_durable c else db_tabs c, None))
      else if q = ''ROLLBACK'' then (Inr (), (db_durable c, None))
      else (Inl ''syntax error'', c))"

section \<open>Queries\<close>

definition leaf_out :: "nat list leaf_row \<Rightarrow> mock_row" where
  "leaf_out r = [(''leaf'', SqlJson (lr_leaf r)), (''qc'', SqlJson (lr_qc r))]"

definition block_out :: "nat list header_row \<times> payload_row \<Rightarrow> mock_row" where
  "block_out = (\<lambda>(h, p).
     [(''hash'', SqlText (hr_hash h)), (''header_data'', SqlJson (hr_data h))] @
     (case pr_size p of None \<Rightarrow> [] | Some n \<Rightarrow> [(''payload_size'', SqlInteger n)]) @
     (case pr_data p of None \<Rightarrow> [] | Some bs \<Rightarrow> [(''payload_data'', SqlBytes bs)]))"

definition transaction_out ::
    "nat list transaction_row \<times> nat list header_row \<times> payload_row \<Rightarrow> mock_row" where
  "transaction_out = (\<lambda>(t, block). (''tx_index'', SqlJson (tr_index t)) # block_out block)"

definition at_most_one :: "mock_row list \<Rightarrow> string + mock_row option" where
  "at_most_one rows = (case rows of [] \<Rightarrow> Inr None | [r] \<Rightarrow> Inr (Some r) | _ \<Rightarrow> Inl ''too many rows'')"

definition db_query_opt ::
    "db_session \<Rightarrow> string \<Rightarrow> nat list sql_value list \<Rightarrow> string + mock_row option" where
  "db_query_opt c q ps =
     (case ps of
        [SqlBigint n] \<Rightarrow>
          (if q = ''SELECT leaf, qc FROM leaf WHERE height = $1''
           then at_most_one (map leaf_out (filter (\<lambda>l. lr_height l = n) (leaf_table (db_tabs c))))
           else if q = block_query '' WHERE h.height = $1 ORDER BY h.height ASC LIMIT 1''
           then at_most_one (map block_out (take 1 (blocks_by_height
             (filter (\<lambda>(h, p). hr_height h = n) (joined_blocks (db_tabs c))))))
           else Inl ''syntax error'')
      | [SqlText t] \<Rightarrow>
          (if q = ''SELECT leaf, qc FROM leaf WHERE hash = $1''
           then at_most_one (map leaf_out (filter (\<lambda>l. lr_hash l = t) (leaf_table (db_tabs c))))
           else if q = block_query '' WHERE h.hash = $1 ORDER BY h.height ASC LIMIT 1''
           then at_most_one (map block_out (take 1 (blocks_by_height
             (filter (\<lambda>(h, p). hr_hash h = t) (joined_blocks (db_tabs c))))))
           else if q = ''SELECT '' @ block_columns @ '', t.index AS tx_index''
             @ '' FROM header AS h JOIN payload AS p ON h.height = p.height''
             @ '' JOIN transaction AS t ON t.block_height = h.height WHERE t.hash = $1''
             @ '' ORDER BY t.id ASC LIMIT 1''
           then at_most_one (map transaction_out (take 1
             (filter (\<lambda>(tx, block). tr_hash tx = t) (joined_transactions (db_tabs c)))))
           else Inl ''syntax error'')
      | _ \<Rightarrow> Inl ''syntax error'')"

definition db_query_one ::
    "db_session \<Rightarrow> string \<Rightarrow> nat list sql_value list \<Rightarrow> string + mock_row" where
  "db_query_one c q ps =
     (case ps of
        [SqlText pk] \<Rightarrow>
          (if q = ''SELECT count(*) FROM leaf WHERE proposer = $1''
           then Inr [(''count'', SqlBigint
             (of_nat (length (filter (\<lambda>l. lr_proposer l = pk) (leaf_table (db_tabs c))))))]
           else Inl ''syntax error'')
      | [] \<Rightarrow>
          (if q = ''SELECT max(height) FROM header''
           then (case sort_key sint (map hr_height (header_table (db_tabs c))) of
                   [] \<Rightarrow> Inr []
                 | heights \<Rightarrow> Inr [(''max'', SqlBigint (last heights))])
           else Inl ''syntax error'')
      | _ \<Rightarrow> Inl ''syntax error'')"

text \<open>The bounds a range query may have, given its parameters.\<close>

definition shapes :: "nat list sql_value list \<Rightarrow> (64 word bound \<times> 64 word bound) list" where
  "shapes ps =
     (case ps of
        [] \<Rightarrow> [(Unbounded, Unbounded)]
      | [SqlBigint n] \<Rightarrow>
          [(Included n, Unbounded), (Excluded n, Unbounded), (Unbounded, Included n),
           (Unbounded, Excluded n)]
      | [SqlBigint m, SqlBigint n] \<Rightarrow>
          [(Included m, Included n), (Included m, Excluded n), (Excluded m, Included n),
           (Excluded m, Excluded n)]
      | _ \<Rightarrow> [])"

definition leaf_range_query :: "64 word bound \<times> 64 word bound \<Rightarrow> string" where
  "leaf_range_query = (\<lambda>(start, end_bound).
     ''SELECT leaf, qc FROM leaf '' @ where_text ''height'' (conditions start end_bound)
       @ '' ORDER BY height ASC'')"

definition block_range_query :: "64 word bound \<times> 64 word bound \<Rightarrow> string" where
  "block_range_query = (\<lambda>(start, end_bound).
     block_query ('' '' @ where_text ''h.height'' (conditions start end_bound)
       @ '' ORDER BY h.height ASC''))"

definition in_bounds :: "64 word bound \<times> 64 word bound \<Rightarrow> 64 word \<Rightarrow> bool" where
  "in_bounds = (\<lambda>(start, end_bound) h. \<forall>cond \<in> set (conditions start end_bound). sql_holds h cond)"

definition proposals_query :: string where
  "proposals_query = ''SELECT leaf, qc FROM leaf WHERE proposer = $1''"

definition limited_query :: string where
  "limited_query = proposals_query @ '' ORDER BY height DESC limit ''"

definition db_query_raw ::
    "db_session \<Rightarrow> string \<Rightarrow> nat list sql_value list \<Rightarrow> string + (string + mock_row) list" where
  "db_query_raw c q ps =
     (case List.find (\<lambda>b. q = leaf_range_query b) (shapes ps) of
        Some b \<Rightarrow> Inr (map (\<lambda>r. Inr (leaf_out r))
          (leaves_by_height (filter (\<lambda>l. in_bounds b (lr_height l)) (leaf_table (db_tabs c)))))
      | None \<Rightarrow>
     (case List.find (\<lambda>b. q = block_range_query b) (shapes ps) of
        Some b \<Rightarrow> Inr (map (\<lambda>r. Inr (block_out r))
          (blocks_by_height (filter (\<lambda>(h, p). in_bounds b (hr_height h)) (joined_blocks (db_tabs c)))))
      | None \<Rightarrow>
     (case ps of
        [SqlText pk] \<Rightarrow>
          (if q = proposals_query
           then Inr (map (\<lambda>r. Inr (leaf_out r))
             (filter (\<lambda>l. lr_proposer l = pk) (leaf_table (db_tabs c))))
           else if take (length limited_query) q = limited_query
           then Inr (map (\<lambda>r. Inr (leaf_out r))
             (take (parse_decimal (drop (length limited_query) q))
               (rev (leaves_by_height (filter (\<lambda>l. lr_proposer l = pk) (leaf_table (db_tabs c)))))))
           else Inl ''syntax error'')
      | _ \<Rightarrow> Inl ''syntax error'')))"

definition db_client :: "(db_session, mock_row, nat list, string) client_ops" where
  "db_client =
     \<lparr>query_opt = db_query_opt, query_one = db_query_one, query_raw = db_query_raw,
      execute_raw = db_execute, batch_execute = db_batch,
      row_json = row_json mock_client, row_text = row_text mock_client,
      row_integer_opt = row_integer_opt mock_client, row_bytes_opt = row_bytes_opt mock_client,
      row_first_bigint = (\<lambda>row. case row of (_, SqlBigint n) # _ \<Rightarrow> Inr n | _ \<Rightarrow> Inl ''no integer''),
      row_first_bigint_opt = (\<lambda>row. case row of [] \<Rightarrow> Inr None
        | (_, SqlBigint n) # _ \<Rightarrow> Inr (Some n) | _ \<Rightarrow> Inl ''no integer''),
      pe_display = id\<rparr>"

lemma db_client_sel [simp]:
  "query_opt db_client = db_query_opt" "query_one db_client = db_query_one"
  "query_raw db_client = db_query_raw" "execute_raw db_client = db_execute"
  "batch_execute db_client = db_batch" "pe_display db_client = id"
  by (simp_all add: db_client_def)

section \<open>The promises hold\<close>

lemma db_put_fail [simp]:
  "db_in_tx (db_put db c) = db_in_tx c" "db_in_tx (db_fail c) = db_in_tx c"
  "db_in_tx c \<Longrightarrow> db_durable (db_put db c) = db_durable c" "db_durable (db_fail c) = db_durable c"
  "db_aborted (db_put db c) = db_aborted c" "db_in_tx c \<Longrightarrow> db_aborted (db_fail c)"
  by (auto simp: db_in_tx_def db_put_def db_fail_def db_durable_def db_aborted_def
      split: option.splits)

lemma db_execute_cases:
  assumes "db_execute c q ps = (r, c')"
  obtains (failed) e where "r = Inl e" "c' = c" "db_aborted c"
    | (error) e where "r = Inl e" "c' = db_fail c"
    | (ok) db where "r = Inr 1" "c' = db_put db c" "\<not> db_aborted c"
      "db_statement q ps (db_tabs c) = Some db" "schema_constraints db"
  using assms by (auto simp: db_execute_def split: if_splits option.splits)

lemma db_client_laws: "client_laws db_client db_in_tx"
proof -
  have "db_in_tx c' = db_in_tx c" if "db_execute c q ps = (r, c')" for c q ps r c'
    using that by (cases rule: db_execute_cases) simp_all
  then show ?thesis
    by (auto simp: client_laws_def db_batch_def db_in_tx_def split: if_splits option.splits)
qed

lemma db_tx_laws: "tx_laws db_client db_in_tx db_aborted db_tabs db_durable"
proof -
  have exec: "db_durable c' = db_durable c \<and> (\<forall>n. r = Inr n \<longrightarrow> \<not> db_aborted c \<and> \<not> db_aborted c') \<and>
      (\<forall>e. r = Inl e \<longrightarrow> db_aborted c')"
    if "db_execute c q ps = (r, c')" "db_in_tx c" for c q ps r c'
    using that(1) by (cases rule: db_execute_cases) (use that(2) in auto)
  have idle: "\<not> db_aborted c \<and> db_tabs c = db_durable c" if "\<not> db_in_tx c" for c
    using that by (cases "snd c") (simp_all add: db_in_tx_def db_aborted_def db_tabs_def db_durable_def)
  have batch: "db_batch c ''BEGIN'' = (r, c') \<Longrightarrow> \<not> db_in_tx c \<Longrightarrow>
      db_tabs c' = db_tabs c \<and> db_durable c' = db_durable c \<and> \<not> db_aborted c'"
    "db_batch c ''COMMIT'' = (r, c') \<Longrightarrow>
      db_durable c' = (if db_aborted c then db_durable c else db_tabs c)"
    "db_batch c ''ROLLBACK'' = (r, c') \<Longrightarrow> db_durable c' = db_durable c" for c r c'
    by (auto simp: db_batch_def db_in_tx_def db_tabs_def db_durable_def db_aborted_def
        split: option.splits)
  show ?thesis
    unfolding tx_laws_def db_client_sel
  proof (intro conjI allI impI)
    fix c r c'
    show "\<not> db_aborted c" "db_tabs c = db_durable c" if "\<not> db_in_tx c"
      using idle that by blast+
    show "db_tabs c' = db_tabs c" "db_durable c' = db_durable c" "\<not> db_aborted c'"
      if "db_batch c ''BEGIN'' = (r, c')" "\<not> db_in_tx c"
      using batch(1) that by blast+
  next
    fix c q ps r c'
    assume "db_execute c q ps = (r, c')" "db_in_tx c"
    then show "db_durable c' = db_durable c" using exec by blast
  next
    fix c q ps n c'
    assume "db_execute c q ps = (Inr n, c')" "db_in_tx c"
    then show "\<not> db_aborted c" "\<not> db_aborted c'" using exec by blast+
  next
    fix c q ps e c'
    assume "db_execute c q ps = (Inl e, c')" "db_in_tx c"
    then show "db_aborted c'" using exec by blast
  next
    fix c u c'
    assume "db_batch c ''COMMIT'' = (Inr u, c')"
    then show "db_durable c' = (if db_aborted c then db_durable c else db_tabs c)" using batch(2) by blast
  next
    fix c u c'
    assume "db_batch c ''ROLLBACK'' = (Inr u, c')"
    then show "db_durable c' = db_durable c" using batch(3) by blast
  qed
qed

lemma db_execute_ok:
  "db_execute c q ps = (Inr n, c') \<Longrightarrow> db_statement q ps (db_tabs c) = Some db \<Longrightarrow> db_tabs c' = db"
  by (erule db_execute_cases) (auto simp: db_put_def db_tabs_def split: option.splits)

lemma db_exec_laws: "exec_laws db_client db_tabs"
proof -
  have laws: "\<And>c q ps n c' db. db_statement q ps (db_tabs c) = Some db \<Longrightarrow>
      execute_raw db_client c q ps = (Inr n, c') \<longrightarrow> db_tabs c' = db"
    using db_execute_ok by simp
  show ?thesis
    unfolding exec_laws_def
    by (intro conjI allI impI; rule laws [rule_format, rotated], assumption)
      (simp_all add: db_statement_def)
qed

lemma reads_at_most_one:
  assumes "\<And>x. P (out x) x" and "at_most_one (map out xs) = Inr r"
  shows "reads_opt P r xs"
  using assms by (auto simp: at_most_one_def reads_opt_def split: list.splits)

lemma streamed_all: "(\<And>x. P (out x) x) \<Longrightarrow> streamed P (map (\<lambda>x. Inr (out x)) xs) xs"
  by (induction xs) simp_all

lemma db_rows:
  "row_json db_client row col = (case map_of row col of Some (SqlJson j) \<Rightarrow> Inr j | _ \<Rightarrow> Inl col)"
  "row_text db_client row col = (case map_of row col of Some (SqlText t) \<Rightarrow> Inr t | _ \<Rightarrow> Inl col)"
  "row_integer_opt db_client row col = (case map_of row col of
     Some (SqlInteger n) \<Rightarrow> Inr (Some n) | None \<Rightarrow> Inr None | _ \<Rightarrow> Inl col)"
  "row_bytes_opt db_client row col = (case map_of row col of
     Some (SqlBytes bs) \<Rightarrow> Inr (Some bs) | None \<Rightarrow> Inr None | _ \<Rightarrow> Inl col)"
  by (simp_all add: db_client_def mock_client_def)

lemma shows_out [simp]:
  "shows_leaf db_client (leaf_out r) r" "shows_block db_client (block_out (h, p)) (h, p)"
  "shows_block db_client (transaction_out (t, h, p)) (h, p)"
  "row_json db_client (transaction_out (t, h, p)) ''tx_index'' = Inr (tr_index t)"
proof -
  show "shows_leaf db_client (leaf_out r) r" by (simp add: shows_leaf_def leaf_out_def db_rows)
  show "shows_block db_client (block_out (h, p)) (h, p)"
    "shows_block db_client (transaction_out (t, h, p)) (h, p)"
    "row_json db_client (transaction_out (t, h, p)) ''tx_index'' = Inr (tr_index t)"
    by (cases "pr_size p"; cases "pr_data p";
        simp add: shows_block_def block_out_def transaction_out_def db_rows)+
qed

lemma find_shape:
  "List.find (\<lambda>b. leaf_range_query (start, end_bound) = leaf_range_query b)
     (shapes (map (\<lambda>cond. SqlBigint (snd cond)) (conditions start end_bound))) = Some (start, end_bound)"
  "List.find (\<lambda>b. block_range_query (start, end_bound) = block_range_query b)
     (shapes (map (\<lambda>cond. SqlBigint (snd cond)) (conditions start end_bound))) = Some (start, end_bound)"
  by (cases start; cases end_bound;
      simp add: shapes_def conditions_def leaf_range_query_def block_range_query_def block_query_def
        where_text_def upt_rec)+

lemma block_range_not_leaf: "List.find (\<lambda>b. block_range_query b' = leaf_range_query b) bs = None"
  by (induction bs)
    (simp_all add: leaf_range_query_def block_range_query_def block_query_def block_columns_def
      split: prod.splits)

lemma db_query_ranges:
  "db_query_raw c (leaf_range_query (start, end_bound))
     (map (\<lambda>cond. SqlBigint (snd cond)) (conditions start end_bound))
   = Inr (map (\<lambda>r. Inr (leaf_out r)) (leaves_by_height
       (filter (\<lambda>l. in_bounds (start, end_bound) (lr_height l)) (leaf_table (db_tabs c)))))"
  "db_query_raw c (block_range_query (start, end_bound))
     (map (\<lambda>cond. SqlBigint (snd cond)) (conditions start end_bound))
   = Inr (map (\<lambda>r. Inr (block_out r)) (blocks_by_height
       (filter (\<lambda>(h, p). in_bounds (start, end_bound) (hr_height h)) (joined_blocks (db_tabs c)))))"
  by (simp_all add: db_query_raw_def find_shape block_range_not_leaf)

lemma db_query_proposals:
  "db_query_raw c proposals_query [SqlText pk]
   = Inr (map (\<lambda>r. Inr (leaf_out r)) (filter (\<lambda>l. lr_proposer l = pk) (leaf_table (db_tabs c))))"
  "db_query_raw c (limited_query @ decimal k) [SqlText pk]
   = Inr (map (\<lambda>r. Inr (leaf_out r)) (take k (rev (leaves_by_height
       (filter (\<lambda>l. lr_proposer l = pk) (leaf_table (db_tabs c)))))))"
proof -
  have "limited_query @ decimal k \<noteq> proposals_query"
    by (simp add: limited_query_def proposals_query_def)
  then show "db_query_raw c proposals_query [SqlText pk]
   = Inr (map (\<lambda>r. Inr (leaf_out r)) (filter (\<lambda>l. lr_proposer l = pk) (leaf_table (db_tabs c))))"
  "db_query_raw c (limited_query @ decimal k) [SqlText pk]
   = Inr (map (\<lambda>r. Inr (leaf_out r)) (take k (rev (leaves_by_height
       (filter (\<lambda>l. lr_proposer l = pk) (leaf_table (db_tabs c)))))))"
    by (simp_all add: db_query_raw_def shapes_def)
qed

lemma db_leaf_select_laws: "leaf_select_laws db_client db_tabs"
  unfolding leaf_select_laws_def db_client_sel
proof (intro conjI allI impI)
  fix c n r
  assume "db_query_opt c ''SELECT leaf, qc FROM leaf WHERE height = $1'' [SqlBigint n] = Inr r"
  then show "reads_opt (shows_leaf db_client) r
      (filter (\<lambda>l. lr_height l = n) (leaf_table (db_tabs c)))"
    by (intro reads_at_most_one [where out = leaf_out]) (simp_all add: db_query_opt_def)
next
  fix c t r
  assume "db_query_opt c ''SELECT leaf, qc FROM leaf WHERE hash = $1'' [SqlText t] = Inr r"
  then show "reads_opt (shows_leaf db_client) r
      (filter (\<lambda>l. lr_hash l = t) (leaf_table (db_tabs c)))"
    by (intro reads_at_most_one [where out = leaf_out]) (simp_all add: db_query_opt_def)
next
  fix c start end_bound rows
  assume "db_query_raw c (''SELECT leaf, qc FROM leaf '' @ where_text ''height''
      (conditions start end_bound) @ '' ORDER BY height ASC'')
    (map (\<lambda>cond. SqlBigint (snd cond)) (conditions start end_bound)) = Inr rows"
  then have "rows = map (\<lambda>r. Inr (leaf_out r)) (leaves_by_height
       (filter (\<lambda>l. in_bounds (start, end_bound) (lr_height l)) (leaf_table (db_tabs c))))"
    using db_query_ranges(1) [of c start end_bound] by (simp add: leaf_range_query_def)
  then show "streamed (shows_leaf db_client) rows (leaves_by_height
      (filter (\<lambda>l. \<forall>cond\<in>set (conditions start end_bound). sql_holds (lr_height l) cond)
        (leaf_table (db_tabs c))))"
    by (simp add: streamed_all in_bounds_def)
next
  fix c pk rows
  assume "db_query_raw c ''SELECT leaf, qc FROM leaf WHERE proposer = $1'' [SqlText pk] = Inr rows"
  then have "rows = map (\<lambda>r. Inr (leaf_out r))
      (filter (\<lambda>l. lr_proposer l = pk) (leaf_table (db_tabs c)))"
    using db_query_proposals(1) [of c pk] by (simp add: proposals_query_def)
  then show "\<exists>ls. mset ls = mset (filter (\<lambda>l. lr_proposer l = pk) (leaf_table (db_tabs c))) \<and>
      streamed (shows_leaf db_client) rows ls"
    by (intro exI [of _ "filter (\<lambda>l. lr_proposer l = pk) (leaf_table (db_tabs c))"])
      (simp add: streamed_all)
next
  fix c pk k rows
  assume "db_query_raw c (''SELECT leaf, qc FROM leaf WHERE proposer = $1''
      @ '' ORDER BY height DESC limit '' @ decimal k) [SqlText pk] = Inr rows"
  then have "rows = map (\<lambda>r. Inr (leaf_out r)) (take k (rev (leaves_by_height
      (filter (\<lambda>l. lr_proposer l = pk) (leaf_table (db_tabs c))))))"
    using db_query_proposals(2) [of c k pk] by (simp add: limited_query_def proposals_query_def)
  then show "streamed (shows_leaf db_client) rows (take k (rev (leaves_by_height
      (filter (\<lambda>l. lr_proposer l = pk) (leaf_table (db_tabs c))))))"
    by (simp add: streamed_all)
next
  fix c pk row
  assume "db_query_one c ''SELECT count(*) FROM leaf WHERE proposer = $1'' [SqlText pk] = Inr row"
  then show "row_first_bigint db_client row
      = Inr (of_nat (length (filter (\<lambda>l. lr_proposer l = pk) (leaf_table (db_tabs c)))))"
    by (auto simp: db_query_one_def db_client_def)
qed

lemma last_sort_key: "x \<in> set xs \<Longrightarrow> f x \<le> f (last (sort_key f xs))"
proof -
  assume x: "x \<in> set xs"
  have "\<forall>y \<in> set ys. f y \<le> f (last ys)" if "sorted (map f ys)" for ys
    using that by (induction ys) (auto simp: Ball_def last_in_set)
  from this [OF sorted_sort_key] x show ?thesis by simp
qed

lemma db_block_select_laws: "block_select_laws db_client db_tabs"
  unfolding block_select_laws_def db_client_sel
proof (intro conjI allI impI)
  fix c n r
  assume "db_query_opt c (block_query '' WHERE h.height = $1 ORDER BY h.height ASC LIMIT 1'')
    [SqlBigint n] = Inr r"
  then show "reads_opt (shows_block db_client) r (take 1 (blocks_by_height
      (filter (\<lambda>(h, p). hr_height h = n) (joined_blocks (db_tabs c)))))"
    by (intro reads_at_most_one [where out = block_out])
      (auto simp: db_query_opt_def block_query_def block_columns_def)
next
  fix c t r
  assume "db_query_opt c (block_query '' WHERE h.hash = $1 ORDER BY h.height ASC LIMIT 1'')
    [SqlText t] = Inr r"
  then show "reads_opt (shows_block db_client) r (take 1 (blocks_by_height
      (filter (\<lambda>(h, p). hr_hash h = t) (joined_blocks (db_tabs c)))))"
    by (intro reads_at_most_one [where out = block_out])
      (auto simp: db_query_opt_def block_query_def block_columns_def)
next
  fix c start end_bound rows
  assume "db_query_raw c (block_query ('' '' @ where_text ''h.height''
      (conditions start end_bound) @ '' ORDER BY h.height ASC''))
    (map (\<lambda>cond. SqlBigint (snd cond)) (conditions start end_bound)) = Inr rows"
  then have "rows = map (\<lambda>r. Inr (block_out r)) (blocks_by_height (filter
      (\<lambda>(h, p). in_bounds (start, end_bound) (hr_height h)) (joined_blocks (db_tabs c))))"
    using db_query_ranges(2) [of c start end_bound] by (simp add: block_range_query_def)
  then show "streamed (shows_block db_client) rows (blocks_by_height
      (filter (\<lambda>(h, p). \<forall>cond\<in>set (conditions start end_bound). sql_holds (hr_height h) cond)
        (joined_blocks (db_tabs c))))"
    by (auto simp: in_bounds_def intro!: streamed_all)
next
  fix c t r
  assume "db_query_opt c (''SELECT '' @ block_columns @ '', t.index AS tx_index''
      @ '' FROM header AS h JOIN payload AS p ON h.height = p.height''
      @ '' JOIN transaction AS t ON t.block_height = h.height WHERE t.hash = $1''
      @ '' ORDER BY t.id ASC LIMIT 1'') [SqlText t] = Inr r"
  then show "reads_opt (\<lambda>row (tx, block). shows_block db_client row block \<and>
        row_json db_client row ''tx_index'' = Inr (tr_index tx)) r
      (take 1 (filter (\<lambda>(tx, block). tr_hash tx = t) (joined_transactions (db_tabs c))))"
    by (intro reads_at_most_one [where out = transaction_out])
      (auto simp: db_query_opt_def block_query_def block_columns_def)
next
  fix c row
  assume "db_query_one c ''SELECT max(height) FROM header'' [] = Inr row"
  then show "case header_table (db_tabs c) of
       [] \<Rightarrow> row_first_bigint_opt db_client row = Inr None
     | _ \<Rightarrow> (\<exists>h \<in> set (header_table (db_tabs c)).
          row_first_bigint_opt db_client row = Inr (Some (hr_height h)) \<and>
          (\<forall>h' \<in> set (header_table (db_tabs c)). sint (hr_height h') \<le> sint (hr_height h)))"
  proof (cases "header_table (db_tabs c)")
    case Nil
    with \<open>db_query_one c _ [] = Inr row\<close> show ?thesis
      by (auto simp: db_query_one_def db_client_def)
  next
    case (Cons x xs)
    let ?hs = "map hr_height (header_table (db_tabs c))"
    have "set (sort_key sint ?hs) = set ?hs" by simp
    then have ne: "sort_key sint ?hs \<noteq> []" using Cons by (metis list.distinct(1) list.map_disc_iff set_empty)
    then have "row = [(''max'', SqlBigint (last (sort_key sint ?hs)))]"
      using \<open>db_query_one c _ [] = Inr row\<close> by (auto simp: db_query_one_def split: list.splits)
    then have out: "row_first_bigint_opt db_client row = Inr (Some (last (sort_key sint ?hs)))"
      by (simp add: db_client_def)
    have "last (sort_key sint ?hs) \<in> set ?hs" using last_in_set [OF ne] by simp
    then obtain h where h: "h \<in> set (header_table (db_tabs c))" "hr_height h = last (sort_key sint ?hs)"
      by auto
    have "sint (hr_height h') \<le> sint (hr_height h)" if "h' \<in> set (header_table (db_tabs c))" for h'
      using last_sort_key [of "hr_height h'" ?hs sint] that h(2) by simp
    then have "\<exists>h \<in> set (header_table (db_tabs c)).
        row_first_bigint_opt db_client row = Inr (Some (hr_height h)) \<and>
        (\<forall>h' \<in> set (header_table (db_tabs c)). sint (hr_height h') \<le> sint (hr_height h))"
      using h out by (intro bexI [of _ h]) simp_all
    then show ?thesis unfolding Cons by simp
  qed
qed

lemma db_laws: "postgres_laws db_client db_in_tx db_aborted db_tabs db_durable"
  by (simp add: postgres_laws_def db_client_laws db_exec_laws db_tx_laws db_leaf_select_laws
      db_block_select_laws db_tabs_def split: option.splits)

end
