(* ===== verification/SqlService.thy ===== *)
theory SqlService
  imports SqlRefine SqlQueries Service
begin

text \<open>
  The SQL data source in the service: as the target of consensus updates, whose decided chains end
  up in its ledger, and as the source behind the availability API.
\<close>

section \<open>Updating\<close>

definition sql_update_ops where
  "sql_update_ops N C S =
     \<lparr>ds_insert_leaf = sql_insert_leaf N C S, ds_insert_block = sql_insert_block N C S\<rparr>"

definition sql_versioned_ops where
  "sql_versioned_ops C = \<lparr>vd_commit = sql_commit C, vd_revert = sql_revert C\<rparr>"

lemma sql_ops_simps [simp]:
  "ds_insert_leaf (sql_update_ops N C S) = sql_insert_leaf N C S"
  "ds_insert_block (sql_update_ops N C S) = sql_insert_block N C S"
  "vd_commit (sql_versioned_ops C) = sql_commit C"
  "vd_revert (sql_versioned_ops C) = sql_revert C"
  by (simp_all add: sql_update_ops_def sql_versioned_ops_def)

text \<open>
  Whatever an update returns, it leaves the durable ledger alone; it fails only with an error of
  the database, as long as payloads are well formed.
\<close>

definition sql_updatable where
  "sql_updatable C in_tx aborted tabs durable N S D ds \<longleftrightarrow>
     postgres_laws C in_tx aborted tabs durable \<and> serde_laws S \<and>
     (\<exists>w. sql_rep in_tx aborted tabs durable N S D w ds)"

lemma run_statements_fails:
  assumes "run_statements C stmts ds = (Inl x, ds')"
  shows "\<exists>e. x = Failure e"
proof -
  have trans: "sql_transaction C ds = (Inl y, ds1) \<Longrightarrow> \<exists>e. y = Failure e" for y ds1
    by (cases "batch_execute C (client ds) ''BEGIN''"; cases "fst (batch_execute C (client ds) ''BEGIN'')")
      (auto simp: sql_transaction_def split: if_splits)
  have many: "tx_execute_many C c stmts = (Inl y, c') \<Longrightarrow> \<exists>e. y = Failure e" for y c c'
    by (induction stmts arbitrary: c)
      (auto simp: tx_execute_def attempt_def split: prod.splits sum.splits)
  obtain y ds1 where y: "sql_transaction C ds = (y, ds1)" by fastforce
  show ?thesis
  proof (cases y)
    case (Inl e)
    with trans [of e ds1] y assms show ?thesis by (auto simp: run_statements_def failure_err_def)
  next
    case (Inr u)
    obtain z c where z: "tx_execute_many C (client ds1) stmts = (z, c)" by fastforce
    show ?thesis
    proof (cases z)
      case (Inl a)
      with many [of "client ds1" a c] z obtain e where "a = Failure e" by blast
      with Inl z Inr y assms show ?thesis by (auto simp: run_statements_def failure_err_def)
    qed (use z Inr y assms in \<open>auto simp: run_statements_def failure_err_def\<close>)
  qed
qed

interpretation sql: panic_free_target "sql_update_ops N C S"
  "sql_updatable C in_tx aborted tabs durable N S D" "payload_indexed N"
  for N C S in_tx aborted tabs durable D
proof unfold_locales
  fix ds leaf r ds'
  assume inv: "sql_updatable C in_tx aborted tabs durable N S D ds"
    and run: "ds_insert_leaf (sql_update_ops N C S) leaf ds = (r, ds')"
  then obtain w where rep: "sql_rep in_tx aborted tabs durable N S D w ds"
    and laws: "postgres_laws C in_tx aborted tabs durable" "serde_laws S"
    by (auto simp: sql_updatable_def)
  from sql_insert_leaf_reps [OF laws rep run [unfolded sql_ops_simps]] laws
  show "sql_updatable C in_tx aborted tabs durable N S D ds'" by (simp only: sql_updatable_def simp_thms)
next
  fix ds block r ds'
  assume inv: "sql_updatable C in_tx aborted tabs durable N S D ds"
    and run: "ds_insert_block (sql_update_ops N C S) block ds = (r, ds')"
  then obtain w where rep: "sql_rep in_tx aborted tabs durable N S D w ds"
    and laws: "postgres_laws C in_tx aborted tabs durable" "serde_laws S"
    by (auto simp: sql_updatable_def)
  from sql_insert_block_reps [OF laws rep run [unfolded sql_ops_simps]] laws
  show "sql_updatable C in_tx aborted tabs durable N S D ds'" by (simp only: sql_updatable_def simp_thms)
next
  fix ds leaf x ds'
  assume "ds_insert_leaf (sql_update_ops N C S) leaf ds = (Inl x, ds')"
  then show "\<exists>e. x = Failure e"
    using run_statements_fails [of C]
    by (auto simp: sql_insert_leaf_def attempt_def split: sum.splits prod.splits)
next
  fix ds block x ds'
  assume good: "payload_indexed N (bq_payload block)"
    and run: "ds_insert_block (sql_update_ops N C S) block ds = (Inl x, ds')"
  have rows: "transaction_rows N S height (map Inr txs) vals params = Inl y \<Longrightarrow> \<exists>e. y = Failure e"
    for height txs vals params y
    by (induction txs arbitrary: vals params) (auto simp: msg_err_def split: sum.splits)
  have stmts: "block_statements N S block = Inl y \<Longrightarrow> \<exists>e. y = Failure e" for y
    using rows [of "block_height N block" "payload_transactions N (bq_payload block)"]
    by (auto simp: block_statements_def payload_enumerate_indexed [OF good] and_then_def
        split: option.splits sum.splits)
  from run show "\<exists>e. x = Failure e"
    using run_statements_fails [of C] stmts
    by (auto simp: sql_insert_block_def attempt_def split: sum.splits prod.splits)
qed

section \<open>Decided chains\<close>

text \<open>The entry a decided leaf becomes: the leaf with its certificate, and the block it carries.\<close>

definition decided_entry ::
    "('leaf, 'qc, 'hdr, 'pl, 'tx, 'ix, 'pf, 'h, 'pk) node_types \<Rightarrow> 'qc \<times> 'leaf
      \<Rightarrow> ('leaf, 'qc) leaf_query_data \<times> ('hdr, 'pl, 'h) block_query_data option" where
  "decided_entry N = (\<lambda>(qc, leaf). (\<lparr>lq_leaf = leaf, lq_qc = qc\<rparr>,
     map_option (\<lambda>payload. \<lparr>bq_header = leaf_block_header N leaf, bq_payload = payload,
       bq_hash = header_commit N (leaf_block_header N leaf), bq_size = payload_size N payload\<rparr>)
       (leaf_block_payload N leaf)))"

text \<open>The transactions of an entry, and a ledger extended by entries that are complete.\<close>

definition entry_txs ::
    "('leaf, 'qc, 'hdr, 'pl, 'tx, 'ix, 'pf, 'h, 'pk) node_types
      \<Rightarrow> ('leaf, 'qc) leaf_query_data \<times> ('hdr, 'pl, 'h) block_query_data option
      \<Rightarrow> ('h \<times> 64 word \<times> 'ix) list" where
  "entry_txs N = (\<lambda>(leaf, b). case b of
       None \<Rightarrow> []
     | Some block \<Rightarrow> map (\<lambda>(ix, tx). (tx_commit N tx, block_height N block, ix))
         (payload_transactions N (bq_payload block)))"

definition ledger_extend ::
    "('leaf, 'qc, 'hdr, 'pl, 'tx, 'ix, 'pf, 'h, 'pk) node_types
      \<Rightarrow> (('leaf, 'qc) leaf_query_data \<times> ('hdr, 'pl, 'h) block_query_data option) list
      \<Rightarrow> (('leaf, 'qc) leaf_query_data, ('hdr, 'pl, 'h) block_query_data, 'h, 'ix) sql_ledger
      \<Rightarrow> (('leaf, 'qc) leaf_query_data, ('hdr, 'pl, 'h) block_query_data, 'h, 'ix) sql_ledger" where
  "ledger_extend N es L =
     \<lparr>sl_entries = sl_entries L @ es, sl_txs = sl_txs L @ concat (map (entry_txs N) es)\<rparr>"

lemma ledger_extend_simps [simp]:
  "ledger_extend N [] L = L"
  "ledger_extend N es' (ledger_extend N es L) = ledger_extend N (es @ es') L"
  "sl_entries (ledger_extend N es L) = sl_entries L @ es"
  "sl_txs (ledger_extend N es L) = sl_txs L @ concat (map (entry_txs N) es)"
  by (simp_all add: ledger_extend_def)

lemma ledger_add_leaf_extend: "ledger_add_leaf leaf L = ledger_extend N [(leaf, None)] L"
  by (simp add: ledger_add_leaf_def ledger_extend_def entry_txs_def)

lemma ledger_add_block_last:
  assumes "distinct (map (\<lambda>e. leaf_height N (fst e)) (sl_entries L @ [(leaf, None)]))"
    and "block_height N block = leaf_height N leaf"
  shows "ledger_add_block N block (ledger_add_leaf leaf L) = ledger_extend N [(leaf, Some block)] L"
proof -
  have "map (\<lambda>(l, b). if leaf_height N l = leaf_height N leaf then (l, Some block) else (l, b)) (sl_entries L)
      = sl_entries L"
    using assms(1) by (intro map_idI) (fastforce simp: image_iff)
  then show ?thesis
    by (simp add: ledger_add_block_def ledger_add_leaf_def ledger_extend_def entry_txs_def assms(2))
qed

lemma sql_update_one_entry:
  assumes laws: "postgres_laws C in_tx aborted tabs durable" and serde: "serde_laws S"
    and rep: "sql_rep in_tx aborted tabs durable N S D (Some W) ds"
    and run: "update_one N dbg (sql_update_ops N C S) qc leaf ds = (Inr u, ds')"
  shows "sql_rep in_tx aborted tabs durable N S D
    (Some (ledger_extend N [decided_entry N (qc, leaf)] W)) ds'"
proof -
  let ?lq = "\<lparr>lq_leaf = leaf, lq_qc = qc\<rparr>"
  have cert: "leaf_query_data_new N leaf qc = Inr ?lq"
    using run by (auto simp: update_one_def split: sum.splits)
  obtain ds1 where ins: "sql_insert_leaf N C S ?lq ds = (Inr (), ds1)"
    and rest: "(case leaf_block_payload N leaf of
        None \<Rightarrow> (Inr (), ds1)
      | Some block \<Rightarrow>
          (case block_query_data_new N dbg leaf qc block of
             Inl (Panic m) \<Rightarrow> (Inl (Panic m), ds1)
           | Inl _ \<Rightarrow> (Inl (Panic ''inconsistent block''), ds1)
           | Inr block_data \<Rightarrow> sql_insert_block N C S block_data ds1)) = (Inr u, ds')"
    using run cert
    by (auto simp: update_one_def attempt_ok cong: option.case_cong sum.case_cong failure.case_cong)
  from sql_insert_leaf_rep(1) [OF laws serde rep ins]
  have rep1: "sql_rep in_tx aborted tabs durable N S D (Some (ledger_add_leaf ?lq W)) ds1" by auto
  show ?thesis
  proof (cases "leaf_block_payload N leaf")
    case None
    with rest rep1 show ?thesis by (simp add: ledger_add_leaf_extend [of _ _ N] decided_entry_def)
  next
    case (Some payload)
    with rest obtain block where new: "block_query_data_new N dbg leaf qc payload = Inr block"
      and ins2: "sql_insert_block N C S block ds1 = (Inr (), ds')"
      by (auto split: sum.splits failure.splits)
    from sql_insert_block_rep(1) [OF laws serde rep1 ins2]
    have rep2: "sql_rep in_tx aborted tabs durable N S D
        (Some (ledger_add_block N block (ledger_add_leaf ?lq W))) ds'" by auto
    have "ledger_shown N S (ledger_add_leaf ?lq W) (tabs (client ds1))"
      using rep1 by (simp add: sql_rep_def)
    from ledger_heights_distinct [OF postgres_lawsD(6) [OF laws] this]
    have "distinct (map (\<lambda>e. leaf_height N (fst e)) (sl_entries W @ [(?lq, None)]))"
      by (simp add: ledger_add_leaf_def)
    note last = ledger_add_block_last [OF this new_leaf_block_agree(1) [OF cert new]]
    have "block = \<lparr>bq_header = leaf_block_header N leaf, bq_payload = payload,
        bq_hash = header_commit N (leaf_block_header N leaf), bq_size = payload_size N payload\<rparr>"
      using block_query_data_new_ok [OF new] by (cases block) auto
    then have "decided_entry N (qc, leaf) = (?lq, Some block)" by (simp add: decided_entry_def Some)
    with rep2 last show ?thesis by simp
  qed
qed

lemma sql_update_leaves_entries:
  assumes laws: "postgres_laws C in_tx aborted tabs durable" and serde: "serde_laws S"
  shows "sql_rep in_tx aborted tabs durable N S D (Some W) ds \<Longrightarrow>
    update_leaves N dbg (sql_update_ops N C S) pairs ds = (Inr u, ds') \<Longrightarrow>
    sql_rep in_tx aborted tabs durable N S D (Some (ledger_extend N (map (decided_entry N) pairs) W)) ds'"
proof (induction pairs arbitrary: ds W)
  case Nil
  then show ?case by simp
next
  case (Cons p pairs)
  obtain qc leaf where p: "p = (qc, leaf)" by fastforce
  obtain ds1 where one: "update_one N dbg (sql_update_ops N C S) qc leaf ds = (Inr (), ds1)"
    and rest: "update_leaves N dbg (sql_update_ops N C S) pairs ds1 = (Inr u, ds')"
    using Cons.prems(2) by (auto simp: p attempt_ok)
  from Cons.IH [OF sql_update_one_entry [OF laws serde Cons.prems(1) one] rest]
  show ?case by (simp add: p)
qed

text \<open>The event loop: every decided chain is inserted and committed.\<close>

lemma sql_update_loop_entries:
  assumes laws: "postgres_laws C in_tx aborted tabs durable" and serde: "serde_laws S"
  shows "sql_rep in_tx aborted tabs durable N S D (Some D) ds \<Longrightarrow>
    (update_loop N dbg (sql_update_ops N C S) (sql_versioned_ops C) show_update show_commit
      (map (\<lambda>(chain, qc). Decide chain qc) decides) ds :: (('q, 'k) crate_error, unit, _) outcome)
      = (Inr u, ds') \<Longrightarrow>
    D' = ledger_extend N
      (map (decided_entry N) (concat (map (\<lambda>(chain, qc). chain_entries N chain qc) decides))) D \<Longrightarrow>
    sql_rep in_tx aborted tabs durable N S D' (Some D') ds'"
proof (induction decides arbitrary: ds D)
  case Nil
  then show ?case by simp
next
  case (Cons d decides)
  obtain chain qc where d: "d = (chain, qc)" by fastforce
  from Cons.prems(2) obtain ds1 ds2 where
    up: "update N dbg (sql_update_ops N C S) (Decide chain qc) ds = (Inr (), ds1)"
    and com: "sql_commit C ds1 = (Inr (), ds2)"
    and rest: "(update_loop N dbg (sql_update_ops N C S) (sql_versioned_ops C) show_update show_commit
      (map (\<lambda>(chain, qc). Decide chain qc) decides) ds2 :: (('q, 'k) crate_error, unit, _) outcome)
      = (Inr u, ds')"
    by (auto simp: d attempt_ok)
  have "update_leaves N dbg (sql_update_ops N C S) (chain_entries N chain qc) ds = (Inr (), ds1)"
    using up unfolding update_def event.case decided_pairs chain_entries_def [symmetric] .
  from sql_update_leaves_entries [OF laws serde Cons.prems(1) this]
  have W: "sql_rep in_tx aborted tabs durable N S D
    (Some (ledger_extend N (map (decided_entry N) (chain_entries N chain qc)) D)) ds1" .
  from Cons.IH [OF sql_commit_rep(1) [OF laws W com refl] rest] Cons.prems(3)
  show ?case by (simp add: d)
qed

end
