(* ===== verification/SqlServing.thy ===== *)
theory SqlServing
  imports SqlService
begin

text \<open>
  The SQL data source behind the availability API, the ledger it starts with, and the leaves it
  may hold.
\<close>

section \<open>Well-formed ledgers\<close>

text \<open>
  A block reads back as it was stored and resolves the indices of its payload; every indexed
  transaction is in the block of its height.
\<close>

definition entry_ok ::
    "('leaf, 'qc, 'hdr, 'pl, 'tx, 'ix, 'pf, 'h, 'pk) node_types
      \<Rightarrow> ('leaf, 'qc, 'hdr, 'pl, 'ix, 'h, 'pk, 'md, 'j) serde_ops
      \<Rightarrow> ('leaf, 'qc) leaf_query_data \<times> ('hdr, 'pl, 'h) block_query_data option \<Rightarrow> bool" where
  "entry_ok N S = (\<lambda>(leaf, b). case b of
       None \<Rightarrow> True
     | Some block \<Rightarrow> block_fits N S leaf block \<and> payload_indexed N (bq_payload block))"

definition tx_resolves ::
    "('leaf, 'qc, 'hdr, 'pl, 'tx, 'ix, 'pf, 'h, 'pk) node_types
      \<Rightarrow> (('leaf, 'qc) leaf_query_data \<times> ('hdr, 'pl, 'h) block_query_data option) list
      \<Rightarrow> 'h \<times> 64 word \<times> 'ix \<Rightarrow> bool" where
  "tx_resolves N es = (\<lambda>(h, height, ix). \<exists>leaf block tx. (leaf, Some block) \<in> set es \<and>
     leaf_height N leaf = height \<and> payload_transaction N (bq_payload block) ix = Some tx \<and>
     tx_commit N tx = h)"

definition ledger_ok ::
    "('leaf, 'qc, 'hdr, 'pl, 'tx, 'ix, 'pf, 'h, 'pk) node_types
      \<Rightarrow> ('leaf, 'qc, 'hdr, 'pl, 'ix, 'h, 'pk, 'md, 'j) serde_ops
      \<Rightarrow> (('leaf, 'qc) leaf_query_data, ('hdr, 'pl, 'h) block_query_data, 'h, 'ix) sql_ledger \<Rightarrow> bool" where
  "ledger_ok N S L \<longleftrightarrow>
     (\<forall>e \<in> set (sl_entries L). entry_ok N S e) \<and> (\<forall>t \<in> set (sl_txs L). tx_resolves N (sl_entries L) t)"

lemma ledger_ok_empty [simp]: "ledger_ok N S empty_ledger"
  by (simp add: ledger_ok_def empty_ledger_def)

lemma tx_resolves_mono: "tx_resolves N es t \<Longrightarrow> set es \<subseteq> set es' \<Longrightarrow> tx_resolves N es' t"
  unfolding tx_resolves_def by (auto split: prod.splits)

lemma block_fits_height:
  "block_fits N S leaf block \<Longrightarrow> block_height N block = leaf_height N leaf"
  by (simp add: block_fits_def block_height_def leaf_height_def)

lemma entry_txs_resolve:
  assumes "entry_ok N S e" and t: "t \<in> set (entry_txs N e)"
  shows "tx_resolves N [e] t"
proof -
  obtain leaf block ix tx where e: "e = (leaf, Some block)"
    and tx: "(ix, tx) \<in> set (payload_transactions N (bq_payload block))"
    and t': "t = (tx_commit N tx, block_height N block, ix)"
    using t by (auto simp: entry_txs_def split: prod.splits option.splits)
  have fits: "block_fits N S leaf block" "payload_indexed N (bq_payload block)"
    using assms(1) by (simp_all add: e entry_ok_def)
  have "payload_transaction N (bq_payload block) ix = Some tx"
    using tx payload_transaction_indexed [OF fits(2)] by (fastforce simp: payload_transactions_def)
  then show ?thesis using block_fits_height [OF fits(1)] by (simp add: tx_resolves_def e t')
qed

lemma ledger_ok_extend:
  assumes ok: "ledger_ok N S L" and new: "\<forall>e \<in> set es. entry_ok N S e"
  shows "ledger_ok N S (ledger_extend N es L)"
proof -
  have "tx_resolves N (sl_entries L @ es) t" if "t \<in> set (sl_txs L)" for t
    by (rule tx_resolves_mono [of _ "sl_entries L"]) (use ok that in \<open>simp_all add: ledger_ok_def\<close>)
  moreover have "tx_resolves N (sl_entries L @ es) t" if "e \<in> set es" "t \<in> set (entry_txs N e)" for e t
    by (rule tx_resolves_mono [OF entry_txs_resolve [OF new [rule_format, OF that(1)] that(2)]])
      (use that in simp)
  ultimately show ?thesis using ok new by (auto simp: ledger_ok_def)
qed

section \<open>Serving\<close>

definition sql_avail_ops where
  "sql_avail_ops C S =
     \<lparr>av_get_leaf = (\<lambda>ds ident. sql_get_leaf C S ident ds),
      av_get_block = (\<lambda>ds ident. sql_get_block C S ident ds),
      av_get_leaf_range = (\<lambda>ds start end_bound. sql_get_leaf_range C S start end_bound ds),
      av_get_block_range = (\<lambda>ds start end_bound. sql_get_block_range C S start end_bound ds),
      av_get_block_with_transaction = (\<lambda>ds h. sql_get_block_with_transaction C S h ds),
      av_get_proposals = (\<lambda>ds proposer limit. sql_get_proposals C S proposer limit ds),
      av_count_proposals = (\<lambda>ds proposer. map_sum id unat (sql_count_proposals C S proposer ds)),
      av_subscribe_leaves = (\<lambda>ds height. sql_subscribe_leaves C S height ds),
      av_subscribe_blocks = (\<lambda>ds height. sql_subscribe_blocks C S height ds)\<rparr>"

definition sql_serves ::
    "('c, 'row, 'j, 'pe) client_ops \<Rightarrow> ('c \<Rightarrow> bool) \<Rightarrow> ('c \<Rightarrow> bool) \<Rightarrow> ('c \<Rightarrow> 'j database)
      \<Rightarrow> ('c \<Rightarrow> 'j database) \<Rightarrow> ('leaf, 'qc, 'hdr, 'pl, 'tx, 'ix, 'pf, 'h, 'pk) node_types
      \<Rightarrow> ('leaf, 'qc, 'hdr, 'pl, 'ix, 'h, 'pk, 'md, 'j) serde_ops
      \<Rightarrow> (('leaf, 'qc) leaf_query_data, ('hdr, 'pl, 'h) block_query_data, 'h, 'ix) sql_ledger
      \<Rightarrow> ('c, 'm, ('leaf, 'qc) leaf_query_data, ('hdr, 'pl, 'h) block_query_data) sql_data_source
      \<Rightarrow> bool" where
  "sql_serves C in_tx aborted tabs durable N S L ds \<longleftrightarrow>
     postgres_laws C in_tx aborted tabs durable \<and> serde_laws S \<and>
     ledger_shown N S L (tabs (client ds)) \<and> ledger_ok N S L"

lemma entry_block_ok:
  assumes "entry_ok N S e" and "entry_block N S e = Inr b"
  shows "snd e = Some b" and "payload_indexed N (bq_payload b)"
proof -
  obtain leaf block where e: "e = (leaf, Some block)"
    using assms(2) by (cases e) (auto simp: entry_block_def split: option.splits)
  with assms(1) have "block_fits N S leaf block" "payload_indexed N (bq_payload block)"
    by (simp_all add: entry_ok_def)
  with assms(2) show "snd e = Some b" "payload_indexed N (bq_payload b)"
    by (simp_all add: e entry_block_def read_block_fits)
qed

lemma entry_block_cases:
  assumes "entry_ok N S e"
  shows "entry_block N S e = (case snd e of None \<Rightarrow> Inl Missing | Some b \<Rightarrow> Inr b)"
  using assms by (cases e) (auto simp: entry_block_def entry_ok_def read_block_fits split: option.splits)

lemma ledger_block_in:
  assumes "ledger_block N S L ident = Inr b"
  obtains e where "e \<in> set (sl_entries L)" "entry_block N S e = Inr b"
proof -
  let ?P = "\<lambda>e. case ident of Number n \<Rightarrow> leaf_height N (fst e) = n
                            | Hash h \<Rightarrow> leaf_block_hash N (fst e) = h"
  obtain e es where e: "filter ?P (ledger_by_height N L) = e # es" "entry_block N S e = Inr b"
    using assms by (auto simp: ledger_block_def split: list.splits)
  have "e \<in> set (filter ?P (ledger_by_height N L))" using e(1) by simp
  then have "e \<in> set (sl_entries L)" by (simp add: ledger_by_height_def)
  with e(2) show ?thesis by (rule that [rotated])
qed

text \<open>A transaction the ledger finds is in the block it is found in.\<close>

lemma ledger_transaction_found:
  assumes dist: "distinct (map (\<lambda>e. leaf_height N (fst e)) (sl_entries L))"
    and ok: "ledger_ok N S L" and get: "ledger_transaction N S L h = Inr (b, ix)"
  shows "\<exists>leaf tx. (leaf, Some b) \<in> set (sl_entries L) \<and>
    payload_transaction N (bq_payload b) ix = Some tx \<and> tx_commit N tx = h"
proof -
  obtain t ts where t: "filter (\<lambda>t. fst t = h) (sl_txs L) = t # ts"
    and rest: "(case filter (\<lambda>e. fst (snd t) = leaf_height N (fst e)) (sl_entries L) of
        [] \<Rightarrow> Inl NotFound
      | e # _ \<Rightarrow> and_then (entry_block N S e) (\<lambda>block. Inr (block, snd (snd t)))) = Inr (b, ix)"
    using get by (auto simp: ledger_transaction_def split: list.splits)
  have "t \<in> set (filter (\<lambda>t. fst t = h) (sl_txs L))" using t by simp
  then have t_in: "t \<in> set (sl_txs L)" "fst t = h" by auto
  obtain e es where e: "filter (\<lambda>e. fst (snd t) = leaf_height N (fst e)) (sl_entries L) = e # es"
    and block: "entry_block N S e = Inr b" "snd (snd t) = ix"
    using rest by (auto split: list.splits)
  have "e \<in> set (filter (\<lambda>e. fst (snd t) = leaf_height N (fst e)) (sl_entries L))" using e by simp
  then have e_in: "e \<in> set (sl_entries L)" "leaf_height N (fst e) = fst (snd t)" by auto
  have "entry_ok N S e" using ok e_in(1) by (simp add: ledger_ok_def)
  note stored = entry_block_ok [OF this block(1)]
  have "tx_resolves N (sl_entries L) t" using ok t_in(1) by (simp add: ledger_ok_def)
  then obtain leaf block tx where tx: "(leaf, Some block) \<in> set (sl_entries L)"
      "leaf_height N leaf = fst (snd t)"
      "payload_transaction N (bq_payload block) ix = Some tx" "tx_commit N tx = h"
    using t_in(2) block(2) by (auto simp: tx_resolves_def)
  have "inj_on (\<lambda>e. leaf_height N (fst e)) (set (sl_entries L))"
    using dist by (simp add: distinct_map)
  then have "e = (leaf, Some block)"
    using e_in tx(1,2) by (auto dest: inj_onD [where x = e and y = "(leaf, Some block)"])
  with stored tx e_in show ?thesis by auto
qed

lemma ledger_transaction_known:
  assumes dist: "distinct (map (\<lambda>e. leaf_height N (fst e)) (sl_entries L))" and ok: "ledger_ok N S L"
  shows "h \<notin> fst ` set (sl_txs L) \<Longrightarrow> ledger_transaction N S L h = Inl NotFound"
    and "h \<in> fst ` set (sl_txs L) \<Longrightarrow> \<exists>b ix. ledger_transaction N S L h = Inr (b, ix)"
proof -
  show "ledger_transaction N S L h = Inl NotFound" if "h \<notin> fst ` set (sl_txs L)"
  proof -
    have "filter (\<lambda>t. fst t = h) (sl_txs L) = []" using that by (force simp: filter_empty_conv)
    then show ?thesis by (simp add: ledger_transaction_def)
  qed
  assume "h \<in> fst ` set (sl_txs L)"
  then have "filter (\<lambda>t. fst t = h) (sl_txs L) \<noteq> []" by (auto simp: filter_empty_conv)
  then obtain t ts where t: "filter (\<lambda>t. fst t = h) (sl_txs L) = t # ts" by (meson neq_Nil_conv)
  then have "t \<in> set (filter (\<lambda>t. fst t = h) (sl_txs L))" by simp
  then have "tx_resolves N (sl_entries L) t" using ok by (auto simp: ledger_ok_def)
  then obtain leaf block where e: "(leaf, Some block) \<in> set (sl_entries L)"
      "leaf_height N leaf = fst (snd t)"
    by (auto simp: tx_resolves_def)
  then obtain i where i: "i < length (sl_entries L)" "sl_entries L ! i = (leaf, Some block)"
    by (auto simp: in_set_conv_nth)
  from filter_key_unique [OF dist i(1)] i(2) e(2)
  have one: "filter (\<lambda>e. fst (snd t) = leaf_height N (fst e)) (sl_entries L) = [(leaf, Some block)]"
    by simp
  show "\<exists>b ix. ledger_transaction N S L h = Inr (b, ix)"
    by (simp add: ledger_transaction_def t one entry_block_def)
qed

interpretation sql_api: transaction_source N "sql_avail_ops C S"
  "sql_serves C in_tx aborted tabs durable N S L"
  for N S C in_tx aborted tabs durable L
proof unfold_locales
  fix ds ident b
  assume inv: "sql_serves C in_tx aborted tabs durable N S L ds"
    and get: "av_get_block (sql_avail_ops C S) ds ident = Inr b"
  have "answers (sql_get_block C S ident ds) (ledger_block N S L ident)"
    using inv by (intro sql_get_block_ledger) (auto simp: sql_serves_def)
  with get have "ledger_block N S L ident = Inr b" by (auto simp: sql_avail_ops_def answers_def)
  then obtain e where "e \<in> set (sl_entries L)" "entry_block N S e = Inr b" by (rule ledger_block_in)
  with inv show "payload_indexed N (bq_payload b)"
    by (auto simp: sql_serves_def ledger_ok_def intro: entry_block_ok(2) [of N S e])
next
  fix ds h b ix
  assume inv: "sql_serves C in_tx aborted tabs durable N S L ds"
    and get: "av_get_block_with_transaction (sql_avail_ops C S) ds h = Inr (b, ix)"
  have laws: "postgres_laws C in_tx aborted tabs durable"
    and shown: "ledger_shown N S L (tabs (client ds))" and ok: "ledger_ok N S L"
    using inv by (simp_all add: sql_serves_def)
  have "answers (sql_get_block_with_transaction C S h ds) (ledger_transaction N S L h)"
    using inv by (intro sql_get_block_with_transaction_ledger) (auto simp: sql_serves_def)
  with get have "ledger_transaction N S L h = Inr (b, ix)"
    by (auto simp: sql_avail_ops_def answers_def)
  from ledger_transaction_found [OF ledger_heights_distinct [OF postgres_lawsD(6) [OF laws] shown] ok this]
  show "\<exists>tx. payload_transaction N (bq_payload b) ix = Some tx \<and> tx_commit N tx = h" by blast
qed

section \<open>Connecting\<close>

text \<open>Genesis is the first entry of a ledger that starts empty.\<close>

definition genesis_entry ::
    "('leaf, 'qc, 'hdr, 'pl, 'tx, 'ix, 'pf, 'h, 'pk) node_types
      \<Rightarrow> ('leaf, 'qc) leaf_query_data \<times> ('hdr, 'pl, 'h) block_query_data option" where
  "genesis_entry N = (leaf_query_data_genesis N, Some (block_query_data_genesis N))"

definition with_genesis where
  "with_genesis N L = (if sl_entries L = [] then ledger_extend N [genesis_entry N] L else L)"

lemma any_err_ok [simp]: "any_err E r = (Inr x, s) \<longleftrightarrow> r = (Inr x, s)"
  by (auto simp: any_err_def split: prod.splits sum.splits failure.splits)

lemma ledger_height_zero:
  assumes "ledger_small N L"
  shows "ledger_height N L = 0 \<longleftrightarrow> sl_entries L = []"
proof -
  let ?hs = "(\<lambda>e. leaf_height N (fst e)) ` set (sl_entries L)"
  have "m + 1 \<noteq> 0" if "uint m < 2 ^ 63" for m :: "64 word"
  proof
    assume "m + 1 = 0"
    then have "m = - 1" by (simp add: eq_neg_iff_add_eq_0)
    with that show False by (simp add: unsigned_minus_1_eq_mask mask_eq_exp_minus_1)
  qed
  moreover have "uint (Max ?hs) < 2 ^ 63" if "sl_entries L \<noteq> []"
  proof -
    have "Max ?hs \<in> ?hs" by (rule Max_in) (use that in auto)
    then show ?thesis using assms by (auto simp only: ledger_small_def)
  qed
  ultimately show ?thesis by (auto simp: ledger_height_def)
qed

lemma sql_insert_genesis_rep:
  assumes laws: "postgres_laws C in_tx aborted tabs durable" and serde: "serde_laws S"
    and rep: "sql_rep in_tx aborted tabs durable N S D (Some D) ds" and small: "ledger_small N D"
    and gen: "entry_ok N S (genesis_entry N)"
    and run: "sql_insert_genesis N C S EQ EP ds = (Inr u, ds')"
  shows "sql_rep in_tx aborted tabs durable N S (with_genesis N D) (Some (with_genesis N D)) ds'"
proof -
  let ?leaf = "leaf_query_data_genesis N" and ?block = "block_query_data_genesis N"
  have "ledger_shown N S D (tabs (client ds))" using rep by (simp add: sql_rep_def)
  note height = sql_block_height_ledger [OF laws this small]
  obtain h where h: "sql_block_height C ds = Inr h"
    using run by (cases "sql_block_height C ds")
      (auto simp: sql_insert_genesis_def any_err_def split: failure.splits)
  with height have "h = ledger_height N D" by simp
  then have zero: "h = 0 \<longleftrightarrow> sl_entries D = []" by (simp add: ledger_height_zero [OF small])
  show ?thesis
  proof (cases "sl_entries D = []")
    case False
    with run h zero rep show ?thesis by (simp add: sql_insert_genesis_def any_err_def with_genesis_def)
  next
    case True
    obtain ds1 ds2 where leaf: "sql_insert_leaf N C S ?leaf ds = (Inr (), ds1)"
      and block: "sql_insert_block N C S ?block ds1 = (Inr (), ds2)"
      and com: "sql_commit C ds2 = (Inr u, ds')"
      using run True zero h by (auto simp: sql_insert_genesis_def attempt_ok)
    from sql_insert_leaf_rep(1) [OF laws serde rep leaf]
    have rep1: "sql_rep in_tx aborted tabs durable N S D (Some (ledger_add_leaf ?leaf D)) ds1" by auto
    from sql_insert_block_rep(1) [OF laws serde rep1 block]
    have rep2: "sql_rep in_tx aborted tabs durable N S D
        (Some (ledger_add_block N ?block (ledger_add_leaf ?leaf D))) ds2" by auto
    have "block_height N ?block = leaf_height N ?leaf"
      using gen by (intro block_fits_height [of N S]) (simp add: genesis_entry_def entry_ok_def)
    then have "ledger_add_block N ?block (ledger_add_leaf ?leaf D) = with_genesis N D"
      using True
      by (subst ledger_add_block_last) (simp_all add: with_genesis_def genesis_entry_def)
    with sql_commit_rep(1) [OF laws rep2 com refl] show ?thesis by simp
  qed
qed

lemma sql_connect_rep:
  assumes laws: "postgres_laws C in_tx aborted tabs durable" and serde: "serde_laws S"
    and gen: "entry_ok N S (genesis_entry N)" and small: "ledger_small N D"
    and prep: "\<And>c c'. open_client K cfg = Inr c \<Longrightarrow>
      sql_prepare_schema K M mj embedded cfg c = (Inr (), c') \<Longrightarrow>
      \<not> in_tx c' \<and> ledger_shown N S D (durable c')"
    and run: "sql_connect K M mj embedded N C S EQ EP metrics0 cfg = Inr ds"
  shows "sql_rep in_tx aborted tabs durable N S (with_genesis N D) (Some (with_genesis N D)) ds"
proof -
  obtain c c' where c: "open_client K cfg = Inr c"
      "sql_prepare_schema K M mj embedded cfg c = (Inr (), c')"
    and gens: "sql_insert_genesis N C S EQ EP
        \<lparr>client = c', tx_in_progress = False, leaf_stream = channel_init,
         block_stream = channel_init, sql_metrics = metrics0, kill = True\<rparr> = (Inr (), ds)"
    using run by (auto simp: sql_connect_def built_def split: sum.splits prod.splits)
  note fresh = prep [OF c]
  have "sql_rep in_tx aborted tabs durable N S D (Some D)
      \<lparr>client = c', tx_in_progress = False, leaf_stream = channel_init,
       block_stream = channel_init, sql_metrics = metrics0, kill = True\<rparr>"
    using fresh by (intro sql_idle_rep [OF laws]) (simp_all add: sql_synced_def)
  from sql_insert_genesis_rep [OF laws serde this small gen gens] show ?thesis .
qed

end
