(* ===== verification/SqlTyping.thy ===== *)
theory SqlTyping
  imports SqlService
begin

text \<open>
  Which leaves and blocks a data source may hold: the update algorithm only inserts leaves whose
  certificate references them, and blocks under their own leaf.
\<close>

section \<open>Certified entries\<close>

definition certified :: "('leaf, 'qc, 'hdr, 'pl, 'tx, 'ix, 'pf, 'h, 'pk) node_types
    \<Rightarrow> ('leaf, 'qc) leaf_query_data \<Rightarrow> bool" where
  "certified N lq \<longleftrightarrow> qc_leaf_commit N (lq_qc lq) = leaf_commit N (lq_leaf lq)"

definition block_of :: "('leaf, 'qc, 'hdr, 'pl, 'tx, 'ix, 'pf, 'h, 'pk) node_types
    \<Rightarrow> ('leaf, 'qc) leaf_query_data \<Rightarrow> ('hdr, 'pl, 'h) block_query_data \<Rightarrow> bool" where
  "block_of N lq block \<longleftrightarrow>
     bq_header block = leaf_block_header N (lq_leaf lq) \<and> bq_hash block = leaf_block_hash N lq \<and>
     leaf_block_payload N (lq_leaf lq) = Some (bq_payload block) \<and>
     bq_size block = payload_size N (bq_payload block)"

text \<open>
  The contract of a data source whose contents are typed: a certified leaf may be inserted, and
  right after it its block, and both keep the invariant whatever they return.
\<close>

locale typed_target =
  fixes N :: "('leaf, 'qc, 'hdr, 'pl, 'tx, 'ix, 'pf, 'h, 'pk) node_types"
    and D :: "('ds, ('leaf, 'qc) leaf_query_data, ('hdr, 'pl, 'h) block_query_data, 'e) update_ops"
    and inv :: "'ds \<Rightarrow> bool"
  assumes leaf_typed: "inv ds \<Longrightarrow> certified N lq \<Longrightarrow> ds_insert_leaf D lq ds = (r, ds') \<Longrightarrow> inv ds'"
    and block_typed: "inv ds \<Longrightarrow> certified N lq \<Longrightarrow> ds_insert_leaf D lq ds = (Inr (), ds1) \<Longrightarrow>
      block_of N lq block \<Longrightarrow> ds_insert_block D block ds1 = (r, ds') \<Longrightarrow> inv ds'"
begin

lemma update_one_typed:
  assumes inv: "inv ds" and run: "update_one N dbg D qc leaf ds = (r, ds')"
  shows "inv ds'"
proof (cases "leaf_query_data_new N leaf qc")
  case (Inl e)
  with inv run show ?thesis by (simp add: update_one_def)
next
  case (Inr lq)
  then have lq: "lq = \<lparr>lq_leaf = leaf, lq_qc = qc\<rparr>" and cert: "certified N lq"
    by (auto simp: leaf_query_data_new_def certified_def split: if_splits)
  obtain x ds1 where one: "ds_insert_leaf D lq ds = (x, ds1)" by fastforce
  note inv1 = leaf_typed [OF inv cert one]
  show ?thesis
  proof (cases x)
    case (Inl e)
    with run Inr one inv1 show ?thesis by (simp add: update_one_def)
  next
    case (Inr u)
    note ins = Inr
    show ?thesis
    proof (cases "leaf_block_payload N leaf")
      case None
      with run \<open>leaf_query_data_new N leaf qc = Inr lq\<close> one ins inv1 show ?thesis
        by (simp add: update_one_def)
    next
      case (Some payload)
      show ?thesis
      proof (cases "block_query_data_new N dbg leaf qc payload")
        case (Inl f)
        with run \<open>leaf_query_data_new N leaf qc = Inr lq\<close> one ins inv1 Some show ?thesis
          by (cases f) (simp_all add: update_one_def)
      next
        case (Inr block)
        have "block_of N lq block"
          using block_query_data_new_ok [OF Inr] Some
          by (simp add: block_of_def lq leaf_block_hash_def)
        moreover have "ds_insert_block D block ds1 = (r, ds')"
          using run \<open>leaf_query_data_new N leaf qc = Inr lq\<close> one ins Some Inr
          by (simp add: update_one_def)
        ultimately show ?thesis using block_typed [OF inv cert] one ins by simp
      qed
    qed
  qed
qed

lemma update_leaves_typed:
  "inv ds \<Longrightarrow> update_leaves N dbg D pairs ds = (r, ds') \<Longrightarrow> inv ds'"
proof (induction pairs arbitrary: ds)
  case Nil
  then show ?case by simp
next
  case (Cons p pairs)
  obtain qc leaf where p: "p = (qc, leaf)" by fastforce
  from Cons.prems(2) show ?case unfolding p update_leaves.simps
  proof (cases rule: attempt_cases)
    case (early e)
    then show ?thesis using update_one_typed Cons.prems(1) by blast
  next
    case (cont x s)
    then show ?thesis using update_one_typed Cons by blast
  qed
qed

lemma update_typed: "inv ds \<Longrightarrow> update N dbg D event ds = (r, ds') \<Longrightarrow> inv ds'"
  by (auto simp: update_def split: event.splits intro: update_leaves_typed)

end

section \<open>The SQL data source\<close>

definition entry_typed where
  "entry_typed N = (\<lambda>(lq, b). certified N lq \<and> (\<forall>block. b = Some block \<longrightarrow> block_of N lq block))"

definition ledger_typed :: "('leaf, 'qc, 'hdr, 'pl, 'tx, 'ix, 'pf, 'h, 'pk) node_types
    \<Rightarrow> (('leaf, 'qc) leaf_query_data, ('hdr, 'pl, 'h) block_query_data, 'h, 'ix) sql_ledger \<Rightarrow> bool" where
  "ledger_typed N L \<longleftrightarrow> (\<forall>e \<in> set (sl_entries L). entry_typed N e)"

lemma ledger_typed_extend [simp]:
  "ledger_typed N (ledger_extend N es L) \<longleftrightarrow> ledger_typed N L \<and> (\<forall>e \<in> set es. entry_typed N e)"
  by (auto simp: ledger_typed_def)

text \<open>The committed ledger is typed, and so is the current one unless it is lost.\<close>

definition sql_typed ::
    "('c, 'row, 'j, 'pe) client_ops \<Rightarrow> ('c \<Rightarrow> bool) \<Rightarrow> ('c \<Rightarrow> bool) \<Rightarrow> ('c \<Rightarrow> 'j database)
      \<Rightarrow> ('c \<Rightarrow> 'j database) \<Rightarrow> ('leaf, 'qc, 'hdr, 'pl, 'tx, 'ix, 'pf, 'h, 'pk) node_types
      \<Rightarrow> ('leaf, 'qc, 'hdr, 'pl, 'ix, 'h, 'pk, 'md, 'j) serde_ops
      \<Rightarrow> ('c, 'm, ('leaf, 'qc) leaf_query_data, ('hdr, 'pl, 'h) block_query_data) sql_data_source
      \<Rightarrow> bool" where
  "sql_typed C in_tx aborted tabs durable N S ds \<longleftrightarrow>
     postgres_laws C in_tx aborted tabs durable \<and> serde_laws S \<and>
     (\<exists>D w. sql_rep in_tx aborted tabs durable N S D w ds \<and> ledger_typed N D \<and>
        (\<forall>W. w = Some W \<longrightarrow> ledger_typed N W))"

lemma sql_typedI:
  assumes "postgres_laws C in_tx aborted tabs durable" and "serde_laws S"
    and "sql_rep in_tx aborted tabs durable N S D w ds" and "ledger_typed N D"
    and "\<And>W. w = Some W \<Longrightarrow> ledger_typed N W"
  shows "sql_typed C in_tx aborted tabs durable N S ds"
  unfolding sql_typed_def using assms by (intro conjI exI [of _ D] exI [of _ w]) simp_all

interpretation sql_types: typed_target N "sql_update_ops N C S"
  "sql_typed C in_tx aborted tabs durable N S"
  for N C S in_tx aborted tabs durable
proof unfold_locales
  fix ds lq r ds'
  assume inv: "sql_typed C in_tx aborted tabs durable N S ds" and cert: "certified N lq"
    and run: "ds_insert_leaf (sql_update_ops N C S) lq ds = (r, ds')"
  obtain D w where laws: "postgres_laws C in_tx aborted tabs durable" "serde_laws S"
    and rep: "sql_rep in_tx aborted tabs durable N S D w ds"
    and typed: "ledger_typed N D" "\<And>W. w = Some W \<Longrightarrow> ledger_typed N W"
    using inv by (auto simp: sql_typed_def)
  note sim = sql_insert_leaf_rep [OF laws rep run [unfolded sql_ops_simps]]
  show "sql_typed C in_tx aborted tabs durable N S ds'"
  proof (cases "r = Inr ()")
    case True
    then obtain W where W: "w = Some W"
        "sql_rep in_tx aborted tabs durable N S D (Some (ledger_add_leaf lq W)) ds'"
      using sim(1) by blast
    show ?thesis
      by (rule sql_typedI [OF laws W(2) typed(1)])
        (use typed(2) [OF W(1)] cert in \<open>auto simp: ledger_add_leaf_extend [of _ _ N] entry_typed_def\<close>)
  next
    case False
    then obtain w' where "w' = w \<or> w' = None" "sql_rep in_tx aborted tabs durable N S D w' ds'"
      using sim(2) by blast
    with typed show ?thesis by (intro sql_typedI [OF laws _ typed(1)]) auto
  qed
next
  fix ds lq ds1 block r ds'
  assume inv: "sql_typed C in_tx aborted tabs durable N S ds" and cert: "certified N lq"
    and leaf: "ds_insert_leaf (sql_update_ops N C S) lq ds = (Inr (), ds1)"
    and block: "block_of N lq block"
    and run: "ds_insert_block (sql_update_ops N C S) block ds1 = (r, ds')"
  obtain D w where laws: "postgres_laws C in_tx aborted tabs durable" "serde_laws S"
    and rep: "sql_rep in_tx aborted tabs durable N S D w ds"
    and typed: "ledger_typed N D" "\<And>W. w = Some W \<Longrightarrow> ledger_typed N W"
    using inv by (auto simp: sql_typed_def)
  from sql_insert_leaf_rep(1) [OF laws rep leaf [unfolded sql_ops_simps]]
  obtain W where W: "w = Some W"
      "sql_rep in_tx aborted tabs durable N S D (Some (ledger_add_leaf lq W)) ds1" by blast
  note sim = sql_insert_block_rep [OF laws W(2) run [unfolded sql_ops_simps]]
  show "sql_typed C in_tx aborted tabs durable N S ds'"
  proof (cases "r = Inr ()")
    case True
    then have ins: "sql_rep in_tx aborted tabs durable N S D
        (Some (ledger_add_block N block (ledger_add_leaf lq W))) ds'"
      using sim(1) by blast
    have "ledger_shown N S (ledger_add_leaf lq W) (tabs (client ds1))"
      using W(2) by (simp add: sql_rep_def)
    from ledger_heights_distinct [OF postgres_lawsD(6) [OF laws(1)] this]
    have dist: "distinct (map (\<lambda>e. leaf_height N (fst e)) (sl_entries W @ [(lq, None)]))"
      by (simp add: ledger_add_leaf_def)
    have "block_height N block = leaf_height N lq"
      using block by (simp add: block_of_def block_height_def leaf_height_def)
    note ledger_add_block_last [OF dist this]
    with ins have "sql_rep in_tx aborted tabs durable N S D
        (Some (ledger_extend N [(lq, Some block)] W)) ds'" by simp
    then show ?thesis
      by (rule sql_typedI [OF laws _ typed(1)])
        (use typed(2) [OF W(1)] cert block in \<open>auto simp: entry_typed_def\<close>)
  next
    case False
    then obtain w' where w': "w' = Some (ledger_add_leaf lq W) \<or> w' = None"
        "sql_rep in_tx aborted tabs durable N S D w' ds'"
      using sim(2) by blast
    show ?thesis
      by (rule sql_typedI [OF laws w'(2) typed(1)])
        (use w'(1) typed(2) [OF W(1)] cert in
          \<open>auto simp: ledger_add_leaf_extend [of _ _ N] entry_typed_def\<close>)
  qed
qed

end
