(* ===== verification/SqlRuns.thy ===== *)
theory SqlRuns
  imports SqlMock SqlServing SqlTyping
begin

text \<open>
  Concrete runs of the SQL data source on the database in memory, for the witnesses: connecting to
  an empty database, one decided leaf with a block of three transactions, and its commit.
\<close>

section \<open>Conversions and schema\<close>

lemma mock_serde_laws: "serde_laws mock_serde"
  by (auto simp: serde_laws_def mock_serde_def inj_on_def split: option.splits)

definition mock_connect :: "(nat, db_session, query_error) connect_ops" where
  "mock_connect = \<lparr>open_client = (\<lambda>_. Inr (empty_database, None)), last_applied = (\<lambda>_ c. (Inr None, c)),
     run_migrations = (\<lambda>_ c. (Inr (), c)), any_msg = QueryError\<rparr>"

section \<open>Runs\<close>

type_synonym mock_sql = "(db_session, unit, (nat \<times> nat \<times> nat \<times> nat list option, nat) leaf_query_data,
  (nat, nat list, nat) block_query_data) sql_data_source"

definition db_empty :: mock_sql where
  "db_empty = \<lparr>client = (empty_database, None), tx_in_progress = False, leaf_stream = channel_init,
     block_stream = channel_init, sql_metrics = (), kill = True\<rparr>"

definition db_tables0 :: db where
  "db_tables0 =
     \<lparr>header_table = [\<lparr>hr_height = 0, hr_hash = decimal 500, hr_data = [0]\<rparr>],
      payload_table = [\<lparr>pr_height = 0, pr_size = Some (u64_as_i32 0), pr_data = Some []\<rparr>],
      leaf_table = [\<lparr>lr_height = 0, lr_hash = decimal 1000, lr_proposer = decimal 0,
        lr_block_hash = decimal 500, lr_leaf = [0, 0, 1000, 1], lr_qc = [1000]\<rparr>],
      transaction_table = []\<rparr>"

definition db_connected :: mock_sql where
  "db_connected =
     \<lparr>client = (db_tables0, None), tx_in_progress = False,
      leaf_stream = channel_flush (channel_push (leaf_query_data_genesis mock_types) channel_init),
      block_stream = channel_flush (channel_push (block_query_data_genesis mock_types) channel_init),
      sql_metrics = (), kill = True\<rparr>"

definition db_tables1 :: db where
  "db_tables1 =
     \<lparr>header_table = header_table db_tables0 @ [\<lparr>hr_height = 1, hr_hash = decimal 501, hr_data = [1]\<rparr>],
      payload_table = payload_table db_tables0 @
        [\<lparr>pr_height = 1, pr_size = Some (u64_as_i32 3), pr_data = Some [8, 9, 8]\<rparr>],
      leaf_table = leaf_table db_tables0 @ [\<lparr>lr_height = 1, lr_hash = decimal 1014,
        lr_proposer = decimal 4, lr_block_hash = decimal 501, lr_leaf = [1, 4, 1000, 1, 8, 9, 8],
        lr_qc = [1014]\<rparr>],
      transaction_table = [\<lparr>tr_hash = decimal 7008, tr_block_height = 1, tr_index = [0]\<rparr>,
        \<lparr>tr_hash = decimal 7009, tr_block_height = 1, tr_index = [1]\<rparr>,
        \<lparr>tr_hash = decimal 7008, tr_block_height = 1, tr_index = [2]\<rparr>]\<rparr>"

definition db_updated :: mock_sql where
  "db_updated = db_connected\<lparr>client := (db_tables0, Some (db_tables1, False)), tx_in_progress := True,
     leaf_stream := channel_push \<lparr>lq_leaf = (1, 4, 1000, Some [8, 9, 8]), lq_qc = 1014\<rparr>
       (leaf_stream db_connected),
     block_stream := channel_push \<lparr>bq_header = 1, bq_payload = [8, 9, 8], bq_hash = 501, bq_size = 3\<rparr>
       (block_stream db_connected)\<rparr>"

definition db_served :: mock_sql where
  "db_served = snd (sql_commit db_client db_updated)"

lemmas db_run_eval = sql_insert_leaf_def leaf_statements_def run_statements_def
  sql_transaction_def failure_err_def tx_execute_def mock_serde_def msg_err_def
  db_execute_def db_statement_def db_put_def db_fail_def db_batch_def db_aborted_def db_durable_def
  db_tabs_def schema_constraints_def empty_database_def mock_types_simps
  sql_insert_block_def block_statements_def Let_def on_field_def sql_commit_def db_err_def
  db_client_def payload_enumerate_def list_get_def upt_rec value_tuple_def numeral_2_eq_2 [symmetric]

lemmas db_states = db_connected_def db_tables0_def db_updated_def db_tables1_def

lemma db_genesis:
  "sql_insert_genesis mock_types db_client mock_serde id QueryError db_empty = (Inr (), db_connected)"
  by (simp add: sql_insert_genesis_def any_err_def sql_block_height_def db_query_one_def db_empty_def
      db_states db_run_eval del: db_client_sel)

lemma db_update_one:
  "update_one mock_types False (sql_update_ops mock_types db_client mock_serde) 1014
     (1, 4, 1000, Some [8, 9, 8]) db_connected = (Inr (), db_updated)"
  by (simp add: update_one_def leaf_query_data_new_def block_query_data_new_def db_states db_run_eval
      del: db_client_sel)

lemma db_commit_ok:
  "sql_commit db_client ds = (Inr (), snd (sql_commit db_client ds))"
  "sql_commit db_client db_updated = (Inr (), db_served)"
  by (auto simp: sql_commit_def db_batch_def on_field_def db_served_def split: if_splits)

lemma db_prepared:
  "sql_prepare_schema mock_connect nat_migrations mj [] config_default c = (Inr (), c)"
  if "mj (\<lambda>l r. cmp_nat (version nat_migrations l) (version nat_migrations r)) [] [] = []"
  using that
  by (simp add: sql_prepare_schema_def mock_connect_def validate_migrations_def default_migrations_def
      config_default_def add_custom_migrations_def Let_def)

definition mock_join :: "(nat \<Rightarrow> nat \<Rightarrow> ordering) \<Rightarrow> nat list \<Rightarrow> nat list \<Rightarrow> (nat, nat) either_or_both list" where
  "mock_join cmp ls rs = map LeftOnly ls @ map RightOnly rs"

lemma db_connect:
  "sql_connect mock_connect nat_migrations mock_join [] mock_types db_client mock_serde id QueryError ()
     config_default = Inr db_connected"
proof -
  have "open_client mock_connect config_default = Inr (empty_database, None)"
    by (simp add: mock_connect_def)
  with db_genesis show ?thesis
    by (simp add: sql_connect_def db_prepared mock_join_def db_empty_def)
qed

section \<open>What they represent\<close>

lemma db_empty_rep:
  "sql_rep db_in_tx db_aborted db_tabs db_durable mock_types mock_serde empty_ledger (Some empty_ledger)
     db_empty"
proof -
  have "db_durable (client db_empty) = empty_database" "\<not> db_in_tx (client db_empty)"
      "sql_synced db_in_tx db_empty"
    by (simp_all add: db_durable_def db_empty_def db_in_tx_def sql_synced_def schema_constraints_def
        empty_database_def)
  then show ?thesis by (intro sql_idle_rep [OF db_laws]) simp_all
qed

lemma mock_block_fits [simp]:
  "block_fits mock_types mock_serde \<lparr>lq_leaf = (n, pk, q, pl), lq_qc = qc\<rparr> block \<longleftrightarrow>
     bq_header block = n \<and> bq_hash block = 500 + n \<and> uint (bq_size block) < 2 ^ 31"
  by (auto simp: block_fits_def mock_types_simps mock_serde_def)

lemma mock_genesis_entry:
  "genesis_entry mock_types = (\<lparr>lq_leaf = (0, 0, 1000, Some []), lq_qc = 1000\<rparr>,
     Some \<lparr>bq_header = 0, bq_payload = [], bq_hash = 500, bq_size = 0\<rparr>)"
  by (simp add: genesis_entry_def mock_types_simps)

lemma db_genesis_entry: "entry_ok mock_types mock_serde (genesis_entry mock_types)"
  by (simp add: entry_ok_def mock_genesis_entry)

lemma empty_small [simp]: "ledger_small N empty_ledger"
  by (simp add: ledger_small_def empty_ledger_def)

abbreviation mock_ledger0 where "mock_ledger0 \<equiv> with_genesis mock_types empty_ledger"

lemma db_connected_rep:
  "sql_rep db_in_tx db_aborted db_tabs db_durable mock_types mock_serde mock_ledger0 (Some mock_ledger0)
     db_connected"
  by (rule sql_insert_genesis_rep [OF db_laws mock_serde_laws db_empty_rep _ db_genesis_entry db_genesis])
    simp

lemma db_updated_rep:
  "sql_rep db_in_tx db_aborted db_tabs db_durable mock_types mock_serde mock_ledger0
     (Some (ledger_extend mock_types [decided_entry mock_types (1014, 1, 4, 1000, Some [8, 9, 8])]
       mock_ledger0)) db_updated"
  by (rule sql_update_one_entry [OF db_laws mock_serde_laws db_connected_rep db_update_one])

end
