(* ===== verification/SqlLedgerProps.thy ===== *)
theory SqlLedgerProps
  imports SqlRuns
begin

text \<open>
  The properties of the SQL data source as a ledger: what is durable when, what its queries answer,
  and what it does in the service and behind the API. All rest on the documented behaviour of the
  database (\<open>postgres_laws\<close>) and of the conversions (\<open>serde_laws\<close>).
\<close>

section \<open>Refinement\<close>



section \<open>The service\<close>

text \<open>
  C28. Connecting prepares the schema and makes sure of genesis: the data source it returns holds the
  ledger that was in the database, or the genesis leaf and block alone when there was none, durably
  and with nothing outstanding.
\<close>

theorem sql_connect_genesis:
  assumes "postgres_laws C in_tx aborted tabs durable" and "serde_laws S"
    and "entry_ok N S (genesis_entry N)" and "ledger_small N D"
    and "\<And>c c'. open_client K cfg = Inr c \<Longrightarrow>
      sql_prepare_schema K M mj embedded cfg c = (Inr (), c') \<Longrightarrow>
      \<not> in_tx c' \<and> ledger_shown N S D (durable c')"
    and "sql_connect K M mj embedded N C S EQ EP metrics0 cfg = Inr ds"
  shows "sql_rep in_tx aborted tabs durable N S (with_genesis N D) (Some (with_genesis N D)) ds"
  using assms by (rule sql_connect_rep)

theorem sql_connect_genesis_witness:
  "sql_rep db_in_tx db_aborted db_tabs db_durable mock_types mock_serde mock_ledger0 (Some mock_ledger0)
     db_connected"
proof (rule sql_connect_genesis [OF db_laws mock_serde_laws db_genesis_entry empty_small _ db_connect])
  fix c c'
  assume "open_client mock_connect config_default = Inr c"
    and "sql_prepare_schema mock_connect nat_migrations mock_join [] config_default c = (Inr (), c')"
  then have "c' = client db_empty"
    by (simp add: db_prepared mock_join_def) (simp add: mock_connect_def db_empty_def)
  then show "\<not> db_in_tx c' \<and> ledger_shown mock_types mock_serde empty_ledger (db_durable c')"
    using db_empty_rep by (simp add: sql_rep_def db_in_tx_def db_empty_def)
qed

text \<open>
  C11. The standalone service over the SQL data source: if it consumes a stream of decided chains
  and stops without an error, the durable ledger is the old one followed by every decided leaf in
  chronological order, each with the certificate that justifies it and the block it carries, and
  nothing is outstanding.
\<close>

theorem sql_service_records_ledger:
  fixes show_update :: "query_error \<Rightarrow> string" and show_commit :: "'pe \<Rightarrow> string"
  assumes "postgres_laws C in_tx aborted tabs durable" and "serde_laws S"
    and "sql_rep in_tx aborted tabs durable N S D (Some D) ds"
    and "run_standalone_service register_module show_api availability_api status_api app
      N dbg (sql_update_ops N C S) (sql_versioned_ops C) show_update show_commit
      (map (\<lambda>(chain, qc). Decide chain qc) decides) ds = (Inr u, ds')"
    and "D' = ledger_extend N
      (map (decided_entry N) (concat (map (\<lambda>(chain, qc). chain_entries N chain qc) decides))) D"
  shows "sql_rep in_tx aborted tabs durable N S D' (Some D') ds'"
  using assms(4) unfolding run_standalone_service_def
  by (auto split: sum.splits intro: sql_update_loop_entries [OF assms(1-3) _ assms(5)])

lemma db_service:
  "run_standalone_service (\<lambda>_ _ app. Inr app) id (Inr ()) (Inr ()) ()
     mock_types False (sql_update_ops mock_types db_client mock_serde) (sql_versioned_ops db_client) show_update id
     (map (\<lambda>(chain, qc). Decide chain qc) [([(1, 4, 1000, Some [8, 9, 8])], 1014)]) db_connected
   = (Inr (), db_served)"
  by (simp add: run_standalone_service_def register_apis_def internal_err_def update_def
      decided_qcs_def db_update_one [simplified] db_commit_ok(2))

abbreviation mock_ledger1 where
  "mock_ledger1 \<equiv> ledger_extend mock_types
     (map (decided_entry mock_types) (concat (map (\<lambda>(chain, qc). chain_entries mock_types chain qc)
       [([(1, 4, 1000, Some [8, 9, 8])], 1014)]))) mock_ledger0"

theorem sql_service_records_ledger_witness:
  "sql_rep db_in_tx db_aborted db_tabs db_durable mock_types mock_serde mock_ledger1 (Some mock_ledger1)
     db_served"
  by (rule sql_service_records_ledger [OF db_laws mock_serde_laws db_connected_rep db_service refl])

section \<open>Queries\<close>

definition names_leaf where
  "names_leaf N ident leaf \<longleftrightarrow>
     (case ident of Number n \<Rightarrow> leaf_height N leaf = n | Hash h \<Rightarrow> leaf_hash N leaf = h)"

definition names_block where
  "names_block N ident leaf \<longleftrightarrow>
     (case ident of Number n \<Rightarrow> leaf_height N leaf = n | Hash h \<Rightarrow> leaf_block_hash N leaf = h)"

text \<open>
  Looking a leaf up by number or hash returns a stored leaf that has it; \<^verbatim>\<open>NotFound\<close> means that
  no stored leaf does, and it is the only answer besides an error of the database. Uncommitted
  leaves are found too.
\<close>

theorem sql_get_leaf_answers:
  assumes "postgres_laws C in_tx aborted tabs durable" and "serde_laws S"
    and "sql_rep in_tx aborted tabs durable N S D (Some W) ds"
  shows "case sql_get_leaf C S ident ds of
      Inr leaf \<Rightarrow> leaf \<in> fst ` set (sl_entries W) \<and> names_leaf N ident leaf
    | Inl e \<Rightarrow> (\<exists>m. e = QueryError m) \<or>
        e = NotFound \<and> (\<forall>leaf \<in> fst ` set (sl_entries W). \<not> names_leaf N ident leaf)"
proof -
  have shown: "ledger_shown N S W (tabs (client ds))" using assms(3) by (simp add: sql_rep_def)
  have spec: "ledger_leaf N W ident =
      (case filter (\<lambda>e. names_leaf N ident (fst e)) (sl_entries W) of
         [] \<Rightarrow> Inl NotFound | e # _ \<Rightarrow> Inr (fst e))"
    by (simp add: ledger_leaf_def names_leaf_def)
  show ?thesis
  proof (cases "filter (\<lambda>e. names_leaf N ident (fst e)) (sl_entries W)")
    case Nil
    with sql_get_leaf_ledger [OF assms(1,2) shown, of ident] show ?thesis
      by (auto simp: spec answers_def filter_empty_conv)
  next
    case (Cons e es)
    then have "e \<in> set (sl_entries W) \<and> names_leaf N ident (fst e)"
      by (metis filter_eq_ConsD in_set_conv_decomp)
    with Cons sql_get_leaf_ledger [OF assms(1,2) shown, of ident] show ?thesis
      by (auto simp: spec answers_def)
  qed
qed

lemma db_select_leaf:
  "sql_get_leaf db_client mock_serde (Number 1) db_updated
     = Inr \<lparr>lq_leaf = (1, 4, 1000, Some [8, 9, 8]), lq_qc = 1014\<rparr>"
  by (simp add: sql_get_leaf_def db_query_opt_def at_most_one_def leaf_out_def parse_leaf_def row_err_def
      mock_client_def db_states db_run_eval del: db_client_sel)

theorem sql_get_leaf_answers_witness:
  "\<lparr>lq_leaf = (1, 4, 1000, Some [8, 9, 8]), lq_qc = 1014\<rparr>
     \<in> fst ` set (sl_entries (ledger_extend mock_types
        [decided_entry mock_types (1014, 1, 4, 1000, Some [8, 9, 8])] mock_ledger0))"
  using sql_get_leaf_answers [OF db_laws mock_serde_laws db_updated_rep, of "Number 1"]
  by (simp only: db_select_leaf sum.case)

text \<open>
  C25. Looking a block up by number or hash returns the block of a stored leaf that has it, exactly
  as it was inserted; a leaf whose block is not there is \<^verbatim>\<open>Missing\<close>, and \<^verbatim>\<open>NotFound\<close> means that no
  stored leaf has it.
\<close>

theorem sql_get_block_answers:
  assumes "postgres_laws C in_tx aborted tabs durable" and "serde_laws S"
    and "sql_rep in_tx aborted tabs durable N S D (Some W) ds" and "ledger_ok N S W"
  shows "case sql_get_block C S ident ds of
      Inr block \<Rightarrow> \<exists>leaf. (leaf, Some block) \<in> set (sl_entries W) \<and> names_block N ident leaf
    | Inl e \<Rightarrow> (\<exists>m. e = QueryError m) \<or>
        e = Missing \<and> (\<exists>leaf. (leaf, None) \<in> set (sl_entries W) \<and> names_block N ident leaf) \<or>
        e = NotFound \<and> (\<forall>leaf \<in> fst ` set (sl_entries W). \<not> names_block N ident leaf)"
proof -
  have shown: "ledger_shown N S W (tabs (client ds))" using assms(3) by (simp add: sql_rep_def)
  have spec: "ledger_block N S W ident =
      (case filter (\<lambda>e. names_block N ident (fst e)) (ledger_by_height N W) of
         [] \<Rightarrow> Inl NotFound | e # _ \<Rightarrow> entry_block N S e)"
    by (simp add: ledger_block_def names_block_def)
  have same: "set (ledger_by_height N W) = set (sl_entries W)" by (simp add: ledger_by_height_def)
  show ?thesis
  proof (cases "filter (\<lambda>e. names_block N ident (fst e)) (ledger_by_height N W)")
    case Nil
    with sql_get_block_ledger [OF assms(1,2) shown, of ident] same show ?thesis
      by (auto simp: spec answers_def filter_empty_conv)
  next
    case (Cons e es)
    then have e: "e \<in> set (sl_entries W)" "names_block N ident (fst e)"
      using same by (metis filter_eq_ConsD in_set_conv_decomp)+
    have "entry_ok N S e" using e(1) assms(4) by (simp add: ledger_ok_def)
    note block = entry_block_cases [OF this]
    have "answers (sql_get_block C S ident ds) (entry_block N S e)"
      using sql_get_block_ledger [OF assms(1,2) shown, of ident] Cons by (simp add: spec)
    then have "sql_get_block C S ident ds = entry_block N S e \<or>
        (\<exists>m. sql_get_block C S ident ds = Inl (QueryError m))"
      by (simp only: answers_def)
    then show ?thesis
    proof
      assume got: "sql_get_block C S ident ds = entry_block N S e"
      obtain leaf b where le: "e = (leaf, b)" by fastforce
      have "sql_get_block C S ident ds = (case b of None \<Rightarrow> Inl Missing | Some b \<Rightarrow> Inr b)"
        using got block le by simp
      with e le show ?thesis by (cases b) auto
    qed auto
  qed
qed

lemma mock_ledger_ok: "ledger_ok mock_types mock_serde mock_ledger0"
  unfolding with_genesis_def
  by (auto simp: db_genesis_entry intro!: ledger_ok_extend)

lemma mock_entry_ok: "entry_ok mock_types mock_serde (decided_entry mock_types (1014, 1, 4, 1000, Some [8, 9, 8]))"
proof -
  have entry: "decided_entry mock_types (1014, 1, 4, 1000, Some [8, 9, 8]) =
      (\<lparr>lq_leaf = (1, 4, 1000, Some [8, 9, 8]), lq_qc = 1014\<rparr>,
       Some \<lparr>bq_header = 1, bq_payload = [8, 9, 8], bq_hash = 501, bq_size = 3\<rparr>)"
    by (simp add: decided_entry_def mock_types_simps)
  show ?thesis unfolding entry by (simp add: entry_ok_def)
qed

lemma db_select_block:
  "sql_get_block db_client mock_serde (Hash 501) db_updated
     = Inr \<lparr>bq_header = 1, bq_payload = [8, 9, 8], bq_hash = 501, bq_size = 3\<rparr>"
  by (simp add: sql_get_block_def db_query_opt_def at_most_one_def block_out_def parse_block_def row_err_def
      blocks_by_height_def joined_blocks_def block_query_def zip_opt_def
      mock_client_def db_states db_run_eval stored_size_small del: db_client_sel)

theorem sql_get_block_answers_witness:
  "\<exists>leaf. (leaf, Some \<lparr>bq_header = 1, bq_payload = [8, 9, 8], bq_hash = 501, bq_size = 3\<rparr>)
     \<in> set (sl_entries (ledger_extend mock_types
        [decided_entry mock_types (1014, 1, 4, 1000, Some [8, 9, 8])] mock_ledger0)) \<and>
     leaf_block_hash mock_types leaf = 501"
proof -
  have "ledger_ok mock_types mock_serde (ledger_extend mock_types
      [decided_entry mock_types (1014, 1, 4, 1000, Some [8, 9, 8])] mock_ledger0)"
    by (rule ledger_ok_extend [OF mock_ledger_ok]) (simp add: mock_entry_ok del: One_nat_def)
  from sql_get_block_answers [OF db_laws mock_serde_laws db_updated_rep this, of "Hash 501"]
  show ?thesis by (simp only: db_select_block sum.case names_block_def resource_id.case)
qed

end
