(* ===== verification/SqlServiceProps.thy ===== *)
theory SqlServiceProps
  imports SqlLedgerProps
begin

text \<open>
  More properties of the SQL data source: ranges and proposals, the API over it, what the update
  algorithm may store, and its agreement with the file system data source.
\<close>

section \<open>Listings\<close>

lemma ledger_by_height_sorted:
  assumes small: "ledger_small N L"
    and dist: "distinct (map (\<lambda>e. leaf_height N (fst e)) (sl_entries L))"
  shows "sorted_wrt (\<lambda>e e'. leaf_height N (fst e) < leaf_height N (fst e')) (ledger_by_height N L)"
proof -
  let ?es = "ledger_by_height N L"
  have sint: "sint (leaf_height N (fst e)) = uint (leaf_height N (fst e))" if "e \<in> set ?es" for e
    using small that by (intro sint_64_small) (auto simp: ledger_small_def ledger_by_height_def)
  have "sorted (map (\<lambda>e. sint (leaf_height N (fst e))) ?es)" by (simp add: ledger_by_height_def)
  also have "map (\<lambda>e. sint (leaf_height N (fst e))) ?es = map (\<lambda>e. uint (leaf_height N (fst e))) ?es"
    using sint by simp
  finally have "sorted (map (\<lambda>e. leaf_height N (fst e)) ?es)"
    by (simp add: sorted_map word_le_def)
  moreover have "distinct (map (\<lambda>e. leaf_height N (fst e)) ?es)"
    using dist by (simp add: ledger_by_height_def distinct_map)
  ultimately have "sorted_wrt (<) (map (\<lambda>e. leaf_height N (fst e)) ?es)"
    by (simp only: strict_sorted_iff simp_thms)
  then show ?thesis by (simp add: sorted_wrt_map)
qed

text \<open>
  C26. A range of heights below \<open>2 ^ 63\<close>, of leaves or of blocks, streams exactly the stored entries
  in the range by increasing height, each once and as it was inserted, \<^verbatim>\<open>Missing\<close> for a block that
  is not there; only an error of the database can cut it short.
\<close>

theorem sql_ranges_contents:
  assumes "postgres_laws C in_tx aborted tabs durable" and "serde_laws S"
    and "sql_rep in_tx aborted tabs durable N S D (Some W) ds" and "ledger_ok N S W"
    and "ledger_small N W" and "uint (bound_value start) < 2 ^ 63"
    and "uint (bound_value end_bound) < 2 ^ 63"
    and "sql_get_leaf_range C S start end_bound ds = Inr leaves"
    and "sql_get_block_range C S start end_bound ds = Inr blocks"
  shows "\<exists>es. set es = {e \<in> set (sl_entries W). range_contains start end_bound (leaf_height N (fst e))} \<and>
    sorted_wrt (\<lambda>e e'. leaf_height N (fst e) < leaf_height N (fst e')) es \<and>
    answers_all leaves (map (\<lambda>e. Inr (fst e)) es) \<and>
    answers_all blocks (map (\<lambda>e. case snd e of None \<Rightarrow> Inl Missing | Some b \<Rightarrow> Inr b) es)"
proof (intro exI conjI)
  let ?es = "ledger_range N W start end_bound"
  have shown: "ledger_shown N S W (tabs (client ds))" using assms(3) by (simp add: sql_rep_def)
  show set: "set ?es = {e \<in> set (sl_entries W). range_contains start end_bound (leaf_height N (fst e))}"
    by (auto simp: ledger_range_def ledger_by_height_def)
  show "sorted_wrt (\<lambda>e e'. leaf_height N (fst e) < leaf_height N (fst e')) ?es"
    unfolding ledger_range_def
    by (intro sorted_wrt_filter ledger_by_height_sorted [OF assms(5)
          ledger_heights_distinct [OF postgres_lawsD(6) [OF assms(1)] shown]])
  show "answers_all leaves (map (\<lambda>e. Inr (fst e)) ?es)"
    by (rule sql_get_leaf_range_ledger [OF assms(1) shown assms(5-8)])
  have "map (entry_block N S) ?es
      = map (\<lambda>e. case snd e of None \<Rightarrow> Inl Missing | Some b \<Rightarrow> Inr b) ?es"
    using set assms(4) by (intro map_cong) (auto simp: ledger_ok_def intro!: entry_block_cases)
  with sql_get_block_range_ledger [OF assms(1,2) shown assms(5-7,9)]
  show "answers_all blocks (map (\<lambda>e. case snd e of None \<Rightarrow> Inl Missing | Some b \<Rightarrow> Inr b) ?es)"
    by simp
qed

lemma mock_ledger0_entries:
  "sl_entries mock_ledger0 = [(\<lparr>lq_leaf = (0, 0, 1000, Some []), lq_qc = 1000\<rparr>,
     Some \<lparr>bq_header = 0, bq_payload = [], bq_hash = 500, bq_size = 0\<rparr>)]"
  by (simp add: with_genesis_def empty_ledger_def mock_genesis_entry)

lemma mock_ledger0_small: "ledger_small mock_types mock_ledger0"
  unfolding ledger_small_def mock_ledger0_entries by (simp add: mock_types_simps)

lemma db_range:
  "\<exists>items. sql_get_leaf_range db_client mock_serde start end_bound ds = Inr items"
  "\<exists>items. sql_get_block_range db_client mock_serde start end_bound ds = Inr items"
  using db_query_ranges [of "client ds" start end_bound]
  by (simp_all add: sql_get_leaf_range_def sql_get_block_range_def bounds_to_where_clause_text
      leaf_range_query_def block_range_query_def block_query_def db_err_def comp_def)

theorem sql_ranges_contents_witness:
  "\<exists>leaves es. sql_get_leaf_range db_client mock_serde (Excluded 0) Unbounded db_connected = Inr leaves \<and>
    set es = {e \<in> set (sl_entries mock_ledger0).
      range_contains (Excluded 0) Unbounded (leaf_height mock_types (fst e))} \<and>
    answers_all leaves (map (\<lambda>e. Inr (fst e)) es)"
proof -
  obtain leaves blocks where
    runs: "sql_get_leaf_range db_client mock_serde (Excluded 0) Unbounded db_connected = Inr leaves"
      "sql_get_block_range db_client mock_serde (Excluded 0) Unbounded db_connected = Inr blocks"
    using db_range by meson
  obtain es where "set es = {e \<in> set (sl_entries mock_ledger0).
      range_contains (Excluded 0) Unbounded (leaf_height mock_types (fst e))}"
      "answers_all leaves (map (\<lambda>e. Inr (fst e)) es)"
    using sql_ranges_contents [OF db_laws mock_serde_laws db_connected_rep mock_ledger_ok
        mock_ledger0_small _ _ runs]
    by auto
  with runs(1) show ?thesis by blast
qed

text \<open>
  The proposals of a key with a limit are the most recent leaves it proposed, at most as many as
  the limit, in order of height, and the count is the number of all of them; without a limit all are
  listed, in whatever order the database returns them.
\<close>

theorem sql_proposals_answers:
  assumes "postgres_laws C in_tx aborted tabs durable" and "serde_laws S"
    and "sql_rep in_tx aborted tabs durable N S D (Some W) ds"
    and "proposed = map fst (filter (\<lambda>e. leaf_proposer N (fst e) = pk) (ledger_by_height N W))"
  shows "answers (sql_get_proposals C S pk (Some k) ds)
      (Inr (drop (length proposed - unat k) proposed)) \<and>
    (\<exists>leaves. mset leaves = mset proposed \<and> answers (sql_get_proposals C S pk None ds) (Inr leaves)) \<and>
    (sql_count_proposals C S pk ds = Inr (of_nat (length proposed)) \<or>
     (\<exists>m. sql_count_proposals C S pk ds = Inl (Failure (QueryError m))))"
proof -
  have shown: "ledger_shown N S W (tabs (client ds))" using assms(3) by (simp add: sql_rep_def)
  have perm: "mset (filter P (ledger_by_height N W)) = mset (filter P (sl_entries W))" for P
    by (simp add: ledger_by_height_def)
  have len: "length proposed = length (filter (\<lambda>e. leaf_proposer N (fst e) = pk) (sl_entries W))"
    unfolding assms(4) length_map by (rule mset_eq_length [OF perm])
  have "rev (take (unat k) (rev proposed)) = drop (length proposed - unat k) proposed"
    by (simp add: take_rev)
  with sql_get_proposals_ledger(1) [OF assms(1,2) shown, of pk k]
  have limited: "answers (sql_get_proposals C S pk (Some k) ds)
      (Inr (drop (length proposed - unat k) proposed))"
    unfolding assms(4) by simp
  obtain es where es: "mset es = mset (filter (\<lambda>e. leaf_proposer N (fst e) = pk) (sl_entries W))"
      "answers (sql_get_proposals C S pk None ds) (Inr (map fst es))"
    using sql_get_proposals_ledger(2) [OF assms(1,2) shown] by blast
  have "mset (map fst es) = mset proposed" unfolding assms(4) mset_map perm es(1) ..
  with es(2) limited sql_count_proposals_ledger [OF assms(1,2) shown, of pk] show ?thesis
    unfolding len by blast
qed

theorem sql_proposals_answers_witness:
  "answers (sql_get_proposals db_client mock_serde 0 (Some 1) db_connected)
     (Inr [\<lparr>lq_leaf = (0, 0, 1000, Some []), lq_qc = 1000\<rparr>])"
  using sql_proposals_answers [OF db_laws mock_serde_laws db_connected_rep refl, of 0 1]
  unfolding ledger_by_height_def mock_ledger0_entries by (simp add: leaf_proposer_def mock_types_def)

section \<open>Behind the API\<close>

text \<open>
  C27. Asking for a transaction by hash never panics: the answer is a transaction with that hash and
  the height and hash of a stored block that holds it; a 404 means that no transaction with that
  hash was indexed, and only an error of the database can come instead.
\<close>

theorem sql_api_transaction_by_hash:
  assumes "sql_serves C in_tx aborted tabs durable N S L ds"
    and "opt_blob_param req ''hash'' = Inr (Some h)"
  shows "case handle_gettransaction N show_hash (sql_avail_ops C S) req ds of
      Inr tq \<Rightarrow> tq_hash tq = h \<and> (\<exists>leaf b ix. (leaf, Some b) \<in> set (sl_entries L) \<and>
        payload_transaction N (bq_payload b) ix = Some (tq_transaction tq) \<and>
        tq_height tq = block_height N b \<and> tq_block_hash tq = bq_hash b)
    | Inl x \<Rightarrow> (\<exists>m. x = Failure (QueryTransaction (QueryError m) (show_hash h))) \<or>
        x = Failure (QueryTransaction NotFound (show_hash h)) \<and> h \<notin> fst ` set (sl_txs L)"
proof -
  have laws: "postgres_laws C in_tx aborted tabs durable" and serde: "serde_laws S"
    and shown: "ledger_shown N S L (tabs (client ds))" and ok: "ledger_ok N S L"
    using assms(1) by (simp_all add: sql_serves_def)
  note dist = ledger_heights_distinct [OF postgres_lawsD(6) [OF laws] shown]
  have op: "av_get_block_with_transaction (sql_avail_ops C S) ds h
      = sql_get_block_with_transaction C S h ds"
    by (simp add: sql_avail_ops_def)
  have got: "answers (sql_get_block_with_transaction C S h ds) (ledger_transaction N S L h)"
    by (rule sql_get_block_with_transaction_ledger [OF laws serde shown])
  note api = sql_api.gettransaction_by_hash [OF assms, of show_hash, unfolded op]
  show ?thesis
  proof (cases "sql_get_block_with_transaction C S h ds")
    case (Inl e)
    have "(\<exists>m. e = QueryError m) \<or> e = NotFound \<and> h \<notin> fst ` set (sl_txs L)"
      using got Inl ledger_transaction_known [OF dist ok, of h]
      by (cases "h \<in> fst ` set (sl_txs L)") (auto simp: answers_def)
    with api Inl show ?thesis by auto
  next
    case (Inr p)
    obtain b ix where p: "p = (b, ix)" by fastforce
    with got Inr have "ledger_transaction N S L h = Inr (b, ix)" by (auto simp: answers_def)
    then obtain leaf where "(leaf, Some b) \<in> set (sl_entries L)"
      using ledger_transaction_found [OF dist ok] by blast
    with api Inr p show ?thesis by auto blast
  qed
qed

lemma db_connected_serves:
  "sql_serves db_client db_in_tx db_aborted db_tabs db_durable mock_types mock_serde mock_ledger0
     db_connected"
  using db_connected_rep by (simp add: sql_serves_def sql_rep_def db_laws mock_serde_laws mock_ledger_ok)

theorem sql_api_transaction_by_hash_witness:
  "\<exists>x. handle_gettransaction mock_types decimal (sql_avail_ops db_client mock_serde) mock_request
     db_connected = Inl x"
proof -
  have req: "opt_blob_param mock_request ''hash'' = Inr (Some 7008)" by (simp add: mock_request_def)
  have "payload_transaction mock_types (bq_payload b) ix = None"
    if "(leaf, Some b) \<in> set (sl_entries mock_ledger0)" for leaf b ix
    using that unfolding mock_ledger0_entries
    by (auto simp: payload_transaction_def mock_types_def list_get_def)
  with sql_api_transaction_by_hash [OF db_connected_serves req, of decimal] show ?thesis
    by (cases "handle_gettransaction mock_types decimal (sql_avail_ops db_client mock_serde)
        mock_request db_connected") auto
qed


lemma db_update_loop:
  "(update_loop mock_types False (sql_update_ops mock_types db_client mock_serde)
     (sql_versioned_ops db_client) show_update id
     (map (\<lambda>(chain, qc). Decide chain qc) [([(1, 4, 1000, Some [8, 9, 8])], 1014)]) db_connected
     :: ((unit, unit) crate_error, unit, _) outcome) = (Inr (), db_served)"
  by (simp add: internal_err_def update_def decided_qcs_def db_update_one [simplified] db_commit_ok(2))


section \<open>Types\<close>

text \<open>
  C15. Whatever event the update algorithm is given and whatever it returns, every leaf the data
  source holds, committed or not, carries a certificate that references it, and every block is the
  one its leaf carries, with that leaf's header and hash.
\<close>

theorem sql_update_typed:
  assumes "sql_typed C in_tx aborted tabs durable N S ds"
    and "update N dbg (sql_update_ops N C S) event ds = (r, ds')"
  shows "sql_typed C in_tx aborted tabs durable N S ds'"
  using assms by (rule sql_types.update_typed)

lemma mock_ledger_typed: "ledger_typed mock_types mock_ledger0"
  unfolding ledger_typed_def mock_ledger0_entries
  by (simp add: entry_typed_def certified_def block_of_def mock_types_simps)

theorem sql_update_typed_witness:
  "sql_typed db_client db_in_tx db_aborted db_tabs db_durable mock_types mock_serde db_updated"
proof (rule sql_update_typed)
  show "sql_typed db_client db_in_tx db_aborted db_tabs db_durable mock_types mock_serde db_connected"
    by (rule sql_typedI [OF db_laws mock_serde_laws db_connected_rep mock_ledger_typed])
      (use mock_ledger_typed in simp)
  show "update mock_types False (sql_update_ops mock_types db_client mock_serde)
      (Decide [(1, 4, 1000, Some [8, 9, 8])] 1014) db_connected = (Inr (), db_updated)"
    by (simp add: update_def decided_qcs_def db_update_one [simplified])
qed

section \<open>Agreement with the file system data source\<close>

lemma sort_key_sorted: "sorted_wrt (\<lambda>x y. f x \<le> f y) xs \<Longrightarrow> sort_key f xs = xs"
  by (induction xs) (auto simp: insort_is_Cons)

text \<open>
  When the logs of a file system data source hold the entries of a ledger, their positions are the
  heights, so the ledger is in order of height.
\<close>

lemma positioned_ledger:
  assumes pos: "\<forall>i leaf. list_get (map (\<lambda>e. Some (fst e)) (sl_entries W)) i = Some (Some leaf) \<longrightarrow>
      unat (leaf_height N leaf) = i"
    and small: "length (sl_entries W) < 2 ^ 63"
  shows "ledger_by_height N W = sl_entries W"
    and "filter (\<lambda>e. leaf_height N (fst e) = n) (sl_entries W)
      = (if unat n < length (sl_entries W) then [sl_entries W ! unat n] else [])"
proof -
  have at: "unat (leaf_height N (fst (sl_entries W ! i))) = i" if "i < length (sl_entries W)" for i
    using pos that by (simp add: list_get_def)
  show "ledger_by_height N W = sl_entries W"
  proof -
    have "sint (leaf_height N (fst (sl_entries W ! i))) = int i" if i: "i < length (sl_entries W)" for i
    proof -
      have u: "uint (leaf_height N (fst (sl_entries W ! i))) = int i"
        using at [OF i] by (metis uint_nat)
      then show ?thesis using sint_64_small i small by simp
    qed
    then show ?thesis
      unfolding ledger_by_height_def
      by (intro sort_key_sorted) (simp add: sorted_wrt_iff_nth_less)
  qed
  have "filter (\<lambda>e. leaf_height N (fst e) = n) (sl_entries W)
      = filter (\<lambda>e. unat n = unat (leaf_height N (fst e))) (sl_entries W)"
    by (rule filter_cong) (auto simp: word_unat_eq_iff)
  moreover have "map (\<lambda>e. unat (leaf_height N (fst e))) (sl_entries W) = [0..<length (sl_entries W)]"
    using at by (intro nth_equalityI) simp_all
  then have dist: "distinct (map (\<lambda>e. unat (leaf_height N (fst e))) (sl_entries W))" by simp
  moreover have "filter (\<lambda>e. unat n = unat (leaf_height N (fst e))) (sl_entries W)
      = (if unat n < length (sl_entries W) then [sl_entries W ! unat n] else [])"
  proof (cases "unat n < length (sl_entries W)")
    case True
    with filter_key_unique [OF dist True] at [OF True] show ?thesis by simp
  next
    case False
    have "unat n \<noteq> unat (leaf_height N (fst e))" if "e \<in> set (sl_entries W)" for e
      using that at False by (metis in_set_conv_nth)
    with False show ?thesis by (simp add: filter_empty_conv)
  qed
  ultimately show "filter (\<lambda>e. leaf_height N (fst e) = n) (sl_entries W)
      = (if unat n < length (sl_entries W) then [sl_entries W ! unat n] else [])" by simp
qed



end
