(* ===== verification/ApiToml.thy ===== *)
theory ApiToml
  imports Prelude "HOL-Library.AList"
begin

text \<open>
  \<^verbatim>\<open>src/api.rs\<close>: loading an API specification and merging extensions into it. A TOML value is a
  table, as the list of its entries, or any other value. Reading files, decoding UTF-8, parsing
  TOML and building the API are parameters.
\<close>

section \<open>Merging\<close>

datatype 'v toml = Table "(string \<times> 'v toml) list" | Plain 'v

fun merge_toml :: "'v toml \<Rightarrow> 'v toml \<Rightarrow> 'v toml"
  and merge_entries :: "(string \<times> 'v toml) list \<Rightarrow> (string \<times> 'v toml) list
    \<Rightarrow> (string \<times> 'v toml) list" where
  "merge_toml (Table into) (Table other) = Table (merge_entries into other)"
| "merge_toml (Plain x) other = Plain x"
| "merge_toml into (Plain x) = into"
| "merge_entries into [] = into"
| "merge_entries into ((key, val) # rest) =
     merge_entries
       (case map_of into key of
          Some old \<Rightarrow> AList.update key (merge_toml old val) into
        | None \<Rightarrow> into @ [(key, val)]) rest"

text \<open>The value at a path, and tables without duplicate keys.\<close>

fun toml_get :: "'v toml \<Rightarrow> string list \<Rightarrow> 'v toml option" where
  "toml_get t [] = Some t"
| "toml_get (Table entries) (key # path) =
     (case map_of entries key of None \<Rightarrow> None | Some t \<Rightarrow> toml_get t path)"
| "toml_get (Plain x) (key # path) = None"

lemma map_of_snoc: "map_of (xs @ [(k, v)]) k' = (case map_of xs k' of
    Some x \<Rightarrow> Some x | None \<Rightarrow> if k' = k then Some v else None)"
  by (induction xs) auto

lemma map_of_merge_entries:
  assumes "distinct (map fst other)"
  shows "map_of (merge_entries into other) k =
    (case map_of into k of
       Some old \<Rightarrow> Some (case map_of other k of None \<Rightarrow> old | Some new \<Rightarrow> merge_toml old new)
     | None \<Rightarrow> map_of other k)"
  using assms
proof (induction other arbitrary: into)
  case Nil
  then show ?case by (simp split: option.splits)
next
  case (Cons e other)
  obtain key val where e: "e = (key, val)" by fastforce
  have fresh: "map_of other key = None" using Cons.prems by (simp add: e map_of_eq_None_iff)
  show ?case
    using Cons fresh
    by (auto simp: e AList.update_conv' map_of_snoc split: option.splits)
qed

section \<open>Loading\<close>

datatype api_error = CannotReadToml string | ApiErrorOther string

record ('path, 'bytes, 'v, 'api) api_ops =
  fs_read :: "'path \<Rightarrow> string + 'bytes"
  str_from_utf8 :: "'bytes \<Rightarrow> string + string"
  toml_from_str :: "string \<Rightarrow> string + 'v toml"
  api_new :: "'v toml \<Rightarrow> api_error + 'api"

definition load_toml where
  "load_toml A path =
     and_then (map_err CannotReadToml (fs_read A path)) (\<lambda>bytes.
     and_then (map_err CannotReadToml (str_from_utf8 A bytes)) (\<lambda>text.
       map_err CannotReadToml (toml_from_str A text)))"

definition load_api where
  "load_api A path default_text extensions =
     and_then
       (case path of
          Some p \<Rightarrow> load_toml A p
        | None \<Rightarrow> map_err CannotReadToml (toml_from_str A default_text))
       (\<lambda>toml. api_new A (foldl merge_toml toml extensions))"

section \<open>Properties\<close>

fun toml_wf :: "'v toml \<Rightarrow> bool" where
  "toml_wf (Plain x) \<longleftrightarrow> True"
| "toml_wf (Table entries) \<longleftrightarrow>
     distinct (map fst entries) \<and> (\<forall>t \<in> set (map snd entries). toml_wf t)"

lemma toml_wf_get: "toml_wf (Table entries) \<Longrightarrow> map_of entries k = Some t \<Longrightarrow> toml_wf t"
  by (auto dest!: map_of_SomeD)

lemma merge_keeps:
  "toml_wf other \<Longrightarrow> toml_get into path = Some (Plain x) \<Longrightarrow>
     toml_get (merge_toml into other) path = Some (Plain x)"
proof (induction path arbitrary: into other)
  case Nil
  then show ?case by simp
next
  case (Cons k path)
  then obtain entries where into: "into = Table entries" by (cases into) simp_all
  with Cons.prems obtain t where t: "map_of entries k = Some t" "toml_get t path = Some (Plain x)"
    by (auto split: option.splits)
  show ?case
  proof (cases other)
    case (Plain y)
    with Cons.prems into show ?thesis by simp
  next
    case (Table more)
    have "toml_get (merge_toml t u) path = Some (Plain x)" if "map_of more k = Some u" for u
      using Cons.IH [OF toml_wf_get t(2)] that Cons.prems(1) Table by blast
    with t into Table Cons.prems(1) show ?thesis
      by (auto simp: map_of_merge_entries split: option.splits)
  qed
qed

text \<open>A path is open in a value if it leaves its tables at a missing key.\<close>

fun open_at :: "'v toml \<Rightarrow> string list \<Rightarrow> bool" where
  "open_at t [] \<longleftrightarrow> False"
| "open_at (Plain x) (key # path) \<longleftrightarrow> False"
| "open_at (Table entries) (key # path) \<longleftrightarrow>
     (case map_of entries key of None \<Rightarrow> True | Some t \<Rightarrow> open_at t path)"

lemma open_at_get: "open_at t path \<Longrightarrow> toml_get t path = None"
  by (induction t path rule: toml_get.induct) (auto split: option.splits)

lemma merge_adds:
  "toml_wf other \<Longrightarrow> open_at into path \<Longrightarrow> toml_get (merge_toml into other) path = toml_get other path"
proof (induction path arbitrary: into other)
  case Nil
  then show ?case by simp
next
  case (Cons k path)
  then obtain entries where into: "into = Table entries" by (cases into) simp_all
  show ?case
  proof (cases other)
    case (Plain y)
    with Cons.prems into show ?thesis by (auto simp: open_at_get split: option.splits)
  next
    case (Table more)
    have "toml_get (merge_toml t u) path = toml_get u path"
      if "map_of entries k = Some t" "map_of more k = Some u" for t u
      using Cons.IH [OF toml_wf_get] that Cons.prems Table into by auto
    with into Table Cons.prems show ?thesis
      by (auto simp: map_of_merge_entries open_at_get simp del: map_of_eq_Some_iff Some_eq_map_of_iff
          split: option.splits)
  qed
qed

text \<open>
  Extensions never change what the base specification defines: every plain value keeps its
  place through any number of extensions, and where the base leaves a path open the first
  extension decides it.
\<close>

theorem load_api_extends:
  assumes "\<forall>t \<in> set extensions. toml_wf t" and "toml_wf ext"
    and "toml_from_str A default_text = Inr base"
  shows "\<exists>toml. load_api A None default_text (ext # extensions) = api_new A toml \<and>
    (\<forall>path x. toml_get base path = Some (Plain x) \<longrightarrow> toml_get toml path = Some (Plain x)) \<and>
    (\<forall>path x. open_at base path \<longrightarrow> toml_get ext path = Some (Plain x) \<longrightarrow>
      toml_get toml path = Some (Plain x))"
proof -
  have fold: "toml_get t path = Some (Plain x) \<Longrightarrow>
      toml_get (foldl merge_toml t extensions) path = Some (Plain x)" for t path x
    using assms(1) by (induction extensions arbitrary: t) (simp_all add: merge_keeps)
  show ?thesis
    using assms(2,3) fold merge_keeps [OF assms(2)] merge_adds [OF assms(2)]
    by (intro exI [of _ "foldl merge_toml (merge_toml base ext) extensions"])
      (simp add: load_api_def)
qed

theorem load_api_extends_witness:
  "\<exists>toml. toml_get toml [''route'', ''getleaf'', ''PATH''] = Some (Plain (1 :: nat)) \<and>
     toml_get toml [''route'', ''extra'', ''PATH''] = Some (Plain 3)"
proof -
  let ?base = "Table [(''route'', Table [(''getleaf'', Table [(''PATH'', Plain (1 :: nat))])])]"
  let ?ext = "Table [(''route'', Table [(''getleaf'', Table [(''PATH'', Plain 2)]),
     (''extra'', Table [(''PATH'', Plain 3)])])]"
  let ?A = "\<lparr>fs_read = (\<lambda>_ :: unit. Inr ()), str_from_utf8 = (\<lambda>_. Inr ''''),
     toml_from_str = (\<lambda>_. Inr ?base), api_new = Inr\<rparr>"
  have "toml_wf ?ext" by simp
  have "\<forall>t \<in> set []. toml_wf t" "toml_wf ?ext" "toml_from_str ?A [] = Inr ?base" by simp_all
  from load_api_extends [OF this] obtain toml where
    keep: "\<And>path x. toml_get ?base path = Some (Plain x) \<Longrightarrow> toml_get toml path = Some (Plain x)"
    and add: "\<And>path x. open_at ?base path \<Longrightarrow> toml_get ?ext path = Some (Plain x) \<Longrightarrow>
      toml_get toml path = Some (Plain x)"
    by blast
  show ?thesis
    by (intro exI [of _ toml] conjI keep add) simp_all
qed

end
