(* ===== verification/ApiRoutes.thy ===== *)
theory ApiRoutes
  imports AvailabilityApi ApiToml StatusSource
begin

text \<open>
  The two \<^verbatim>\<open>define_api\<close> functions (\<^verbatim>\<open>src/availability.rs\<close>, \<^verbatim>\<open>src/status.rs\<close>): which handler is
  registered under which route of the specification, and the routes the bundled specification
  \<^verbatim>\<open>api/availability.toml\<close> declares, with the parameters each of their paths binds. Registering a
  handler with \<^verbatim>\<open>tide_disco\<close> is a parameter.
\<close>

section \<open>Registration\<close>

datatype ('g, 's) handler = GetHandler 'g | StreamHandler 's

text \<open>\<^verbatim>\<open>get\<close>, \<^verbatim>\<open>stream\<close> and \<^verbatim>\<open>with_version\<close> of an \<^verbatim>\<open>Api\<close>.\<close>

record ('api, 'g, 's) registrar =
  with_version :: "string \<Rightarrow> 'api \<Rightarrow> 'api"
  api_get :: "string \<Rightarrow> 'g \<Rightarrow> 'api \<Rightarrow> api_error + 'api"
  api_stream :: "string \<Rightarrow> 's \<Rightarrow> 'api \<Rightarrow> api_error + 'api"

fun register_routes where
  "register_routes R [] api = Inr api"
| "register_routes R ((name, handler) # routes) api =
     and_then
       (case handler of GetHandler g \<Rightarrow> api_get R name g api | StreamHandler s \<Rightarrow> api_stream R name s api)
       (register_routes R routes)"

definition define_api where
  "define_api A R path default_text extensions routes =
     and_then (load_api A path default_text extensions) (\<lambda>api.
       register_routes R routes (with_version R ''0.0.1'' api))"

section \<open>The availability routes\<close>

datatype ('lq, 'bq, 'tq) reply =
    LeafReply 'lq
  | BlockReply 'bq
  | TransactionReply 'tq
  | CountReply nat
  | LeavesReply "'lq list"

datatype ('li, 'bi, 'hdr) stream_item = LeafItem 'li | HeaderItem 'hdr | BlockItem 'bi

definition availability_routes where
  "availability_routes N show_hash show_err leaf_items block_items V =
     [(''getleaf'', GetHandler (\<lambda>req ds.
        map_sum Failure LeafReply (handle_getleaf show_hash V req ds))),
      (''streamleaves'', StreamHandler (\<lambda>req ds.
        map (map_sum id LeafItem) (handle_streamleaves show_err leaf_items V req ds))),
      (''streamblockheaders'', StreamHandler (\<lambda>req ds.
        map (map_sum id HeaderItem) (handle_streamblockheaders show_err block_items V req ds))),
      (''getblock'', GetHandler (\<lambda>req ds.
        map_sum Failure BlockReply (handle_getblock show_hash V req ds))),
      (''streamblocks'', StreamHandler (\<lambda>req ds.
        map (map_sum id BlockItem) (handle_streamblocks show_err block_items V req ds))),
      (''gettransaction'', GetHandler (\<lambda>req ds.
        map_sum id TransactionReply (handle_gettransaction N show_hash V req ds))),
      (''countproposals'', GetHandler (\<lambda>req ds.
        map_sum id CountReply (handle_countproposals V req ds))),
      (''getproposals'', GetHandler (\<lambda>req ds.
        map_sum Failure LeavesReply (handle_getproposals V req ds)))]"

definition availability_define_api where
  "availability_define_api A R path default_text extensions N show_hash show_err leaf_items block_items V =
     define_api A R path default_text extensions
       (availability_routes N show_hash show_err leaf_items block_items V)"

section \<open>The status routes\<close>

datatype 'f status_reply =
    HeightReply "64 word"
  | MempoolReply mempool_query_data
  | RateReply 'f
  | MetricsReply string

definition status_routes where
  "status_routes show_err display P fdiv of_usize order utf8_error D =
     [(''latest_block_height'', GetHandler (\<lambda>ds hp.
        map_sum id HeightReply (handle_latest_block_height show_err D ds))),
      (''mempool_info'', GetHandler (\<lambda>ds hp.
        map_sum id MempoolReply (handle_mempool_info show_err display P D ds hp))),
      (''success_rate'', GetHandler (\<lambda>ds hp.
        map_sum id RateReply (handle_success_rate show_err display P fdiv of_usize D ds hp))),
      (''metrics'', GetHandler (\<lambda>ds hp.
        map_sum id MetricsReply (handle_metrics show_err display P order utf8_error D ds hp)))]"

definition status_define_api where
  "status_define_api A R path default_text extensions show_err display P fdiv of_usize order utf8_error D =
     define_api A R path default_text extensions
       (status_routes show_err display P fdiv of_usize order utf8_error D
         :: (string \<times> (_, unit) handler) list)"

text \<open>
  A registrar that accepts a route exactly when the specification declares it and no handler has it:
  the documented behaviour of \<^verbatim>\<open>tide_disco\<close>. \<open>declared\<close> and \<open>registered\<close> observe an \<^verbatim>\<open>Api\<close>.
\<close>

definition registrar_laws ::
    "('api, 'g, 's) registrar \<Rightarrow> ('api \<Rightarrow> string set) \<Rightarrow> ('api \<Rightarrow> string \<Rightarrow> ('g, 's) handler option) \<Rightarrow> bool" where
  "registrar_laws R declared registered \<longleftrightarrow>
     (\<forall>v api. declared (with_version R v api) = declared api \<and>
        registered (with_version R v api) = registered api) \<and>
     (\<forall>name g api. name \<in> declared api \<and> registered api name = None \<longrightarrow>
        (\<exists>api'. api_get R name g api = Inr api' \<and> declared api' = declared api \<and>
           registered api' = (registered api)(name \<mapsto> GetHandler g))) \<and>
     (\<forall>name s api. name \<in> declared api \<and> registered api name = None \<longrightarrow>
        (\<exists>api'. api_stream R name s api = Inr api' \<and> declared api' = declared api \<and>
           registered api' = (registered api)(name \<mapsto> StreamHandler s)))"

lemma registrar_lawsD:
  assumes "registrar_laws R declared registered"
  shows "declared (with_version R v api) = declared api"
    and "registered (with_version R v api) = registered api"
    and "name \<in> declared api \<Longrightarrow> registered api name = None \<Longrightarrow>
      \<exists>api'. api_get R name g api = Inr api' \<and> declared api' = declared api \<and>
        registered api' = (registered api)(name \<mapsto> GetHandler g)"
    and "name \<in> declared api \<Longrightarrow> registered api name = None \<Longrightarrow>
      \<exists>api'. api_stream R name s api = Inr api' \<and> declared api' = declared api \<and>
        registered api' = (registered api)(name \<mapsto> StreamHandler s)"
  using assms unfolding registrar_laws_def by blast+

lemma register_routes_ok:
  assumes laws: "registrar_laws R declared registered"
  shows "distinct (map fst routes) \<Longrightarrow> set (map fst routes) \<subseteq> declared api \<Longrightarrow>
    \<forall>name \<in> set (map fst routes). registered api name = None \<Longrightarrow>
    \<exists>api'. register_routes R routes api = Inr api' \<and> registered api' = registered api ++ map_of routes"
proof (induction routes arbitrary: api)
  case Nil
  then show ?case by simp
next
  case (Cons r routes)
  obtain name h where r: "r = (name, h)" by fastforce
  have new: "name \<in> declared api" "registered api name = None" using Cons.prems r by auto
  have "\<exists>api1. (case h of GetHandler g \<Rightarrow> api_get R name g api
        | StreamHandler s \<Rightarrow> api_stream R name s api) = Inr api1 \<and>
      declared api1 = declared api \<and> registered api1 = (registered api)(name \<mapsto> h)"
  proof (cases h)
    case (GetHandler g)
    with registrar_lawsD(3) [OF laws new, of g] show ?thesis by simp
  next
    case (StreamHandler s)
    with registrar_lawsD(4) [OF laws new, of s] show ?thesis by simp
  qed
  then obtain api1 where api1: "(case h of GetHandler g \<Rightarrow> api_get R name g api
        | StreamHandler s \<Rightarrow> api_stream R name s api) = Inr api1"
      "declared api1 = declared api" "registered api1 = (registered api)(name \<mapsto> h)"
    by blast
  have "\<forall>n \<in> set (map fst routes). registered api1 n = None"
    using Cons.prems api1(3) r by auto
  then obtain api' where api': "register_routes R routes api1 = Inr api'"
      "registered api' = registered api1 ++ map_of routes"
    using Cons.IH [of api1] Cons.prems api1(2) r by auto
  have "name \<notin> dom (map_of routes)"
    using Cons.prems(1) r by (simp add: dom_map_of_conv_image_fst)
  then have merged: "registered api1 ++ map_of routes = registered api ++ map_of ((name, h) # routes)"
    unfolding api1(3) by (intro ext) (auto simp: map_add_def dom_def split: option.splits)
  with api'(2) have "registered api' = registered api ++ map_of (r # routes)" unfolding r by metis
  moreover have "register_routes R (r # routes) api = Inr api'" using r api1(1) api'(1) by simp
  ultimately show ?case by blast
qed

section \<open>The bundled specification\<close>

datatype param_type = IntegerParam | TaggedBase64Param

record route_spec =
  route_name :: string
  route_paths :: "string list"
  route_socket :: bool
  route_params :: "(string \<times> param_type) list"

definition availability_toml :: "route_spec list" where
  "availability_toml =
     [\<lparr>route_name = ''getleaf'', route_paths = [''leaf/:height'', ''leaf/hash/:hash''],
       route_socket = False,
       route_params = [('':height'', IntegerParam), ('':hash'', TaggedBase64Param)]\<rparr>,
      \<lparr>route_name = ''streamleaves'', route_paths = [''stream/leaves/:height''],
       route_socket = True, route_params = [('':height'', IntegerParam)]\<rparr>,
      \<lparr>route_name = ''streamblockheaders'', route_paths = [''stream/block/headers/:height''],
       route_socket = True, route_params = [('':height'', IntegerParam)]\<rparr>,
      \<lparr>route_name = ''getblock'', route_paths = [''block/:height'', ''block/hash/:hash''],
       route_socket = False,
       route_params = [('':height'', IntegerParam), ('':hash'', TaggedBase64Param)]\<rparr>,
      \<lparr>route_name = ''streamblocks'', route_paths = [''stream/blocks/:height''],
       route_socket = True, route_params = [('':height'', IntegerParam)]\<rparr>,
      \<lparr>route_name = ''gettransaction'',
       route_paths = [''transaction/:height/:index'', ''transaction/hash/:hash''],
       route_socket = False, route_params = [('':height'', IntegerParam), ('':index'', IntegerParam),
         ('':hash'', TaggedBase64Param)]\<rparr>,
      \<lparr>route_name = ''countproposals'', route_paths = [''proposals/:proposer_id/count''],
       route_socket = False, route_params = [('':proposer_id'', TaggedBase64Param)]\<rparr>,
      \<lparr>route_name = ''getproposals'',
       route_paths = [''proposals/:proposer_id'', ''proposals/:proposer_id/limit/:count''],
       route_socket = False, route_params = [('':proposer_id'', TaggedBase64Param), ('':count'', IntegerParam)]\<rparr>,
      \<lparr>route_name = ''getstaketable'',
       route_paths = [''getstaketable/:height'', ''getstaketable/view/:view_number''],
       route_socket = False,
       route_params = [('':height'', IntegerParam), ('':view_number'', IntegerParam)]\<rparr>]"

text \<open>The parameters a path binds: its segments that start with a colon.\<close>

fun segments :: "string \<Rightarrow> string list" where
  "segments [] = [[]]"
| "segments (c # cs) =
     (if c = CHR ''/'' then [] # segments cs
      else (case segments cs of [] \<Rightarrow> [[c]] | s # ss \<Rightarrow> (c # s) # ss))"

definition path_params :: "string \<Rightarrow> string list" where
  "path_params path = filter (\<lambda>s. take 1 s = '':'') (segments path)"

text \<open>
  The accessors of a request for a path of a route, as \<^verbatim>\<open>tide_disco\<close> documents them: a bound
  parameter has a value of its declared type, an optional accessor gives nothing for one that is not
  bound. \<open>'h\<close> and \<open>'pk\<close> are what the blob of a parameter decodes to.
\<close>

definition request_matches :: "('h, 'pk, 'req) request \<Rightarrow> route_spec \<Rightarrow> string \<Rightarrow> bool" where
  "request_matches req spec path \<longleftrightarrow>
     path \<in> set (route_paths spec) \<and>
     (\<forall>p. if '':'' @ p \<in> set (path_params path)
          then (case map_of (route_params spec) ('':'' @ p) of
             Some IntegerParam \<Rightarrow> \<exists>n. integer_param req p = Inr n \<and> opt_integer_param req p = Inr (Some n)
           | Some TaggedBase64Param \<Rightarrow> (\<exists>h. blob_param req p = Inr h \<and> opt_blob_param req p = Inr (Some h)) \<and>
               (\<exists>k. key_param req p = Inr k)
           | None \<Rightarrow> True)
          else opt_integer_param req p = Inr None \<and> opt_blob_param req p = Inr None)"

lemma request_matches_bound:
  assumes "request_matches req spec path" and "'':'' @ p \<in> set (path_params path)"
  shows "map_of (route_params spec) ('':'' @ p) = Some IntegerParam \<Longrightarrow>
      \<exists>n. integer_param req p = Inr n \<and> opt_integer_param req p = Inr (Some n)"
    and "map_of (route_params spec) ('':'' @ p) = Some TaggedBase64Param \<Longrightarrow>
      (\<exists>h. blob_param req p = Inr h \<and> opt_blob_param req p = Inr (Some h)) \<and> (\<exists>k. key_param req p = Inr k)"
  using assms(1) [unfolded request_matches_def, THEN conjunct2, THEN spec, of p] assms(2)
  by (simp_all del: append.simps)

lemma request_matches_unbound:
  assumes "request_matches req spec path" and "'':'' @ p \<notin> set (path_params path)"
  shows "opt_integer_param req p = Inr None" and "opt_blob_param req p = Inr None"
  using assms(1) [unfolded request_matches_def, THEN conjunct2, THEN spec, of p] assms(2)
  by (simp_all del: append.simps)

section \<open>Properties\<close>

lemma path_params_eval [simp]:
  "path_params ''leaf/:height'' = ['':height'']" "path_params ''leaf/hash/:hash'' = ['':hash'']"
  "path_params ''block/:height'' = ['':height'']" "path_params ''block/hash/:hash'' = ['':hash'']"
  "path_params ''stream/leaves/:height'' = ['':height'']"
  "path_params ''stream/block/headers/:height'' = ['':height'']"
  "path_params ''stream/blocks/:height'' = ['':height'']"
  "path_params ''transaction/:height/:index'' = ['':height'', '':index'']"
  "path_params ''transaction/hash/:hash'' = ['':hash'']"
  "path_params ''proposals/:proposer_id/count'' = ['':proposer_id'']"
  "path_params ''proposals/:proposer_id'' = ['':proposer_id'']"
  "path_params ''proposals/:proposer_id/limit/:count'' = ['':proposer_id'', '':count'']"
  by (simp_all add: path_params_def)

lemma request_id_ok:
  assumes "(\<exists>n. opt_integer_param req ''height'' = Inr (Some n)) \<or>
    opt_integer_param req ''height'' = Inr None \<and> (\<exists>h. blob_param req ''hash'' = Inr h)"
  shows "\<exists>ident. request_id req = Inr ident"
  using assms by (auto simp: request_id_def)

lemma map_err_Inl: "map_err f r = Inl x \<longleftrightarrow> (\<exists>e. r = Inl e \<and> f e = x)"
  by (cases r) auto

lemma and_then_Inl: "and_then r k = Inl x \<longleftrightarrow> r = Inl x \<or> (\<exists>y. r = Inr y \<and> k y = Inl x)"
  by (cases r) auto

lemma map_sum_Inl: "map_sum f g r = Inl x \<longleftrightarrow> (\<exists>e. r = Inl e \<and> f e = x)"
  by (cases r) auto

lemma map_sum_Inl_item: "Inl x \<in> map_sum id g ` set rs \<longleftrightarrow> Inl x \<in> set rs"
proof -
  have "map_sum id g r = Inl x \<longleftrightarrow> r = Inl x" for r by (cases r) simp_all
  then show ?thesis unfolding image_iff by metis
qed

lemmas handler_errors = map_err_Inl and_then_Inl context_opt_def

lemma header_item_error: "Inl (Request e) \<noteq> map_sum StreamBlock f item"
  by (cases item) simp_all

lemma count_error: "map_failure (\<lambda>e. QueryProposals e pk) x \<noteq> Failure (Request e)"
  by (cases x) simp_all

lemma no_request_error:
  "request_id req = Inr ident \<Longrightarrow> handle_getleaf show_hash V req ds \<noteq> Inl (Request e)"
  "request_id req = Inr ident \<Longrightarrow> handle_getblock show_hash V req ds \<noteq> Inl (Request e)"
  "integer_param req ''height'' = Inr n \<Longrightarrow>
     Inl (Request e) \<notin> set (handle_streamleaves show_err leaf_items V req ds)"
  "integer_param req ''height'' = Inr n \<Longrightarrow>
     Inl (Request e) \<notin> set (handle_streamblockheaders show_err block_items V req ds)"
  "integer_param req ''height'' = Inr n \<Longrightarrow>
     Inl (Request e) \<notin> set (handle_streamblocks show_err block_items V req ds)"
  "key_param req ''proposer_id'' = Inr pk \<Longrightarrow>
     handle_countproposals V req ds \<noteq> Inl (Failure (Request e))"
  "key_param req ''proposer_id'' = Inr pk \<Longrightarrow> opt_integer_param req ''count'' = Inr limit \<Longrightarrow>
     handle_getproposals V req ds \<noteq> Inl (Request e)"
  "opt_blob_param req ''hash'' = Inr (Some h) \<Longrightarrow>
     handle_gettransaction N show_hash V req ds \<noteq> Inl (Failure (Request e))"
  "opt_blob_param req ''hash'' = Inr None \<Longrightarrow> integer_param req ''height'' = Inr n \<Longrightarrow>
     integer_param req ''index'' = Inr i \<Longrightarrow>
     handle_gettransaction N show_hash V req ds \<noteq> Inl (Failure (Request e))"
  subgoal by (auto simp: handle_getleaf_def handler_errors)
  subgoal by (auto simp: handle_getblock_def handler_errors)
  subgoal by (cases "av_subscribe_leaves V ds n") (auto simp: handle_streamleaves_def try_flatten_def)
  subgoal by (cases "av_subscribe_blocks V ds n") (auto simp: handle_streamblockheaders_def try_flatten_def header_item_error)
  subgoal by (cases "av_subscribe_blocks V ds n") (auto simp: handle_streamblocks_def try_flatten_def)
  subgoal by (auto simp: handle_countproposals_def handler_errors count_error)
  subgoal by (auto simp: handle_getproposals_def handler_errors)
  subgoal by (auto simp: handle_gettransaction_def request_transaction_def handler_errors split: option.splits)
  subgoal by (auto simp: handle_gettransaction_def request_transaction_def handler_errors split: option.splits)
  done

text \<open>What a request for each kind of path binds.\<close>

lemma request_matches_path: "request_matches req spec path \<Longrightarrow> path \<in> set (route_paths spec)"
  by (simp only: request_matches_def)

lemma request_matches_height:
  assumes "request_matches req spec path" and "\<forall>p \<in> set (route_paths spec). path_params p = ['':height'']"
    and "map_of (route_params spec) '':height'' = Some IntegerParam"
  shows "\<exists>n. integer_param req ''height'' = Inr n"
  using request_matches_bound(1) [OF assms(1), of "''height''"] request_matches_path [OF assms(1)] assms(2,3)
  by auto

lemma request_matches_proposer:
  assumes "request_matches req spec path" and "\<forall>p \<in> set (route_paths spec). '':proposer_id'' \<in> set (path_params p)"
    and "map_of (route_params spec) '':proposer_id'' = Some TaggedBase64Param"
  shows "\<exists>pk. key_param req ''proposer_id'' = Inr pk"
  using request_matches_bound(2) [OF assms(1), of "''proposer_id''"] request_matches_path [OF assms(1)] assms(2,3)
  by simp

lemma request_matches_id:
  assumes "request_matches req spec path"
    and "\<forall>p \<in> set (route_paths spec). path_params p = ['':height''] \<or> path_params p = ['':hash'']"
    and "map_of (route_params spec) '':height'' = Some IntegerParam"
    and "map_of (route_params spec) '':hash'' = Some TaggedBase64Param"
  shows "\<exists>ident. request_id req = Inr ident"
proof -
  have "path_params path = ['':height''] \<or> path_params path = ['':hash'']"
    using request_matches_path [OF assms(1)] assms(2) by simp
  then show ?thesis
  proof
    assume "path_params path = ['':height'']"
    with request_matches_bound(1) [OF assms(1), of "''height''"] assms(3) show ?thesis
      by (auto simp: request_id_def)
  next
    assume "path_params path = ['':hash'']"
    with request_matches_bound(2) [OF assms(1), of "''hash''"]
      request_matches_unbound(1) [OF assms(1), of "''height''"] assms(4) show ?thesis
      by (auto simp: request_id_def)
  qed
qed

lemma request_matches_limit:
  assumes "request_matches req spec path"
    and "route_paths spec = [''proposals/:proposer_id'', ''proposals/:proposer_id/limit/:count'']"
    and "map_of (route_params spec) '':count'' = Some IntegerParam"
  shows "\<exists>limit. opt_integer_param req ''count'' = Inr limit"
proof (cases "path = ''proposals/:proposer_id''")
  case True
  with request_matches_unbound(1) [OF assms(1), of "''count''"] show ?thesis by auto
next
  case False
  with request_matches_path [OF assms(1)] assms(2)
  have "path = ''proposals/:proposer_id/limit/:count''" by simp
  with request_matches_bound(1) [OF assms(1), of "''count''"] assms(3) show ?thesis by auto
qed

lemma request_matches_transaction:
  assumes "request_matches req spec path"
    and "route_paths spec = [''transaction/:height/:index'', ''transaction/hash/:hash'']"
    and "route_params spec = [('':height'', IntegerParam), ('':index'', IntegerParam),
      ('':hash'', TaggedBase64Param)]"
  shows "handle_gettransaction N show_hash V req ds \<noteq> Inl (Failure (Request e))"
proof (cases "path = ''transaction/hash/:hash''")
  case True
  with request_matches_bound(2) [OF assms(1), of "''hash''"] assms(3) obtain h
    where "opt_blob_param req ''hash'' = Inr (Some h)" by auto
  then show ?thesis by (rule no_request_error(8))
next
  case False
  with request_matches_path [OF assms(1)] assms(2) have "path = ''transaction/:height/:index''" by simp
  with request_matches_bound(1) [OF assms(1), of "''height''"] assms(3)
    request_matches_bound(1) [OF assms(1), of "''index''"]
    request_matches_unbound(2) [OF assms(1), of "''hash''"]
  obtain n i where "opt_blob_param req ''hash'' = Inr None" "integer_param req ''height'' = Inr n"
      "integer_param req ''index'' = Inr i"
    by auto
  then show ?thesis by (rule no_request_error(9))
qed


definition hash_request :: "(nat, nat, string) request" where
  "hash_request =
     \<lparr>opt_integer_param = (\<lambda>_. Inr None), integer_param = (\<lambda>_. Inl ''missing''),
      opt_blob_param = (\<lambda>p. Inr (if p = ''hash'' then Some 7008 else None)),
      blob_param = (\<lambda>p. if p = ''hash'' then Inr 7008 else Inl ''missing''), key_param = (\<lambda>_. Inr 4)\<rparr>"


text \<open>
  \<^verbatim>\<open>define_api\<close> puts every handler of the availability module under the route of its name, and
  of the routes the bundled specification declares it leaves exactly \<^verbatim>\<open>getstaketable\<close> without a
  handler.
\<close>

theorem availability_api_registered:
  assumes "registrar_laws R declared registered" and "load_api A path default_text extensions = Inr api"
    and "route_name ` set availability_toml \<subseteq> declared api" and "registered api = Map.empty"
  shows "\<exists>api'. availability_define_api A R path default_text extensions N show_hash show_err
        leaf_items block_items V = Inr api' \<and>
    registered api' = map_of (availability_routes N show_hash show_err leaf_items block_items V) \<and>
    {name \<in> route_name ` set availability_toml. registered api' name = None} = {''getstaketable''}"
proof -
  let ?routes = "availability_routes N show_hash show_err leaf_items block_items V"
  let ?api = "with_version R ''0.0.1'' api"
  have fresh: "declared ?api = declared api" "registered ?api = Map.empty"
    using registrar_lawsD(1,2) [OF assms(1)] assms(4) by simp_all
  have names: "map fst ?routes = filter (\<lambda>name. name \<noteq> ''getstaketable'') (map route_name availability_toml)"
    by (simp add: availability_routes_def availability_toml_def)
  have "distinct (map fst ?routes)" by (simp add: availability_routes_def)
  moreover have "set (map fst ?routes) \<subseteq> declared ?api"
    using assms(3) unfolding names fresh by auto
  ultimately obtain api' where api': "register_routes R ?routes ?api = Inr api'"
      "registered api' = map_of ?routes"
    using register_routes_ok [OF assms(1), of ?routes ?api] fresh(2) by auto
  have "{name \<in> route_name ` set availability_toml. registered api' name = None} = {''getstaketable''}"
    unfolding api'(2) map_of_eq_None_iff set_map [symmetric] names
    by (auto simp: availability_toml_def)
  with api' assms(2) show ?thesis
    by (auto simp: availability_define_api_def define_api_def)
qed

type_synonym ('g, 's) mock_api = "string set \<times> (string \<Rightarrow> ('g, 's) handler option)"

definition mock_registrar :: "(('g, 's) mock_api, 'g, 's) registrar" where
  "mock_registrar =
     \<lparr>with_version = (\<lambda>_ api. api),
      api_get = (\<lambda>name g (decl, reg). if name \<in> decl \<and> reg name = None
        then Inr (decl, reg(name \<mapsto> GetHandler g)) else Inl (ApiErrorOther name)),
      api_stream = (\<lambda>name s (decl, reg). if name \<in> decl \<and> reg name = None
        then Inr (decl, reg(name \<mapsto> StreamHandler s)) else Inl (ApiErrorOther name))\<rparr>"

lemma mock_registrar_laws: "registrar_laws mock_registrar fst snd"
  by (simp add: registrar_laws_def mock_registrar_def)

definition mock_api_ops :: "(unit, unit, unit, ('g, 's) mock_api) api_ops" where
  "mock_api_ops = \<lparr>fs_read = (\<lambda>_. Inr ()), str_from_utf8 = (\<lambda>_. Inr []), toml_from_str = (\<lambda>_. Inr (Plain ())),
     api_new = (\<lambda>_. Inr (route_name ` set availability_toml, Map.empty))\<rparr>"

lemma only_member: "{n \<in> A. P n} = {x} \<Longrightarrow> P x"
  by blast

theorem availability_api_registered_witness:
  "\<exists>api'. availability_define_api mock_api_ops mock_registrar None [] [] mock_types decimal
       (\<lambda>_. []) (\<lambda>_. [()]) (\<lambda>_. []) (fs_avail_ops (mock_leaves False) (mock_blocks False)) = Inr api' \<and>
     snd api' ''getstaketable'' = None"
proof -
  have load: "load_api mock_api_ops None [] [] = Inr (route_name ` set availability_toml, Map.empty)"
    by (simp add: load_api_def mock_api_ops_def)
  show ?thesis
    by (rule exE [OF availability_api_registered [OF mock_registrar_laws load, unfolded fst_conv snd_conv,
          OF subset_refl refl, of mock_types decimal "\<lambda>_. []" "\<lambda>_. [()]" "\<lambda>_. []"
          "fs_avail_ops (mock_leaves False) (mock_blocks False)"]])
      (elim conjE, intro exI conjI, assumption, erule only_member)
qed

end
