(* ===== verification/ServiceRun.thy ===== *)
theory ServiceRun
  imports ValidateProps
begin

text \<open>
  The service as it runs (\<^verbatim>\<open>run_standalone_service\<close>, \<^verbatim>\<open>src/lib.rs\<close>): the task that serves requests and
  the update loop share the data source behind a lock. A request holds it for reading while its
  handler runs, the loop holds it for writing from an event's update to its commit, so a run is an
  interleaving of whole requests and whole events. When an event fails the loop ends and the lock is
  released; requests go on reading what is there.
\<close>

section \<open>Steps\<close>

datatype ('ev, 'req, 'reply) moment = Consumed 'ev | Answered 'req 'reply

text \<open>A state is the data source and whether the update loop still runs.\<close>

inductive service_step for N dbg D C handler where
  request: "service_step N dbg D C handler (ds, live) (Answered req (handler req ds)) (ds, live)"
| event: "update N dbg D event ds = (Inr (), ds1) \<Longrightarrow> vd_commit C ds1 = (Inr (), ds2) \<Longrightarrow>
    service_step N dbg D C handler (ds, True) (Consumed event) (ds2, True)"
| update_fails: "update N dbg D event ds = (Inl x, ds1) \<Longrightarrow>
    service_step N dbg D C handler (ds, True) (Consumed event) (ds1, False)"
| commit_fails: "update N dbg D event ds = (Inr (), ds1) \<Longrightarrow> vd_commit C ds1 = (Inl y, ds2) \<Longrightarrow>
    service_step N dbg D C handler (ds, True) (Consumed event) (ds2, False)"

inductive service_run for N dbg D C handler where
  start: "service_run N dbg D C handler s [] s"
| step: "service_run N dbg D C handler s run s1 \<Longrightarrow> service_step N dbg D C handler s1 moment s2 \<Longrightarrow>
    service_run N dbg D C handler s (run @ [moment]) s2"

inductive_cases service_stepE [elim!]:
  "service_step N dbg D C handler s (Consumed event) s'"
  "service_step N dbg D C handler s (Answered req reply) s'"

inductive_simps service_step_simps:
  "service_step N dbg D C handler (ds, live) (Answered req reply) s'"

text \<open>The events of a run.\<close>

fun run_events where
  "run_events [] = []"
| "run_events (Consumed event # run) = event # run_events run"
| "run_events (Answered req reply # run) = run_events run"

lemma run_events_append [simp]: "run_events (xs @ ys) = run_events xs @ run_events ys"
  by (induction xs rule: run_events.induct) simp_all

section \<open>A run is its events\<close>

lemma attempt_unit: "attempt r (\<lambda>_ s. (Inr (), s)) = (r :: ('e, unit, 's) outcome)"
  by (cases r; cases "fst r") auto

lemma internal_err_Inl [simp]:
  "internal_err show_err (Inl x, s) = (Inl (case x of Failure e \<Rightarrow> Failure (crate_internal (show_err e))
     | Panic m \<Rightarrow> Panic m | Diverges \<Rightarrow> Diverges), s)"
  by (simp add: internal_err_def)

lemma internal_err_Inr [simp]: "internal_err show_err (Inr x, s) = (Inr x, s)"
  by simp

lemma update_loop_Nil:
  "update_loop N dbg D C show_update show_commit [] = (\<lambda>ds. (Inr (), ds))"
  by (rule ext) simp

lemma update_loop_snoc:
  "(update_loop N dbg D C show_update show_commit (events @ [event])
      :: 'ds \<Rightarrow> (('q, 'k) crate_error, unit, 'ds) outcome) =
   (\<lambda>ds. attempt (update_loop N dbg D C show_update show_commit events ds) (\<lambda>_ ds.
     attempt (internal_err show_update (update N dbg D event ds)) (\<lambda>_ ds.
       internal_err show_commit (vd_commit C ds))))"
proof (induction events)
  case Nil
  show ?case by (rule ext) (simp add: update_loop_Nil attempt_unit)
next
  case (Cons e events)
  show ?case by (rule ext) (simp add: Cons.IH attempt_assoc)
qed

text \<open>
  Requests do not disturb the loop: a run leaves the data source as the loop alone would after the
  same events, and the loop is still there unless one of them failed.
\<close>

lemma run_is_loop:
  assumes "service_run N dbg D C handler s run s'" and "s = (ds, True)"
  shows "\<exists>r. (update_loop N dbg D C show_update show_commit (run_events run) ds
      :: (('q, 'k) crate_error, unit, 'ds) outcome) = (r, fst s') \<and> (snd s' \<longleftrightarrow> r = Inr ())"
  using assms
proof (induction rule: service_run.induct)
  case (start s)
  then show ?case by simp
next
  case (step s run s1 moment s2)
  let ?loop = "\<lambda>events. update_loop N dbg D C show_update show_commit events ds
      :: (('q, 'k) crate_error, unit, 'ds) outcome"
  obtain r where r: "?loop (run_events run) = (r, fst s1)" "snd s1 \<longleftrightarrow> r = Inr ()"
    using step.IH [OF step.prems] by blast
  from step.hyps(2) show ?case
  proof cases
    case (request ds1 live req)
    with r show ?thesis by simp
  next
    case (event ev ds1 ds2 ds3)
    with r show ?thesis by (simp add: update_loop_snoc)
  next
    case (update_fails ev ds1 x ds2)
    with r show ?thesis by (simp add: update_loop_snoc)
  next
    case (commit_fails ev ds1 ds2 y ds3)
    with r show ?thesis by (simp add: update_loop_snoc)
  qed
qed

text \<open>Each moment of a run happens in the state the run before it left.\<close>

lemma run_split:
  "service_run N dbg D C handler s (pre @ post) s' \<Longrightarrow>
   \<exists>s1. service_run N dbg D C handler s pre s1 \<and> service_run N dbg D C handler s1 post s'"
proof (induction post arbitrary: s' rule: rev_induct)
  case Nil
  then show ?case using service_run.start by (metis append_Nil2)
next
  case (snoc m post)
  from snoc.prems obtain s2 where "service_run N dbg D C handler s (pre @ post) s2"
      "service_step N dbg D C handler s2 m s'"
    by (cases rule: service_run.cases) auto
  with snoc.IH service_run.step show ?case by blast
qed

lemma run_Nil [simp]: "service_run N dbg D C handler s [] s' \<longleftrightarrow> s' = s"
  by (auto elim: service_run.cases intro: service_run.start)

lemma run_Cons:
  "service_run N dbg D C handler s (m # post) s' \<Longrightarrow>
   \<exists>s1. service_step N dbg D C handler s m s1 \<and> service_run N dbg D C handler s1 post s'"
proof (induction post arbitrary: s' rule: rev_induct)
  case Nil
  then obtain s1 where "service_run N dbg D C handler s [] s1" "service_step N dbg D C handler s1 m s'"
    by (cases rule: service_run.cases) auto
  then show ?case by (metis run_Nil)
next
  case (snoc m' post)
  from snoc.prems obtain s2 where "service_run N dbg D C handler s (m # post) s2"
      "service_step N dbg D C handler s2 m' s'"
    by (cases rule: service_run.cases) auto
  with snoc.IH service_run.step show ?case by blast
qed

lemma run_answered:
  assumes "service_run N dbg D C handler s (pre @ Answered req reply # post) s'"
  obtains s1 where "service_run N dbg D C handler s pre s1" "reply = handler req (fst s1)"
    "service_run N dbg D C handler s1 post s'"
proof -
  obtain s1 where s1: "service_run N dbg D C handler s pre s1"
      "service_run N dbg D C handler s1 (Answered req reply # post) s'"
    using run_split [OF assms] by blast
  then obtain s2 where s2: "service_step N dbg D C handler s1 (Answered req reply) s2"
      "service_run N dbg D C handler s2 post s'"
    using run_Cons by meson
  from s2(1) have "reply = handler req (fst s1)" "s2 = s1" by auto
  with s1(1) s2(2) show thesis by (intro that) simp_all
qed

lemma run_live: "service_run N dbg D C handler s run s' \<Longrightarrow> snd s' \<Longrightarrow> snd s"
proof (induction rule: service_run.induct)
  case (step s run s1 moment s2)
  from step.hyps(2) step.prems have "snd s1" by cases auto
  then show ?case by (rule step.IH)
qed simp

section \<open>Properties\<close>


definition height_request :: "64 word \<Rightarrow> (nat, nat, string) request" where
  "height_request n = mock_request\<lparr>opt_integer_param := \<lambda>_. Inr (Some n)\<rparr>"

abbreviation mock_getleaf where
  "mock_getleaf \<equiv> handle_getleaf decimal (fs_avail_ops (mock_leaves False) (mock_blocks False))"

abbreviation mock_event where
  "mock_event \<equiv> Decide [(2, 5, 1014, Some [9]), (1, 4, 1000, Some [8, 9, 8])] (1025 :: nat)"

text \<open>The leaf of height 1 is asked for before and after the event that decides it.\<close>

lemma mock_service_run:
  "service_run mock_types False mock_fs_updates mock_fs_versions mock_getleaf (mock_created, True)
     [Answered (height_request 1) (mock_getleaf (height_request 1) mock_created), Consumed mock_event,
      Answered (height_request 1) (mock_getleaf (height_request 1) mock_validated)] (mock_validated, True)"
proof -
  let ?run = "service_run mock_types False mock_fs_updates mock_fs_versions mock_getleaf (mock_created, True)"
  have "?run ([] @ [Answered (height_request 1) (mock_getleaf (height_request 1) mock_created)])
      (mock_created, True)"
    by (rule service_run.step [OF service_run.start service_step.request])
  from service_run.step [OF this service_step.event [OF mock_updated_run]] mock_validated_run
  have "?run (([] @ [Answered (height_request 1) (mock_getleaf (height_request 1) mock_created)]) @
      [Consumed mock_event]) (mock_validated, True)" by simp
  from service_run.step [OF this service_step.request] show ?thesis by simp
qed


text \<open>
  C6. Over a fresh file system store, a request for the leaf of a height is answered at any moment of
  any run with the leaf decided at that height, as soon as the event that decides it is consumed and
  for ever after, and with a 404 before.
\<close>

theorem fs_requests_see_decided:
  fixes N :: "('leaf, 'qc, 'hdr, 'pl, 'tx, 'ix::linorder, 'pf, 'h, 'pk) node_types"
  assumes "append_log_laws LA lp" and "append_log_laws BA bp" and "genesis_at_zero N"
    and "genesis_matches N" and "fs_create_with_store N LA BA AS metrics0 ld = (Inr ds, ld')"
    and "service_run N False (fs_update_ops N LA BA) (fs_versioned_ops LA BA AS)
      (handle_getleaf show_hash (fs_avail_ops LA BA)) (ds, True) (pre @ Answered req reply # post) (ds', True)"
    and "chains_fit N 1 1 (event_chains (run_events (pre @ post)))"
    and "opt_integer_param req ''height'' = Inr (Some n)"
    and "leaves = leaf_query_data_genesis N # map entry_of
      (concat (map (\<lambda>(chain, qc). chain_entries N chain qc) (event_chains (run_events pre))))"
  shows "reply = (if unat n < length leaves then Inr (leaves ! unat n)
    else Inl (QueryLeaf NotFound (decimal (unat n))))"
proof -
  note created = fs_create_served [OF assms(1-5)]
  obtain s1 where s1: "service_run N False (fs_update_ops N LA BA) (fs_versioned_ops LA BA AS)
        (handle_getleaf show_hash (fs_avail_ops LA BA)) (ds, True) pre s1"
      "reply = handle_getleaf show_hash (fs_avail_ops LA BA) req (fst s1)"
      "service_run N False (fs_update_ops N LA BA) (fs_versioned_ops LA BA AS)
        (handle_getleaf show_hash (fs_avail_ops LA BA)) s1 post (ds', True)"
    using assms(6) by (rule run_answered)
  have "snd s1" using run_live [OF s1(3)] by simp
  with run_is_loop [OF s1(1) refl, of "\<lambda>_. []" "\<lambda>_. []"] obtain u where
    "(update_loop N False (fs_update_ops N LA BA) (fs_versioned_ops LA BA AS) (\<lambda>_. []) (\<lambda>_. [])
      (run_events pre) ds :: ((unit, unit) crate_error, unit, _) outcome) = (Inr u, fst s1)" by auto
  moreover have "chains_fit N 1 1 (event_chains (run_events pre))"
    using assms(7) by (simp add: chains_fit_prefix)
  ultimately have served: "fs_served N LA BA AS leaves (fst s1)"
    using fs_update_loop_served [OF assms(1-3) created(1)] created(2) assms(9) by fastforce
  then have gap: "fs_gapless N LA BA leaves (fst s1)" by (simp add: fs_served_def)
  have ok: "fs_ok N LA BA lp bp (fst s1)"
    using served fs_reachable_ok [OF assms(1-3)] by (auto simp: fs_served_def)
  show ?thesis
    using gap fs_get_leaf_number [OF ok, of n]
    by (simp add: s1(2) handle_getleaf_def request_id_def assms(8) fs_avail_ops_def fs_gapless_def
        list_get_def)
qed

theorem fs_requests_see_decided_witness:
  "mock_getleaf (height_request 1) mock_created = Inl (QueryLeaf NotFound (decimal 1)) \<and>
   mock_getleaf (height_request 1) mock_validated
     = Inr \<lparr>lq_leaf = (1, 4, 1000, Some [8, 9, 8]), lq_qc = 1014\<rparr>"
proof -
  have req: "opt_integer_param (height_request 1) ''height'' = Inr (Some 1)"
    by (simp add: height_request_def)
  have fit: "chains_fit mock_types 1 1 (event_chains (run_events ([] @
      [Consumed mock_event, Answered (height_request 1) (mock_getleaf (height_request 1) mock_validated)])))"
    "chains_fit mock_types 1 1 (event_chains (run_events ([Answered (height_request 1)
      (mock_getleaf (height_request 1) mock_created), Consumed mock_event] @ [])))"
    using mock_service_hypotheses(3) by simp_all
  note seen = fs_requests_see_decided [OF mock_logs_laws mock_genesis mock_service_hypotheses(1)
      mock_created_run _ _ req refl]
  have "mock_getleaf (height_request 1) mock_created = Inl (QueryLeaf NotFound (decimal 1))"
    using seen [OF _ fit(1)] mock_service_run by simp
  moreover have "mock_getleaf (height_request 1) mock_validated
      = Inr \<lparr>lq_leaf = (1, 4, 1000, Some [8, 9, 8]), lq_qc = 1014\<rparr>"
    using seen [OF _ fit(2)] mock_service_run by (simp add: chain_entries_def entry_of_def mock_types_simps)
  ultimately show ?thesis ..
qed

end
