(* ===== verification/StandaloneService.thy ===== *)
theory StandaloneService
  imports ApiRoutes ServiceRun
begin

text \<open>
  The whole of \<^verbatim>\<open>run_standalone_service\<close> (\<^verbatim>\<open>src/lib.rs\<close>) with its options: the two APIs are built from
  their specifications and mounted, then the events are consumed. Mounting a module in an \<^verbatim>\<open>App\<close> and
  the contents of the bundled specifications are parameters.
\<close>

section \<open>Options\<close>

text \<open>\<^verbatim>\<open>availability::Options\<close> and \<^verbatim>\<open>status::Options\<close> have the same fields.\<close>

record ('path, 'toml) module_options =
  opt_api_path :: "'path option"
  opt_extensions :: "'toml list"

record ('path, 'toml) service_options =
  opt_availability :: "('path, 'toml) module_options"
  opt_status :: "('path, 'toml) module_options"
  opt_port :: "16 word"

definition serve_url where
  "serve_url options = ''0.0.0.0:'' @ decimal (unat (opt_port options))"

section \<open>The service\<close>

text \<open>
  \<open>define_availability\<close> and \<open>define_status\<close> are the two \<^verbatim>\<open>define_api\<close> functions on the model's own
  handlers.
\<close>

definition standalone_service where
  "standalone_service register_module show_api define_availability define_status options app
      N dbg D C show_update show_commit events ds =
     run_standalone_service register_module show_api (define_availability (opt_availability options))
       (define_status (opt_status options)) app N dbg D C show_update show_commit events ds"

definition define_availability where
  "define_availability A R text N show_hash show_err leaf_items block_items V options =
     availability_define_api A R (opt_api_path options) text (opt_extensions options)
       N show_hash show_err leaf_items block_items V"

definition define_status where
  "define_status A R text show_err display P fdiv of_usize order utf8_error D options =
     status_define_api A R (opt_api_path options) text (opt_extensions options)
       show_err display P fdiv of_usize order utf8_error D"

text \<open>The routes \<^verbatim>\<open>api/status.toml\<close> declares.\<close>

definition status_toml :: "string list" where
  "status_toml = [''latest_block_height'', ''mempool_info'', ''success_rate'', ''metrics'']"

section \<open>Starting up\<close>

text \<open>A specification that declares the routes and on which nothing is registered yet.\<close>

definition specifies where
  "specifies A declared registered text names options \<longleftrightarrow>
     (\<exists>api. load_api A (opt_api_path options) text (opt_extensions options) = Inr api \<and>
        names \<subseteq> declared api \<and> registered api = Map.empty)"

lemma define_api_registers:
  assumes "registrar_laws R declared registered" and "specifies A declared registered text names options"
    and "distinct (map fst routes)" and "set (map fst routes) \<subseteq> names"
  obtains api where "define_api A R (opt_api_path options) text (opt_extensions options) routes = Inr api"
    "registered api = map_of routes"
proof -
  obtain api where load: "load_api A (opt_api_path options) text (opt_extensions options) = Inr api"
    and api: "names \<subseteq> declared api" "registered api = Map.empty"
    using assms(2) by (auto simp: specifies_def)
  have "declared (with_version R ''0.0.1'' api) = declared api"
    "registered (with_version R ''0.0.1'' api) = Map.empty"
    using registrar_lawsD(1,2) [OF assms(1)] api(2) by simp_all
  moreover have "set (map fst routes) \<subseteq> declared api" using assms(4) api(1) by (rule subset_trans)
  ultimately obtain api' where "register_routes R routes (with_version R ''0.0.1'' api) = Inr api'"
      "registered api' = map_of routes"
    using register_routes_ok [OF assms(1,3), of "with_version R ''0.0.1'' api"] by auto
  with load show thesis by (intro that [of api']) (simp_all add: define_api_def)
qed

text \<open>
  An app accepts a module under a name that is free: the documented behaviour of \<^verbatim>\<open>App\<close>. \<open>mounted\<close>
  observes an app.
\<close>

definition app_laws where
  "app_laws register_module mounted \<longleftrightarrow>
     (\<forall>name m app. mounted app name = None \<longrightarrow>
        (\<exists>app'. register_module name m app = Inr app' \<and> mounted app' = (mounted app)(name \<mapsto> m)))"

lemma register_apis_mounts:
  assumes "app_laws register_module mounted" and "mounted app = Map.empty"
  obtains app' where "register_apis register_module show_api (Inr api1) (Inr api2) app = Inr app'"
    "mounted app' = [''availability'' \<mapsto> Inl api1, ''status'' \<mapsto> Inr api2]"
proof -
  obtain app1 where app1: "register_module ''availability'' (Inl api1) app = Inr app1"
      "mounted app1 = [''availability'' \<mapsto> Inl api1]"
    using assms unfolding app_laws_def by metis
  then have "mounted app1 ''status'' = None" by simp
  then obtain app2 where app2: "register_module ''status'' (Inr api2) app1 = Inr app2"
      "mounted app2 = [''availability'' \<mapsto> Inl api1, ''status'' \<mapsto> Inr api2]"
    using assms(1) app1(2) unfolding app_laws_def by metis
  show thesis by (rule that [OF _ app2(2)]) (simp add: register_apis_def app1(1) app2(1))
qed


definition mock_register_module :: "string \<Rightarrow> 'm \<Rightarrow> (string \<rightharpoonup> 'm) \<Rightarrow> api_error + (string \<rightharpoonup> 'm)" where
  "mock_register_module name m app = (if app name = None then Inr (app(name \<mapsto> m)) else Inl (ApiErrorOther name))"

definition mock_status_api_ops :: "(unit, unit, unit, ('g, 's) mock_api) api_ops" where
  "mock_status_api_ops = \<lparr>fs_read = (\<lambda>_. Inr ()), str_from_utf8 = (\<lambda>_. Inr []), toml_from_str = (\<lambda>_. Inr (Plain ())),
     api_new = (\<lambda>_. Inr (set status_toml, Map.empty))\<rparr>"

definition mock_options :: "(unit, unit toml) service_options" where
  "mock_options = \<lparr>opt_availability = \<lparr>opt_api_path = None, opt_extensions = []\<rparr>,
     opt_status = \<lparr>opt_api_path = None, opt_extensions = []\<rparr>, opt_port = 8080\<rparr>"

lemma mock_app_laws: "app_laws mock_register_module (\<lambda>app. app)"
  by (simp add: app_laws_def mock_register_module_def)

lemma mock_specifies:
  "specifies mock_api_ops fst snd [] (route_name ` set availability_toml) (opt_availability mock_options)"
  "specifies mock_status_api_ops fst snd [] (set status_toml) (opt_status mock_options)"
  by (simp_all add: specifies_def load_api_def mock_api_ops_def mock_status_api_ops_def mock_options_def)


end
