(* ===== verification/MockPayload.thy ===== *)
theory MockPayload
  imports ValidateProps
begin

text \<open>
  The payload of the mock node types (\<^verbatim>\<open>MockPayload\<close>, \<^verbatim>\<open>src/testing/mocks.rs\<close>).
\<close>

section \<open>Mock payloads\<close>

text \<open>A payload is a list of transactions, a transaction a list of bytes, an index a position.\<close>

definition mock_transaction :: "8 word list \<Rightarrow> 8 word list" where
  "mock_transaction payload = payload"

definition mock_payload_len :: "'tx list \<Rightarrow> nat" where
  "mock_payload_len transactions = length transactions"

definition mock_payload_iter :: "'tx list \<Rightarrow> nat list" where
  "mock_payload_iter transactions = [0..<mock_payload_len transactions]"

definition mock_payload_transaction_with_proof :: "'tx list \<Rightarrow> nat \<Rightarrow> ('tx \<times> unit) option" where
  "mock_payload_transaction_with_proof transactions index =
     map_option (\<lambda>tx. (tx, ())) (list_get transactions index)"

definition mock_payload_ops where
  "mock_payload_ops encode commit =
     \<lparr>pl_encode = encode, pl_len = mock_payload_len, pl_iter = mock_payload_iter,
      pl_transaction_with_proof = mock_payload_transaction_with_proof, tx_commit = commit\<rparr>"

text \<open>Node types over mock payloads keep the promises of a payload type.\<close>

lemma mock_payload_laws:
  assumes "payload_ops.truncate N = mock_payload_ops encode commit"
  shows "payload_laws N"
proof -
  have "pl_iter N = mock_payload_iter"
    "pl_transaction_with_proof N = mock_payload_transaction_with_proof"
    using assms by (simp_all add: payload_ops.truncate_def mock_payload_ops_def)
  then show ?thesis
    by (simp add: payload_laws_def payload_indexed_def mock_payload_iter_def mock_payload_len_def
        mock_payload_transaction_with_proof_def list_get_def)
qed

text \<open>The transactions of a mock payload are its elements, each at its position.\<close>

lemma mock_payload_items:
  fixes N :: "('leaf, 'qc, 'hdr, 'tx list, 'tx, nat, unit, 'h, 'pk) node_types"
  assumes "payload_ops.truncate N = mock_payload_ops encode commit"
    and "(j, tx) \<in> set (payload_transactions N p)" and "length p < 2 ^ 64"
  shows "payload_transaction N p j = Some tx"
    and "payload_nth N p (unat (of_nat j :: 64 word)) = Some j"
proof -
  have ops: "pl_iter N = mock_payload_iter"
    "pl_transaction_with_proof N = mock_payload_transaction_with_proof"
    using assms(1) by (simp_all add: payload_ops.truncate_def mock_payload_ops_def)
  note defs = ops mock_payload_iter_def mock_payload_len_def mock_payload_transaction_with_proof_def
  have j: "j < length p" using assms(2) by (auto simp: payload_transactions_def defs)
  then show "payload_transaction N p j = Some tx"
    using assms(2) by (auto simp: payload_transactions_def payload_transaction_def defs list_get_def)
  have "unat (of_nat j :: 64 word) = j" using j assms(3) by (intro unat_of_nat_64) simp
  with j show "payload_nth N p (unat (of_nat j :: 64 word)) = Some j"
    by (simp add: payload_nth_def defs list_get_def)
qed

lemma mock_types_payload:
  "payload_ops.truncate mock_types = mock_payload_ops Some (\<lambda>tx. tx + 7000)"
  by (simp add: payload_ops.truncate_def mock_payload_ops_def mock_types_def fun_eq_iff mock_payload_len_def
      mock_payload_iter_def mock_payload_transaction_with_proof_def)

end
