(* ===== verification/MockNetwork.thy ===== *)
theory MockNetwork
  imports MockPayload ServiceRun SqlService "HOL-Library.Sublist"
begin

text \<open>
  The test support of the library: the life cycle of data sources (\<^verbatim>\<open>src/testing/mocks.rs\<close> and its
  implementations in the data sources) and the network of nodes with a data source each
  (\<^verbatim>\<open>src/testing/consensus.rs\<close>). Consensus itself is HotShot's: a node has the
  stream of events its instance emits.
\<close>

section \<open>Life cycles\<close>

text \<open>
  \<^verbatim>\<open>DataSourceLifeCycle\<close>: storage for a node, a data source connected to it, and what it does with an
  event. Every \<^verbatim>\<open>unwrap\<close> of an error is a panic.
\<close>

record ('st, 'ds, 'ev) life_cycle =
  lc_create :: "nat \<Rightarrow> 'st"
  lc_connect :: "'st \<Rightarrow> unit failure + 'ds"
  lc_handle_event :: "'ev \<Rightarrow> 'ds \<Rightarrow> (unit, unit, 'ds) outcome"

definition unwrap_new :: "'e failure + 'a \<Rightarrow> unit failure + 'a" where
  "unwrap_new r = fst (unwrapped (r, ()))"

lemma unwrap_new_ok [simp]: "unwrap_new r = Inr x \<longleftrightarrow> r = Inr x"
  by (cases r; cases "projl r") (auto simp: unwrap_new_def)

definition handle_event where
  "handle_event N dbg D C event ds =
     attempt (unwrapped (update N dbg D event ds)) (\<lambda>_ ds. unwrapped (vd_commit C ds))"

definition fs_life_cycle where
  "fs_life_cycle N dbg LA BA AS metrics0 temp_dir =
     \<lparr>lc_create = (\<lambda>node_id. temp_dir (''file_system_data_source_'' @ decimal node_id)),
      lc_connect = (\<lambda>path. unwrap_new (fs_open N LA BA AS metrics0 path)),
      lc_handle_event = handle_event N dbg (fs_update_ops N LA BA) (fs_versioned_ops LA BA AS)\<rparr>"

definition sql_life_cycle where
  "sql_life_cycle N dbg C S K M mj embedded EQ EP metrics0 tmp_db db_port =
     \<lparr>lc_create = (\<lambda>_. tmp_db),
      lc_connect = (\<lambda>db. unwrap_new (sql_connect K M mj embedded N C S EQ EP metrics0
        (config_port (db_port db) (config_password ''password'' (config_user ''postgres'' config_default))))),
      lc_handle_event = handle_event N dbg (sql_update_ops N C S) (sql_versioned_ops C)\<rparr>"

definition metrics_life_cycle where
  "metrics_life_cycle metrics0 =
     \<lparr>lc_create = (\<lambda>_. metrics0), lc_connect = (\<lambda>metrics. Inr \<lparr>mds_metrics = metrics\<rparr>),
      lc_handle_event = (\<lambda>_ ds. (Inr (), ds))\<rparr>"

definition ext_life_cycle where
  "ext_life_cycle N dbg L D C user0 =
     \<lparr>lc_create = lc_create L,
      lc_connect = (\<lambda>storage. map_sum id (\<lambda>ds. ext_new ds user0) (lc_connect L storage)),
      lc_handle_event = handle_event N dbg (ext_update_ops D) (ext_versioned_ops C)\<rparr>"

section \<open>The network\<close>

record ('st, 'ds, 'ev) mock_node =
  node_source :: 'ds
  node_storage :: 'st
  node_events :: "'ev list"
  node_running :: bool

definition minimum_nodes :: nat where "minimum_nodes = 2"

text \<open>
  \<^verbatim>\<open>init\<close>: a data source per node over storage of its own. The events of a node's stream that are
  still to come are part of its state.
\<close>

definition node_new where
  "node_new L events_of node_id =
     (let storage = lc_create L node_id in
      map_sum id (\<lambda>ds. \<lparr>node_source = ds, node_storage = storage, node_events = events_of node_id,
        node_running = True\<rparr>) (lc_connect L storage))"

definition network_init where
  "network_init L events_of = try_collect (map (node_new L events_of) [0..<minimum_nodes])"

text \<open>\<^verbatim>\<open>data_source\<close> and \<^verbatim>\<open>storage\<close> are those of the first node.\<close>

definition network_data_source where
  "network_data_source nodes = node_source (nodes ! 0)"

definition network_storage where
  "network_storage nodes = node_storage (nodes ! 0)"

text \<open>
  \<^verbatim>\<open>start\<close> spawns a task per node: it takes the next event of its stream, locks the data source of the
  node and lets it handle the event. A panic ends that task only.
\<close>

inductive network_step for L where
  handled: "i < length nodes \<Longrightarrow> node_running (nodes ! i) \<Longrightarrow> node_events (nodes ! i) = event # events \<Longrightarrow>
    lc_handle_event L event (node_source (nodes ! i)) = (Inr (), ds) \<Longrightarrow>
    network_step L nodes (nodes[i := (nodes ! i)\<lparr>node_source := ds, node_events := events\<rparr>])"
| panicked: "i < length nodes \<Longrightarrow> node_running (nodes ! i) \<Longrightarrow> node_events (nodes ! i) = event # events \<Longrightarrow>
    lc_handle_event L event (node_source (nodes ! i)) = (Inl x, ds) \<Longrightarrow>
    network_step L nodes (nodes[i := (nodes ! i)\<lparr>node_source := ds, node_events := events,
      node_running := False\<rparr>])"

text \<open>
  A property of every node that its own task preserves holds of all nodes in any interleaving of the
  tasks.
\<close>

locale node_invariant =
  fixes L :: "('st, 'ds, 'ev) life_cycle" and inv :: "nat \<Rightarrow> ('st, 'ds, 'ev) mock_node \<Rightarrow> bool"
  assumes node_handled: "inv i node \<Longrightarrow> node_running node \<Longrightarrow> node_events node = event # events \<Longrightarrow>
      lc_handle_event L event (node_source node) = (Inr (), ds) \<Longrightarrow>
      inv i (node\<lparr>node_source := ds, node_events := events\<rparr>)"
    and node_stopped: "inv i node \<Longrightarrow> node_running node \<Longrightarrow> node_events node = event # events \<Longrightarrow>
      inv i (node\<lparr>node_source := ds, node_events := events, node_running := False\<rparr>)"
begin

lemma step_inv:
  "network_step L nodes nodes' \<Longrightarrow> \<forall>i < length nodes. inv i (nodes ! i) \<Longrightarrow>
    length nodes' = length nodes \<and> (\<forall>i < length nodes'. inv i (nodes' ! i))"
proof (induction rule: network_step.induct)
  case (handled i nodes event events ds)
  from node_handled [OF _ handled(2-4), of i] handled.prems handled(1) show ?case
    by (auto simp: nth_list_update)
next
  case (panicked i nodes event events x ds)
  from node_stopped [OF _ panicked(2,3), of i ds] panicked.prems panicked(1) show ?case
    by (auto simp: nth_list_update)
qed

lemma run_inv:
  "(network_step L)\<^sup>*\<^sup>* nodes nodes' \<Longrightarrow> \<forall>i < length nodes. inv i (nodes ! i) \<Longrightarrow>
    length nodes' = length nodes \<and> (\<forall>i < length nodes'. inv i (nodes' ! i))"
  by (induction rule: rtranclp_induct) (auto dest: step_inv)

end


section \<open>Nodes on file systems\<close>

text \<open>A directory that holds no leaves and no blocks.\<close>

definition fresh_directory where
  "fresh_directory LA BA AS path \<longleftrightarrow>
     (\<exists>ld ls ld1 bs ld2. as_load AS path ''hotshot_data_source'' = Inr ld \<and>
        al_load LA ld ''leaves'' log_file_size = (Inr ls, ld1) \<and>
        al_load BA ld1 ''blocks'' log_file_size = (Inr bs, ld2) \<and>
        al_iter LA ls = [] \<and> al_iter BA bs = [])"

lemma fs_open_fresh_served:
  assumes laws: "append_log_laws LA lp" "append_log_laws BA bp" and gen: "genesis_at_zero N"
    and match: "genesis_matches N" and fresh: "fresh_directory LA BA AS path"
    and run: "fs_open N LA BA AS metrics0 path = Inr ds"
  shows "fs_served N LA BA AS [leaf_query_data_genesis N] ds" and "log_len BA (block_storage ds) = 1"
proof -
  obtain ld ls ld1 bs ld2 where load: "as_load AS path ''hotshot_data_source'' = Inr ld"
      "al_load LA ld ''leaves'' log_file_size = (Inr ls, ld1)"
      "al_load BA ld1 ''blocks'' log_file_size = (Inr bs, ld2)"
      "al_iter LA ls = []" "al_iter BA bs = []"
    using fresh by (auto simp: fresh_directory_def)
  obtain ds0 ld3 st where open0: "fs_open_with_store N LA BA AS metrics0 ld = (Inr ds0, ld3)"
    and ds: "ds = ds0\<lparr>top_storage := Some st\<rparr>"
    using run load(1) by (auto simp: fs_open_def map_sum_Inr_iff split: prod.splits sum.splits)
  note E = fs_open_with_store_empty [OF laws gen load(2-5) open0]
  have reach: "fs_reachable N LA BA AS ds"
    unfolding ds by (rule fs_reachable.owned [OF fs_reachable.opened_empty [OF load(2-5) open0]])
  have same: "leaf_storage ds = leaf_storage ds0" "block_storage ds = block_storage ds0"
    by (simp_all add: ds)
  show len: "log_len BA (block_storage ds) = 1" using fs_ok_lens(2) [OF E(1)] E(6) same by simp
  have "fs_gapless N LA BA [leaf_query_data_genesis N] ds"
    using E(5,6) len match by (simp add: fs_gapless_def genesis_matches_def fs_blocks_def same)
  moreover have "fs_committed LA BA ds" using E(2,3,5,6) by (simp add: fs_committed_def same)
  ultimately show "fs_served N LA BA AS [leaf_query_data_genesis N] ds"
    using reach E(4) by (simp add: fs_served_def fs_windows_def same)
qed

text \<open>
  The leaves that a stream of events decides, and what holds of a node that has consumed the first
  \<open>past\<close> of them.
\<close>

definition decided_leaves where
  "decided_leaves N events =
     map entry_of (concat (map (\<lambda>(chain, qc). chain_entries N chain qc) (event_chains events)))"

lemma decided_leaves_append [simp]: "decided_leaves N (xs @ ys) = decided_leaves N xs @ decided_leaves N ys"
  by (simp add: decided_leaves_def)

definition node_ok where
  "node_ok N LA BA AS lp bp stream_of i node \<longleftrightarrow>
     append_log_laws LA lp \<and> append_log_laws BA bp \<and> genesis_at_zero N \<and>
     (\<exists>past. stream_of i = past @ node_events node \<and>
       (node_running node \<longrightarrow>
          fs_served N LA BA AS (leaf_query_data_genesis N # decided_leaves N past) (node_source node) \<and>
          chains_fit N (length (leaf_query_data_genesis N # decided_leaves N past))
            (log_len BA (block_storage (node_source node))) (event_chains (node_events node))))"

lemma fs_handle_event_served:
  assumes laws: "append_log_laws LA lp" "append_log_laws BA bp" and gen: "genesis_at_zero N"
    and served: "fs_served N LA BA AS leaves ds"
    and fit: "chains_fit N (length leaves) (log_len BA (block_storage ds)) (event_chains (event # events))"
    and run: "handle_event N False (fs_update_ops N LA BA) (fs_versioned_ops LA BA AS) event ds = (Inr u, ds')"
  shows "fs_served N LA BA AS (leaves @ decided_leaves N [event]) ds'"
    and "chains_fit N (length (leaves @ decided_leaves N [event])) (log_len BA (block_storage ds'))
      (event_chains events)"
proof -
  obtain ds1 where upd: "update N False (fs_update_ops N LA BA) event ds = (Inr (), ds1)"
    and com: "fs_commit LA BA AS ds1 = (Inr (), ds')"
    using run by (auto simp: handle_event_def attempt_ok)
  have "fs_served N LA BA AS (leaves @ decided_leaves N [event]) ds' \<and>
    chains_fit N (length (leaves @ decided_leaves N [event])) (log_len BA (block_storage ds'))
      (event_chains events)"
  proof (cases event)
    case (Decide chain qc)
    have "chains_fit N (length leaves) (log_len BA (block_storage ds)) [(chain, qc)]"
      using fit by (simp add: Decide)
    note E = fs_event_served [OF laws gen served this upd [unfolded Decide] com]
    with fit show ?thesis by (simp add: Decide decided_leaves_def)
  next
    case OtherEvent
    then have "ds1 = ds" using upd by (simp add: update_def)
    with served com fs_commit_served [OF laws gen, of AS ds leaves "()" ds'] fit show ?thesis
      by (auto simp: fs_served_def OtherEvent decided_leaves_def)
  qed
  then show "fs_served N LA BA AS (leaves @ decided_leaves N [event]) ds'"
    "chains_fit N (length (leaves @ decided_leaves N [event])) (log_len BA (block_storage ds'))
      (event_chains events)"
    by simp_all
qed

interpretation fs_nodes: node_invariant "fs_life_cycle N False LA BA AS metrics0 temp_dir"
  "node_ok N LA BA AS lp bp stream_of"
  for N LA BA AS metrics0 temp_dir lp bp stream_of
proof unfold_locales
  fix i node event events ds
  assume ok: "node_ok N LA BA AS lp bp stream_of i node" and running: "node_running node"
    and events: "node_events node = event # events"
    and run: "lc_handle_event (fs_life_cycle N False LA BA AS metrics0 temp_dir) event (node_source node)
      = (Inr (), ds)"
  from ok obtain past where laws: "append_log_laws LA lp" "append_log_laws BA bp" "genesis_at_zero N"
    and past: "stream_of i = past @ event # events"
    and served: "fs_served N LA BA AS (leaf_query_data_genesis N # decided_leaves N past) (node_source node)"
      "chains_fit N (length (leaf_query_data_genesis N # decided_leaves N past))
        (log_len BA (block_storage (node_source node))) (event_chains (event # events))"
    using running by (auto simp: node_ok_def events)
  have "(handle_event N False (fs_update_ops N LA BA) (fs_versioned_ops LA BA AS) event (node_source node)
      :: (unit, unit, _) outcome) = (Inr (), ds)"
    using run by (simp add: fs_life_cycle_def)
  note H = fs_handle_event_served [OF laws served this]
  show "node_ok N LA BA AS lp bp stream_of i (node\<lparr>node_source := ds, node_events := events\<rparr>)"
    unfolding node_ok_def using laws past H by (intro conjI exI [of _ "past @ [event]"]) simp_all
next
  fix i node event events ds
  assume ok: "node_ok N LA BA AS lp bp stream_of i node" and events: "node_events node = event # events"
  then obtain past where "stream_of i = (past @ [event]) @ events" by (auto simp: node_ok_def)
  with ok show "node_ok N LA BA AS lp bp stream_of i
      (node\<lparr>node_source := ds, node_events := events, node_running := False\<rparr>)"
    unfolding node_ok_def by auto
qed

lemma network_init_ok:
  assumes laws: "append_log_laws LA lp" "append_log_laws BA bp" "genesis_at_zero N" "genesis_matches N"
    and fresh: "\<And>path. fresh_directory LA BA AS (temp_dir path)"
    and fit: "\<And>i. chains_fit N 1 1 (event_chains (stream_of i))"
    and init: "network_init (fs_life_cycle N dbg LA BA AS metrics0 temp_dir) stream_of = Inr nodes"
  shows "length nodes = minimum_nodes" and "\<forall>i < length nodes. node_ok N LA BA AS lp bp stream_of i (nodes ! i)"
proof -
  let ?L = "fs_life_cycle N dbg LA BA AS metrics0 temp_dir"
  from init have nodes: "map (node_new ?L stream_of) [0..<minimum_nodes] = map Inr nodes"
    by (simp add: network_init_def try_collect_Inr)
  from arg_cong [OF nodes, of length] show len: "length nodes = minimum_nodes" by simp
  show "\<forall>i < length nodes. node_ok N LA BA AS lp bp stream_of i (nodes ! i)"
  proof (intro allI impI)
    fix i assume i: "i < length nodes"
    then have "node_new ?L stream_of i = Inr (nodes ! i)"
      using arg_cong [OF nodes, of "\<lambda>xs. xs ! i"] len by simp
    then obtain ds where run: "fs_open N LA BA AS metrics0 (lc_create ?L i) = Inr ds"
      and node: "nodes ! i = \<lparr>node_source = ds, node_storage = lc_create ?L i,
        node_events = stream_of i, node_running = True\<rparr>"
      by (auto simp: node_new_def Let_def map_sum_Inr_iff fs_life_cycle_def)
    have "fresh_directory LA BA AS (lc_create ?L i)" using fresh by (simp add: fs_life_cycle_def)
    note S = fs_open_fresh_served [OF laws this run]
    have "decided_leaves N [] = []" by (simp add: decided_leaves_def)
    with S fit [of i] laws show "node_ok N LA BA AS lp bp stream_of i (nodes ! i)"
      by (simp add: node_ok_def node)
  qed
qed

section \<open>Agreement\<close>

text \<open>C5. The nodes' payloads are mock payloads, and consensus decides one ledger: every node's stream
decides a prefix of it. After the network is set up on fresh directories, however the tasks of the nodes interleave, a running node has
exactly an initial part of that ledger after the genesis leaf, everything its stream decides once the
stream is used up, and its data source passes the validation of the test suite.\<close>

theorem network_nodes_agree:
  fixes N :: "('leaf, 'qc, 'hdr, 'tx list, 'tx, nat, unit, 'h, 'pk) node_types"
  assumes "append_log_laws LA lp" and "append_log_laws BA bp" and "genesis_at_zero N"
    and "genesis_matches N" and "payload_ops.truncate N = mock_payload_ops encode commit"
    and "\<And>path. fresh_directory LA BA AS (temp_dir path)"
    and "\<And>i. chains_fit N 1 1 (event_chains (stream_of i))"
    and "\<And>i. prefix (decided_leaves N (stream_of i)) ledger"
    and "distinct (map (leaf_hash N) (leaf_query_data_genesis N # ledger))"
    and "distinct (map (leaf_block_hash N) (leaf_query_data_genesis N # ledger))"
    and "\<And>xs. set (distinct_of xs) \<subseteq> set xs"
    and "L = fs_life_cycle N False LA BA AS metrics0 temp_dir"
    and "network_init L stream_of = Inr nodes" and "(network_step L)\<^sup>*\<^sup>* nodes nodes'"
    and "i < minimum_nodes" and "node_running (nodes' ! i)"
  shows "(\<exists>n. log_contents LA (leaf_storage (node_source (nodes' ! i)))
        = map Some (leaf_query_data_genesis N # take n ledger)) \<and>
    (node_events (nodes' ! i) = [] \<longrightarrow> log_contents LA (leaf_storage (node_source (nodes' ! i)))
        = map Some (leaf_query_data_genesis N # decided_leaves N (stream_of i))) \<and>
    validate N id distinct_of (fs_avail_ops LA BA) (node_source (nodes' ! i)) = Inr ()"
proof -
  let ?ds = "node_source (nodes' ! i)"
  note init = network_init_ok [OF assms(1-4,6,7) assms(13) [unfolded assms(12)]]
  have "node_ok N LA BA AS lp bp stream_of i (nodes' ! i)"
    using fs_nodes.run_inv [OF assms(14) [unfolded assms(12)] init(2)] init(1) assms(15) by simp
  then obtain past where past: "stream_of i = past @ node_events (nodes' ! i)"
    and served: "fs_served N LA BA AS (leaf_query_data_genesis N # decided_leaves N past) ?ds"
    using assms(16) by (auto simp: node_ok_def)
  have "prefix (decided_leaves N past) ledger"
    using assms(8) [of i] past by (metis append_prefixD decided_leaves_append)
  then obtain n rest where n: "decided_leaves N past = take n ledger" and all: "ledger = decided_leaves N past @ rest"
    by (metis append_eq_conv_conj prefixE)
  have contents: "log_contents LA (leaf_storage ?ds)
      = map Some (leaf_query_data_genesis N # decided_leaves N past)"
    using served by (simp add: fs_served_def fs_gapless_def)
  have "fs_ok N LA BA lp bp ?ds" using served fs_reachable_ok [OF assms(1-3)] by (auto simp: fs_served_def)
  moreover have "distinct (map (leaf_hash N) (leaf_query_data_genesis N # decided_leaves N past))"
    "distinct (map (leaf_block_hash N) (leaf_query_data_genesis N # decided_leaves N past))"
    using assms(9,10) unfolding all by simp_all
  ultimately have "validate N id distinct_of (fs_avail_ops LA BA) ?ds = Inr ()"
    using served unfolding fs_served_def
    by (intro fs_gapless_validates [where distinct_of = distinct_of, OF _ _ _ _ _ mock_payload_laws [OF assms(5)] assms(11)]) blast+
  moreover have "\<exists>n. log_contents LA (leaf_storage ?ds) = map Some (leaf_query_data_genesis N # take n ledger)"
    using contents n by metis
  ultimately show ?thesis using contents past by simp
qed

text \<open>Two nodes, of which the first has handled the only event of its stream.\<close>

abbreviation mock_fs_cycle :: "(mock_loader, mock_fs, (nat \<times> nat \<times> nat \<times> nat list option, nat) event) life_cycle" where
  "mock_fs_cycle \<equiv> fs_life_cycle mock_types False (mock_leaves False) (mock_blocks False) mock_store ()
     (\<lambda>_. ([], []))"

abbreviation mock_stream where
  "mock_stream \<equiv> (\<lambda>i::nat. map (\<lambda>(chain, qc). Decide chain qc) mock_decided)"

type_synonym mock_node_event = "(nat \<times> nat \<times> nat \<times> nat list option, nat) event"

definition mock_fresh_node :: "(mock_loader, mock_fs, mock_node_event) mock_node" where
  "mock_fresh_node = \<lparr>node_source = mock_created\<lparr>top_storage := Some 0\<rparr>, node_storage = ([], []),
     node_events = mock_stream 0, node_running = True\<rparr>"

definition mock_handled :: mock_fs where
  "mock_handled = snd (lc_handle_event mock_fs_cycle (Decide [(2, 5, 1014, Some [9]), (1, 4, 1000, Some [8, 9, 8])] 1025)
     (node_source mock_fresh_node))"

lemma mock_log_objects:
  "log_objects (mock_leaves b) \<lparr>cache_start = 0, cache_size = n, cache = [], store = ([], []),
     pending_inserts = 0, stream = xs, stream_pos = p\<rparr> = Some []"
  "log_objects (mock_blocks b) \<lparr>cache_start = 0, cache_size = n, cache = [], store = ([], []),
     pending_inserts = 0, stream = ys, stream_pos = p\<rparr> = Some []"
  by (simp_all add: log_objects_def collect.simps [of iter_next] iter_next_def iter_nth_def log_iter_def
      mock_eval present_def)

lemma mock_network:
  "network_init mock_fs_cycle mock_stream = Inr [mock_fresh_node, mock_fresh_node]"
  "network_step mock_fs_cycle [mock_fresh_node, mock_fresh_node]
     [mock_fresh_node\<lparr>node_source := mock_handled, node_events := []\<rparr>, mock_fresh_node]"
proof -
  have open0: "fs_open mock_types (mock_leaves False) (mock_blocks False) mock_store () ([], [])
      = Inr (mock_created\<lparr>top_storage := Some 0\<rparr>)"
    by (simp add: fs_open_def mock_store_def fs_open_with_store_def log_open_def index_leaves_def
        mock_eval mock_log_objects mock_created_def update_index_by_hash_def push_proposal_def)
  show "network_init mock_fs_cycle mock_stream = Inr [mock_fresh_node, mock_fresh_node]"
    by (simp add: network_init_def node_new_def minimum_nodes_def fs_life_cycle_def upt_rec [of 0 2] open0 unwrap_new_def
        mock_fresh_node_def numeral_2_eq_2)
  have "lc_handle_event mock_fs_cycle (Decide [(2, 5, 1014, Some [9]), (1, 4, 1000, Some [8, 9, 8])] 1025)
     (node_source mock_fresh_node) = (Inr (), mock_handled)"
    unfolding mock_handled_def
    by (simp add: fs_life_cycle_def handle_event_def update_def decided_qcs_def update_one_def leaf_query_data_new_def
      block_query_data_new_def mock_eval mock_created_def mock_fresh_node_def mock_store_def update_index_by_hash_def push_proposal_def)
  with network_step.handled [of 0 "[mock_fresh_node, mock_fresh_node]" "hd (mock_stream 0)" "[]" mock_fs_cycle
      mock_handled]
  show "network_step mock_fs_cycle [mock_fresh_node, mock_fresh_node]
     [mock_fresh_node\<lparr>node_source := mock_handled, node_events := []\<rparr>, mock_fresh_node]"
    by (simp add: mock_fresh_node_def del: One_nat_def)
qed

lemma mock_fresh_directory: "fresh_directory (mock_leaves False) (mock_blocks False) mock_store ([], [])"
  by (simp add: fresh_directory_def mock_store_def)

theorem network_nodes_agree_witness:
  "validate mock_types id remdups (fs_avail_ops (mock_leaves False) (mock_blocks False)) mock_handled = Inr ()"
proof -
  let ?nodes' = "[mock_fresh_node\<lparr>node_source := mock_handled, node_events := []\<rparr>, mock_fresh_node]"
  have stream: "event_chains (mock_stream i) = mock_decided" for i by simp
  have run: "(network_step mock_fs_cycle)\<^sup>*\<^sup>* [mock_fresh_node, mock_fresh_node] ?nodes'"
    using mock_network(2) by (rule r_into_rtranclp)
  have "validate mock_types id remdups (fs_avail_ops (mock_leaves False) (mock_blocks False))
      (node_source (?nodes' ! 0)) = Inr ()"
    by (rule network_nodes_agree [OF mock_logs_laws mock_genesis mock_service_hypotheses(1) mock_types_payload
        mock_fresh_directory _ prefix_order.refl [of "decided_leaves mock_types (mock_stream 0)"] _ _ _ refl
        mock_network(1) run, THEN conjunct2, THEN conjunct2])
      (use mock_service_hypotheses(3) in \<open>simp_all add: decided_leaves_def chain_entries_def entry_of_def
        mock_types_simps minimum_nodes_def mock_fresh_node_def del: One_nat_def chains_fit.simps\<close>)
  then show ?thesis by simp
qed

end
