(* ===== verification/TcpStream.thy ===== *)
theory TcpStream
  imports Prelude "HOL-Library.Word"
begin

text \<open>
  The TCP stream of the SQL data source (\<^verbatim>\<open>TcpStream\<close> in \<^verbatim>\<open>src/data_source/sql.rs\<close>): the
  \<^verbatim>\<open>async_std\<close> stream \<open>'s\<close> under the traits of \<^verbatim>\<open>tokio\<close>. The inner stream's calls and \<^verbatim>\<open>tokio\<close>'s
  \<^verbatim>\<open>ReadBuf\<close> \<open>'b\<close> are parameters; a slice handed out for writing is written back.
\<close>

section \<open>The adapter\<close>

type_synonym bytes = "8 word list"

datatype 'a poll = Ready 'a | Pending

record ('b, 'e) read_buf_ops =
  rb_filled :: "'b \<Rightarrow> bytes"
  rb_initialize :: "'b \<Rightarrow> 'b"
  rb_unfilled :: "'b \<Rightarrow> bytes"
  rb_write_unfilled :: "bytes \<Rightarrow> 'b \<Rightarrow> 'b"
  rb_set_filled :: "nat \<Rightarrow> 'b \<Rightarrow> 'e failure + 'b"

record ('s, 'cx, 'io) stream_ops =
  st_poll_read :: "'cx \<Rightarrow> bytes \<Rightarrow> 's \<Rightarrow> ('io + nat) poll \<times> bytes \<times> 's"
  st_poll_write :: "'cx \<Rightarrow> bytes \<Rightarrow> 's \<Rightarrow> ('io + nat) poll \<times> 's"
  st_poll_flush :: "'cx \<Rightarrow> 's \<Rightarrow> ('io + unit) poll \<times> 's"
  st_poll_close :: "'cx \<Rightarrow> 's \<Rightarrow> ('io + unit) poll \<times> 's"

definition tcp_connect :: "('a \<Rightarrow> 'e + 's) \<Rightarrow> 'a \<Rightarrow> 'e + 's" where
  "tcp_connect connect addrs = and_then (connect addrs) Inr"

definition poll_read ::
    "('b, 'e) read_buf_ops \<Rightarrow> ('s, 'cx, 'io) stream_ops \<Rightarrow> 'cx \<Rightarrow> 'b \<Rightarrow> 's
      \<Rightarrow> 'e failure + ('io + unit) poll \<times> 'b \<times> 's" where
  "poll_read B I cx buf s =
     (let filled = length (rb_filled B buf);
          buf = rb_initialize B buf
      in case st_poll_read I cx (rb_unfilled B buf) s of (res, unfilled, s) \<Rightarrow>
         (let buf = rb_write_unfilled B unfilled buf
          in case res of
               Ready (Inr bytes_read) \<Rightarrow>
                 and_then (rb_set_filled B (filled + bytes_read) buf) (\<lambda>buf. Inr (Ready (Inr ()), buf, s))
             | Ready (Inl err) \<Rightarrow> Inr (Ready (Inl err), buf, s)
             | Pending \<Rightarrow> Inr (Pending, buf, s)))"

definition poll_write where "poll_write I cx buf s = st_poll_write I cx buf s"

definition poll_flush where "poll_flush I cx s = st_poll_flush I cx s"

definition poll_shutdown where "poll_shutdown I cx s = st_poll_close I cx s"

section \<open>What a read buffer promises\<close>

text \<open>
  The documented behaviour of \<^verbatim>\<open>ReadBuf\<close>: initializing keeps what is filled and makes the rest a
  writable slice; the cursor may be set anywhere in what is initialized, and then the filled part is
  that much of the buffer.
\<close>

definition read_buf_laws :: "('b, 'e) read_buf_ops \<Rightarrow> bool" where
  "read_buf_laws B \<longleftrightarrow>
     (\<forall>buf. rb_filled B (rb_initialize B buf) = rb_filled B buf) \<and>
     (\<forall>bs buf. length bs = length (rb_unfilled B buf) \<longrightarrow>
        rb_filled B (rb_write_unfilled B bs buf) = rb_filled B buf \<and>
        rb_unfilled B (rb_write_unfilled B bs buf) = bs) \<and>
     (\<forall>n buf. n \<le> length (rb_filled B buf @ rb_unfilled B buf) \<longrightarrow>
        (\<exists>buf'. rb_set_filled B n buf = Inr buf' \<and>
           rb_filled B buf' = take n (rb_filled B buf @ rb_unfilled B buf)))"

text \<open>
  Reading through the adapter appends to the buffer exactly the bytes the inner stream read, and
  nothing when that fails or is pending; what was filled before is kept, and setting the cursor never
  panics as long as the inner stream reads no more than it was given room for.
\<close>

theorem poll_read_appends:
  assumes laws: "read_buf_laws B"
    and run: "st_poll_read I cx (rb_unfilled B (rb_initialize B buf)) s = (res, bs, s')"
    and same: "length bs = length (rb_unfilled B (rb_initialize B buf))"
    and within: "\<And>n. res = Ready (Inr n) \<Longrightarrow> n \<le> length bs"
  shows "\<exists>buf'. poll_read B I cx buf s =
      Inr (case res of Ready (Inr n) \<Rightarrow> Ready (Inr ()) | Ready (Inl e) \<Rightarrow> Ready (Inl e) | Pending \<Rightarrow> Pending,
           buf', s') \<and>
    rb_filled B buf' = rb_filled B buf @ (case res of Ready (Inr n) \<Rightarrow> take n bs | _ \<Rightarrow> [])"
proof -
  let ?buf = "rb_write_unfilled B bs (rb_initialize B buf)"
  have w: "rb_filled B ?buf = rb_filled B buf" "rb_unfilled B ?buf = bs"
    using laws same by (simp_all add: read_buf_laws_def)
  show ?thesis
  proof (cases res)
    case Pending
    with run w show ?thesis by (simp add: poll_read_def)
  next
    case (Ready r)
    show ?thesis
    proof (cases r)
      case (Inl e)
      with Ready run w show ?thesis by (simp add: poll_read_def)
    next
      case (Inr n)
      with within Ready have "n \<le> length bs" by simp
      then have "length (rb_filled B buf) + n \<le> length (rb_filled B ?buf @ rb_unfilled B ?buf)"
        using w by simp
      then obtain buf' where
        "rb_set_filled B (length (rb_filled B buf) + n) ?buf = Inr buf'"
        "rb_filled B buf' = take (length (rb_filled B buf) + n) (rb_filled B ?buf @ rb_unfilled B ?buf)"
        using laws unfolding read_buf_laws_def by blast
      then have "rb_set_filled B (length (rb_filled B buf) + n) ?buf = Inr buf'"
        "rb_filled B buf' = rb_filled B buf @ take n bs" unfolding w by simp_all
      with Ready Inr run show ?thesis by (simp add: poll_read_def Let_def)
    qed
  qed
qed

text \<open>A buffer as its filled bytes, its other initialized bytes, and the number of the rest.\<close>

definition plain_buf :: "(bytes \<times> bytes \<times> nat, string) read_buf_ops" where
  "plain_buf =
     \<lparr>rb_filled = fst, rb_initialize = (\<lambda>(f, r, u). (f, r @ replicate u 0, 0)),
      rb_unfilled = (\<lambda>(f, r, u). r), rb_write_unfilled = (\<lambda>new (f, r, u). (f, new, u)),
      rb_set_filled = (\<lambda>n (f, r, u). if n \<le> length (f @ r)
        then Inr (take n (f @ r), drop n (f @ r), u)
        else Inl (Panic ''filled must not become larger than initialized''))\<rparr>"

definition plain_stream :: "(bytes, unit, string) stream_ops" where
  "plain_stream =
     \<lparr>st_poll_read = (\<lambda>_ room s. let n = min (length room) (length s)
        in (Ready (Inr n), take n s @ drop n room, drop n s)),
      st_poll_write = (\<lambda>_ bs s. (Ready (Inr (length bs)), s)),
      st_poll_flush = (\<lambda>_ s. (Ready (Inr ()), s)), st_poll_close = (\<lambda>_ s. (Ready (Inr ()), s))\<rparr>"

theorem poll_read_appends_witness:
  "\<exists>buf'. poll_read plain_buf plain_stream () ([1], [0], 2) [7, 8]
     = Inr (Ready (Inr ()), buf', []) \<and> fst buf' = [1, 7, 8]"
proof -
  have laws: "read_buf_laws plain_buf"
    by (simp add: read_buf_laws_def plain_buf_def)
  have run: "st_poll_read plain_stream () (rb_unfilled plain_buf (rb_initialize plain_buf ([1], [0], 2))) [7, 8]
      = (Ready (Inr 2), [7, 8, 0], [])"
    by (simp add: plain_stream_def plain_buf_def numeral_2_eq_2)
  from poll_read_appends [OF laws run] show ?thesis
    by (simp add: plain_buf_def numeral_2_eq_2)
qed

end
