(* ===== verification/ApiSuite.thy ===== *)
theory ApiSuite
  imports ApiRoutes MockPayload
begin

text \<open>
  The test suite of the availability API (\<^verbatim>\<open>src/availability.rs\<close>): a client that reads the ledger
  through the routes of the API and checks it against itself. A path is the route it belongs to with
  the values of its parameters; that a reply is read as it was sent is what \<^verbatim>\<open>tide_disco\<close> and
  \<^verbatim>\<open>surf_disco\<close> document.
\<close>

section \<open>A client\<close>

datatype ('h, 'pk) path_value = IntegerSegment "64 word" | HashSegment 'h | KeySegment 'pk

definition path_request :: "(string \<times> ('h, 'pk) path_value) list \<Rightarrow> ('h, 'pk, unit) request" where
  "path_request segs =
     \<lparr>opt_integer_param = (\<lambda>p. case map_of segs p of
        None \<Rightarrow> Inr None | Some (IntegerSegment n) \<Rightarrow> Inr (Some n) | Some _ \<Rightarrow> Inl ()),
      integer_param = (\<lambda>p. case map_of segs p of Some (IntegerSegment n) \<Rightarrow> Inr n | _ \<Rightarrow> Inl ()),
      opt_blob_param = (\<lambda>p. case map_of segs p of
        None \<Rightarrow> Inr None | Some (HashSegment h) \<Rightarrow> Inr (Some h) | Some _ \<Rightarrow> Inl ()),
      blob_param = (\<lambda>p. case map_of segs p of Some (HashSegment h) \<Rightarrow> Inr h | _ \<Rightarrow> Inl ()),
      key_param = (\<lambda>p. case map_of segs p of Some (KeySegment pk) \<Rightarrow> Inr pk | _ \<Rightarrow> Inl ())\<rparr>"

definition client_get where
  "client_get routes name segs ds =
     (case map_of routes name of
        Some (GetHandler g) \<Rightarrow> g (path_request segs) ds
      | _ \<Rightarrow> Inl (Panic ''no route matched''))"

text \<open>A reply of another type than the one asked for does not deserialize.\<close>

definition client_leaf where
  "client_leaf routes name segs ds =
     and_then (unwrap_ok (client_get routes name segs ds)) (\<lambda>reply.
       case reply of LeafReply leaf \<Rightarrow> Inr leaf | _ \<Rightarrow> Inl OtherPanic)"

definition client_block where
  "client_block routes name segs ds =
     and_then (unwrap_ok (client_get routes name segs ds)) (\<lambda>reply.
       case reply of BlockReply block \<Rightarrow> Inr block | _ \<Rightarrow> Inl OtherPanic)"

definition client_transaction where
  "client_transaction routes name segs ds =
     and_then (unwrap_ok (client_get routes name segs ds)) (\<lambda>reply.
       case reply of TransactionReply txn \<Rightarrow> Inr txn | _ \<Rightarrow> Inl OtherPanic)"

definition client_count where
  "client_count routes name segs ds =
     and_then (unwrap_ok (client_get routes name segs ds)) (\<lambda>reply.
       case reply of CountReply n \<Rightarrow> Inr n | _ \<Rightarrow> Inl OtherPanic)"

definition client_leaves where
  "client_leaves routes name segs ds =
     and_then (unwrap_ok (client_get routes name segs ds)) (\<lambda>reply.
       case reply of LeavesReply leaves \<Rightarrow> Inr leaves | _ \<Rightarrow> Inl OtherPanic)"

section \<open>Listing the ledger\<close>

text \<open>
  The non-empty blocks from height \<open>i\<close> on with their leaves, and the height at which the API has no
  block. Nothing is returned if the loop never ends.
\<close>

partial_function (option) client_non_empty_blocks where
  "client_non_empty_blocks N routes ds i blocks =
     (case client_get routes ''getblock'' [(''height'', IntegerSegment i)] ds of
        Inr (BlockReply block) \<Rightarrow>
          if \<not> block_is_empty N block
          then (case client_leaf routes ''getleaf'' [(''height'', IntegerSegment i)] ds of
                  Inl panic \<Rightarrow> Some (Inl panic)
                | Inr leaf \<Rightarrow> client_non_empty_blocks N routes ds (i + 1) (blocks @ [(leaf, block)]))
          else client_non_empty_blocks N routes ds (i + 1) blocks
      | Inl (Failure (QueryBlock NotFound resource)) \<Rightarrow> Some (Inr (i, blocks))
      | _ \<Rightarrow> Some (Inl OtherPanic))"

section \<open>Validating the ledger\<close>

definition client_validate_leaf where
  "client_validate_leaf N routes ds i =
     and_then (client_leaf routes ''getleaf'' [(''height'', IntegerSegment i)] ds) (\<lambda>leaf.
     and_then (check_that (leaf_height N leaf = i)) (\<lambda>_.
     and_then (client_leaf routes ''getleaf'' [(''hash'', HashSegment (leaf_hash N leaf))] ds) (\<lambda>by_hash.
     and_then (check_that (leaf = by_hash)) (\<lambda>_. Inr leaf))))"

definition client_validate_block where
  "client_validate_block N routes ds i leaf seen_blocks =
     and_then (client_block routes ''getblock'' [(''height'', IntegerSegment i)] ds) (\<lambda>block.
     and_then (check_that (leaf_block_hash N leaf = bq_hash block)) (\<lambda>_.
     and_then (check_that (block_height N block = i)) (\<lambda>_.
       if bq_hash block \<notin> seen_blocks
       then and_then (client_block routes ''getblock'' [(''hash'', HashSegment (bq_hash block))] ds) (\<lambda>by_hash.
            and_then (check_that (block = by_hash)) (\<lambda>_. Inr (block, insert (bq_hash block) seen_blocks)))
       else Inr (block, seen_blocks))))"

definition client_validate_proposals where
  "client_validate_proposals N routes ds leaf =
     (let key = (''proposer_id'', KeySegment (leaf_proposer N leaf)) in
      and_then (client_leaves routes ''getproposals'' [key] ds) (\<lambda>proposals.
      and_then (check_that (leaf \<in> set proposals)) (\<lambda>_.
      and_then (client_count routes ''countproposals'' [key] ds) (\<lambda>n.
      and_then (check_that (length proposals \<le> n)) (\<lambda>_.
      and_then (client_leaves routes ''getproposals'' [key, (''count'', IntegerSegment 1)] ds) (\<lambda>one.
      and_then (check_that (length one = 1)) (\<lambda>_.
      and_then (client_leaves routes ''getproposals'' [key, (''count'', IntegerSegment 0)] ds) (\<lambda>none.
        check_that (length none = 0)))))))))"

text \<open>\<open>j\<close> is the index of a mock payload, a \<^verbatim>\<open>usize\<close> that is printed into the path.\<close>

fun client_validate_transactions where
  "client_validate_transactions N routes ds i block [] seen_txns = Inr seen_txns"
| "client_validate_transactions N routes ds i block (Inl (panic :: query_error failure) # txns) seen_txns =
     Inl OtherPanic"
| "client_validate_transactions N routes ds i block (Inr (j, txn_from_block) # txns) seen_txns =
     and_then (client_transaction routes ''gettransaction''
         [(''height'', IntegerSegment i), (''index'', IntegerSegment (of_nat j))] ds) (\<lambda>txn.
     and_then (check_that (tq_height txn = i)) (\<lambda>_.
     and_then (check_that (tq_block_hash txn = bq_hash block)) (\<lambda>_.
     and_then (check_that (tq_hash txn = tx_commit N txn_from_block)) (\<lambda>_.
     and_then (check_that (tq_transaction txn = txn_from_block)) (\<lambda>_.
       if tq_hash txn \<notin> seen_txns
       then and_then (client_transaction routes ''gettransaction''
                [(''hash'', HashSegment (tq_hash txn))] ds) (\<lambda>by_hash.
            and_then (check_that (txn = by_hash)) (\<lambda>_.
              client_validate_transactions N routes ds i block txns (insert (tq_hash txn) seen_txns)))
       else client_validate_transactions N routes ds i block txns seen_txns)))))"

fun client_validate_heights where
  "client_validate_heights N routes ds [] seen_blocks seen_txns = Inr ()"
| "client_validate_heights N routes ds (i # heights) seen_blocks seen_txns =
     and_then (client_validate_leaf N routes ds i) (\<lambda>leaf.
     and_then (client_validate_block N routes ds i leaf seen_blocks) (\<lambda>(block, seen_blocks).
     and_then (client_validate_proposals N routes ds leaf) (\<lambda>_.
     and_then (client_validate_transactions N routes ds i block
         (payload_enumerate N (bq_payload block)) seen_txns) (\<lambda>seen_txns.
       client_validate_heights N routes ds heights seen_blocks seen_txns))))"

definition client_validate where
  "client_validate N routes ds height = client_validate_heights N routes ds (indices 0 height) {} {}"

section \<open>What the client reads\<close>

lemma client_eval:
  assumes routes: "routes = availability_routes N show_hash show_err leaf_items block_items V"
  shows "client_leaf routes ''getleaf'' [(''height'', IntegerSegment i)] ds = unwrap_ok
      (map_err (\<lambda>e. Failure (QueryLeaf e (decimal (unat i)))) (av_get_leaf V ds (Number i)))"
    and "client_leaf routes ''getleaf'' [(''hash'', HashSegment h)] ds = unwrap_ok
      (map_err (\<lambda>e. Failure (QueryLeaf e (show_hash h))) (av_get_leaf V ds (Hash h)))"
    and "client_get routes ''getblock'' [(''height'', IntegerSegment i)] ds =
      map_sum (\<lambda>e. Failure (QueryBlock e (decimal (unat i)))) BlockReply (av_get_block V ds (Number i))"
    and "client_get routes ''getblock'' [(''hash'', HashSegment h)] ds =
      map_sum (\<lambda>e. Failure (QueryBlock e (show_hash h))) BlockReply (av_get_block V ds (Hash h))"
    and "client_leaves routes ''getproposals'' [(''proposer_id'', KeySegment pk)] ds = unwrap_ok
      (map_err (\<lambda>e. Failure (QueryProposals e pk)) (av_get_proposals V ds pk None))"
    and "client_leaves routes ''getproposals'' [(''proposer_id'', KeySegment pk), (''count'', IntegerSegment k)] ds
      = unwrap_ok (map_err (\<lambda>e. Failure (QueryProposals e pk)) (av_get_proposals V ds pk (Some k)))"
    and "client_count routes ''countproposals'' [(''proposer_id'', KeySegment pk)] ds = unwrap_ok
      (map_err (map_failure (\<lambda>e. QueryProposals e pk)) (av_count_proposals V ds pk))"
proof -
  note defs = routes client_leaf_def client_get_def client_leaves_def client_count_def
    availability_routes_def path_request_def handle_getleaf_def handle_getblock_def request_id_def
    handle_getproposals_def handle_countproposals_def
  show "client_leaf routes ''getleaf'' [(''height'', IntegerSegment i)] ds = unwrap_ok
      (map_err (\<lambda>e. Failure (QueryLeaf e (decimal (unat i)))) (av_get_leaf V ds (Number i)))"
    by (cases "av_get_leaf V ds (Number i)") (simp_all add: defs)
  show "client_leaf routes ''getleaf'' [(''hash'', HashSegment h)] ds = unwrap_ok
      (map_err (\<lambda>e. Failure (QueryLeaf e (show_hash h))) (av_get_leaf V ds (Hash h)))"
    by (cases "av_get_leaf V ds (Hash h)") (simp_all add: defs)
  show "client_get routes ''getblock'' [(''height'', IntegerSegment i)] ds =
      map_sum (\<lambda>e. Failure (QueryBlock e (decimal (unat i)))) BlockReply (av_get_block V ds (Number i))"
    by (cases "av_get_block V ds (Number i)") (simp_all add: defs)
  show "client_get routes ''getblock'' [(''hash'', HashSegment h)] ds =
      map_sum (\<lambda>e. Failure (QueryBlock e (show_hash h))) BlockReply (av_get_block V ds (Hash h))"
    by (cases "av_get_block V ds (Hash h)") (simp_all add: defs)
  show "client_leaves routes ''getproposals'' [(''proposer_id'', KeySegment pk)] ds = unwrap_ok
      (map_err (\<lambda>e. Failure (QueryProposals e pk)) (av_get_proposals V ds pk None))"
    by (cases "av_get_proposals V ds pk None") (simp_all add: defs)
  show "client_leaves routes ''getproposals'' [(''proposer_id'', KeySegment pk), (''count'', IntegerSegment k)] ds
      = unwrap_ok (map_err (\<lambda>e. Failure (QueryProposals e pk)) (av_get_proposals V ds pk (Some k)))"
    by (cases "av_get_proposals V ds pk (Some k)") (simp_all add: defs)
  show "client_count routes ''countproposals'' [(''proposer_id'', KeySegment pk)] ds = unwrap_ok
      (map_err (map_failure (\<lambda>e. QueryProposals e pk)) (av_count_proposals V ds pk))"
    by (cases "av_count_proposals V ds pk") (simp_all add: defs)
qed

lemma client_eval_transaction:
  assumes routes: "routes = availability_routes N show_hash show_err leaf_items block_items V"
  shows "av_get_block V ds (Number i) = Inr b \<Longrightarrow> payload_nth N (bq_payload b) (unat j) = Some ix \<Longrightarrow>
      block_transaction N b ix = Some tq \<Longrightarrow>
      client_transaction routes ''gettransaction''
        [(''height'', IntegerSegment i), (''index'', IntegerSegment j)] ds = Inr tq"
    and "av_get_block_with_transaction V ds h = Inr (b, ix) \<Longrightarrow> block_transaction N b ix = Some tq \<Longrightarrow>
      client_transaction routes ''gettransaction'' [(''hash'', HashSegment h)] ds = Inr tq"
  by (simp_all add: routes client_transaction_def client_get_def availability_routes_def path_request_def
      handle_gettransaction_def request_transaction_def)

section \<open>The client against a data source\<close>

lemma first_is_least:
  assumes sorted: "sorted (map snd (pre @ (h, p) # post))" and new: "h \<notin> fst ` set pre"
  shows "least_entry (pre @ (h, p) # post) h p"
proof -
  have "p \<le> q" if "(h, q) \<in> set post" for q using sorted that by (force simp: sorted_append)
  moreover have "(h, q) \<notin> set pre" for q using new by force
  ultimately show ?thesis by (auto simp: least_entry_def)
qed

text \<open>The transactions of one block are read back by position, and by hash where they occur first.\<close>

lemma client_validate_transactions_ok:
  fixes N :: "('leaf, 'qc, 'hdr, 'pl, 'tx, nat, 'pf, 'h, 'pk) node_types"
  assumes routes: "routes = availability_routes N show_hash show_err leaf_items block_items V"
    and lookup: "\<And>h p. least_entry all h p \<Longrightarrow>
      \<exists>b'. av_get_block_with_transaction V ds h = Inr (b', snd p) \<and> av_get_block V ds (Number (fst p)) = Inr b'"
    and sorted: "sorted (map snd all)"
    and block: "av_get_block V ds (Number i) = Inr b" "block_height N b = i"
  shows "all = pre @ map (\<lambda>(j, tx). (tx_commit N tx, (i, j))) txs @ post \<Longrightarrow>
    \<forall>(j, tx) \<in> set txs. payload_transaction N (bq_payload b) j = Some tx \<and>
      payload_nth N (bq_payload b) (unat (of_nat j :: 64 word)) = Some j \<Longrightarrow>
    client_validate_transactions N routes ds i b (map Inr txs) (fst ` set pre)
      = Inr (fst ` set (pre @ map (\<lambda>(j, tx). (tx_commit N tx, (i, j))) txs))"
proof (induction txs arbitrary: pre)
  case Nil
  then show ?case by simp
next
  case (Cons t txs)
  obtain j tx where t: "t = (j, tx)" by fastforce
  let ?h = "tx_commit N tx" and ?rest = "map (\<lambda>(j, tx). (tx_commit N tx, (i, j))) txs"
  have all: "all = pre @ (?h, (i, j)) # ?rest @ post" using Cons.prems(1) by (simp add: t)
  have item: "payload_transaction N (bq_payload b) j = Some tx"
    "payload_nth N (bq_payload b) (unat (of_nat j :: 64 word)) = Some j"
    using Cons.prems(2) by (simp_all add: t)
  obtain tq where tq: "block_transaction N b j = Some tq" "tq_transaction tq = tx" "tq_hash tq = ?h"
      "tq_block_hash tq = bq_hash b" "tq_height tq = i"
    using item(1) block(2) by (auto simp: payload_transaction_def block_transaction_def)
  have by_index: "client_transaction routes ''gettransaction''
      [(''height'', IntegerSegment i), (''index'', IntegerSegment (of_nat j))] ds = Inr tq"
    by (rule client_eval_transaction(1) [OF routes block(1) item(2) tq(1)])
  have rest: "client_validate_transactions N routes ds i b (map Inr txs) (fst ` set (pre @ [(?h, (i, j))]))
      = Inr (fst ` set ((pre @ [(?h, (i, j))]) @ ?rest))"
    by (rule Cons.IH) (use all Cons.prems(2) in auto)
  show ?case
  proof (cases "?h \<in> fst ` set pre")
    case True
    then have "insert ?h (fst ` set pre) = fst ` set pre" by blast
    with rest True show ?thesis by (simp add: t by_index tq)
  next
    case False
    have "least_entry all ?h (i, j)" using sorted False unfolding all by (rule first_is_least)
    from lookup [OF this] block(1) have "av_get_block_with_transaction V ds ?h = Inr (b, j)" by auto
    from client_eval_transaction(2) [OF routes this tq(1)] rest False show ?thesis
      by (simp add: t by_index tq)
  qed
qed

end
