(* ===== verification/ApiSuiteProps.thy ===== *)
theory ApiSuiteProps
  imports ApiSuite SuiteProps
begin

text \<open>The file system data source passes the checks of the API's test suite.\<close>

section \<open>One height\<close>

abbreviation fs_routes where
  "fs_routes N show_hash show_err leaf_items block_items LA BA \<equiv>
     (availability_routes N show_hash show_err leaf_items block_items (fs_avail_ops LA BA)
       :: (string \<times> (('h, 'pk, unit) request \<Rightarrow> _,
            ('h, 'pk, unit) request \<Rightarrow> _ \<Rightarrow> ((unit, 'pk) availability_error + _) list) handler) list)"

lemma fs_avail_calls [simp]:
  "av_get_leaf (fs_avail_ops LA BA) ds ident = fs_get_leaf LA ident ds"
  "av_get_block (fs_avail_ops LA BA) ds ident = fs_get_block BA ident ds"
  "av_get_block_with_transaction (fs_avail_ops LA BA) ds h = fs_get_block_with_transaction BA h ds"
  "av_get_proposals (fs_avail_ops LA BA) ds pk limit = fs_get_proposals LA pk limit ds"
  "av_count_proposals (fs_avail_ops LA BA) ds pk = fs_count_proposals pk ds"
  by (simp_all add: fs_avail_ops_def)

lemma fs_client_leaf:
  assumes ok: "fs_ok N LA BA lp bp ds" and gap: "fs_gapless N LA BA leaves ds"
    and hashes: "distinct (map (leaf_hash N) leaves)" and i: "i < length leaves"
  shows "client_validate_leaf N (fs_routes N show_hash show_err leaf_items block_items LA BA) ds (of_nat i)
    = Inr (leaves ! i)"
  using fs_get_leaf_gapless [OF ok gap hashes i]
  by (simp add: client_validate_leaf_def client_eval(1,2) [OF refl])

lemma fs_get_block_first:
  assumes ok: "fs_ok N LA BA lp bp ds" and gap: "fs_gapless N LA BA leaves ds" and i: "i < length leaves"
    and first: "leaf_block_hash N (leaves ! i) \<notin> leaf_block_hash N ` set (take i leaves)"
  shows "fs_get_block BA (Hash (leaf_block_hash N (leaves ! i))) ds
    = fs_get_block BA (Number (leaf_height N (leaves ! i))) ds"
proof (rule fs_get_block_by_hash [OF ok fs_gapless_at(2) [OF ok gap i] refl])
  fix leaf' assume leaf': "leaf' \<in> set (fs_leaves LA ds)"
    "leaf_block_hash N leaf' = leaf_block_hash N (leaves ! i)"
  then have "leaf' \<in> set leaves" using gap by (auto simp: fs_gapless_def fs_leaves_def)
  then obtain j where j: "j < length leaves" "leaf' = leaves ! j" by (metis in_set_conv_nth)
  have "leaves ! j \<in> set (take i leaves)" if "j < i" using that i by (auto simp: in_set_conv_nth)
  then have "\<not> j < i" using first leaf'(2) j(2) by (metis imageI)
  then show "leaf_height N (leaves ! i) \<le> leaf_height N leaf'"
    using fs_gapless_at(1) [OF ok gap] i j by (simp add: word_le_nat_alt)
qed

lemma fs_client_block:
  assumes ok: "fs_ok N LA BA lp bp ds" and gap: "fs_gapless N LA BA leaves ds"
    and b: "list_get (log_contents BA (block_storage ds)) i = Some (Some b)"
  shows "client_validate_block N (fs_routes N show_hash show_err leaf_items block_items LA BA) ds (of_nat i)
      (leaves ! i) (leaf_block_hash N ` set (take i leaves))
    = Inr (b, leaf_block_hash N ` set (take (Suc i) leaves))"
proof -
  note B = fs_gapless_block [OF ok gap b]
  have match: "leaf_block_hash N (leaves ! i) = bq_hash b"
    using B(2) by (simp add: block_matches_def leaf_block_hash_def)
  have height: "block_height N b = of_nat i"
    using arg_cong [OF B(3), of "of_nat :: nat \<Rightarrow> 64 word"] by simp
  have lh: "leaf_height N (leaves ! i) = of_nat i"
    using arg_cong [OF fs_gapless_at(1) [OF ok gap B(1)], of "of_nat :: nat \<Rightarrow> 64 word"] by simp
  have number: "fs_get_block BA (Number (of_nat i)) ds = Inr b"
    using fs_get_block_number [OF ok, of "of_nat i"] B(3) height b by simp
  have seen: "leaf_block_hash N ` set (take (Suc i) leaves)
      = insert (bq_hash b) (leaf_block_hash N ` set (take i leaves))"
    using B(1) match by (simp add: take_Suc_conv_app_nth)
  have hash: "fs_get_block BA (Hash (bq_hash b)) ds = Inr b"
    if "bq_hash b \<notin> leaf_block_hash N ` set (take i leaves)"
    using fs_get_block_first [OF ok gap B(1)] that number by (simp add: match lh)
  show ?thesis
    using number hash match height
    by (simp add: client_validate_block_def client_block_def client_eval(3,4) [OF refl] seen insert_absorb)
qed

lemma fs_client_proposals:
  assumes ok: "fs_ok N LA BA lp bp ds" and gap: "fs_gapless N LA BA leaves ds" and leaf: "leaf \<in> set leaves"
  shows "client_validate_proposals N (fs_routes N show_hash show_err leaf_items block_items LA BA) ds leaf
    = Inr ()"
proof -
  let ?P = "proposals_by N LA (leaf_proposer N leaf) ds"
  have leafP: "leaf \<in> set ?P"
    using gap leaf by (simp add: proposals_by_def fs_leaves_def fs_gapless_def)
  then have "length ?P - (length ?P - Suc 0) = Suc 0" by (cases ?P) auto
  with leafP show ?thesis
    by (simp add: client_validate_proposals_def Let_def client_eval(5-7) [OF refl]
        fs_get_proposals_eq [OF ok] fs_count_proposals_eq [OF ok])
qed

lemma fs_client_transactions:
  fixes N :: "('leaf, 'qc, 'hdr, 'tx list, 'tx, nat, unit, 'h, 'pk) node_types"
  assumes ok: "fs_ok N LA BA lp bp ds" and gap: "fs_gapless N LA BA leaves ds"
    and mock: "payload_ops.truncate N = mock_payload_ops encode commit"
    and b: "list_get (log_contents BA (block_storage ds)) i = Some (Some b)"
    and short: "length (bq_payload b) < 2 ^ 64"
  shows "client_validate_transactions N (fs_routes N show_hash show_err leaf_items block_items LA BA) ds
      (of_nat i) b (payload_enumerate N (bq_payload b))
      (fst ` set (entries_below N (log_contents BA (block_storage ds)) i))
    = Inr (fst ` set (entries_below N (log_contents BA (block_storage ds)) (Suc i)))"
proof -
  let ?B = "log_contents BA (block_storage ds)"
  note payloads = mock_payload_laws [OF mock]
  note entries = fs_gapless_entries [OF ok gap payloads]
  note B = fs_gapless_block [OF ok gap b]
  have height: "block_height N b = of_nat i"
    using arg_cong [OF B(3), of "of_nat :: nat \<Rightarrow> 64 word"] by simp
  note at = entries_at_block [OF b height]
  have number: "av_get_block (fs_avail_ops LA BA) ds (Number (of_nat i)) = Inr b"
    using fs_get_block_number [OF ok, of "of_nat i"] B(3) height b by simp
  have lookup: "\<exists>b'. av_get_block_with_transaction (fs_avail_ops LA BA) ds h = Inr (b', snd p) \<and>
      av_get_block (fs_avail_ops LA BA) ds (Number (fst p)) = Inr b'"
    if least: "least_entry (entries_below N ?B (length leaves)) h p" for h p
  proof -
    obtain b' ix where b': "fs_get_block_with_transaction BA h ds = Inr (b', ix)" "(block_height N b', ix) = p"
      using fs_transaction_lookup [OF ok least [unfolded entries(1)]] by blast
    then have "b' \<in> set (fs_blocks BA ds)" using fs_get_block_with_transaction_found [OF ok, of h] by simp
    with b' fs_get_block_stored [OF ok, of b'] show ?thesis by auto
  qed
  obtain post where "entries_below N ?B (length leaves) = entries_below N ?B i @ entries_at N ?B i @ post"
    using B(1) by (rule entries_below_split)
  then have all: "entries_below N ?B (length leaves) = entries_below N ?B i
      @ map (\<lambda>(j, tx). (tx_commit N tx, (of_nat i, j))) (payload_transactions N (bq_payload b)) @ post"
    by (simp add: at)
  have items: "\<forall>(j, tx) \<in> set (payload_transactions N (bq_payload b)).
      payload_transaction N (bq_payload b) j = Some tx \<and>
      payload_nth N (bq_payload b) (unat (of_nat j :: 64 word)) = Some j"
    using mock_payload_items [OF mock _ short] by auto
  have "payload_indexed N (bq_payload b)" using payloads by (simp add: payload_laws_def)
  then show ?thesis
    using client_validate_transactions_ok [OF refl lookup entries(2) number height all items,
        of show_hash show_err leaf_items block_items]
    by (simp add: payload_enumerate_indexed at)
qed

section \<open>All heights\<close>

lemma fs_client_heights:
  fixes N :: "('leaf, 'qc, 'hdr, 'tx list, 'tx, nat, unit, 'h, 'pk) node_types"
  assumes ok: "fs_ok N LA BA lp bp ds" and gap: "fs_gapless N LA BA leaves ds"
    and mock: "payload_ops.truncate N = mock_payload_ops encode commit"
    and hashes: "distinct (map (leaf_hash N) leaves)"
    and blocks: "\<And>i. i < height \<Longrightarrow> \<exists>b. list_get (log_contents BA (block_storage ds)) i = Some (Some b) \<and>
      length (bq_payload b) < 2 ^ 64"
  shows "i \<le> height \<Longrightarrow>
    client_validate_heights N (fs_routes N show_hash show_err leaf_items block_items LA BA) ds
      (map of_nat [i..<height]) (leaf_block_hash N ` set (take i leaves))
      (fst ` set (entries_below N (log_contents BA (block_storage ds)) i)) = Inr ()"
proof (induction "height - i" arbitrary: i)
  case 0
  then show ?case by simp
next
  case (Suc k)
  then have i: "i < height" and k: "k = height - Suc i" by simp_all
  obtain b where b: "list_get (log_contents BA (block_storage ds)) i = Some (Some b)"
    "length (bq_payload b) < 2 ^ 64"
    using blocks [OF i] by blast
  have len: "i < length leaves" by (rule fs_gapless_block(1) [OF ok gap b(1)])
  have rest: "client_validate_heights N (fs_routes N show_hash show_err leaf_items block_items LA BA) ds
      (map of_nat [Suc i..<height]) (leaf_block_hash N ` set (take (Suc i) leaves))
      (fst ` set (entries_below N (log_contents BA (block_storage ds)) (Suc i))) = Inr ()"
    using Suc.hyps(1) [OF k] i by simp
  have "[i..<height] = i # [Suc i..<height]" using i by (rule upt_conv_Cons)
  then show ?case
    using rest by (simp add: fs_client_leaf [OF ok gap hashes len] fs_client_block [OF ok gap b(1)]
      fs_client_proposals [OF ok gap nth_mem [OF len]] fs_client_transactions [OF ok gap mock b]
      del: entries_below_Suc)
qed

section \<open>Listing\<close>

lemma map_snd_filter_zip:
  "length ys \<le> length xs \<Longrightarrow> map snd (filter (\<lambda>(x, y). P y) (zip xs ys)) = filter P ys"
proof (induction ys arbitrary: xs)
  case (Cons y ys)
  then show ?case by (cases xs) auto
qed simp

lemma fs_client_non_empty:
  fixes N :: "('leaf, 'qc, 'hdr, 'pl, 'tx, 'ix::linorder, 'pf, 'h, 'pk) node_types"
  assumes ok: "fs_ok N LA BA lp bp ds" and gap: "fs_gapless N LA BA leaves ds"
    and hashes: "distinct (map (leaf_hash N) leaves)" and small: "length leaves + 1 < 2 ^ 64"
    and blocks: "log_contents BA (block_storage ds) = map Some blocks"
  shows "i \<le> length blocks \<Longrightarrow>
    client_non_empty_blocks N (fs_routes N show_hash show_err leaf_items block_items LA BA) ds (of_nat i) pairs
      = Some (Inr (of_nat (length blocks), pairs @ filter (\<lambda>(leaf, block). \<not> block_is_empty N block)
          (zip (drop i leaves) (drop i blocks))))"
proof (induction "length blocks - i" arbitrary: i pairs)
  case 0
  then have i: "i = length blocks" by simp
  have "length blocks \<le> length leaves"
    using gap fs_ok_lens(2) [OF ok] blocks by (simp add: fs_gapless_def)
  then have "unat (of_nat i :: 64 word) = i" using small i by (intro unat_of_nat_64) simp
  then have "fs_get_block BA (Number (of_nat i)) ds = Inl NotFound"
    using fs_get_block_number [OF ok, of "of_nat i"] blocks i by (simp add: list_get_def)
  with i show ?case
    by (simp add: client_non_empty_blocks.simps client_eval(3) [OF refl])
next
  case (Suc k)
  then have i: "i < length blocks" and k: "k = length blocks - Suc i" by simp_all
  have b: "list_get (log_contents BA (block_storage ds)) i = Some (Some (blocks ! i))"
    using i blocks by (simp add: list_get_def)
  note B = fs_gapless_block [OF ok gap b]
  have "block_height N (blocks ! i) = of_nat i"
    using arg_cong [OF B(3), of "of_nat :: nat \<Rightarrow> 64 word"] by simp
  then have number: "fs_get_block BA (Number (of_nat i)) ds = Inr (blocks ! i)"
    using fs_get_block_number [OF ok, of "of_nat i"] B(3) b by simp
  have drops: "drop i leaves = leaves ! i # drop (Suc i) leaves" "drop i blocks = blocks ! i # drop (Suc i) blocks"
    using i B(1) by (simp_all add: Cons_nth_drop_Suc)
  have step: "of_nat i + 1 = (of_nat (Suc i) :: 64 word)" by simp
  show ?case
    using Suc.hyps(1) [OF k] i number fs_get_leaf_gapless(2) [OF ok gap hashes B(1)]
    by (subst client_non_empty_blocks.simps)
      (simp add: client_eval(1,3) [OF refl] drops step del: of_nat_Suc)
qed

section \<open>Properties\<close>

text \<open>C3. After any run of the service over a fresh file system store, a client that reads the API finds
one consistent ledger: below any height up to which every block is there, each leaf and each block is
the same by height and by hash, the block belongs to the leaf, the leaf is among its proposer's
proposals, and every transaction is the same by position and, where it occurs first, by hash.\<close>

theorem fs_api_validates:
  fixes N :: "('leaf, 'qc, 'hdr, 'tx list, 'tx, nat, unit, 'h, 'pk) node_types"
    and show_update :: "'e \<Rightarrow> string" and show_commit :: "'e \<Rightarrow> string"
  assumes "append_log_laws LA lp" and "append_log_laws BA bp" and "genesis_at_zero N"
    and "genesis_matches N" and "payload_ops.truncate N = mock_payload_ops encode commit"
    and "fs_create_with_store N LA BA AS metrics0 ld = (Inr ds, ld')"
    and "chains_fit N 1 1 decides"
    and "run_standalone_service register_module show_api availability_api status_api app
      N False (fs_update_ops N LA BA) (fs_versioned_ops LA BA AS) show_update show_commit
      (map (\<lambda>(chain, qc). Decide chain qc) decides) ds = (Inr u, ds')"
    and "leaves = leaf_query_data_genesis N #
      map entry_of (concat (map (\<lambda>(chain, qc). chain_entries N chain qc) decides))"
    and "distinct (map (leaf_hash N) leaves)" and "height < 2 ^ 64"
    and "\<And>i. i < height \<Longrightarrow> \<exists>b. fs_get_block BA (Number (of_nat i)) ds' = Inr b \<and> length (bq_payload b) < 2 ^ 64"
  shows "client_validate N (fs_routes N show_hash show_err leaf_items block_items LA BA) ds' height = Inr ()"
proof -
  note served = fs_service_served [OF assms(1-4,6-9)]
  have stored: "\<exists>b. list_get (log_contents BA (block_storage ds')) i = Some (Some b) \<and>
      length (bq_payload b) < 2 ^ 64" if "i < height" for i
  proof -
    have "unat (of_nat i :: 64 word) = i" using that assms(11) by (intro unat_of_nat_64) simp
    with assms(12) [OF that] show ?thesis
      by (auto simp: fs_get_block_number [OF served(2)] read_entry_cases split: option.splits)
  qed
  show ?thesis
    using fs_client_heights [OF served(2,3) assms(5,10) stored, where i = 0 and height = height]
    by (simp add: client_validate_def indices_def)
qed

text \<open>The client's listing ends at the first height without a block and pairs each non-empty block
after genesis with its own leaf, when no block of the log is missing.\<close>

theorem fs_api_lists_non_empty:
  fixes N :: "('leaf, 'qc, 'hdr, 'pl, 'tx, 'ix::linorder, 'pf, 'h, 'pk) node_types"
    and show_update :: "'e \<Rightarrow> string" and show_commit :: "'e \<Rightarrow> string"
  assumes "append_log_laws LA lp" and "append_log_laws BA bp" and "genesis_at_zero N"
    and "genesis_matches N" and "fs_create_with_store N LA BA AS metrics0 ld = (Inr ds, ld')"
    and "chains_fit N 1 1 decides"
    and "run_standalone_service register_module show_api availability_api status_api app
      N False (fs_update_ops N LA BA) (fs_versioned_ops LA BA AS) show_update show_commit
      (map (\<lambda>(chain, qc). Decide chain qc) decides) ds = (Inr u, ds')"
    and "leaves = leaf_query_data_genesis N #
      map entry_of (concat (map (\<lambda>(chain, qc). chain_entries N chain qc) decides))"
    and "distinct (map (leaf_hash N) leaves)"
    and "log_contents BA (block_storage ds') = map Some (b0 # blocks)"
  shows "\<exists>pairs. client_non_empty_blocks N (fs_routes N show_hash show_err leaf_items block_items LA BA) ds' 1 []
      = Some (Inr (of_nat (Suc (length blocks)), pairs)) \<and>
    map snd pairs = filter (\<lambda>block. \<not> block_is_empty N block) blocks \<and>
    (\<forall>(leaf, block) \<in> set pairs. leaf \<in> set leaves \<and> block_matches N leaf block)"
proof -
  note served = fs_service_served [OF assms(1-8)]
  let ?pairs = "filter (\<lambda>(leaf, block). \<not> block_is_empty N block) (zip (drop 1 leaves) blocks)"
  have "client_non_empty_blocks N (fs_routes N show_hash show_err leaf_items block_items LA BA) ds' 1 []
      = Some (Inr (of_nat (Suc (length blocks)), ?pairs))"
    by (simp add: fs_client_non_empty [OF served(2,3) assms(9) served(4) assms(10), where i = 1, simplified])
  moreover have len: "length blocks \<le> length (drop 1 leaves)"
    using served(3) fs_ok_lens(2) [OF served(2)] assms(10) by (auto simp: fs_gapless_def)
  then have "map snd ?pairs = filter (\<lambda>block. \<not> block_is_empty N block) blocks"
    by (rule map_snd_filter_zip)
  moreover have "leaf \<in> set leaves \<and> block_matches N leaf block"
    if pair: "(leaf, block) \<in> set (zip (drop 1 leaves) blocks)" for leaf block
  proof -
    obtain i where "i < length (drop 1 leaves)" "i < length blocks" "drop 1 leaves ! i = leaf" "blocks ! i = block"
      using pair by (auto simp: in_set_zip)
    then have i: "i < length blocks" "Suc i < length leaves" "leaf = leaves ! Suc i" "block = blocks ! i"
      by auto
    then have "list_get (log_contents BA (block_storage ds')) (Suc i) = Some (Some block)"
      using assms(10) by (simp add: list_get_def)
    with fs_gapless_block [OF served(2,3) this] i show ?thesis by simp
  qed
  ultimately show ?thesis by (intro exI [of _ ?pairs]) auto
qed


section \<open>Witnesses\<close>

abbreviation mock_routes where
  "mock_routes \<equiv> fs_routes mock_types decimal (\<lambda>_. []) (\<lambda>_. [()])
     (\<lambda>_. [] :: (query_error + (nat, nat list, nat) block_query_data) list) (mock_leaves False) (mock_blocks False)"

lemma mock_service_updates:
  "run_standalone_service (\<lambda>_ _ app. Inr app) id (Inr ()) (Inr ()) ()
     mock_types False mock_fs_updates mock_fs_versions id id
     (map (\<lambda>(chain, qc). Decide chain qc) mock_decided) mock_created = (Inr (), mock_validated)"
  by (simp add: run_standalone_service_def register_apis_def internal_err_def
      mock_updated_run mock_validated_run del: One_nat_def)

lemma mock_validated_block:
  assumes "i < 3"
  shows "\<exists>b. fs_get_block (mock_blocks False) (Number (of_nat i)) mock_validated = Inr b \<and>
    length (bq_payload b) < 2 ^ 64"
proof -
  note ok = fs_reachable_ok [OF mock_logs_laws mock_genesis
      conjunct1 [OF mock_validated_served [unfolded fs_served_def]], THEN conjunct1]
  have "i = 0 \<or> i = 1 \<or> i = 2" using assms by auto
  then show ?thesis
    by (elim disjE) (simp_all add: fs_get_block_number [OF ok] mock_validated_blocks list_get_def mock_block_def)
qed

lemma mock_decided_leaves:
  "leaf_query_data_genesis mock_types #
     map entry_of (concat (map (\<lambda>(chain, qc). chain_entries mock_types chain qc) mock_decided)) =
   [\<lparr>lq_leaf = (0, 0, 1000, Some []), lq_qc = 1000\<rparr>,
    \<lparr>lq_leaf = (1, 4, 1000, Some [8, 9, 8]), lq_qc = 1014\<rparr>,
    \<lparr>lq_leaf = (2, 5, 1014, Some [9]), lq_qc = 1025\<rparr>]"
  by (simp add: chain_entries_def entry_of_def mock_types_simps)

theorem fs_api_validates_witness: "client_validate mock_types mock_routes mock_validated 3 = Inr ()"
  by (rule fs_api_validates [OF mock_logs_laws mock_genesis mock_service_hypotheses(1)
        mock_types_payload mock_created_run mock_service_hypotheses(3) mock_service_updates
        mock_decided_leaves [symmetric] _ _ mock_validated_block])
    (simp_all add: mock_types_simps)

theorem fs_api_lists_non_empty_witness:
  "\<exists>pairs. client_non_empty_blocks mock_types mock_routes mock_validated 1 [] = Some (Inr (3, pairs)) \<and>
     map snd pairs = [mock_block 1 [8, 9, 8], mock_block 2 [9]]"
proof -
  have "distinct (map (leaf_hash mock_types)
      [\<lparr>lq_leaf = (0, 0, 1000, Some []), lq_qc = 1000\<rparr>,
       \<lparr>lq_leaf = (1, 4, 1000, Some [8, 9, 8]), lq_qc = 1014\<rparr>,
       \<lparr>lq_leaf = (2, 5, 1014, Some [9]), lq_qc = 1025\<rparr>])"
    by (simp add: mock_types_simps)
  from fs_api_lists_non_empty [OF mock_logs_laws mock_genesis mock_service_hypotheses(1)
      mock_created_run mock_service_hypotheses(3) mock_service_updates mock_decided_leaves [symmetric]
      this mock_validated_blocks]
  obtain pairs where
    "client_non_empty_blocks mock_types mock_routes mock_validated 1 []
       = Some (Inr (of_nat (Suc (length [mock_block 1 [8, 9, 8], mock_block 2 [9]])), pairs))"
    "map snd pairs = filter (\<lambda>block. \<not> block_is_empty mock_types block)
       [mock_block 1 [8, 9, 8], mock_block 2 [9]]" by blast
  moreover have "\<not> block_is_empty mock_types (mock_block 1 [8, 9, 8])"
    "\<not> block_is_empty mock_types (mock_block 2 [9])"
    by (simp_all add: block_is_empty_def block_len_def mock_block_def mock_types_simps)
  ultimately have "client_non_empty_blocks mock_types mock_routes mock_validated 1 [] = Some (Inr (3, pairs)) \<and>
      map snd pairs = [mock_block 1 [8, 9, 8], mock_block 2 [9]]"
    by (simp del: One_nat_def)
  then show ?thesis by (rule exI)
qed

end
