(* ===== verification/CompositeApp.thy ===== *)
theory CompositeApp
  imports ApiSuite Extension
begin

text \<open>
  Composition, as the test module of \<^verbatim>\<open>src/lib.rs\<close> does it: an application state that holds a file
  system data source beside the state of a module of its own, in one atomic store. The state answers
  the queries of both APIs from the data source; the module stores an integer. The rolling log of
  \<^verbatim>\<open>atomic_store\<close> is a parameter like the append log.
\<close>

section \<open>State\<close>

record ('ld, 'r, 'v, 'e) rolling_log_ops =
  rl_create :: "'ld \<Rightarrow> string \<Rightarrow> nat \<Rightarrow> ('e + 'r) \<times> 'ld"
  rl_load_latest :: "'r \<Rightarrow> 'e + 'v"
  rl_store_resource :: "'r \<Rightarrow> 'v \<Rightarrow> ('e + unit) \<times> 'r"
  rl_commit_version :: "'r \<Rightarrow> ('e + unit) \<times> 'r"

text \<open>Documented: the latest resource is the one stored in the version committed last.\<close>

definition rolling_log_laws where
  "rolling_log_laws RL \<longleftrightarrow>
     (\<forall>st v st1 st2. rl_store_resource RL st v = (Inr (), st1) \<longrightarrow>
        rl_commit_version RL st1 = (Inr (), st2) \<longrightarrow> rl_load_latest RL st2 = Inr v)"

record ('as, 'qs, 'r) composite_state =
  co_store :: 'as
  hotshot_qs :: 'qs
  module_state :: 'r

definition composite_avail_ops where
  "composite_avail_ops V =
     \<lparr>av_get_leaf = (\<lambda>self ident. av_get_leaf V (hotshot_qs self) ident),
      av_get_block = (\<lambda>self ident. av_get_block V (hotshot_qs self) ident),
      av_get_leaf_range = (\<lambda>self start end_bound.
        av_get_leaf_range V (hotshot_qs self) start end_bound),
      av_get_block_range = (\<lambda>self start end_bound.
        av_get_block_range V (hotshot_qs self) start end_bound),
      av_get_block_with_transaction = (\<lambda>self h. av_get_block_with_transaction V (hotshot_qs self) h),
      av_get_proposals = (\<lambda>self proposer limit. av_get_proposals V (hotshot_qs self) proposer limit),
      av_count_proposals = (\<lambda>self proposer. av_count_proposals V (hotshot_qs self) proposer),
      av_subscribe_leaves = (\<lambda>self height. av_subscribe_leaves V (hotshot_qs self) height),
      av_subscribe_blocks = (\<lambda>self height. av_subscribe_blocks V (hotshot_qs self) height)\<rparr>"

definition composite_status_ops where
  "composite_status_ops D =
     \<lparr>src_block_height = (\<lambda>self. src_block_height D (hotshot_qs self)),
      src_metrics = (\<lambda>self. src_metrics D (hotshot_qs self))\<rparr>"

definition fs_status_ops where
  "fs_status_ops LA =
     \<lparr>src_block_height = (\<lambda>ds. map_sum id of_nat (fs_block_height LA ds)), src_metrics = fs_metrics\<rparr>"

section \<open>The application\<close>

text \<open>All data structures are registered with one loader before the store is opened.\<close>

definition composite_create where
  "composite_create N RL LA BA AS metrics0 loader =
     attempt (unwrapped (fs_create_with_store N LA BA AS metrics0 loader)) (\<lambda>qs loader.
     attempt (unwrapped (foreign (rl_create RL loader ''module_state'' 1024))) (\<lambda>module loader.
     unwrapped (foreign (map_sum id (\<lambda>st. \<lparr>co_store = st, hotshot_qs = qs, module_state = module\<rparr>)
       (as_open AS loader), loader))))"

definition get_ext where
  "get_ext RL show_store self =
     map_sum (crate_internal \<circ> show_store) id (rl_load_latest RL (module_state self))"

definition post_ext where
  "post_ext RL LA BA AS show_req show_store val self =
     (case val of
        Inl e \<Rightarrow> (Inl (Failure (crate_internal (show_req e))), self)
      | Inr v \<Rightarrow>
          attempt (internal_err show_store (on_field (\<lambda>m. self\<lparr>module_state := m\<rparr>)
            (foreign (rl_store_resource RL (module_state self) v)))) (\<lambda>_ self.
          attempt (internal_err show_store (on_field (\<lambda>m. self\<lparr>module_state := m\<rparr>)
            (foreign (rl_commit_version RL (module_state self))))) (\<lambda>_ self.
          attempt (internal_err show_store (on_field (\<lambda>qs. self\<lparr>hotshot_qs := qs\<rparr>)
            (fs_skip_version LA BA AS (hotshot_qs self)))) (\<lambda>_ self.
            internal_err show_store (on_field (\<lambda>st. self\<lparr>co_store := st\<rparr>)
              (foreign (as_commit_version AS (co_store self))))))))"

section \<open>The composition test\<close>

text \<open>
  A client posts 42 to the module, reads it back, and then reads the block height and the number of
  proposals of a key through the built-in modules.
\<close>

abbreviation composite_routes where
  "composite_routes N show_hash show_err leaf_items block_items LA BA \<equiv>
     (availability_routes N show_hash show_err leaf_items block_items
        (composite_avail_ops (fs_avail_ops LA BA))
       :: (string \<times> (('h, 'pk, unit) request \<Rightarrow> _,
            ('h, 'pk, unit) request \<Rightarrow> _ \<Rightarrow> ((unit, 'pk) availability_error + _) list) handler) list)"

definition test_composition where
  "test_composition N show_hash show_err leaf_items block_items RL LA BA AS metrics0 show_req
      show_store show_status path key =
     and_then (map_err (\<lambda>_. OtherPanic) (as_create AS path ''test_composition'')) (\<lambda>loader.
     and_then (map_err (\<lambda>_ :: unit failure. OtherPanic)
       (fst (composite_create N RL LA BA AS metrics0 loader))) (\<lambda>state.
     case post_ext RL LA BA AS show_req show_store (Inr (42 :: 64 word) :: unit + 64 word) state
     of (posted, state) \<Rightarrow>
     and_then (map_err (\<lambda>_ :: (unit, unit) crate_error failure. OtherPanic) posted) (\<lambda>_.
     and_then (map_err (\<lambda>_ :: (unit, unit) crate_error. OtherPanic) (get_ext RL show_store state)) (\<lambda>latest.
     and_then (check_that (latest = 42)) (\<lambda>_.
     and_then (map_err (\<lambda>_ :: unit status_error. OtherPanic)
       (handle_latest_block_height show_status (composite_status_ops (fs_status_ops LA)) state)) (\<lambda>height.
     and_then (check_that (height = 1)) (\<lambda>_.
     and_then (client_count (composite_routes N show_hash show_err leaf_items block_items LA BA)
       ''countproposals'' [(''proposer_id'', KeySegment key)] state) (\<lambda>proposals.
       check_that (proposals = 0)))))))))"

section \<open>Advancing the version\<close>

text \<open>Skipping a version changes the stores only, and nothing that can be read from them.\<close>

definition log_reads_as where
  "log_reads_as A pend l l' \<longleftrightarrow>
     (\<exists>st. l' = l\<lparr>store := st\<rparr> \<and> al_iter A st = al_iter A (store l) \<and> pend st = pend (store l))"

lemma log_reads_as_refl: "log_reads_as A pend l l"
  unfolding log_reads_as_def by (rule exI [of _ "store l"]) simp

lemma log_reads_asD:
  assumes "log_reads_as A pend l l'"
  shows "log_iter A l' = log_iter A l" and "subscribe A k l' = subscribe A k l"
    and "log_len A l' = log_len A l" and "pend (store l') = pend (store l)"
  using assms by (auto simp: log_reads_as_def log_iter_def subscribe_def log_len_eq)

lemma skip_version_reads:
  assumes laws: "append_log_laws A pend"
  shows "log_reads_as A pend l (snd (skip_version A l))"
  using al_skip_any [OF laws, of "store l" "fst (al_skip_version A (store l))"]
  by (auto simp: log_reads_as_def skip_version_def on_field_def foreign_def)

definition fs_reads_as where
  "fs_reads_as LA BA lp bp ds ds' \<longleftrightarrow>
     index_by_leaf_hash ds' = index_by_leaf_hash ds \<and> index_by_block_hash ds' = index_by_block_hash ds \<and>
     index_by_txn_hash ds' = index_by_txn_hash ds \<and> index_by_proposer_id ds' = index_by_proposer_id ds \<and>
     log_reads_as LA lp (leaf_storage ds) (leaf_storage ds') \<and>
     log_reads_as BA bp (block_storage ds) (block_storage ds')"

lemma commit_top_storage_reads:
  "fs_reads_as LA BA lp bp ds (snd (commit_top_storage AS d)) \<longleftrightarrow> fs_reads_as LA BA lp bp ds d"
  by (cases "top_storage d") (simp_all add: commit_top_storage_def on_field_def fs_reads_as_def)

lemma fs_skip_reads:
  assumes laws: "append_log_laws LA lp" "append_log_laws BA bp"
  shows "fs_reads_as LA BA lp bp ds (snd (fs_skip_version LA BA AS ds))"
proof -
  obtain r1 leaves where skip1: "skip_version LA (leaf_storage ds) = (r1, leaves)" by fastforce
  obtain r2 blocks where skip2: "skip_version BA (block_storage ds) = (r2, blocks)" by fastforce
  have reads: "log_reads_as LA lp (leaf_storage ds) leaves" "log_reads_as BA bp (block_storage ds) blocks"
    using skip_version_reads [OF laws(1), of "leaf_storage ds"]
      skip_version_reads [OF laws(2), of "block_storage ds"] skip1 skip2 by simp_all
  then have "fs_reads_as LA BA lp bp ds (ds\<lparr>leaf_storage := leaves\<rparr>)"
    "fs_reads_as LA BA lp bp ds (ds\<lparr>leaf_storage := leaves, block_storage := blocks\<rparr>)"
    by (simp_all add: fs_reads_as_def log_reads_as_refl)
  then show ?thesis
    using skip1 skip2
    by (cases r1; cases r2) (simp_all add: fs_skip_version_def on_field_def commit_top_storage_reads)
qed

text \<open>Every query of the availability API reads the same.\<close>

lemma fs_reads_as_queries:
  assumes same: "fs_reads_as LA BA lp bp ds ds'"
  shows "fs_get_leaf LA ident ds' = fs_get_leaf LA ident ds"
    and "fs_get_block BA ident ds' = fs_get_block BA ident ds"
    and "fs_get_leaf_range LA start end_bound ds' = fs_get_leaf_range LA start end_bound ds"
    and "fs_get_block_range BA start end_bound ds' = fs_get_block_range BA start end_bound ds"
    and "fs_get_block_with_transaction BA h ds' = fs_get_block_with_transaction BA h ds"
    and "fs_get_proposals LA pk limit ds' = fs_get_proposals LA pk limit ds"
    and "fs_count_proposals pk ds' = fs_count_proposals pk ds"
    and "fs_subscribe_leaves LA height ds' = fs_subscribe_leaves LA height ds"
    and "fs_subscribe_blocks BA height ds' = fs_subscribe_blocks BA height ds"
    and "fs_block_height LA ds' = fs_block_height LA ds"
proof -
  have logs: "log_reads_as LA lp (leaf_storage ds) (leaf_storage ds')"
    "log_reads_as BA bp (block_storage ds) (block_storage ds')"
    and index: "index_by_leaf_hash ds' = index_by_leaf_hash ds" "index_by_block_hash ds' = index_by_block_hash ds"
      "index_by_txn_hash ds' = index_by_txn_hash ds" "index_by_proposer_id ds' = index_by_proposer_id ds"
    using same by (simp_all add: fs_reads_as_def)
  note logs = log_reads_asD(1,2,3) [OF logs(1)] log_reads_asD(1,2,3) [OF logs(2)]
  have one: "fs_get_leaf LA ident ds' = fs_get_leaf LA ident ds"
    "fs_get_block BA ident ds' = fs_get_block BA ident ds" for ident
    by (simp_all only: fs_get_leaf_def fs_get_block_def logs index)
  note read = one logs index
  show "fs_get_leaf LA ident ds' = fs_get_leaf LA ident ds"
    "fs_get_block BA ident ds' = fs_get_block BA ident ds"
    by (fact one)+
  show "fs_get_leaf_range LA start end_bound ds' = fs_get_leaf_range LA start end_bound ds"
    "fs_get_block_range BA start end_bound ds' = fs_get_block_range BA start end_bound ds"
    by (simp_all only: fs_get_leaf_range_def fs_get_block_range_def read)
  show "fs_get_block_with_transaction BA h ds' = fs_get_block_with_transaction BA h ds"
    by (simp only: fs_get_block_with_transaction_def read)
  show "fs_get_proposals LA pk limit ds' = fs_get_proposals LA pk limit ds"
    by (simp only: fs_get_proposals_def read)
  show "fs_count_proposals pk ds' = fs_count_proposals pk ds"
    by (simp only: fs_count_proposals_def read)
  show "fs_subscribe_leaves LA height ds' = fs_subscribe_leaves LA height ds"
    "fs_subscribe_blocks BA height ds' = fs_subscribe_blocks BA height ds"
    by (simp_all only: fs_subscribe_leaves_def fs_subscribe_blocks_def read)
  show "fs_block_height LA ds' = fs_block_height LA ds" by (simp only: fs_block_height_def read)
qed

section \<open>Posting to the module\<close>

lemma map_sum_failure [simp]:
  "map_sum Failure id r = Inl x \<longleftrightarrow> (\<exists>e. r = Inl e \<and> x = Failure e)"
  "map_sum Failure id r = Inr y \<longleftrightarrow> r = Inr y"
  by (cases r; auto)+

lemma fs_skip_failure:
  "fs_skip_version LA BA AS ds = (Inl x, ds') \<Longrightarrow> \<exists>e. x = Failure e"
  by (auto simp: fs_skip_version_def skip_version_def commit_top_storage_def foreign_def
      split: option.splits elim!: attempt_cases)

lemma internal_err_failure:
  assumes "internal_err show_err r = (Inl x, s)" and "\<And>y. fst r = Inl y \<Longrightarrow> \<exists>e. y = Failure e"
  shows "\<exists>msg. x = Failure (crate_internal msg)"
  using assms by (cases "fst r") (auto simp: internal_err_def)

lemma rolling_log_latest:
  assumes "rolling_log_laws RL" and "fst (rl_store_resource RL st v) = Inr ()"
    and "fst (rl_commit_version RL (snd (rl_store_resource RL st v))) = Inr ()"
  shows "rl_load_latest RL (snd (rl_commit_version RL (snd (rl_store_resource RL st v)))) = Inr v"
  using assms unfolding rolling_log_laws_def by (metis prod.collapse)

lemma post_ext_outcome:
  assumes laws: "append_log_laws LA lp" "append_log_laws BA bp" "rolling_log_laws RL"
    and run: "post_ext RL LA BA AS show_req show_store val self = (res, self')"
  shows "fs_reads_as LA BA lp bp (hotshot_qs self) (hotshot_qs self')"
    and "case res of Inl x \<Rightarrow> \<exists>msg. x = Failure (crate_internal msg)
      | Inr _ \<Rightarrow> \<exists>v. val = Inr v \<and> rl_load_latest RL (module_state self') = Inr v"
proof -
  show "fs_reads_as LA BA lp bp (hotshot_qs self) (hotshot_qs self')"
    using run fs_skip_reads [OF laws(1,2), of "hotshot_qs self" AS]
    unfolding post_ext_def
    by (auto simp: fs_reads_as_def log_reads_as_refl internal_err_def on_field_def foreign_def
        split: sum.splits elim!: attempt_cases)
  show "case res of Inl x \<Rightarrow> \<exists>msg. x = Failure (crate_internal msg)
      | Inr _ \<Rightarrow> \<exists>v. val = Inr v \<and> rl_load_latest RL (module_state self') = Inr v"
  proof (cases val)
    case (Inl e)
    then show ?thesis using run by (auto simp: post_ext_def)
  next
    case (Inr v)
    show ?thesis
    proof (cases res)
      case (Inl x)
      have skip: "fst (fs_skip_version LA BA AS ds) = Inl y \<Longrightarrow> \<exists>e. y = Failure e" for ds y
        by (cases "fs_skip_version LA BA AS ds") (auto dest: fs_skip_failure)
      show ?thesis
        using run Inl Inr unfolding post_ext_def
        by (auto elim!: attempt_cases dest!: internal_err_failure simp: foreign_def on_field_def skip)
    next
      case (Inr u)
      then show ?thesis
        using run laws(3) \<open>val = Inr v\<close>
        by (auto simp: post_ext_def attempt_ok foreign_def rolling_log_latest)
    qed
  qed
qed

section \<open>Properties\<close>

definition same_answers where
  "same_answers routes self self' \<longleftrightarrow>
     (\<forall>(name, handler) \<in> set routes. case handler of
        GetHandler g \<Rightarrow> \<forall>req. g req self' = g req self
      | StreamHandler g \<Rightarrow> \<forall>req. g req self' = g req self)"

lemma composite_same_answers:
  assumes "fs_reads_as LA BA lp bp (hotshot_qs self) (hotshot_qs self')"
  shows "same_answers (availability_routes N show_hash show_err leaf_items block_items
      (composite_avail_ops (fs_avail_ops LA BA))) self self'"
proof -
  let ?V = "composite_avail_ops (fs_avail_ops LA BA)"
  note same = fs_reads_as_queries [OF assms]
  have V: "av_get_leaf ?V self' = av_get_leaf ?V self"
    "av_get_block ?V self' = av_get_block ?V self"
    "av_get_leaf_range ?V self' = av_get_leaf_range ?V self"
    "av_get_block_range ?V self' = av_get_block_range ?V self"
    "av_get_block_with_transaction ?V self' = av_get_block_with_transaction ?V self"
    "av_get_proposals ?V self' = av_get_proposals ?V self"
    "av_count_proposals ?V self' = av_count_proposals ?V self"
    "av_subscribe_leaves ?V self' = av_subscribe_leaves ?V self"
    "av_subscribe_blocks ?V self' = av_subscribe_blocks ?V self"
    by (simp_all add: composite_avail_ops_def fs_avail_ops_def fun_eq_iff same)
  show ?thesis
    by (simp add: same_answers_def availability_routes_def handle_getleaf_def handle_getblock_def
        handle_gettransaction_def request_transaction_def handle_countproposals_def handle_getproposals_def
        handle_streamleaves_def handle_streamblocks_def handle_streamblockheaders_def V)
qed


text \<open>
  The composition test of the repository passes unless creating the storage or committing the
  posted value fails: the posted value is read back, the height is that of genesis alone, and a key
  that did not propose genesis has no proposals.
\<close>

theorem test_composition_passes:
  assumes "append_log_laws LA lp" and "append_log_laws BA bp" and "rolling_log_laws RL"
    and "genesis_at_zero N" and "leaf_proposer N (leaf_query_data_genesis N) \<noteq> key"
    and "as_create AS path ''test_composition'' = Inr loader"
    and "composite_create N RL LA BA AS metrics0 loader = ((Inr state :: unit failure + _), loader')"
    and "post_ext RL LA BA AS show_req show_store (Inr 42) state
      = ((Inr u :: (unit, unit) crate_error failure + unit), state')"
  shows "test_composition N show_hash show_err leaf_items block_items RL LA BA AS metrics0 show_req
      show_store show_status path key = Inr ()"
proof -
  note posted = post_ext_outcome [OF assms(1-3,8)]
  obtain ld where created: "fs_create_with_store N LA BA AS metrics0 loader = (Inr (hotshot_qs state), ld)"
    using assms(7) by (auto simp: composite_create_def attempt_ok foreign_def map_sum_Inr_iff)
  note fresh = fs_create_with_store_ok [OF assms(1,2,4) created]
  have height: "fs_block_height LA (hotshot_qs state') = (Inr 1 :: query_error + nat)"
    using fs_reads_as_queries(10) [OF posted(1)] fresh(4) by (simp add: fs_block_height_def)
  have "index_by_proposer_id (hotshot_qs state) key = None"
    using fresh(1,2) assms(5)
    by (auto simp: fs_ok_def fs_indexed_def index_leaves_def index_leaf_def push_proposal_def)
  then have "fs_count_proposals key (hotshot_qs state') = (Inr 0 :: query_error failure + nat)"
    using fs_reads_as_queries(7) [OF posted(1), of key] by (simp add: fs_count_proposals_def)
  with height posted(2) show ?thesis
    by (simp add: test_composition_def assms(6,7,8) get_ext_def handle_latest_block_height_def
        composite_status_ops_def fs_status_ops_def client_eval(7) [OF refl] composite_avail_ops_def
        fs_avail_ops_def)
qed


section \<open>Witnesses\<close>

text \<open>A rolling log in memory, and the mock data source and its loader.\<close>

definition mem_rolling_log :: "(mock_loader, 'v list \<times> 'v list, 'v, string) rolling_log_ops" where
  "mem_rolling_log =
     \<lparr>rl_create = (\<lambda>ld f n. (Inr ([], []), ld)),
      rl_load_latest = (\<lambda>(c, p). if c = [] then Inl ''missing'' else Inr (hd c)),
      rl_store_resource = (\<lambda>(c, p) v. (Inr (), (c, [v]))),
      rl_commit_version = (\<lambda>(c, p). (Inr (), (p @ c, [])))\<rparr>"

lemma mem_rolling_log_laws [simp]: "rolling_log_laws mem_rolling_log"
  by (auto simp: rolling_log_laws_def mem_rolling_log_def)

definition mock_metered where
  "mock_metered =
     \<lparr>index_by_leaf_hash = index_by_leaf_hash mock_created,
      index_by_block_hash = index_by_block_hash mock_created,
      index_by_txn_hash = index_by_txn_hash mock_created,
      index_by_proposer_id = index_by_proposer_id mock_created, top_storage = None :: nat option,
      leaf_storage = leaf_storage mock_created, block_storage = block_storage mock_created,
      fs_metrics = mock_root\<rparr>"

definition mock_composite where
  "mock_composite = \<lparr>co_store = 0 :: nat, hotshot_qs = mock_metered, module_state = ([], [] :: 64 word list)\<rparr>"

lemma mock_composite_run:
  "composite_create mock_types mem_rolling_log (mock_leaves False) (mock_blocks False) mock_store mock_root
     ([], []) = (Inr mock_composite, ([], []))"
proof -
  have "fs_create_with_store mock_types (mock_leaves False) (mock_blocks False) mock_store mock_root
     ([], []) = (Inr mock_metered, ([], []))"
    by (simp add: mock_eval mock_created_def mock_metered_def update_index_by_hash_def push_proposal_def)
  then show ?thesis
    by (simp add: composite_create_def mem_rolling_log_def mock_store_def mock_composite_def)
qed

lemma mock_post_run:
  "post_ext mem_rolling_log (mock_leaves False) (mock_blocks False) mock_store show_req id
     (Inr 42) mock_composite = ((Inr () :: (unit, unit) crate_error failure + unit),
       mock_composite\<lparr>module_state := ([42], []), co_store := 1\<rparr>)"
proof -
  have "fs_skip_version (mock_leaves False) (mock_blocks False) mock_store mock_metered = (Inr (), mock_metered)"
    by (simp add: fs_skip_version_def skip_version_def commit_top_storage_def mock_metered_def
        mock_created_def mock_leaves_def mock_blocks_def with_loader_def mem_append_log_def)
  then show ?thesis
    by (simp add: post_ext_def internal_err_def mem_rolling_log_def mock_composite_def mock_store_def)
qed


theorem test_composition_passes_witness:
  "test_composition mock_types decimal (\<lambda>_. []) (\<lambda>_. [()])
     (\<lambda>_. [] :: (query_error + (nat, nat list, nat) block_query_data) list) mem_rolling_log
     (mock_leaves False) (mock_blocks False) mock_store mock_root (\<lambda>_. []) id (\<lambda>_. []) ([], []) (5 :: nat) = Inr ()"
  by (rule test_composition_passes [OF mock_logs_laws mem_rolling_log_laws mock_genesis _ _
        mock_composite_run mock_post_run])
    (simp_all add: mock_store_def mock_types_simps)

end
