(* ===== verification/LogRefine.thy ===== *)
theory LogRefine
  imports LedgerLogRun
begin

text \<open>
  The ledger log over any append log whose storage works behaves as it does over the list in memory:
  every sequence of operations has the same results, reads and subscriptions. What a test of the log
  shows with one storage therefore holds with every other.
\<close>

section \<open>The log over a list in memory\<close>

abbreviation mem_ops :: "('a option list, 'a option list \<times> 'a option list, 'a option, string) append_log_ops"
  where "mem_ops \<equiv> mem_append_log False"

definition log_abs ::
    "('ld, 's, 'a option, 'e) append_log_ops \<Rightarrow> ('s \<Rightarrow> 'a option list) \<Rightarrow> ('s, 'a) ledger_log
      \<Rightarrow> ('a option list \<times> 'a option list, 'a) ledger_log" where
  "log_abs A pend l =
     \<lparr>cache_start = cache_start l, cache_size = cache_size l, cache = cache l,
      store = (map loaded (al_iter A (store l)), pend (store l)),
      pending_inserts = pending_inserts l, stream = stream l, stream_pos = stream_pos l\<rparr>"

text \<open>No call on the storage fails.\<close>

definition storage_works :: "('ld, 's, 'r, 'e) append_log_ops \<Rightarrow> bool" where
  "storage_works A \<longleftrightarrow>
     (\<forall>st r. fst (al_store_resource A st r) = Inr ()) \<and> (\<forall>st. fst (al_commit_version A st) = Inr ()) \<and>
     (\<forall>st. fst (al_skip_version A st) = Inr ()) \<and> (\<forall>st. fst (al_revert_version A st) = Inr ())"

lemma storage_worksE:
  assumes works: "storage_works A" and laws: "append_log_laws A pend"
  obtains st1 st2 st3 st4 where
    "al_store_resource A st r = (Inr (), st1)" "al_iter A st1 = al_iter A st" "pend st1 = pend st @ [r]"
    "al_commit_version A st = (Inr (), st2)" "al_iter A st2 = al_iter A st @ map Inr (pend st)" "pend st2 = []"
    "al_skip_version A st = (Inr (), st3)" "al_iter A st3 = al_iter A st" "pend st3 = pend st"
    "al_revert_version A st = (Inr (), st4)" "al_iter A st4 = al_iter A st" "pend st4 = []"
proof -
  obtain st1 st2 st3 st4 where runs: "al_store_resource A st r = (Inr (), st1)"
      "al_commit_version A st = (Inr (), st2)" "al_skip_version A st = (Inr (), st3)"
      "al_revert_version A st = (Inr (), st4)"
    using works unfolding storage_works_def by (metis prod.collapse)
  with that al_store_ok [OF laws runs(1)] al_commit_ok [OF laws runs(2)] al_skip_any [OF laws runs(3)]
    al_revert_ok [OF laws runs(4)] show thesis by blast
qed

section \<open>Iterators\<close>

definition iter_abs :: "('a, 'e) log_iter \<Rightarrow> ('a, string) log_iter" where
  "iter_abs it =
     \<lparr>it_index = it_index it, it_cache_start = it_cache_start it, it_cache = it_cache it,
      it_store = map (Inr \<circ> loaded) (it_store it)\<rparr>"

lemma collect_map:
  fixes h :: "'b \<Rightarrow> 's" and f :: "'s \<Rightarrow> ('a \<times> 's) option"
  assumes step: "\<And>s. f (h s) = map_option (map_prod id h) (g s)"
  shows "collect f (h s) = collect g s"
proof -
  have "collect f (h s) = Some xs" if "collect g s = Some xs" for xs
  proof -
    have "g' = g \<longrightarrow> collect f (h s) = Some xs" if "collect g' s = Some xs" for g' s xs
      using that
    proof (rule collect.raw_induct [rotated], intro impI)
      fix loop g' s xs
      assume IH: "\<And>g' s xs. loop g' s = Some xs \<Longrightarrow> g' = g \<longrightarrow> collect f (h s) = Some xs"
        and run: "(case g' s of None \<Rightarrow> Some [] | Some (x, s') \<Rightarrow> Option.bind (loop g' s') (\<lambda>xs. Some (x # xs))) = Some xs"
        and g: "g' = g"
      have "loop g s' = Some ys \<Longrightarrow> collect f (h s') = Some ys" for s' ys using IH by blast
      with run g show "collect f (h s) = Some xs"
        by (subst collect.simps) (auto simp: step bind_eq_Some_conv split: option.splits prod.splits)
    qed
    with that show ?thesis by blast
  qed
  moreover have "collect g s = Some xs" if "collect f (h s) = Some xs" for xs
  proof -
    have "\<forall>s :: 'b. f' = f \<longrightarrow> t = h s \<longrightarrow> collect g s = Some xs" if "collect f' t = Some xs" for f' t xs
      using that
    proof (rule collect.raw_induct [rotated], intro allI impI)
      fix loop f' t xs and s :: 'b
      assume IH: "\<And>f' t xs. loop f' t = Some xs \<Longrightarrow> \<forall>s :: 'b. f' = f \<longrightarrow> t = h s \<longrightarrow> collect g s = Some xs"
        and run: "(case f' t of None \<Rightarrow> Some [] | Some (x, s') \<Rightarrow> Option.bind (loop f' s') (\<lambda>xs. Some (x # xs))) = Some xs"
        and f: "f' = f" and t: "t = h s"
      have "loop f (h s') = Some ys \<Longrightarrow> collect g s' = Some ys" for s' ys using IH by blast
      with run f t show "collect g s = Some xs"
        by (subst collect.simps) (auto simp: step bind_eq_Some_conv split: option.splits prod.splits)
    qed
    with that show ?thesis by blast
  qed
  ultimately show ?thesis by (metis not_None_eq)
qed

lemma iter_nth_abs: "iter_nth n (iter_abs it) = map_prod id iter_abs (iter_nth n it)"
  by (simp add: iter_nth_def iter_abs_def Let_def list_get_def drop_map)

lemma iter_nth_abs_eq: "iter_nth n it = (x, it') \<Longrightarrow> iter_nth n (iter_abs it) = (x, iter_abs it')"
  by (simp add: iter_nth_abs)

lemma log_iter_abs: "log_iter mem_ops (log_abs A pend l) = iter_abs (log_iter A l)"
  by (simp add: log_iter_def log_abs_def iter_abs_def)

lemma log_contents_abs: "log_contents mem_ops (log_abs A pend l) = log_contents A l"
  by (simp add: log_contents_def log_abs_def take_map comp_def)

lemma log_len_abs: "log_len mem_ops (log_abs A pend l) = log_len A l"
  by (simp add: log_len_eq log_abs_def)

lemma broadcast_loop_abs:
  fixes it :: "('a, 'e) log_iter"
  shows "broadcast_loop n (iter_abs it) i sent = broadcast_loop n it i sent"
proof -
  have "broadcast_loop n (iter_abs it) i sent = Some y" if "broadcast_loop n it i sent = Some y" for y
    using that
  proof (rule broadcast_loop.raw_induct [rotated])
    fix loop n it i sent y
    assume "\<And>n it i sent y. loop n it i sent = Some y \<Longrightarrow> broadcast_loop n (iter_abs it) i sent = Some y"
      and "(case iter_nth n it of (None, it') \<Rightarrow> Some (i, sent) | (Some None, it') \<Rightarrow> Some (i, sent)
        | (Some (Some obj), it') \<Rightarrow> loop 0 it' (i + 1) (sent @ [obj])) = Some y"
    then show "broadcast_loop n (iter_abs it) i sent = Some y"
      by (subst broadcast_loop.simps) (auto simp: iter_nth_abs split: prod.splits option.splits)
  qed
  moreover have "\<forall>it :: ('a, 'e) log_iter. it' = iter_abs it \<longrightarrow> broadcast_loop n it i sent = Some y"
    if "broadcast_loop n it' i sent = Some y" for it' y
    using that
  proof (rule broadcast_loop.raw_induct [rotated], intro allI impI)
    fix loop n it' i sent y and it :: "('a, 'e) log_iter"
    assume IH: "\<And>n it' i sent y. loop n it' i sent = Some y \<Longrightarrow>
        \<forall>it :: ('a, 'e) log_iter. it' = iter_abs it \<longrightarrow> broadcast_loop n it i sent = Some y"
      and run: "(case iter_nth n it' of (None, it') \<Rightarrow> Some (i, sent) | (Some None, it') \<Rightarrow> Some (i, sent)
        | (Some (Some obj), it') \<Rightarrow> loop 0 it' (i + 1) (sent @ [obj])) = Some y"
      and it: "it' = iter_abs it"
    obtain x it2 where nth: "iter_nth n it = (x, it2)" by fastforce
    have "loop 0 (iter_abs it2) j more = Some y \<Longrightarrow> broadcast_loop 0 it2 j more = Some y" for j more
      using IH by blast
    with run show "broadcast_loop n it i sent = Some y"
      by (subst broadcast_loop.simps) (auto simp: it iter_nth_abs nth split: option.splits)
  qed
  ultimately show ?thesis by (metis not_None_eq)
qed

lemma take_available_abs: "take_available k n (iter_abs it) = take_available k n it"
  by (induction k arbitrary: n it) (auto simp: iter_nth_abs split: prod.splits option.splits)

lemma collect_abs: "collect iter_next (iter_abs it) = collect iter_next it"
  by (rule collect_map) (auto simp: iter_next_def iter_nth_abs split: prod.splits option.splits)

lemma subscribe_abs: "subscribe mem_ops k (log_abs A pend l) = subscribe A k l"
  by (simp add: subscribe_def log_iter_abs take_available_abs) (simp add: log_abs_def)


section \<open>Operations\<close>

text \<open>The result of a call without its storage error, which working storage never gives.\<close>

definition outcome_of :: "'e failure + 'a \<Rightarrow> unit failure + 'a" where
  "outcome_of r = map_err (map_failure (\<lambda>_. ())) r"

lemma outcome_of_simps [simp]:
  "outcome_of (Inr x) = Inr x" "outcome_of (Inl (Panic m)) = Inl (Panic m)"
  "outcome_of (Inl Diverges) = Inl Diverges" "outcome_of (Inl (Failure e)) = Inl (Failure ())"
  by (simp_all add: outcome_of_def)

definition abs_outcome where
  "abs_outcome A pend r = (outcome_of (fst r), log_abs A pend (snd r))"

lemma abs_outcome_simps [simp]: "abs_outcome A pend (x, l) = (outcome_of x, log_abs A pend l)"
  by (simp add: abs_outcome_def)

lemma abs_outcome_eqD:
  assumes "abs_outcome A pend (Inr x, l) = map_prod outcome_of id r"
  shows "r = (Inr x, log_abs A pend l)"
  using assms by (cases r; cases "fst r"; cases "projl (fst r)") auto

lemma log_abs_fields:
  "cache_start (log_abs A pend l) = cache_start l" "cache_size (log_abs A pend l) = cache_size l"
  "cache (log_abs A pend l) = cache l" "pending_inserts (log_abs A pend l) = pending_inserts l"
  "stream (log_abs A pend l) = stream l" "stream_pos (log_abs A pend l) = stream_pos l"
  "store (log_abs A pend l) = (map loaded (al_iter A (store l)), pend (store l))"
  by (simp_all add: log_abs_def)

lemma store_resource_abs:
  assumes works: "storage_works A" and laws: "append_log_laws A pend"
  obtains l' where "store_resource A r l = (Inr (), l')"
    "store_resource mem_ops r (log_abs A pend l) = (Inr (), log_abs A pend l')"
proof -
  obtain st where "al_store_resource A (store l) r = (Inr (), st)" "al_iter A st = al_iter A (store l)"
      "pend st = pend (store l) @ [r]"
    by (rule storage_worksE [OF works laws])
  then show thesis
    by (intro that) (auto simp: store_resource_def Let_def log_abs_def)
qed

lemma store_placeholders_abs:
  assumes works: "storage_works A" and laws: "append_log_laws A pend"
  shows "\<exists>l'. store_placeholders A k l = (Inr (), l') \<and>
    store_placeholders mem_ops k (log_abs A pend l) = (Inr (), log_abs A pend l')"
proof (induction k arbitrary: l)
  case (Suc k)
  obtain l1 where "store_resource A None l = (Inr (), l1)"
      "store_resource mem_ops None (log_abs A pend l) = (Inr (), log_abs A pend l1)"
    by (rule store_resource_abs [OF works laws])
  with Suc.IH [of l1] show ?case by auto
qed simp

lemma log_insert_abs:
  assumes works: "storage_works A" and laws: "append_log_laws A pend"
  shows "map_prod outcome_of id (log_insert mem_ops i x (log_abs A pend l)) =
    abs_outcome A pend (log_insert A i x l)"
proof -
  let ?len = "length (al_iter A (store l)) + pending_inserts l"
  obtain l1 where pad: "store_placeholders A (max i ?len - ?len) l = (Inr (), l1)"
      "store_placeholders mem_ops (max i ?len - ?len) (log_abs A pend l) = (Inr (), log_abs A pend l1)"
    using store_placeholders_abs [OF works laws] by blast
  obtain l2 where app: "store_resource A (Some x) l1 = (Inr (), l2)"
      "store_resource mem_ops (Some x) (log_abs A pend l1) = (Inr (), log_abs A pend l2)"
    by (rule store_resource_abs [OF works laws])
  show ?thesis
    unfolding log_insert_def Let_def log_abs_fields
    by (simp add: pad app log_abs_fields)
qed

lemma commit_version_abs:
  assumes works: "storage_works A" and laws: "append_log_laws A pend"
  shows "map_prod outcome_of id (commit_version mem_ops (log_abs A pend l)) =
    abs_outcome A pend (commit_version A l)"
proof -
  obtain st where st: "al_commit_version A (store l) = (Inr (), st)"
      "al_iter A st = al_iter A (store l) @ map Inr (pend (store l))" "pend st = []"
    by (rule storage_worksE [OF works laws])
  let ?l = "l\<lparr>store := st, pending_inserts := 0\<rparr>"
  have abs: "log_abs A pend ?l = (log_abs A pend l)
      \<lparr>store := (map loaded (al_iter A (store l)) @ pend (store l), []), pending_inserts := 0\<rparr>"
    by (simp add: log_abs_def st(2,3) comp_def)
  have "broadcast_loop (stream_pos l) (log_iter mem_ops (log_abs A pend ?l)) (stream_pos l) []
      = broadcast_loop (stream_pos l) (log_iter A ?l) (stream_pos l) []"
    by (simp add: log_iter_abs broadcast_loop_abs)
  then show ?thesis
    by (simp add: commit_version_def st(1) log_abs_fields abs [symmetric] Let_def split: option.splits)
qed


lemma skip_version_abs:
  assumes works: "storage_works A" and laws: "append_log_laws A pend"
  shows "map_prod outcome_of id (skip_version mem_ops (log_abs A pend l)) =
    abs_outcome A pend (skip_version A l)"
proof -
  obtain st where "al_skip_version A (store l) = (Inr (), st)" "al_iter A st = al_iter A (store l)"
      "pend st = pend (store l)"
    by (rule storage_worksE [OF works laws])
  then show ?thesis by (simp add: skip_version_def log_abs_def)
qed

lemma revert_version_abs:
  assumes works: "storage_works A" and laws: "append_log_laws A pend"
  shows "map_prod outcome_of id (revert_version mem_ops (log_abs A pend l)) =
    abs_outcome A pend (revert_version A l)"
proof -
  obtain st where "al_revert_version A (store l) = (Inr (), st)" "al_iter A st = al_iter A (store l)"
      "pend st = []"
    by (rule storage_worksE [OF works laws])
  then show ?thesis by (simp add: revert_version_def log_abs_def)
qed

section \<open>Sequences of operations\<close>

datatype 'a log_op = StoreOp "'a option" | InsertOp nat 'a | CommitOp | SkipOp | RevertOp

fun apply_op where
  "apply_op A (StoreOp r) l = store_resource A r l"
| "apply_op A (InsertOp i x) l = log_insert A i x l"
| "apply_op A CommitOp l = commit_version A l"
| "apply_op A SkipOp l = skip_version A l"
| "apply_op A RevertOp l = revert_version A l"

text \<open>The results of all operations, a failed one included, and the final log.\<close>

fun run_ops where
  "run_ops A [] l = ([], l)"
| "run_ops A (op # ops) l =
     (case apply_op A op l of (r, l) \<Rightarrow> case run_ops A ops l of (rs, l) \<Rightarrow> (r # rs, l))"

lemma apply_op_abs:
  assumes works: "storage_works A" and laws: "append_log_laws A pend"
  shows "map_prod outcome_of id (apply_op mem_ops op (log_abs A pend l)) =
    abs_outcome A pend (apply_op A op l)"
proof (cases op)
  case (StoreOp r)
  obtain l' where "store_resource A r l = (Inr (), l')"
      "store_resource mem_ops r (log_abs A pend l) = (Inr (), log_abs A pend l')"
    by (rule store_resource_abs [OF works laws])
  then show ?thesis by (simp add: StoreOp)
qed (simp_all add: log_insert_abs [OF works laws] commit_version_abs [OF works laws]
    skip_version_abs [OF works laws] revert_version_abs [OF works laws])

lemma run_ops_abs:
  assumes works: "storage_works A" and laws: "append_log_laws A pend"
  shows "map_prod (map outcome_of) id (run_ops mem_ops ops (log_abs A pend l)) =
    map_prod (map outcome_of) (log_abs A pend) (run_ops A ops l)"
proof (induction ops arbitrary: l)
  case (Cons op ops)
  obtain r l1 where r: "apply_op A op l = (r, l1)" by fastforce
  obtain r' l1' where r': "apply_op mem_ops op (log_abs A pend l) = (r', l1')" by fastforce
  have "outcome_of r' = outcome_of r" "l1' = log_abs A pend l1"
    using apply_op_abs [OF works laws, of op l] r r' by simp_all
  with Cons.IH [of l1] r r' show ?case by (auto split: prod.splits)
qed simp


section \<open>Properties\<close>



text \<open>A log that keeps its entries in reverse.\<close>

definition rev_append_log :: "('r list, 'r list \<times> 'r list, 'r, string) append_log_ops" where
  "rev_append_log =
     \<lparr>al_create = (\<lambda>ld f n. (Inr ([], []), [])), al_load = (\<lambda>ld f n. (Inr (ld, []), ld)),
      al_store_resource = (\<lambda>(c, p) r. (Inr (), (c, r # p))),
      al_commit_version = (\<lambda>(c, p). (Inr (), (p @ c, []))), al_skip_version = (\<lambda>s. (Inr (), s)),
      al_revert_version = (\<lambda>(c, p). (Inr (), (c, []))), al_iter = (\<lambda>(c, p). map Inr (rev c))\<rparr>"

lemma rev_append_log_laws: "append_log_laws rev_append_log (\<lambda>(c, p). rev p)"
  by (auto simp: append_log_laws_def rev_append_log_def rev_map)

lemma rev_append_log_works: "storage_works rev_append_log"
  by (auto simp: storage_works_def rev_append_log_def)

abbreviation empty_log :: "(nat option list \<times> nat option list, nat) ledger_log" where
  "empty_log \<equiv> \<lparr>cache_start = 0, cache_size = 3, cache = [], store = ([], []), pending_inserts = 0,
     stream = [], stream_pos = 0\<rparr>"


end
