(* ===== verification/LedgerLogTests.thy ===== *)
theory LedgerLogTests
  imports LogRefine DataSourceTests
begin

text \<open>
  The unit tests of \<^verbatim>\<open>src/data_source/ledger_log.rs\<close>, over any append log and any atomic store: the
  state of a test is the log and the store. A failed \<^verbatim>\<open>unwrap\<close> or \<^verbatim>\<open>assert_eq!\<close> ends the test.
\<close>

section \<open>Steps of a test\<close>

text \<open>The lines that open a test: a log with a window of 3 objects, and the store over it.\<close>

definition test_create where
  "test_create A AS path =
     and_then (map_err (\<lambda>_. OtherPanic) (as_create AS path ''test_ledger_log'')) (\<lambda>loader.
     case log_create A loader ''ledger'' 3 of
       (Inl _, loader) \<Rightarrow> Inl (OtherPanic :: unit test_panic)
     | (Inr log, loader) \<Rightarrow>
         and_then (map_err (\<lambda>_. OtherPanic) (as_open AS loader)) (\<lambda>st. Inr (log, st)))"

text \<open>One change of the log, its commit, and the commit of the store, all unwrapped.\<close>

definition test_step where
  "test_step A AS op = (\<lambda>(log, st).
     case apply_op A op log of
       (Inl _, log) \<Rightarrow> Inl (OtherPanic :: unit test_panic)
     | (Inr _, log) \<Rightarrow>
         (case commit_version A log of
            (Inl _, log) \<Rightarrow> Inl (OtherPanic :: unit test_panic)
          | (Inr _, log) \<Rightarrow>
              (case as_commit_version AS st of
                 (Inl _, st) \<Rightarrow> Inl (OtherPanic :: unit test_panic)
               | (Inr _, st) \<Rightarrow> Inr (log, st))))"

fun test_steps where
  "test_steps A AS [] s = (Inr s :: unit test_panic + _)"
| "test_steps A AS (op # ops) s = and_then (test_step A AS op s) (test_steps A AS ops)"

definition check_items where
  "check_items A expected log =
     and_then (stream_items (collect iter_next (log_iter A log)))
       (\<lambda>items. check_that (items = expected) :: unit test_panic + _)"

text \<open>The loop \<^verbatim>\<open>for i in 0..5\<close> that stores five numbers, each in a version of its own.\<close>

definition five_items :: "64 word log_op list" where
  "five_items = map (\<lambda>i. StoreOp (Some (of_nat i))) [0..<5]"

section \<open>The tests\<close>

text \<open>\<open>reload\<close> is what loading the directory gives once the log and the store are dropped.\<close>

definition test_ledger_log_creation where
  "test_ledger_log_creation A AS reload path =
     and_then (test_create A AS path) (\<lambda>s.
     and_then (test_steps A AS five_items s) (\<lambda>s.
     and_then (map_err (\<lambda>_. OtherPanic) (reload s)) (\<lambda>loader.
     case log_open A loader ''ledger'' 3 of
       (Inl _, loader) \<Rightarrow> Inl (OtherPanic :: unit test_panic)
     | (Inr log, loader) \<Rightarrow>
         and_then (map_err (\<lambda>_. OtherPanic) (as_open AS loader)) (\<lambda>_.
           check_items A (map (Some \<circ> of_nat) [0..<5]) log))))"

definition test_ledger_log_insert where
  "test_ledger_log_insert A AS path =
     and_then (test_create A AS path) (\<lambda>s.
     and_then (check_items A [] (fst s)) (\<lambda>_.
     and_then (test_step A AS (InsertOp 0 (1 :: 64 word)) s) (\<lambda>s.
     and_then (check_items A [Some 1] (fst s)) (\<lambda>_.
     and_then (test_step A AS (InsertOp 4 2) s) (\<lambda>s.
     and_then (check_items A [Some 1, None, None, None, Some 2] (fst s)) (\<lambda>_.
     and_then (test_step A AS (InsertOp 2 3) s) (\<lambda>s.
     and_then (check_items A [Some 1, None, Some 3, None, Some 2] (fst s)) (\<lambda>_.
     and_then (test_step A AS (InsertOp 1 4) s) (\<lambda>_. Inr ())))))))))"

fun check_nths where
  "check_nths A log [] = (Inr () :: unit test_panic + _)"
| "check_nths A log (i # is) =
     (case iter_nth i (log_iter A log) of (item, it) \<Rightarrow>
      and_then (context_opt item OtherPanic) (\<lambda>item.
      and_then (check_that (item = Some (of_nat i :: 64 word))) (\<lambda>_.
      and_then (stream_items (collect iter_next it)) (\<lambda>items.
      and_then (check_that (items = map (Some \<circ> of_nat) [i + 1..<5])) (\<lambda>_.
        check_nths A log is)))))"

definition test_ledger_log_iter where
  "test_ledger_log_iter A AS path =
     and_then (test_create A AS path) (\<lambda>s.
     and_then (test_steps A AS five_items s) (\<lambda>s.
     and_then (check_that (log_len A (fst s) = 5)) (\<lambda>_.
     and_then (check_nths A (fst s) [0..<5]) (\<lambda>_.
       check_that (fst (iter_nth 5 (log_iter A (fst s))) = None)))))"

text \<open>The item a subscriber that has taken \<open>c\<close> items is given next; it waits forever if none comes.\<close>

definition next_item where
  "next_item sub c log =
     context_opt (list_get (subscription_items sub (drop (sub_handle sub) (stream log))) c) NoEnd"

definition check_next where
  "check_next sub c log expected =
     and_then (next_item sub c log) (\<lambda>item. check_that (item = expected) :: unit test_panic + _)"

definition test_ledger_log_subscribe where
  "test_ledger_log_subscribe A AS path =
     and_then (test_create A AS path) (\<lambda>s.
     and_then (test_step A AS (StoreOp (Some (0 :: 64 word))) s) (\<lambda>s.
     and_then (context_opt (subscribe A 0 (fst s)) OtherPanic) (\<lambda>past.
     and_then (context_opt (subscribe A 1 (fst s)) OtherPanic) (\<lambda>future.
     and_then (check_next past 0 (fst s) 0) (\<lambda>_.
     and_then (test_step A AS (StoreOp (Some 1)) s) (\<lambda>s.
     and_then (check_next past 1 (fst s) 1) (\<lambda>_.
     and_then (check_next future 0 (fst s) 1) (\<lambda>_.
     and_then (test_step A AS (InsertOp 3 3) s) (\<lambda>s.
     and_then (test_step A AS (InsertOp 2 2) s) (\<lambda>s.
     and_then (check_next past 2 (fst s) 2) (\<lambda>_.
     and_then (check_next future 1 (fst s) 2) (\<lambda>_.
     and_then (check_next past 3 (fst s) 3) (\<lambda>_.
       check_next future 2 (fst s) 3)))))))))))))"

section \<open>The tests over a list in memory\<close>

text \<open>A test over working storage is the test over the list.\<close>

definition store_works where
  "store_works AS path \<longleftrightarrow>
     (\<exists>ld. as_create AS path ''test_ledger_log'' = Inr ld) \<and> (\<forall>ld. \<exists>st. as_open AS ld = Inr st) \<and>
     (\<forall>st. fst (as_commit_version AS st) = Inr ())"

definition create_works where
  "create_works A \<longleftrightarrow> (\<forall>ld. \<exists>st ld'. al_create A ld ''ledger'' log_file_size = (Inr st, ld'))"

abbreviation mem_log0 :: "(64 word option list \<times> 64 word option list, 64 word) ledger_log" where
  "mem_log0 \<equiv> \<lparr>cache_start = 0, cache_size = 3, cache = [], store = ([], []), pending_inserts = 0,
     stream = [], stream_pos = 0\<rparr>"

lemma test_create_abs:
  fixes A :: "('ld, 's, 64 word option, 'e) append_log_ops"
  assumes laws: "append_log_laws A pend" and works: "create_works A" "store_works AS path"
  obtains log st where "test_create A AS path = Inr (log, st)" "log_abs A pend log = mem_log0"
proof -
  obtain ld where ld: "as_create AS path ''test_ledger_log'' = Inr ld"
    using works(2) by (auto simp: store_works_def)
  obtain st ld' where st: "al_create A ld ''ledger'' log_file_size = (Inr st, ld')"
    using works(1) unfolding create_works_def by blast
  obtain top where "as_open AS ld' = Inr top" using works(2) unfolding store_works_def by blast
  with ld st al_create_ok [OF laws st] that show thesis
    by (simp add: test_create_def log_create_def log_abs_def)
qed

lemma test_step_abs:
  assumes laws: "append_log_laws A pend" and works: "storage_works A" "store_works AS path"
    and abs: "log_abs A pend log = m"
    and run: "apply_op mem_ops op m = (Inr u, m1)" "commit_version mem_ops m1 = (Inr v, m2)"
  obtains log' st' where "test_step A AS op (log, st) = Inr (log', st')" "log_abs A pend log' = m2"
proof -
  obtain r1 log1 where r1: "apply_op A op log = (r1, log1)" by fastforce
  have one: "outcome_of r1 = Inr ()" "log_abs A pend log1 = m1"
    using apply_op_abs [OF works(1) laws, of op log] r1 run(1) abs by (auto simp: unit_eq)
  obtain r2 log2 where r2: "commit_version A log1 = (r2, log2)" by fastforce
  have two: "outcome_of r2 = Inr ()" "log_abs A pend log2 = m2"
    using commit_version_abs [OF works(1) laws, of log1] r2 run(2) one(2) by (auto simp: unit_eq)
  obtain st' where "as_commit_version AS st = (Inr (), st')"
    using works(2) unfolding store_works_def by (metis prod.collapse)
  moreover have "r1 = Inr ()" "r2 = Inr ()"
    using one(1) two(1) by (cases r1; simp add: outcome_of_def; cases r2; simp add: outcome_of_def)+
  ultimately show thesis using that [of log2 st'] r1 r2 two(2) by (simp add: test_step_def)
qed

text \<open>The same steps over the list; \<open>None\<close> is a failure.\<close>

fun mem_run where
  "mem_run [] m = Some m"
| "mem_run (op # ops) m =
     (case apply_op mem_ops op m of
        (Inl _, m) \<Rightarrow> None
      | (Inr _, m) \<Rightarrow> (case commit_version mem_ops m of (Inl _, m) \<Rightarrow> None | (Inr _, m) \<Rightarrow> mem_run ops m))"

lemma test_steps_abs:
  assumes laws: "append_log_laws A pend" and works: "storage_works A" "store_works AS path"
  shows "log_abs A pend log = m \<Longrightarrow> mem_run ops m = Some m' \<Longrightarrow>
    \<exists>log' st'. test_steps A AS ops (log, st) = Inr (log', st') \<and> log_abs A pend log' = m'"
proof (induction ops arbitrary: log st m)
  case Nil
  then show ?case by simp
next
  case (Cons op ops)
  obtain m1 m2 u v where run: "apply_op mem_ops op m = (Inr u, m1)" "commit_version mem_ops m1 = (Inr v, m2)"
      and rest: "mem_run ops m2 = Some m'"
    using Cons.prems(2) by (auto split: prod.splits sum.splits)
  obtain log1 st1 where one: "test_step A AS op (log, st) = Inr (log1, st1)" "log_abs A pend log1 = m2"
    by (rule test_step_abs [OF laws works Cons.prems(1) run])
  have "test_steps A AS (op # ops) (log, st) = test_steps A AS ops (log1, st1)" using one(1) by simp
  with Cons.IH [OF one(2) rest, of st1] show ?case by simp
qed

lemma test_step_mem:
  assumes "append_log_laws A pend" and "storage_works A" and "store_works AS path"
    and "log_abs A pend log = m" and "mem_run [op] m = Some m'"
  obtains log' st' where "test_step A AS op (log, st) = Inr (log', st')" "log_abs A pend log' = m'"
  using test_steps_abs [OF assms, of st] that by auto

lemmas mem_eval = log_insert_def store_resource_def commit_version_def broadcast_loop_more
  broadcast_loop_stop iter_nth_def log_iter_def list_get_def


abbreviation mem_five_items where
  "mem_five_items \<equiv> mem_log0\<lparr>cache_start := 2, cache := [Some 2, Some 3, Some 4],
     store := ([Some 0, Some 1, Some 2, Some 3, Some 4], []), stream := [0, 1, 2, 3, 4], stream_pos := 5\<rparr>"

lemma mem_five: "mem_run five_items mem_log0 = Some mem_five_items"
proof -
  have five: "five_items = [StoreOp (Some 0), StoreOp (Some 1), StoreOp (Some 2), StoreOp (Some 3), StoreOp (Some 4)]"
    by (simp add: five_items_def upt_conv_Cons)
  show ?thesis by (simp add: five mem_eval)
qed

abbreviation mem_inserted where
  "mem_inserted start xs ys \<equiv> mem_log0\<lparr>cache_start := start, cache := xs, store := (ys, []), stream := [1], stream_pos := 1\<rparr>"

lemma mem_insert1: "mem_run [InsertOp 0 1] mem_log0 = Some (mem_inserted 0 [Some 1] [Some 1])"
  by (simp add: mem_eval)


lemma mem_insert2: "mem_run [InsertOp 4 2] (mem_inserted 0 [Some 1] [Some 1]) =
    Some (mem_inserted 2 [None, None, Some 2] [Some 1, None, None, None, Some 2])"
proof -
  have "store_placeholders mem_ops 3 (mem_inserted 0 [Some 1] [Some 1]) = (Inr (),
      (mem_inserted 1 [None, None, None] [Some 1])\<lparr>store := ([Some 1], [None, None, None]), pending_inserts := 3\<rparr>)"
    by (simp add: numeral_3_eq_3 store_resource_def)
  then show ?thesis by (simp add: mem_eval)
qed

lemma mem_insert3: "mem_run [InsertOp 2 3] (mem_inserted 2 [None, None, Some 2] [Some 1, None, None, None, Some 2]) =
    Some (mem_inserted 2 [Some 3, None, Some 2] [Some 1, None, None, None, Some 2])"
  by (simp add: mem_eval)

lemma mem_insert4: "mem_run [InsertOp 1 4] (mem_inserted 2 [Some 3, None, Some 2] [Some 1, None, None, None, Some 2]) =
    Some (mem_inserted 2 [Some 3, None, Some 2] [Some 1, None, None, None, Some 2])"
  by (simp add: mem_eval)

abbreviation mem_streamed where
  "mem_streamed start xs ys sent \<equiv> mem_log0\<lparr>cache_start := start, cache := xs, store := (ys, []),
     stream := sent, stream_pos := length sent\<rparr>"

lemma mem_stream_steps:
  "mem_run [StoreOp (Some 0)] mem_log0 = Some (mem_streamed 0 [Some 0] [Some 0] [0])"
  "mem_run [StoreOp (Some 1)] (mem_streamed 0 [Some 0] [Some 0] [0]) =
     Some (mem_streamed 0 [Some 0, Some 1] [Some 0, Some 1] [0, 1])"
  by (simp_all add: mem_eval)

lemma mem_stream_gap:
  "mem_run [InsertOp 3 3] (mem_streamed 0 [Some 0, Some 1] [Some 0, Some 1] [0, 1]) =
     Some (mem_streamed 1 [Some 1, None, Some 3] [Some 0, Some 1, None, Some 3] [0, 1])"
proof -
  have "store_placeholders mem_ops 1 (mem_streamed 0 [Some 0, Some 1] [Some 0, Some 1] [0, 1]) = (Inr (),
      (mem_streamed 0 [Some 0, Some 1, None] [Some 0, Some 1] [0, 1])
        \<lparr>store := ([Some 0, Some 1], [None]), pending_inserts := 1\<rparr>)"
    by (simp add: store_resource_def)
  then show ?thesis by (simp add: mem_eval)
qed

lemma mem_stream_filled:
  "mem_run [InsertOp 2 2] (mem_streamed 1 [Some 1, None, Some 3] [Some 0, Some 1, None, Some 3] [0, 1]) =
     Some (mem_streamed 1 [Some 1, Some 2, Some 3] [Some 0, Some 1, None, Some 3] [0, 1, 2, 3])"
  by (simp add: mem_eval)

section \<open>Each test passes\<close>

lemma log_abs_reads:
  assumes "log_abs A pend log = m"
  shows "log_visible A log = log_visible mem_ops m" and "log_fits A log = log_fits mem_ops m"
    and "log_contents A log = log_contents mem_ops m" and "log_len A log = log_len mem_ops m"
    and "stream log = stream m" and "subscribe A k log = subscribe mem_ops k m"
  using log_contents_abs [of A pend log] log_len_abs [of A pend log] subscribe_abs [of k A pend log] assms
  by (auto simp: log_visible_def log_fits_def log_abs_def)

lemma check_items_abs:
  assumes abs: "log_abs A pend log = m" and "log_visible mem_ops m" and "log_fits mem_ops m"
    and "log_contents mem_ops m = expected"
  shows "check_items A expected log = Inr ()"
  using collect_log_iter [of A log] assms(2-4) by (simp add: check_items_def log_abs_reads [OF abs])

lemma insert_test_ok:
  assumes laws: "append_log_laws A pend" and works: "create_works A" "storage_works A" "store_works AS path"
  shows "test_ledger_log_insert A AS path = Inr ()"
proof -
  obtain l0 s0 where s0: "test_create A AS path = Inr (l0, s0)" "log_abs A pend l0 = mem_log0"
    by (rule test_create_abs [OF laws works(1,3)])
  obtain l1 s1 where s1: "test_step A AS (InsertOp 0 1) (l0, s0) = Inr (l1, s1)"
      "log_abs A pend l1 = mem_inserted 0 [Some 1] [Some 1]"
    by (rule test_step_mem [OF laws works(2,3) s0(2) mem_insert1])
  obtain l2 s2 where s2: "test_step A AS (InsertOp 4 2) (l1, s1) = Inr (l2, s2)"
      "log_abs A pend l2 = mem_inserted 2 [None, None, Some 2] [Some 1, None, None, None, Some 2]"
    by (rule test_step_mem [OF laws works(2,3) s1(2) mem_insert2])
  obtain l3 s3 where s3: "test_step A AS (InsertOp 2 3) (l2, s2) = Inr (l3, s3)"
      "log_abs A pend l3 = mem_inserted 2 [Some 3, None, Some 2] [Some 1, None, None, None, Some 2]"
    by (rule test_step_mem [OF laws works(2,3) s2(2) mem_insert3])
  obtain l4 s4 where s4: "test_step A AS (InsertOp 1 4) (l3, s3) = Inr (l4, s4)"
    by (rule test_step_mem [OF laws works(2,3) s3(2) mem_insert4])
  note check = log_visible_def log_fits_def log_contents_def
  have "check_items A [] l0 = Inr ()" "check_items A [Some 1] l1 = Inr ()"
    "check_items A [Some 1, None, None, None, Some 2] l2 = Inr ()"
    "check_items A [Some 1, None, Some 3, None, Some 2] l3 = Inr ()"
    by (rule check_items_abs [OF s0(2)] check_items_abs [OF s1(2)] check_items_abs [OF s2(2)]
        check_items_abs [OF s3(2)]; simp add: check)+
  with s0(1) s1(1) s2(1) s3(1) s4 show ?thesis by (simp add: test_ledger_log_insert_def)
qed

lemma five_items_state:
  assumes laws: "append_log_laws A pend" and works: "create_works A" "storage_works A" "store_works AS path"
  obtains log0 st0 log st where "test_create A AS path = Inr (log0, st0)"
    "test_steps A AS five_items (log0, st0) = Inr (log, st)" "log_abs A pend log = mem_five_items"
proof -
  obtain l0 s0 where s0: "test_create A AS path = Inr (l0, s0)" "log_abs A pend l0 = mem_log0"
    by (rule test_create_abs [OF laws works(1,3)])
  with test_steps_abs [OF laws works(2,3) s0(2) mem_five, of s0] that show thesis by blast
qed

lemma iter_test_ok:
  assumes laws: "append_log_laws A pend" and works: "create_works A" "storage_works A" "store_works AS path"
  shows "test_ledger_log_iter A AS path = Inr ()"
proof -
  obtain log0 st0 log st where s: "test_create A AS path = Inr (log0, st0)"
    "test_steps A AS five_items (log0, st0) = Inr (log, st)" "log_abs A pend log = mem_five_items"
    by (rule five_items_state [OF laws works])
  note reads = log_abs_reads [OF s(3)] and state = log_visible_def log_fits_def log_contents_def
  have vis: "log_visible A log" and fits: "log_fits A log"
    using reads(1,2) by (simp_all add: state)
  have C: "log_contents A log = map (Some \<circ> of_nat) [0..<5]"
    using reads(3) by (simp add: state upt_conv_Cons)
  have nth: "\<exists>it. iter_nth i (log_iter A log) = (list_get (map (Some \<circ> of_nat) [0..<5]) i, it) \<and>
      it_at A log (Suc i) it" if "i \<le> 5" for i
    using iter_nthE [OF vis it_at_start, of i] that C by fastforce
  have "check_nths A log is = Inr ()" if "\<forall>i \<in> set is. i < 5" for "is"
    using that
  proof (induction "is")
    case (Cons i "is")
    then obtain it where it: "iter_nth i (log_iter A log) = (Some (Some (of_nat i)), it)" "it_at A log (Suc i) it"
      using nth [of i] by (auto simp: list_get_def)
    have "collect iter_next it = Some (map (Some \<circ> of_nat) [i + 1..<5])"
      using collect_it_at [OF vis fits it(2)] Cons.prems C by (simp add: drop_map)
    with it(1) Cons show ?case by simp
  qed simp
  moreover have "log_len A log = 5" using reads(4) by (simp add: log_len_eq)
  moreover have "fst (iter_nth 5 (log_iter A log)) = None" using nth [of 5] by (auto simp: list_get_def)
  ultimately show ?thesis using s(1,2) by (simp add: test_ledger_log_iter_def)
qed

lemma check_nextI:
  "list_get (subscription_items sub (drop (sub_handle sub) (stream log))) c = Some x \<Longrightarrow>
     check_next sub c log x = Inr ()"
  by (simp add: check_next_def next_item_def)

lemma subscribe_test_ok:
  assumes laws: "append_log_laws A pend" and works: "create_works A" "storage_works A" "store_works AS path"
  shows "test_ledger_log_subscribe A AS path = Inr ()"
proof -
  obtain l0 s0 where s0: "test_create A AS path = Inr (l0, s0)" "log_abs A pend l0 = mem_log0"
    by (rule test_create_abs [OF laws works(1,3)])
  obtain l1 s1 where s1: "test_step A AS (StoreOp (Some 0)) (l0, s0) = Inr (l1, s1)"
      "log_abs A pend l1 = mem_streamed 0 [Some 0] [Some 0] [0]"
    by (rule test_step_mem [OF laws works(2,3) s0(2) mem_stream_steps(1)])
  obtain l2 s2 where s2: "test_step A AS (StoreOp (Some 1)) (l1, s1) = Inr (l2, s2)"
      "log_abs A pend l2 = mem_streamed 0 [Some 0, Some 1] [Some 0, Some 1] [0, 1]"
    by (rule test_step_mem [OF laws works(2,3) s1(2) mem_stream_steps(2)])
  obtain l3 s3 where s3: "test_step A AS (InsertOp 3 3) (l2, s2) = Inr (l3, s3)"
      "log_abs A pend l3 = mem_streamed 1 [Some 1, None, Some 3] [Some 0, Some 1, None, Some 3] [0, 1]"
    by (rule test_step_mem [OF laws works(2,3) s2(2) mem_stream_gap])
  obtain l4 s4 where s4: "test_step A AS (InsertOp 2 2) (l3, s3) = Inr (l4, s4)"
      "log_abs A pend l4 = mem_streamed 1 [Some 1, Some 2, Some 3] [Some 0, Some 1, None, Some 3] [0, 1, 2, 3]"
    by (rule test_step_mem [OF laws works(2,3) s3(2) mem_stream_filled])
  have subs: "subscribe A 0 l1 = Some \<lparr>sub_prefix = [0], sub_skip = 0, sub_handle = 1\<rparr>"
    "subscribe A 1 l1 = Some \<lparr>sub_prefix = [], sub_skip = 0, sub_handle = 1\<rparr>"
    unfolding log_abs_reads(6) [OF s1(2)] by (simp_all add: subscribe_def mem_eval)
  show ?thesis
    by (simp add: test_ledger_log_subscribe_def s0(1) s1(1) s2(1) s3(1) s4(1) subs check_nextI
        subscription_items_def list_get_def log_abs_reads(5) [OF s1(2)] log_abs_reads(5) [OF s2(2)]
        log_abs_reads(5) [OF s4(2)] del: One_nat_def)
qed

text \<open>Loading what was stored: the storage gives back the committed entries.\<close>

definition reload_works where
  "reload_works A reload \<longleftrightarrow>
     (\<forall>log st. \<exists>ld st' ld'. reload (log, st) = Inr ld \<and>
        al_load A ld ''ledger'' log_file_size = (Inr st', ld') \<and> al_iter A st' = al_iter A (store log))"

lemma creation_test_ok:
  assumes laws: "append_log_laws A pend" and works: "create_works A" "storage_works A" "store_works AS path"
    and reload: "reload_works A reload"
  shows "test_ledger_log_creation A AS reload path = Inr ()"
proof -
  obtain log0 st0 log st where s: "test_create A AS path = Inr (log0, st0)"
    "test_steps A AS five_items (log0, st0) = Inr (log, st)" "log_abs A pend log = mem_five_items"
    by (rule five_items_state [OF laws works])
  obtain ld st' ld' where ld: "reload (log, st) = Inr ld"
      "al_load A ld ''ledger'' log_file_size = (Inr st', ld')" "al_iter A st' = al_iter A (store log)"
    using reload unfolding reload_works_def by blast
  obtain log' where log': "log_open A ld ''ledger'' 3 = (Inr log', ld')"
    and l: "log_ok A pend log'" "log_contents A log' = map loaded (al_iter A st')"
    by (rule log_open_ok [OF laws ld(2), where sz = 3]) simp
  have C: "log_contents A log' = map (Some \<circ> of_nat) [0..<5]"
    using s(3) l(2) ld(3) by (simp add: log_abs_def upt_conv_Cons)
  then have "log_visible A log'" "log_fits A log'"
    using l(1) ledger.len_items [OF l(1)] by (simp_all add: log_ok_def log_fits_len)
  then have "check_items A (map (Some \<circ> of_nat) [0..<5]) log' = Inr ()"
    by (simp add: check_items_def collect_log_iter C)
  moreover obtain top where "as_open AS ld' = Inr top" using works(3) unfolding store_works_def by blast
  ultimately show ?thesis
    by (simp add: test_ledger_log_creation_def s(1,2) ld(1) log')
qed

section \<open>Properties\<close>

text \<open>
  C18. The unit tests of the ledger log pass over every append log that keeps its contract, works,
  and gives the committed entries back when it is loaded: creating and reloading, inserting at the
  end, past it and before it, iterating from any position, and subscribers that receive objects
  inserted out of order in order.
\<close>

theorem ledger_log_tests_pass:
  assumes "append_log_laws A pend" and "create_works A" and "storage_works A" and "store_works AS path"
    and "reload_works A reload"
  shows "test_ledger_log_creation A AS reload path = Inr () \<and> test_ledger_log_insert A AS path = Inr () \<and>
    test_ledger_log_iter A AS path = Inr () \<and> test_ledger_log_subscribe A AS path = Inr ()"
  using creation_test_ok [OF assms] insert_test_ok [OF assms(1-4)] iter_test_ok [OF assms(1-4)]
    subscribe_test_ok [OF assms(1-4)] by simp

text \<open>A store over the log that keeps its entries in reverse.\<close>

definition rev_store :: "(unit, 'r list, nat, string) atomic_store_ops" where
  "rev_store =
     \<lparr>as_create = (\<lambda>path name. Inr []), as_load = (\<lambda>path name. Inr []), as_open = (\<lambda>ld. Inr 0),
      as_commit_version = (\<lambda>n. (Inr (), n + 1)), as_other_load = (\<lambda>err. ''other'')\<rparr>"

theorem ledger_log_tests_pass_witness:
  "test_ledger_log_subscribe rev_append_log rev_store () = Inr ()"
proof (rule ledger_log_tests_pass [OF rev_append_log_laws _ rev_append_log_works,
      THEN conjunct2, THEN conjunct2, THEN conjunct2])
  show "create_works rev_append_log" "store_works rev_store ()"
    by (simp_all add: create_works_def store_works_def rev_append_log_def rev_store_def split: prod.splits)
  show "reload_works rev_append_log (\<lambda>(log, st). Inr (fst (store log)) :: string + _)"
    by (simp add: reload_works_def rev_append_log_def split: prod.splits)
qed

end
