(* ===== verification/SchemaTests.thy ===== *)
theory SchemaTests
  imports SqlDataSource DataSourceTests
begin

text \<open>
  Connecting to a database in different states of its schema: the test of \<^verbatim>\<open>connect\<close> with and
  without running migrations (\<^verbatim>\<open>src/data_source/sql.rs\<close>), over any migration runner that behaves as
  refinery documents, and what the check without running migrations misses.
\<close>

section \<open>The migration runner\<close>

text \<open>
  \<open>applied c\<close> is the history the runner keeps in the database, and \<open>runs base new\<close> tells whether the
  SQL of \<open>new\<close> executes after that of \<open>base\<close>. A run refuses a list that misses an applied migration or
  has an unapplied one below an applied one, and otherwise applies the unapplied ones in one
  transaction (\<^verbatim>\<open>set_grouped\<close>).
\<close>

definition runner_laws where
  "runner_laws K M applied runs \<longleftrightarrow>
     (\<forall>ms c. \<exists>c'. last_applied K ms c = (Inr (last_opt (applied c)), c') \<and> applied c' = applied c) \<and>
     (\<forall>ms c. let new = filter (\<lambda>m. m \<notin> set (applied c)) ms in
        if set (applied c) \<subseteq> set ms \<and> (\<forall>m \<in> set new. \<forall>a \<in> set (applied c). version M a < version M m) \<and>
           (new = [] \<or> runs (applied c) new)
        then \<exists>c'. run_migrations K ms c = (Inr (), c') \<and> applied c' = applied c @ new
        else \<exists>e c'. run_migrations K ms c = (Inl e, c') \<and> applied c' = applied c)"

section \<open>The test\<close>

definition test_config where
  "test_config port migrations custom =
     (let cfg = config_migrations custom (config_port port (config_password ''password''
            (config_user ''postgres'' config_default)))
      in if \<not> migrations then config_no_migrations cfg else cfg)"

text \<open>
  The part of \<^verbatim>\<open>connect\<close> that concerns the schema, on the database \<open>c\<close>; what it does besides does
  not depend on the configured migrations.
\<close>

definition test_connect where
  "test_connect K M mj embedded port migrations custom c =
     sql_prepare_schema K M mj embedded (test_config port migrations custom) c"

definition expect_ok where
  "expect_ok r = (case r of (Inr _, c) \<Rightarrow> Inr c | (Inl _, c) \<Rightarrow> Inl (OtherPanic :: unit test_panic))"

definition expect_err where
  "expect_err r = (case r of (Inl (Failure _), c) \<Rightarrow> Inr c | (_, c) \<Rightarrow> Inl (OtherPanic :: unit test_panic))"

definition test_migrations where
  "test_migrations K M mj embedded port v11 v12 c =
     and_then (expect_err (test_connect K M mj embedded port False [] c)) (\<lambda>c.
     and_then (expect_ok (test_connect K M mj embedded port True [] c)) (\<lambda>c.
     and_then (expect_ok (test_connect K M mj embedded port False [] c)) (\<lambda>c.
     and_then (expect_ok (test_connect K M mj embedded port True [v12, v11] c)) (\<lambda>c.
     and_then (expect_err (test_connect K M mj embedded port False [] c)) (\<lambda>c.
     and_then (expect_ok (test_connect K M mj embedded port True [v12, v11] c)) (\<lambda>_. Inr ()))))))"

section \<open>Merged migrations\<close>

lemma merge_prefer_append:
  "\<forall>d \<in> set ds. \<forall>c \<in> set cs. version M d < version M c \<Longrightarrow> merge_prefer M ds cs = ds @ cs"
  by (induction M ds cs rule: merge_prefer.induct) auto

lemma last_greatest:
  assumes "sorted_wrt (<) (versions M ms)" and "x \<in> set ms" and "\<forall>y \<in> set ms. version M y \<le> version M x"
  shows "last_opt ms = Some x"
proof (cases ms rule: rev_cases)
  case (snoc ys y)
  with assms show ?thesis by (fastforce simp: last_opt_def sorted_wrt_append)
qed (use assms in simp)

lemma default_migrations_sorted:
  assumes "\<And>a b. migration_le M a b \<longleftrightarrow> version M a \<le> version M b"
    and "default_migrations M embedded = Inr defaults"
  shows "sorted_wrt (<) (versions M defaults)"
proof -
  have "validate_migrations M embedded = (Inr (), defaults)"
    using assms(2) by (auto simp: default_migrations_def split: prod.splits sum.splits option.splits)
  moreover note validate_migrations_ok [OF assms(1), of embedded]
  ultimately show ?thesis by (simp add: strict_sorted_iff) (metis mset_map mset_eq_imp_distinct_iff)
qed

lemma validate_two:
  assumes order: "\<And>a b. migration_le M a b \<longleftrightarrow> version M a \<le> version M b"
    and "version M a < version M b"
  shows "validate_migrations M [b, a] = (Inr (), [a, b])" and "validate_migrations M [] = (Inr (), [])"
  using assms(2) by (simp_all add: validate_migrations_def order)

section \<open>Connecting\<close>

lemma test_connect_check:
  assumes runner: "runner_laws K M applied runs" and defaults: "default_migrations M embedded = Inr defaults"
    and custom: "validate_migrations M custom = (Inr (), sorted_custom)"
    and merged: "add_custom_migrations mj M defaults sorted_custom = merged"
  obtains e c' where "test_connect K M mj embedded port False custom c =
      (if last_opt (applied c) = last_opt merged then Inr () else Inl (Failure e), c')"
    "applied c' = applied c"
proof -
  obtain c' where "last_applied K merged c = (Inr (last_opt (applied c)), c')" "applied c' = applied c"
    using runner unfolding runner_laws_def by blast
  moreover from this(1) defaults custom merged have "test_connect K M mj embedded port False custom c =
      (if last_opt (applied c) = last_opt merged then Inr ()
       else Inl (Failure (any_msg K ''DB is out of date'')), c')"
    by (simp add: test_connect_def test_config_def config_no_migrations_def config_migrations_def
        config_port_def config_password_def config_user_def config_default_def sql_prepare_schema_def)
  ultimately show thesis using that by blast
qed

lemma test_connect_run:
  assumes runner: "runner_laws K M applied runs" and defaults: "default_migrations M embedded = Inr defaults"
    and custom: "validate_migrations M custom = (Inr (), sorted_custom)"
    and merged: "add_custom_migrations mj M defaults sorted_custom = applied c @ new"
    and new: "set new \<inter> set (applied c) = {}"
      "\<forall>m \<in> set new. \<forall>a \<in> set (applied c). version M a < version M m"
      "new = [] \<or> runs (applied c) new"
  obtains c' where "test_connect K M mj embedded port True custom c = (Inr (), c')"
    "applied c' = applied c @ new"
proof -
  have "filter (\<lambda>m. m \<notin> set (applied c)) (applied c @ new) = new"
    using new(1) by (auto simp: filter_id_conv)
  with runner [unfolded runner_laws_def, THEN conjunct2, THEN spec, of "applied c @ new", THEN spec, of c]
    new(2,3) have "\<exists>c'. run_migrations K (applied c @ new) c = (Inr (), c') \<and> applied c' = applied c @ new"
    by (simp add: Let_def)
  then obtain c' where "run_migrations K (applied c @ new) c = (Inr (), c')" "applied c' = applied c @ new"
    by blast
  with defaults custom merged that show thesis
    by (simp add: test_connect_def test_config_def config_migrations_def
        config_port_def config_password_def config_user_def config_default_def sql_prepare_schema_def)
qed

section \<open>Properties\<close>

text \<open>
  C29. The migration test of the repository passes for every migration runner that behaves as
  documented: a fresh database is refused without running migrations and accepted after running them,
  custom migrations given out of order run in order, and afterwards a client without them is refused.
\<close>

theorem migrations_test_passes:
  assumes "merge_join_laws mj" and "runner_laws K M applied runs"
    and "\<And>a b. migration_le M a b \<longleftrightarrow> version M a \<le> version M b"
    and "default_migrations M embedded = Inr defaults" and "defaults \<noteq> []"
    and "\<forall>d \<in> set defaults. version M d < version M v11" and "version M v11 < version M v12"
    and "applied c = []" and "runs [] defaults" and "runs defaults [v11, v12]"
  shows "test_migrations K M mj embedded port v11 v12 c = Inr ()"
proof -
  note none = validate_two(2) [OF assms(3,7)] and two = validate_two(1) [OF assms(3,7)]
  have merged: "add_custom_migrations mj M defaults [] = defaults"
    "add_custom_migrations mj M defaults [v11, v12] = defaults @ [v11, v12]"
    unfolding add_custom_migrations_merge [OF assms(1)] using assms(6,7)
    by (subst merge_prefer_append; force)+
  have apart: "set [v11, v12] \<inter> set defaults = {}"
    and above: "\<forall>m \<in> set [v11, v12]. \<forall>a \<in> set defaults. version M a < version M m"
    using assms(6,7) by auto
  have ahead: "last_opt (defaults @ [v11, v12]) \<noteq> last_opt defaults"
    using apart assms(5) by (auto simp: last_opt_def)
  obtain e1 c1 where c1: "test_connect K M mj embedded port False [] c = (Inl (Failure e1), c1)" "applied c1 = []"
    using test_connect_check [OF assms(2,4) none merged(1), of port c] assms(5,8) by (auto simp: last_opt_def)
  obtain c2 where c2: "test_connect K M mj embedded port True [] c1 = (Inr (), c2)" "applied c2 = defaults"
    using test_connect_run [OF assms(2,4) none, of mj c1 defaults port] merged(1) c1(2) assms(9) by auto
  obtain c3 where c3: "test_connect K M mj embedded port False [] c2 = (Inr (), c3)" "applied c3 = defaults"
    using test_connect_check [OF assms(2,4) none merged(1), of port c2] c2(2) by auto
  obtain c4 where c4: "test_connect K M mj embedded port True [v12, v11] c3 = (Inr (), c4)"
      "applied c4 = defaults @ [v11, v12]"
    using test_connect_run [OF assms(2,4) two, of mj c3 "[v11, v12]" port] merged(2) c3(2) apart above assms(10)
    by auto
  obtain e5 c5 where c5: "test_connect K M mj embedded port False [] c4 = (Inl (Failure e5), c5)"
      "applied c5 = defaults @ [v11, v12]"
    using test_connect_check [OF assms(2,4) none merged(1), of port c4] c4(2) ahead by auto
  obtain c6 where c6: "test_connect K M mj embedded port True [v12, v11] c5 = (Inr (), c6)"
    using test_connect_run [OF assms(2,4) two, of mj c5 "[]" port] merged(2) c5(2) by auto
  show ?thesis
    by (simp add: test_migrations_def c1(1) c2(1) c3(1) c4(1) c5(1) c6 expect_ok_def expect_err_def)
qed

text \<open>
  The check without running migrations looks at the last migration alone: a database at the default
  schema is accepted by a client whose custom migrations all come before the last default one, though
  none of them is applied.
\<close>

theorem schema_check_last_only:
  assumes "merge_join_laws mj" and "runner_laws K M applied runs"
    and "\<And>a b. migration_le M a b \<longleftrightarrow> version M a \<le> version M b"
    and "default_migrations M embedded = Inr defaults" and "validate_migrations M custom = (Inr (), custom')"
    and "custom \<noteq> []" and "last_opt defaults = Some d"
    and "\<forall>m \<in> set custom. version M m < version M d \<and> version M m \<notin> version M ` set defaults"
    and "applied c = defaults" and "cfg_migrations cfg = custom" and "cfg_no_migrations cfg"
  shows "\<exists>c'. sql_prepare_schema K M mj embedded cfg c = (Inr (), c') \<and>
    set custom \<inter> set (applied c') = {}"
proof -
  let ?merged = "add_custom_migrations mj M defaults custom'"
  have sorted: "sorted_wrt (<) (versions M defaults)" "sorted_wrt (<) (versions M custom')"
    and same: "set custom' = set custom"
    using default_migrations_sorted [OF assms(3,4)] validate_migrations_sorts [OF assms(3,5)]
    by (auto dest: mset_eq_setD)
  have merge: "sorted_wrt (<) (versions M ?merged)"
    "set ?merged = set custom \<union> {d \<in> set defaults. version M d \<notin> version M ` set custom}"
    unfolding add_custom_migrations_merge [OF assms(1)]
    using sorted_merge_prefer [OF sorted] set_merge_prefer [OF sorted] same by simp_all
  have d: "d \<in> set defaults" using assms(7) by (auto simp: last_opt_def split: if_splits)
  have top: "\<forall>y \<in> set defaults. version M y \<le> version M d"
    using sorted(1) assms(7)
    by (cases defaults rule: rev_cases) (auto simp: last_opt_def sorted_wrt_append less_imp_le)
  have "d \<in> set ?merged" "\<forall>y \<in> set ?merged. version M y \<le> version M d"
    using merge(2) d top assms(8) by (auto simp: less_imp_le)
  then have "last_opt ?merged = Some d" by (rule last_greatest [OF merge(1)])
  moreover obtain c' where "last_applied K ?merged c = (Inr (last_opt (applied c)), c')" "applied c' = applied c"
    using assms(2) unfolding runner_laws_def by blast
  ultimately have "sql_prepare_schema K M mj embedded cfg c = (Inr (), c')" "applied c' = defaults"
    using assms(4,5,7,9-11) by (simp_all add: sql_prepare_schema_def)
  moreover have "set custom \<inter> set defaults = {}" using assms(8) by blast
  ultimately show ?thesis by blast
qed


section \<open>Witnesses\<close>

text \<open>A runner whose database is its history.\<close>

definition mem_runner :: "(nat, nat list, string) connect_ops" where
  "mem_runner =
     \<lparr>open_client = (\<lambda>_. Inr []), last_applied = (\<lambda>ms c. (Inr (last_opt c), c)),
      run_migrations = (\<lambda>ms c. let new = filter (\<lambda>m. m \<notin> set c) ms in
        if set c \<subseteq> set ms \<and> (\<forall>m \<in> set new. \<forall>a \<in> set c. version nat_migrations a < version nat_migrations m)
        then (Inr (), c @ new) else (Inl ''refused'', c)),
      any_msg = id\<rparr>"

lemma mem_runner_laws: "runner_laws mem_runner nat_migrations id (\<lambda>_ _. True)"
  by (auto simp: runner_laws_def mem_runner_def Let_def)

lemma nat_defaults: "default_migrations nat_migrations [1000] = Inr [1000]"
  by (simp add: default_migrations_def validate_migrations_def nat_migrations_def)

theorem migrations_test_passes_witness:
  "test_migrations mem_runner nat_migrations merge_join [1000] 5432 1100 1200 [] = Inr ()"
  by (rule migrations_test_passes [OF merge_join_laws_hold mem_runner_laws _ nat_defaults])
    (simp_all add: nat_migrations_def)

theorem schema_check_last_only_witness:
  "\<exists>c'. sql_prepare_schema mem_runner nat_migrations merge_join [1000]
      (config_no_migrations (config_migrations [500] config_default)) [1000] = (Inr (), c') \<and>
    set [500] \<inter> set (id c') = {}"
proof (rule schema_check_last_only [OF merge_join_laws_hold mem_runner_laws _ nat_defaults])
  show "validate_migrations nat_migrations [500] = (Inr (), [500])"
    by (simp add: validate_migrations_def)
  show "last_opt [1000] = Some (1000 :: nat)" by (simp add: last_opt_def)
qed (simp_all add: nat_migrations_def config_no_migrations_def config_migrations_def config_default_def)

end
