(* ===== verification/MetricsTests.thy ===== *)
theory MetricsTests
  imports PromProps DataSourceTests
begin

text \<open>
  The unit tests of \<^verbatim>\<open>src/metrics.rs\<close>, and what the code relies on in the \<^verbatim>\<open>prometheus\<close> crate, in
  \<^verbatim>\<open>f64\<close> and in the standard library to pass them: every metric keeps its own value, a registry
  exports what is registered in it and refuses only a name that is taken, and arithmetic on small
  whole numbers is exact.
\<close>

section \<open>Lines of a text\<close>

text \<open>\<^verbatim>\<open>str::lines\<close>: every line ends in a newline, with or without a carriage return, or at the end.\<close>

definition strip_cr :: "string \<Rightarrow> string" where
  "strip_cr s = (if s \<noteq> [] \<and> last s = CHR 0x0D then butlast s else s)"

definition str_lines :: "string \<Rightarrow> string list" where
  "str_lines s =
     (let ws = split_on (CHR 0x0A) s
      in map strip_cr (butlast ws) @ (if last ws = [] then [] else [last ws]))"

lemma split_on_nonempty [simp]: "split_on c s \<noteq> []"
  by (cases s) (auto split: list.splits)

lemma split_on_append: "split_on c (a @ c # b) = split_on c a @ split_on c b"
  by (induction a) (auto split: list.splits)

lemma str_lines_append:
  "str_lines (a @ CHR 0x0A # b) = map strip_cr (split_on (CHR 0x0A) a) @ str_lines b"
  by (simp add: str_lines_def split_on_append butlast_append Let_def)

section \<open>The crate and its numbers\<close>

datatype ('c, 'g, 'h) collector = CounterC 'c | GaugeC 'g | HistogramC 'h

text \<open>The names a registry has collectors under, and the name a metric was made with.\<close>

record ('p, 'r, 'c, 'g, 'h) prom_view =
  registered :: "'p \<Rightarrow> 'r \<rightharpoonup> (string \<rightharpoonup> ('c, 'g, 'h) collector)"
  counter_name :: "'c \<Rightarrow> string"
  gauge_name :: "'g \<Rightarrow> string"
  histogram_name :: "'h \<Rightarrow> string"

definition fq_name :: "opts \<Rightarrow> string" where
  "fq_name os = joined ''_'' (filter (\<lambda>s. s \<noteq> []) [opt_namespace os, opt_subsystem os, opt_name os])"

definition letter :: "char \<Rightarrow> bool" where
  "letter c = (let n = of_char c :: nat in 65 \<le> n \<and> n \<le> 90 \<or> 97 \<le> n \<and> n \<le> 122 \<or> n = 95 \<or> n = 58)"

definition digit :: "char \<Rightarrow> bool" where
  "digit c = (let n = of_char c :: nat in 48 \<le> n \<and> n \<le> 57)"

definition opts_ok :: "opts \<Rightarrow> bool" where
  "opts_ok os = (opt_name os \<noteq> [] \<and> opt_help os \<noteq> [] \<and>
     letter (hd (fq_name os)) \<and> list_all (\<lambda>c. letter c \<or> digit c) (fq_name os))"

definition prom_values where
  "prom_values P p = (counter_value P p, gauge_value P p, histogram_count P p, histogram_total P p)"

text \<open>The lines of the text format that hold the value of a metric.\<close>

fun sample_lines where
  "sample_lines P show_f of_usize p name (CounterC c) = [name @ '' '' @ show_f (of_usize (counter_value P p c))]"
| "sample_lines P show_f of_usize p name (GaugeC g) = [name @ '' '' @ show_f (of_usize (gauge_value P p g))]"
| "sample_lines P show_f of_usize p name (HistogramC h) =
     [name @ ''_sum '' @ show_f (histogram_total P p h),
      name @ ''_count '' @ show_f (of_usize (histogram_count P p h))]"

definition registry_law where
  "registry_law P V \<longleftrightarrow> (\<forall>p r p'. registry_new P p = (r, p') \<longrightarrow>
     registered V p r = None \<and> registered V p' = (registered V p)(r \<mapsto> Map.empty) \<and>
     prom_values P p' = prom_values P p)"

definition make_law where
  "make_law P V zero \<longleftrightarrow> (\<forall>os p. opts_ok os \<longrightarrow>
     (\<exists>c p'. counter_with_opts P os p = (Inr c, p') \<and> counter_name V c = fq_name os \<and>
        registered V p' = registered V p \<and> prom_values P p' =
          ((counter_value P p)(c := 0), gauge_value P p, histogram_count P p, histogram_total P p)) \<and>
     (\<exists>g p'. gauge_with_opts P os p = (Inr g, p') \<and> gauge_name V g = fq_name os \<and>
        registered V p' = registered V p \<and> prom_values P p' =
          (counter_value P p, (gauge_value P p)(g := 0), histogram_count P p, histogram_total P p)) \<and>
     (\<exists>h p'. histogram_with_opts P os p = (Inr h, p') \<and> histogram_name V h = fq_name os \<and>
        registered V p' = registered V p \<and> prom_values P p' =
          (counter_value P p, gauge_value P p, (histogram_count P p)(h := 0),
           (histogram_total P p)(h := zero))))"

definition registers where
  "registers P V reg_fn name col r p \<longleftrightarrow> (\<forall>m. registered V p r = Some m \<longrightarrow> m name = None \<longrightarrow>
     (\<exists>p'. reg_fn p = (Inr (), p') \<and> registered V p' = (registered V p)(r \<mapsto> m(name \<mapsto> col)) \<and>
       prom_values P p' = prom_values P p))"

definition register_law where
  "register_law P V \<longleftrightarrow> (\<forall>r p.
     (\<forall>c. registers P V (counter_register P r c) (counter_name V c) (CounterC c) r p) \<and>
     (\<forall>g. registers P V (gauge_register P r g) (gauge_name V g) (GaugeC g) r p) \<and>
     (\<forall>h. registers P V (histogram_register P r h) (histogram_name V h) (HistogramC h) r p))"

definition write_law where
  "write_law P V fadd \<longleftrightarrow> (\<forall>p x y c g h.
     registered V (counter_inc_by P c x p) = registered V p \<and>
     registered V (gauge_store P g x p) = registered V p \<and>
     registered V (histogram_observe P h y p) = registered V p \<and>
     prom_values P (counter_inc_by P c x p) = ((counter_value P p)(c := counter_value P p c + x),
       gauge_value P p, histogram_count P p, histogram_total P p) \<and>
     prom_values P (gauge_store P g x p) = (counter_value P p, (gauge_value P p)(g := x),
       histogram_count P p, histogram_total P p) \<and>
     prom_values P (histogram_observe P h y p) = (counter_value P p, gauge_value P p,
       (histogram_count P p)(h := histogram_count P p h + 1),
       (histogram_total P p)(h := fadd (histogram_total P p h) y)))"

text \<open>\<open>utf8_error\<close> is None on texts that are UTF-8.\<close>

definition encode_law where
  "encode_law P V show_f of_usize utf8_error \<longleftrightarrow> (\<forall>p r m. registered V p r = Some m \<longrightarrow>
     (\<exists>text. gather_encode P p r = Inr text \<and> utf8_error text = None \<and>
       (\<forall>name col. m name = Some col \<longrightarrow>
          set (sample_lines P show_f of_usize p name col) \<subseteq> set (str_lines text))))"

definition prom_laws where
  "prom_laws P V fadd of_usize show_f utf8_error \<longleftrightarrow>
     registry_law P V \<and> make_law P V (of_usize 0) \<and> register_law P V \<and> write_law P V fadd \<and>
     encode_law P V show_f of_usize utf8_error"

definition utf8_laws :: "(string \<Rightarrow> string option) \<Rightarrow> bool" where
  "utf8_laws utf8_error \<longleftrightarrow>
     (\<forall>s. (\<forall>c \<in> set s. (of_char c :: nat) < 128) \<longrightarrow> utf8_error s = None) \<and>
     (\<forall>s t. utf8_error s = None \<longrightarrow> utf8_error t = None \<longrightarrow> utf8_error (s @ t) = None)"

text \<open>Whole numbers up to \<open>2 ^ 53\<close> are exact.\<close>

definition float_laws :: "('f \<Rightarrow> 'f \<Rightarrow> 'f) \<Rightarrow> ('f \<Rightarrow> 'f \<Rightarrow> 'f) \<Rightarrow> (64 word \<Rightarrow> 'f) \<Rightarrow> ('f \<Rightarrow> string) \<Rightarrow> bool" where
  "float_laws fadd fdiv of_usize show_f \<longleftrightarrow>
     (\<forall>a b. unat a + unat b \<le> 2 ^ 53 \<longrightarrow> fadd (of_usize a) (of_usize b) = of_usize (a + b)) \<and>
     (\<forall>a b. b \<noteq> 0 \<longrightarrow> unat a * unat b \<le> 2 ^ 53 \<longrightarrow>
        fdiv (of_usize (a * b)) (of_usize b) = of_usize a) \<and>
     (\<forall>a. unat a \<le> 2 ^ 53 \<longrightarrow> show_f (of_usize a) = decimal (unat a))"

text \<open>The iteration of a hash map lists its entries, in whatever order.\<close>

definition lists_entries :: "(('k \<rightharpoonup> 'v) \<Rightarrow> ('k \<times> 'v) list) \<Rightarrow> bool" where
  "lists_entries order \<longleftrightarrow> (\<forall>m. finite (dom m) \<longrightarrow> set (order m) = {(k, v). m k = Some v})"

section \<open>The tests\<close>

text \<open>Creating a metric panics if the crate refuses it.\<close>

definition created where
  "created r = (case r of (Inl _, hp) \<Rightarrow> Inl OtherPanic | (Inr metric, hp) \<Rightarrow> Inr (metric, hp))"

lemma created_Inr [simp]: "created (Inr metric, hp) = Inr (metric, hp)"
  by (simp add: created_def)

definition check_counter where
  "check_counter P grp hp x =
     and_then (unwrap_ok (get_counter hp grp ''counter'')) (\<lambda>counter. check_that (counter_get P counter hp = x))"

definition check_label where
  "check_label grp hp x =
     and_then (unwrap_ok (get_label hp grp ''label'')) (\<lambda>label. check_that (label_get label hp = x))"

text \<open>The six checks after each round of writes.\<close>

definition check_metrics where
  "check_metrics P fdiv of_usize grp hp counter_val gauge_val samples sum_val mean label_val =
     and_then (check_counter P grp hp counter_val) (\<lambda>_.
     and_then (unwrap_ok (get_gauge hp grp ''gauge'')) (\<lambda>gauge.
     and_then (check_that (gauge_get P gauge hp = gauge_val)) (\<lambda>_.
     and_then (unwrap_ok (get_histogram hp grp ''histogram'')) (\<lambda>histogram.
     and_then (check_that (histogram_sample_count P histogram hp = samples)) (\<lambda>_.
     and_then (check_that (histogram_sum P histogram hp = sum_val)) (\<lambda>_.
     and_then (check_that (histogram_mean P fdiv of_usize histogram hp = mean)) (\<lambda>_.
       check_label grp hp label_val)))))))"

definition check_export where
  "check_export P order utf8_error grp hp expected =
     and_then (unwrap_ok (prometheus_text P order utf8_error grp hp)) (\<lambda>text.
       check_that (list_all (\<lambda>line. line \<in> set (str_lines text)) expected))"

text \<open>One round of writes to the four metrics.\<close>

definition write_metrics where
  "write_metrics P of_usize counter gauge histogram label amount gauge_val point label_val hp =
     label_set label label_val (histogram_add_point P histogram (of_usize point)
       (gauge_set P gauge gauge_val (counter_add P counter amount hp)))"

definition test_prometheus_metrics where
  "test_prometheus_metrics P fdiv of_usize order utf8_error hp =
     (let (metrics, hp) = metrics_default P hp in
      and_then (created (create_counter P metrics ''counter'' None hp)) (\<lambda>(counter, hp).
      and_then (created (create_gauge P metrics ''gauge'' None hp)) (\<lambda>(gauge, hp).
      and_then (created (create_histogram P metrics ''histogram'' None hp)) (\<lambda>(histogram, hp).
      let (label, hp) = create_label metrics ''label'' hp;
          hp = write_metrics P of_usize counter gauge histogram label 20 42 20 ''value'' hp in
      and_then (check_metrics P fdiv of_usize metrics hp 20 42 1 (of_usize 20) (of_usize 20) ''value'') (\<lambda>_.
      let hp = write_metrics P of_usize counter gauge histogram label 22 100 22 ''another'' hp in
      and_then (check_metrics P fdiv of_usize metrics hp 42 100 2 (of_usize 42) (of_usize 21) ''another'') (\<lambda>_.
        check_export P order utf8_error metrics hp
          [''counter 42'', ''gauge 100'', ''histogram_sum 42'', ''histogram_count 2'',
           ''# LABEL label another'']))))))"

text \<open>A group at a path, with a check of its namespace or of one of its metrics.\<close>

definition check_namespace where
  "check_namespace hp grp path expected =
     and_then (unwrap_ok (get_subgroup hp grp path)) (\<lambda>g. check_that (namespace g = expected))"

definition test_namespace where
  "test_namespace P order utf8_error hp =
     (let (metrics, hp) = metrics_default P hp;
          (subgroup1, hp) = subgroup P metrics ''subgroup1'' hp;
          (subgroup2, hp) = subgroup P subgroup1 ''subgroup2'' hp in
      and_then (created (create_counter P subgroup2 ''counter'' None hp)) (\<lambda>(counter, hp).
      let (label, hp) = create_label subgroup2 ''label'' hp;
          hp = label_set label ''value'' (counter_add P counter 42 hp) in
      and_then (check_namespace hp metrics [''subgroup1''] [''subgroup1'']) (\<lambda>_.
      and_then (check_namespace hp metrics [''subgroup1'', ''subgroup2''] [''subgroup1'', ''subgroup2'']) (\<lambda>_.
      and_then (unwrap_ok (get_subgroup hp metrics [''subgroup1''])) (\<lambda>g1.
      and_then (check_namespace hp g1 [''subgroup2''] [''subgroup1'', ''subgroup2'']) (\<lambda>_.
      and_then (unwrap_ok (get_subgroup hp metrics [''subgroup1'', ''subgroup2''])) (\<lambda>direct.
      and_then (unwrap_ok (get_subgroup hp g1 [''subgroup2''])) (\<lambda>stepwise.
      and_then (check_counter P direct hp 42) (\<lambda>_.
      and_then (check_counter P stepwise hp 42) (\<lambda>_.
      and_then (check_export P order utf8_error metrics hp [''subgroup1_subgroup2_counter 42'']) (\<lambda>_.
      and_then (check_label direct hp ''value'') (\<lambda>_.
      and_then (check_label stepwise hp ''value'') (\<lambda>_.
        check_export P order utf8_error metrics hp [''# LABEL subgroup1_subgroup2_label value''])))))))))))))"

section \<open>What the laws give\<close>

lemma prom_values_eq:
  "prom_values P p = (a, b, c, d) \<longleftrightarrow>
     counter_value P p = a \<and> gauge_value P p = b \<and> histogram_count P p = c \<and> histogram_total P p = d"
  by (simp add: prom_values_def)

lemma prom_lawsD:
  assumes "prom_laws P V fadd of_usize show_f utf8_error"
  shows "registry_law P V" "make_law P V (of_usize 0)" "register_law P V" "write_law P V fadd"
    "encode_law P V show_f of_usize utf8_error"
  using assms by (simp_all add: prom_laws_def)

lemma register_lawD:
  assumes "register_law P V"
  shows "registers P V (counter_register P r c) (counter_name V c) (CounterC c) r p"
    "registers P V (gauge_register P r g) (gauge_name V g) (GaugeC g) r p"
    "registers P V (histogram_register P r h) (histogram_name V h) (HistogramC h) r p"
  using assms by (simp_all add: register_law_def)

lemma metric_created:
  assumes "with_opts os (prom hp) = (Inr c, p1)" and "registered V p1 = registered V (prom hp)"
    and "registered V (prom hp) (prometheus reg) = Some m" and "m name = None"
    and "registers P V (reg_fn (prometheus reg) c) name col (prometheus reg) p1"
  obtains p where "metric_new with_opts reg_fn reg os hp = (Inr c, hp\<lparr>prom := p\<rparr>)"
    "registered V p = (registered V (prom hp))(prometheus reg \<mapsto> m(name \<mapsto> col))"
    "prom_values P p = prom_values P p1"
proof -
  from assms(5) [unfolded registers_def, rule_format, unfolded assms(2), OF assms(3,4)] obtain p2 where
    "reg_fn (prometheus reg) c p1 = (Inr (), p2)"
    "registered V p2 = (registered V (prom hp))(prometheus reg \<mapsto> m(name \<mapsto> col))"
    "prom_values P p2 = prom_values P p1" by blast
  with assms(1) show thesis by (intro that [of p2]) (simp_all add: metric_new_def register_def)
qed

lemma create_counter_works:
  assumes "prom_laws P V fadd of_usize show_f utf8_error"
    and "registered V (prom hp) (prometheus (metrics self)) = Some m"
    and "opts_ok (metric_opts self label u)" and "m (fq_name (metric_opts self label u)) = None"
  obtains c p where "create_counter P self label u hp = (Inr c, hp\<lparr>prom := p, counter_maps :=
      (counter_maps hp)(counters self := (counter_maps hp (counters self))(label \<mapsto> c))\<rparr>)"
    "registered V p = (registered V (prom hp))
       (prometheus (metrics self) \<mapsto> m(fq_name (metric_opts self label u) \<mapsto> CounterC c))"
    "prom_values P p = ((counter_value P (prom hp))(c := 0), gauge_value P (prom hp),
       histogram_count P (prom hp), histogram_total P (prom hp))"
proof -
  from prom_lawsD(2) [OF assms(1), unfolded make_law_def, rule_format, OF assms(3), of "prom hp"]
  obtain c p1 where
    made: "counter_with_opts P (metric_opts self label u) (prom hp) = (Inr c, p1)"
      "registered V p1 = registered V (prom hp)" "counter_name V c = fq_name (metric_opts self label u)"
      "prom_values P p1 = ((counter_value P (prom hp))(c := 0), gauge_value P (prom hp),
       histogram_count P (prom hp), histogram_total P (prom hp))"
    by blast
  have "m (counter_name V c) = None" using assms(4) made(3) by simp
  from metric_created [where reg_fn = "counter_register P" and with_opts = "counter_with_opts P" and hp = hp
      and name = "counter_name V c" and reg = "metrics self" and P = P and V = V, OF made(1,2) assms(2) this
      register_lawD(1) [OF prom_lawsD(3) [OF assms(1)]]]
  obtain p where "counter_new P (metrics self) (metric_opts self label u) hp = (Inr c, hp\<lparr>prom := p\<rparr>)"
    "registered V p = (registered V (prom hp))(prometheus (metrics self) \<mapsto> m(counter_name V c \<mapsto> CounterC c))"
    "prom_values P p = prom_values P p1" unfolding counter_new_def by blast
  with made(3,4) show thesis by (intro that [of c p]) (simp_all add: create_counter_def)
qed

lemma create_gauge_works:
  assumes "prom_laws P V fadd of_usize show_f utf8_error"
    and "registered V (prom hp) (prometheus (metrics self)) = Some m"
    and "opts_ok (metric_opts self label u)" and "m (fq_name (metric_opts self label u)) = None"
  obtains g p where "create_gauge P self label u hp = (Inr g, hp\<lparr>prom := p, gauge_maps :=
      (gauge_maps hp)(gauges self := (gauge_maps hp (gauges self))(label \<mapsto> g))\<rparr>)"
    "registered V p = (registered V (prom hp))
       (prometheus (metrics self) \<mapsto> m(fq_name (metric_opts self label u) \<mapsto> GaugeC g))"
    "prom_values P p = (counter_value P (prom hp), (gauge_value P (prom hp))(g := 0),
       histogram_count P (prom hp), histogram_total P (prom hp))"
proof -
  from prom_lawsD(2) [OF assms(1), unfolded make_law_def, rule_format, OF assms(3), of "prom hp"]
  obtain g p1 where
    made: "gauge_with_opts P (metric_opts self label u) (prom hp) = (Inr g, p1)"
      "registered V p1 = registered V (prom hp)" "gauge_name V g = fq_name (metric_opts self label u)"
      "prom_values P p1 = (counter_value P (prom hp), (gauge_value P (prom hp))(g := 0),
       histogram_count P (prom hp), histogram_total P (prom hp))"
    by blast
  have "m (gauge_name V g) = None" using assms(4) made(3) by simp
  from metric_created [where reg_fn = "gauge_register P" and with_opts = "gauge_with_opts P" and hp = hp
      and name = "gauge_name V g" and reg = "metrics self" and P = P and V = V, OF made(1,2) assms(2) this
      register_lawD(2) [OF prom_lawsD(3) [OF assms(1)]]]
  obtain p where "gauge_new P (metrics self) (metric_opts self label u) hp = (Inr g, hp\<lparr>prom := p\<rparr>)"
    "registered V p = (registered V (prom hp))(prometheus (metrics self) \<mapsto> m(gauge_name V g \<mapsto> GaugeC g))"
    "prom_values P p = prom_values P p1" unfolding gauge_new_def by blast
  with made(3,4) show thesis by (intro that [of g p]) (simp_all add: create_gauge_def)
qed

lemma create_histogram_works:
  assumes "prom_laws P V fadd of_usize show_f utf8_error"
    and "registered V (prom hp) (prometheus (metrics self)) = Some m"
    and "opts_ok (metric_opts self label u)" and "m (fq_name (metric_opts self label u)) = None"
  obtains h p where "create_histogram P self label u hp = (Inr h, hp\<lparr>prom := p, histogram_maps :=
      (histogram_maps hp)(histograms self := (histogram_maps hp (histograms self))(label \<mapsto> h))\<rparr>)"
    "registered V p = (registered V (prom hp))
       (prometheus (metrics self) \<mapsto> m(fq_name (metric_opts self label u) \<mapsto> HistogramC h))"
    "prom_values P p = (counter_value P (prom hp), gauge_value P (prom hp),
       (histogram_count P (prom hp))(h := 0), (histogram_total P (prom hp))(h := of_usize 0))"
proof -
  from prom_lawsD(2) [OF assms(1), unfolded make_law_def, rule_format, OF assms(3), of "prom hp"]
  obtain h p1 where
    made: "histogram_with_opts P (metric_opts self label u) (prom hp) = (Inr h, p1)"
      "registered V p1 = registered V (prom hp)" "histogram_name V h = fq_name (metric_opts self label u)"
      "prom_values P p1 = (counter_value P (prom hp), gauge_value P (prom hp),
       (histogram_count P (prom hp))(h := 0), (histogram_total P (prom hp))(h := of_usize 0))"
    by blast
  have "m (histogram_name V h) = None" using assms(4) made(3) by simp
  from metric_created [where reg_fn = "histogram_register P" and with_opts = "histogram_with_opts P" and hp = hp
      and name = "histogram_name V h" and reg = "metrics self" and P = P and V = V, OF made(1,2) assms(2) this
      register_lawD(3) [OF prom_lawsD(3) [OF assms(1)]]]
  obtain p where "histogram_new P (metrics self) (metric_opts self label u) hp = (Inr h, hp\<lparr>prom := p\<rparr>)"
    "registered V p = (registered V (prom hp))(prometheus (metrics self) \<mapsto> m(histogram_name V h \<mapsto> HistogramC h))"
    "prom_values P p = prom_values P p1" unfolding histogram_new_def by blast
  with made(3,4) show thesis by (intro that [of h p]) (simp_all add: create_histogram_def)
qed

lemma metrics_default_works:
  assumes "prom_laws P V fadd of_usize show_f utf8_error"
  obtains r p where "registered V (prom hp) r = None"
    "registered V p = (registered V (prom hp))(r \<mapsto> Map.empty)"
    "prom_values P p = prom_values P (prom hp)"
    "metrics_default P hp =
      (\<lparr>metrics = \<lparr>prometheus = r, labels = fresh hp\<rparr>, namespace = [], children = fresh hp + 1,
        counters = fresh hp + 2, gauges = fresh hp + 3, histograms = fresh hp + 4\<rparr>,
       hp\<lparr>prom := p, fresh := fresh hp + 5,
          label_maps := (label_maps hp)(fresh hp := Map.empty),
          child_maps := (child_maps hp)(fresh hp + 1 := Map.empty),
          counter_maps := (counter_maps hp)(fresh hp + 2 := Map.empty),
          gauge_maps := (gauge_maps hp)(fresh hp + 3 := Map.empty),
          histogram_maps := (histogram_maps hp)(fresh hp + 4 := Map.empty)\<rparr>)"
proof -
  obtain r p where new: "registry_new P (prom hp) = (r, p)" by fastforce
  then have "registered V (prom hp) r = None" "registered V p = (registered V (prom hp))(r \<mapsto> Map.empty)"
    "prom_values P p = prom_values P (prom hp)"
    using prom_lawsD(1) [OF assms] unfolding registry_law_def by blast+
  then show thesis by (rule that) (simp add: metrics_default_def new Let_def)
qed

section \<open>What an export holds\<close>

lemma set_joined: "set (joined sep xs) \<subseteq> set sep \<union> \<Union> (set ` set xs)"
  by (induction sep xs rule: joined.induct) auto

lemma export_works:
  assumes laws: "prom_laws P V fadd of_usize show_f utf8_error" and utf8: "utf8_laws utf8_error"
    and order: "lists_entries order"
    and reg: "registered V (prom hp) (prometheus (metrics self)) = Some m"
    and labels: "label_maps hp (labels (metrics self)) = [fq \<mapsto> cell]"
    and line: "line = ''# LABEL '' @ joined ''_'' fq @ '' '' @ label_cells hp cell"
    and clean: "CHR 0x0A \<notin> set line" "strip_cr line = line" "\<forall>c \<in> set line. (of_char c :: nat) < 128"
  obtains out where
    "prometheus_text P order utf8_error self hp = (Inr out :: 'err metrics_error + _)"
    "line \<in> set (str_lines out)"
    "\<And>name col. m name = Some col \<Longrightarrow>
       set (sample_lines P show_f of_usize (prom hp) name col) \<subseteq> set (str_lines out)"
proof -
  let ?segs = "map (\<lambda>_. line) (order [fq \<mapsto> cell])"
  have entries: "set (order [fq \<mapsto> cell]) = {(fq, cell)}"
    using order unfolding lists_entries_def by (auto split: if_splits)
  then have segs: "export_labels order (metrics self) hp = joined [CHR 0x0A] ?segs @ [CHR 0x0A]"
    unfolding export_labels_def labels line by (auto intro!: arg_cong [where f = "joined _"])
  from prom_lawsD(5) [OF laws] reg obtain out where
    out: "gather_encode P (prom hp) (prometheus (metrics self)) = Inr out" "utf8_error out = None"
    and samples: "\<And>name col. m name = Some col \<Longrightarrow>
      set (sample_lines P show_f of_usize (prom hp) name col) \<subseteq> set (str_lines out)"
    unfolding encode_law_def by blast
  have "set (joined [CHR 0x0A] ?segs) \<subseteq> insert (CHR 0x0A) (set line)"
    using set_joined [of "[CHR 0x0A]" ?segs] by (simp only: set_map image_image list.set) blast
  then have within: "set (joined [CHR 0x0A] ?segs @ [CHR 0x0A]) \<subseteq> insert (CHR 0x0A) (set line)"
    by (simp only: set_append list.set) blast
  have "(of_char (CHR 0x0A) :: nat) < 128" by simp
  with within clean(3) have "\<forall>c \<in> set (joined [CHR 0x0A] ?segs @ [CHR 0x0A]). (of_char c :: nat) < 128"
    by blast
  with utf8 out(2) have "utf8_error ((joined [CHR 0x0A] ?segs @ [CHR 0x0A]) @ out) = None"
    unfolding utf8_laws_def by blast
  with out(1) have run: "prometheus_text P order utf8_error self hp =
      (Inr (joined [CHR 0x0A] ?segs @ CHR 0x0A # out) :: 'err metrics_error + _)"
    by (simp add: prometheus_text_def export_def segs)
  have "split_on (CHR 0x0A) (joined [CHR 0x0A] ?segs) = ?segs"
    by (rule split_on_joined) (use clean(1) entries in \<open>auto simp flip: set_empty\<close>)
  then have "str_lines (joined [CHR 0x0A] ?segs @ CHR 0x0A # out) = map strip_cr ?segs @ str_lines out"
    by (simp only: str_lines_append)
  then have lines: "set (str_lines (joined [CHR 0x0A] ?segs @ CHR 0x0A # out)) = insert line (set (str_lines out))"
    using entries clean(2) by auto
  from run show thesis
  proof (rule that)
    show "line \<in> set (str_lines (joined [CHR 0x0A] ?segs @ CHR 0x0A # out))" unfolding lines by simp
    show "set (sample_lines P show_f of_usize (prom hp) name col)
        \<subseteq> set (str_lines (joined [CHR 0x0A] ?segs @ CHR 0x0A # out))" if "m name = Some col" for name col
      unfolding lines using samples [OF that] by blast
  qed
qed

text \<open>The values of the metrics after a round of writes.\<close>

lemma write_metrics_works:
  assumes "prom_laws P V fadd of_usize show_f utf8_error"
    and "hp' = write_metrics P of_usize counter gauge histogram label amount gauge_val point label_val hp"
  obtains p where "hp' = hp\<lparr>prom := p, label_cells := (label_cells hp)(label := label_val)\<rparr>"
    "registered V p = registered V (prom hp)"
    "counter_value P p counter = counter_value P (prom hp) counter + amount"
    "gauge_value P p gauge = gauge_val"
    "histogram_count P p histogram = histogram_count P (prom hp) histogram + 1"
    "histogram_total P p histogram = fadd (histogram_total P (prom hp) histogram) (of_usize point)"
proof -
  let ?p = "histogram_observe P histogram (of_usize point)
    (gauge_store P gauge gauge_val (counter_inc_by P counter amount (prom hp)))"
  have "hp' = hp\<lparr>prom := ?p, label_cells := (label_cells hp)(label := label_val)\<rparr>"
    using assms(2) by (simp add: write_metrics_def label_set_def histogram_add_point_def gauge_set_def
        counter_add_def)
  moreover have "registered V ?p = registered V (prom hp)"
    "counter_value P ?p counter = counter_value P (prom hp) counter + amount"
    "gauge_value P ?p gauge = gauge_val"
    "histogram_count P ?p histogram = histogram_count P (prom hp) histogram + 1"
    "histogram_total P ?p histogram = fadd (histogram_total P (prom hp) histogram) (of_usize point)"
    using prom_lawsD(4) [OF assms(1)] by (simp_all add: write_law_def prom_values_eq)
  ultimately show thesis by (rule that)
qed

text \<open>The checks of one round, over a group that holds the four metrics.\<close>

lemma check_metrics_pass:
  assumes "counter_maps hp (counters grp) ''counter'' = Some counter"
    and "gauge_maps hp (gauges grp) ''gauge'' = Some gauge"
    and "histogram_maps hp (histograms grp) ''histogram'' = Some histogram"
    and "label_maps hp (labels (metrics grp)) (namespace grp @ [''label'']) = Some label"
    and "counter_value P (prom hp) counter = x" and "gauge_value P (prom hp) gauge = y"
    and "histogram_count P (prom hp) histogram = n" and "histogram_total P (prom hp) histogram = s"
    and "fdiv s (of_usize n) = mean" and "label_cells hp label = l"
  shows "check_metrics P fdiv of_usize grp hp x y n s mean l = (Inr () :: 'err metrics_error test_panic + unit)"
  using assms
  by (simp add: check_metrics_def check_counter_def check_label_def get_counter_def get_gauge_def
      get_histogram_def get_label_def get_metric_def registry_get_label_def counter_get_def gauge_get_def
      histogram_sample_count_def histogram_sum_def histogram_mean_def label_get_def)

lemma root_opts:
  assumes "namespace self = []" and "label \<in> {''counter'', ''gauge'', ''histogram''}"
  shows "opts_ok (metric_opts self label None)" "fq_name (metric_opts self label None) = label"
  using assms by (auto simp: opts_ok_def metric_opts_def fq_name_def letter_def digit_def)

lemma float_lawsD:
  assumes "float_laws fadd fdiv of_usize show_f"
  shows "unat a + unat b \<le> 2 ^ 53 \<Longrightarrow> fadd (of_usize a) (of_usize b) = of_usize (a + b)"
    "b \<noteq> 0 \<Longrightarrow> unat a * unat b \<le> 2 ^ 53 \<Longrightarrow> fdiv (of_usize (a * b)) (of_usize b) = of_usize a"
    "unat a \<le> 2 ^ 53 \<Longrightarrow> show_f (of_usize a) = decimal (unat a)"
  using assms by (simp_all add: float_laws_def)

lemma test_floats:
  assumes "float_laws fadd fdiv of_usize show_f"
  shows "fadd (of_usize 0) (of_usize 20) = of_usize 20" "fadd (of_usize 20) (of_usize 22) = of_usize 42"
    "fdiv (of_usize 20) (of_usize 1) = of_usize 20" "fdiv (of_usize 42) (of_usize 2) = of_usize 21"
    "show_f (of_usize 2) = ''2''" "show_f (of_usize 42) = ''42''" "show_f (of_usize 100) = ''100''"
proof -
  note F = float_lawsD [OF assms]
  show "fadd (of_usize 0) (of_usize 20) = of_usize 20" "fadd (of_usize 20) (of_usize 22) = of_usize 42"
    using F(1) [of 0 20] F(1) [of 20 22] by simp_all
  show "fdiv (of_usize 20) (of_usize 1) = of_usize 20" "fdiv (of_usize 42) (of_usize 2) = of_usize 21"
    using F(2) [of 1 20] F(2) [of 2 21] by simp_all
  show "show_f (of_usize 2) = ''2''" "show_f (of_usize 42) = ''42''" "show_f (of_usize 100) = ''100''"
    using F(3) [of 2] F(3) [of 42] F(3) [of 100] by (simp_all add: decimal.simps)
qed

end
