(* ===== verification/MetricsProps.thy ===== *)
theory MetricsProps
  imports MetricsTests "HOL-Library.List_Lexorder" "HOL-Library.Char_ord"
begin

text \<open>
  The unit tests of \<^verbatim>\<open>src/metrics.rs\<close> pass over every metrics crate that keeps its contract, and a
  crate in memory that does.
\<close>

section \<open>The tests pass\<close>

text \<open>The four metrics the test creates, and the heap they are created in.\<close>

lemma four_metrics:
  fixes hp :: "('p, 'r, 'c, 'g, 'h) heap"
  assumes laws: "prom_laws P V fadd of_usize show_f utf8_error"
  obtains grp hp0 counter hp1 gauge hp2 histogram hp3 label hp4 where "metrics_default P hp = (grp, hp0)"
    "create_counter P grp ''counter'' None hp0 = (Inr counter, hp1)"
    "create_gauge P grp ''gauge'' None hp1 = (Inr gauge, hp2)"
    "create_histogram P grp ''histogram'' None hp2 = (Inr histogram, hp3)"
    "create_label grp ''label'' hp3 = (label, hp4)" "namespace grp = []"
    "counter_maps hp4 (counters grp) ''counter'' = Some counter"
    "gauge_maps hp4 (gauges grp) ''gauge'' = Some gauge"
    "histogram_maps hp4 (histograms grp) ''histogram'' = Some histogram"
    "label_maps hp4 (labels (metrics grp)) = [[''label''] \<mapsto> label]"
    "registered V (prom hp4) (prometheus (metrics grp)) = Some [''counter'' \<mapsto> CounterC counter,
       ''gauge'' \<mapsto> GaugeC gauge, ''histogram'' \<mapsto> HistogramC histogram]"
    "counter_value P (prom hp4) counter = 0" "histogram_count P (prom hp4) histogram = 0"
    "histogram_total P (prom hp4) histogram = of_usize 0"
proof -
  obtain r p0 where new: "registered V p0 = (registered V (prom hp))(r \<mapsto> Map.empty)" and run0: "metrics_default P hp =
      (\<lparr>metrics = \<lparr>prometheus = r, labels = fresh hp\<rparr>, namespace = [], children = fresh hp + 1,
        counters = fresh hp + 2, gauges = fresh hp + 3, histograms = fresh hp + 4\<rparr>,
       hp\<lparr>prom := p0, fresh := fresh hp + 5,
          label_maps := (label_maps hp)(fresh hp := Map.empty),
          child_maps := (child_maps hp)(fresh hp + 1 := Map.empty),
          counter_maps := (counter_maps hp)(fresh hp + 2 := Map.empty),
          gauge_maps := (gauge_maps hp)(fresh hp + 3 := Map.empty),
          histogram_maps := (histogram_maps hp)(fresh hp + 4 := Map.empty)\<rparr>)" (is "_ = (?root, ?hp0)")
    by (rule metrics_default_works [OF laws, of hp]) (rule that)
  have p0: "registered V p0 r = Some Map.empty" using new by simp
  note root = root_opts [of ?root]
  obtain counter p1 where run1: "create_counter P ?root ''counter'' None ?hp0 = (Inr counter,
      ?hp0\<lparr>prom := p1, counter_maps := (counter_maps ?hp0)(counters ?root :=
        (counter_maps ?hp0 (counters ?root))(''counter'' \<mapsto> counter))\<rparr>)" (is "_ = (_, ?hp1)")
    and p1: "registered V p1 r = Some [''counter'' \<mapsto> CounterC counter]"
      "counter_value P p1 counter = 0"
    by (rule create_counter_works [OF laws, of ?hp0 ?root Map.empty "''counter''" None])
      (use p0 root in \<open>auto simp: prom_values_eq\<close>)
  obtain gauge p2 where run2: "create_gauge P ?root ''gauge'' None ?hp1 = (Inr gauge,
      ?hp1\<lparr>prom := p2, gauge_maps := (gauge_maps ?hp1)(gauges ?root :=
        (gauge_maps ?hp1 (gauges ?root))(''gauge'' \<mapsto> gauge))\<rparr>)" (is "_ = (_, ?hp2)")
    and p2: "registered V p2 r = Some [''counter'' \<mapsto> CounterC counter, ''gauge'' \<mapsto> GaugeC gauge]"
      "counter_value P p2 = counter_value P p1"
    by (rule create_gauge_works [OF laws, of ?hp1 ?root "[''counter'' \<mapsto> CounterC counter]" "''gauge''" None])
      (use p1 root in \<open>auto simp: prom_values_eq\<close>)
  obtain histogram p3 where run3: "create_histogram P ?root ''histogram'' None ?hp2 = (Inr histogram,
      ?hp2\<lparr>prom := p3, histogram_maps := (histogram_maps ?hp2)(histograms ?root :=
        (histogram_maps ?hp2 (histograms ?root))(''histogram'' \<mapsto> histogram))\<rparr>)" (is "_ = (_, ?hp3)")
    and p3: "registered V p3 r = Some [''counter'' \<mapsto> CounterC counter, ''gauge'' \<mapsto> GaugeC gauge,
        ''histogram'' \<mapsto> HistogramC histogram]" "counter_value P p3 = counter_value P p2"
      "histogram_count P p3 histogram = 0" "histogram_total P p3 histogram = of_usize 0"
    by (rule create_histogram_works [OF laws, of ?hp2 ?root
          "[''counter'' \<mapsto> CounterC counter, ''gauge'' \<mapsto> GaugeC gauge]" "''histogram''" None])
      (use p2 root in \<open>auto simp: prom_values_eq\<close>)
  obtain label hp4 where run4: "create_label ?root ''label'' ?hp3 = (label, hp4)" by fastforce
  note made = create_label_effect [OF run4]
  have fq: "label_fq_name (metric_opts ?root ''label'' None) = [''label'']"
    by (simp add: label_fq_name_def metric_opts_def)
  have hp4: "prom hp4 = p3" "counter_maps hp4 (fresh hp + 2) ''counter'' = Some counter"
    "gauge_maps hp4 (fresh hp + 3) ''gauge'' = Some gauge"
    "histogram_maps hp4 (fresh hp + 4) ''histogram'' = Some histogram"
    "label_maps hp4 (fresh hp) = [[''label''] \<mapsto> label]"
    unfolding made(2) using made(1) fq by simp_all
  from run0 run1 run2 run3 run4 show thesis
    by (rule that) (use hp4 p1 p2 p3 in simp_all)
qed

lemma prometheus_metrics_test:
  fixes hp :: "('p, 'r, 'c, 'g, 'h) heap"
  assumes laws: "prom_laws P V fadd of_usize show_f utf8_error" and utf8: "utf8_laws utf8_error"
    and floats: "float_laws fadd fdiv of_usize show_f" and order: "lists_entries order"
  shows "test_prometheus_metrics P fdiv of_usize order utf8_error hp =
    (Inr () :: 'err metrics_error test_panic + unit)"
proof -
  note F = test_floats [OF floats]
  obtain grp hp0 counter hp1 gauge hp2 histogram hp3 label hp4 where
    runs: "metrics_default P hp = (grp, hp0)" "create_counter P grp ''counter'' None hp0 = (Inr counter, hp1)"
      "create_gauge P grp ''gauge'' None hp1 = (Inr gauge, hp2)"
      "create_histogram P grp ''histogram'' None hp2 = (Inr histogram, hp3)"
      "create_label grp ''label'' hp3 = (label, hp4)"
    and hp4: "namespace grp = []" "counter_maps hp4 (counters grp) ''counter'' = Some counter"
      "gauge_maps hp4 (gauges grp) ''gauge'' = Some gauge"
      "histogram_maps hp4 (histograms grp) ''histogram'' = Some histogram"
      "label_maps hp4 (labels (metrics grp)) = [[''label''] \<mapsto> label]"
      "registered V (prom hp4) (prometheus (metrics grp)) = Some [''counter'' \<mapsto> CounterC counter,
         ''gauge'' \<mapsto> GaugeC gauge, ''histogram'' \<mapsto> HistogramC histogram]"
      "counter_value P (prom hp4) counter = 0" "histogram_count P (prom hp4) histogram = 0"
      "histogram_total P (prom hp4) histogram = of_usize 0"
    by (rule four_metrics [OF laws, of hp]) (rule that)
  obtain p5 where hp5: "write_metrics P of_usize counter gauge histogram label 20 42 20 ''value'' hp4 =
      hp4\<lparr>prom := p5, label_cells := (label_cells hp4)(label := ''value'')\<rparr>" (is "_ = ?hp5")
    and p5: "registered V p5 = registered V (prom hp4)" "counter_value P p5 counter = 20" "gauge_value P p5 gauge = 42"
      "histogram_count P p5 histogram = 1" "histogram_total P p5 histogram = of_usize 20"
    by (rule write_metrics_works [OF laws refl, of counter gauge histogram label 20 42 20 "''value''" hp4])
      (use F hp4 in auto)
  obtain p6 where hp6: "write_metrics P of_usize counter gauge histogram label 22 100 22 ''another'' ?hp5 =
      ?hp5\<lparr>prom := p6, label_cells := (label_cells ?hp5)(label := ''another'')\<rparr>" (is "_ = ?hp6")
    and p6: "registered V p6 = registered V (prom hp4)" "counter_value P p6 counter = 42" "gauge_value P p6 gauge = 100"
      "histogram_count P p6 histogram = 2" "histogram_total P p6 histogram = of_usize 42"
    by (rule write_metrics_works [OF laws refl, of counter gauge histogram label 22 100 22 "''another''" ?hp5])
      (use p5 F in auto)
  have first: "check_metrics P fdiv of_usize grp ?hp5 20 42 1 (of_usize 20) (of_usize 20) ''value'' =
      (Inr () :: 'err metrics_error test_panic + unit)"
    by (rule check_metrics_pass [of _ _ counter gauge histogram label]) (use hp4 p5 F in simp_all)
  have second: "check_metrics P fdiv of_usize grp ?hp6 42 100 2 (of_usize 42) (of_usize 21) ''another'' =
      (Inr () :: 'err metrics_error test_panic + unit)"
    by (rule check_metrics_pass [of _ _ counter gauge histogram label]) (use hp4 p6 F in simp_all)
  have clean: "CHR 0x0A \<notin> set ''# LABEL label another''" "strip_cr ''# LABEL label another'' = ''# LABEL label another''"
    "\<forall>c \<in> set ''# LABEL label another''. (of_char c :: nat) < 128"
    by (simp_all add: strip_cr_def)
  have shown: "registered V (prom ?hp6) (prometheus (metrics grp)) = Some [''counter'' \<mapsto> CounterC counter,
      ''gauge'' \<mapsto> GaugeC gauge, ''histogram'' \<mapsto> HistogramC histogram]"
    "label_maps ?hp6 (labels (metrics grp)) = [[''label''] \<mapsto> label]"
    "''# LABEL label another'' = ''# LABEL '' @ joined ''_'' [''label''] @ '' '' @ label_cells ?hp6 label"
    using p6 hp4 by simp_all
  obtain out where
    out: "prometheus_text P order utf8_error grp ?hp6 = (Inr out :: 'err metrics_error + _)"
      "''# LABEL label another'' \<in> set (str_lines out)"
    and samples: "\<And>name col. [''counter'' \<mapsto> CounterC counter, ''gauge'' \<mapsto> GaugeC gauge,
        ''histogram'' \<mapsto> HistogramC histogram] name = Some col \<Longrightarrow>
      set (sample_lines P show_f of_usize (prom ?hp6) name col) \<subseteq> set (str_lines out)"
    by (rule export_works [OF laws utf8 order shown clean]) (rule that)
  have "check_export P order utf8_error grp ?hp6 [''counter 42'', ''gauge 100'', ''histogram_sum 42'',
      ''histogram_count 2'', ''# LABEL label another''] = (Inr () :: 'err metrics_error test_panic + unit)"
    using samples [of "''counter''" "CounterC counter"] samples [of "''gauge''" "GaugeC gauge"]
      samples [of "''histogram''" "HistogramC histogram"] out p6 F
    by (simp add: check_export_def)
  with runs hp5 hp6 first second show ?thesis
    by (simp add: test_prometheus_metrics_def)
qed

lemma subgroup_works:
  assumes "prom_laws P V fadd of_usize show_f utf8_error" and "child_maps hp (children self) name = None"
    and "children self < fresh hp" and "registered V (prom hp) reg = Some m"
    and "a = fresh hp" and "g = \<lparr>metrics = metrics self, namespace = namespace self @ [name],
      children = a + 1, counters = a + 2, gauges = a + 3, histograms = a + 4\<rparr>"
  obtains hp' where "subgroup P self name hp = (g, hp')" "fresh hp' = a + 5"
    "registered V (prom hp') reg = Some m"
    "child_maps hp' = (child_maps hp)(a + 1 := Map.empty,
       children self := (child_maps hp (children self))(name \<mapsto> g))"
    "label_maps hp' = (label_maps hp)(a := Map.empty)"
    "counter_maps hp' = (counter_maps hp)(a + 2 := Map.empty)"
proof -
  let ?hp' = "\<lambda>p. hp\<lparr>prom := p, fresh := fresh hp + 5,
          label_maps := (label_maps hp)(fresh hp := Map.empty),
          counter_maps := (counter_maps hp)(fresh hp + 2 := Map.empty),
          gauge_maps := (gauge_maps hp)(fresh hp + 3 := Map.empty),
          histogram_maps := (histogram_maps hp)(fresh hp + 4 := Map.empty),
          child_maps := (child_maps hp)(fresh hp + 1 := Map.empty,
            children self := (child_maps hp (children self))(name \<mapsto> g))\<rparr>"
  obtain r p where new: "registered V (prom hp) r = None"
    "registered V p = (registered V (prom hp))(r \<mapsto> Map.empty)"
    "metrics_default P hp =
      (\<lparr>metrics = \<lparr>prometheus = r, labels = fresh hp\<rparr>, namespace = [], children = fresh hp + 1,
        counters = fresh hp + 2, gauges = fresh hp + 3, histograms = fresh hp + 4\<rparr>,
       hp\<lparr>prom := p, fresh := fresh hp + 5,
          label_maps := (label_maps hp)(fresh hp := Map.empty),
          child_maps := (child_maps hp)(fresh hp + 1 := Map.empty),
          counter_maps := (counter_maps hp)(fresh hp + 2 := Map.empty),
          gauge_maps := (gauge_maps hp)(fresh hp + 3 := Map.empty),
          histogram_maps := (histogram_maps hp)(fresh hp + 4 := Map.empty)\<rparr>)"
    by (rule metrics_default_works [OF assms(1), of hp]) (rule that)
  have run: "subgroup P self name hp = (g, ?hp' p)"
    using assms(2,3,5,6) by (simp add: subgroup_def new(3) Let_def)
  have "registered V p reg = Some m" using new(1,2) assms(4) by auto
  then show thesis by (intro that [OF run]) (simp_all add: assms(5))
qed

text \<open>The two nested groups the test creates.\<close>

lemma nested_groups:
  fixes hp :: "('p, 'r, 'c, 'g, 'h) heap"
  assumes laws: "prom_laws P V fadd of_usize show_f utf8_error"
  obtains grp hp0 g1 hp1 g2 hp2 where "metrics_default P hp = (grp, hp0)"
    "subgroup P grp ''subgroup1'' hp0 = (g1, hp1)" "subgroup P g1 ''subgroup2'' hp1 = (g2, hp2)"
    "metrics g2 = metrics grp" "namespace g1 = [''subgroup1'']" "namespace g2 = [''subgroup1'', ''subgroup2'']"
    "registered V (prom hp2) (prometheus (metrics grp)) = Some Map.empty"
    "child_maps hp2 (children grp) = [''subgroup1'' \<mapsto> g1]"
    "child_maps hp2 (children g1) = [''subgroup2'' \<mapsto> g2]"
    "label_maps hp2 (labels (metrics grp)) = Map.empty" "counter_maps hp2 (counters g2) = Map.empty"
proof -
  let ?a = "fresh hp"
  obtain r p0 where new: "registered V p0 = (registered V (prom hp))(r \<mapsto> Map.empty)" and run0:
    "metrics_default P hp =
      (\<lparr>metrics = \<lparr>prometheus = r, labels = ?a\<rparr>, namespace = [], children = ?a + 1,
        counters = ?a + 2, gauges = ?a + 3, histograms = ?a + 4\<rparr>,
       hp\<lparr>prom := p0, fresh := ?a + 5,
          label_maps := (label_maps hp)(?a := Map.empty),
          child_maps := (child_maps hp)(?a + 1 := Map.empty),
          counter_maps := (counter_maps hp)(?a + 2 := Map.empty),
          gauge_maps := (gauge_maps hp)(?a + 3 := Map.empty),
          histogram_maps := (histogram_maps hp)(?a + 4 := Map.empty)\<rparr>)" (is "_ = (?root, ?hp0)")
    by (rule metrics_default_works [OF laws, of hp]) (rule that)
  let ?g1 = "\<lparr>metrics = metrics ?root, namespace = [''subgroup1''], children = ?a + 6, counters = ?a + 7,
    gauges = ?a + 8, histograms = ?a + 9\<rparr>"
  let ?g2 = "\<lparr>metrics = metrics ?root, namespace = [''subgroup1'', ''subgroup2''], children = ?a + 11,
    counters = ?a + 12, gauges = ?a + 13, histograms = ?a + 14\<rparr>"
  have "child_maps ?hp0 (children ?root) ''subgroup1'' = None" "children ?root < fresh ?hp0"
    "registered V (prom ?hp0) r = Some Map.empty" "?a + 5 = fresh ?hp0"
    "?g1 = \<lparr>metrics = metrics ?root, namespace = namespace ?root @ [''subgroup1''], children = ?a + 5 + 1,
      counters = ?a + 5 + 2, gauges = ?a + 5 + 3, histograms = ?a + 5 + 4\<rparr>" using new by simp_all
  from subgroup_works [OF laws this] obtain hp1 where run1: "subgroup P ?root ''subgroup1'' ?hp0 = (?g1, hp1)"
    and raw1: "fresh hp1 = ?a + 5 + 5" "registered V (prom hp1) r = Some Map.empty"
      "child_maps hp1 = (child_maps ?hp0)(?a + 5 + 1 := Map.empty,
         children ?root := (child_maps ?hp0 (children ?root))(''subgroup1'' \<mapsto> ?g1))"
      "label_maps hp1 = (label_maps ?hp0)(?a + 5 := Map.empty)" by blast
  have hp1: "fresh hp1 = ?a + 10" "registered V (prom hp1) r = Some Map.empty"
    "child_maps hp1 (?a + 1) = [''subgroup1'' \<mapsto> ?g1]" "child_maps hp1 (?a + 6) = Map.empty"
    "label_maps hp1 ?a = Map.empty"
    using raw1 by simp_all
  have "child_maps hp1 (children ?g1) ''subgroup2'' = None" "children ?g1 < fresh hp1"
    "registered V (prom hp1) r = Some Map.empty" "?a + 10 = fresh hp1"
    "?g2 = \<lparr>metrics = metrics ?g1, namespace = namespace ?g1 @ [''subgroup2''], children = ?a + 10 + 1,
      counters = ?a + 10 + 2, gauges = ?a + 10 + 3, histograms = ?a + 10 + 4\<rparr>" using hp1 by simp_all
  from subgroup_works [OF laws this] obtain hp2 where run2: "subgroup P ?g1 ''subgroup2'' hp1 = (?g2, hp2)"
    and raw2: "registered V (prom hp2) r = Some Map.empty"
      "child_maps hp2 = (child_maps hp1)(?a + 10 + 1 := Map.empty,
         children ?g1 := (child_maps hp1 (children ?g1))(''subgroup2'' \<mapsto> ?g2))"
      "label_maps hp2 = (label_maps hp1)(?a + 10 := Map.empty)"
      "counter_maps hp2 = (counter_maps hp1)(?a + 10 + 2 := Map.empty)" by blast
  have hp2: "registered V (prom hp2) r = Some Map.empty"
    "child_maps hp2 (?a + 1) = [''subgroup1'' \<mapsto> ?g1]" "child_maps hp2 (?a + 6) = [''subgroup2'' \<mapsto> ?g2]"
    "label_maps hp2 ?a = Map.empty" "counter_maps hp2 (?a + 12) = Map.empty"
    using raw2 hp1 by simp_all
  from run0 run1 run2 show thesis by (rule that) (use hp2 in simp_all)
qed

lemma namespace_test:
  fixes hp :: "('p, 'r, 'c, 'g, 'h) heap"
  assumes laws: "prom_laws P V fadd of_usize show_f utf8_error" and utf8: "utf8_laws utf8_error"
    and floats: "float_laws fadd fdiv of_usize show_f" and order: "lists_entries order"
  shows "test_namespace P order utf8_error hp = (Inr () :: 'err metrics_error test_panic + unit)"
proof -
  obtain grp hp0 g1 hp1 g2 hp2 where
    runs: "metrics_default P hp = (grp, hp0)" "subgroup P grp ''subgroup1'' hp0 = (g1, hp1)"
      "subgroup P g1 ''subgroup2'' hp1 = (g2, hp2)"
    and groups: "metrics g2 = metrics grp" "namespace g1 = [''subgroup1'']"
      "namespace g2 = [''subgroup1'', ''subgroup2'']"
    and hp2: "registered V (prom hp2) (prometheus (metrics grp)) = Some Map.empty"
      "child_maps hp2 (children grp) = [''subgroup1'' \<mapsto> g1]"
      "child_maps hp2 (children g1) = [''subgroup2'' \<mapsto> g2]"
      "label_maps hp2 (labels (metrics grp)) = Map.empty" "counter_maps hp2 (counters g2) = Map.empty"
    by (rule nested_groups [OF laws, of hp]) (rule that)
  have opts: "opts_ok (metric_opts g2 ''counter'' None)"
    "fq_name (metric_opts g2 ''counter'' None) = ''subgroup1_subgroup2_counter''"
    "label_fq_name (metric_opts g2 ''label'' None) = [''subgroup1'', ''subgroup2'', ''label'']"
    by (simp_all add: groups opts_ok_def metric_opts_def fq_name_def letter_def digit_def label_fq_name_def)
  obtain counter p3 where run3: "create_counter P g2 ''counter'' None hp2 = (Inr counter,
      hp2\<lparr>prom := p3, counter_maps := (counter_maps hp2)(counters g2 :=
        (counter_maps hp2 (counters g2))(''counter'' \<mapsto> counter))\<rparr>)" (is "_ = (_, ?hp3)")
    and p3: "registered V p3 (prometheus (metrics grp)) = Some [''subgroup1_subgroup2_counter'' \<mapsto> CounterC counter]"
      "counter_value P p3 counter = 0"
    by (rule create_counter_works [OF laws, of hp2 g2 Map.empty "''counter''" None])
      (use hp2 groups opts in \<open>auto simp: prom_values_eq\<close>)
  obtain label hp4 where run4: "create_label g2 ''label'' ?hp3 = (label, hp4)" by fastforce
  note made = create_label_effect [OF run4]
  let ?hp5 = "label_set label ''value'' (counter_add P counter 42 hp4)"
  have p5: "registered V (prom ?hp5) (prometheus (metrics grp)) = Some [''subgroup1_subgroup2_counter'' \<mapsto> CounterC counter]"
    "counter_value P (prom ?hp5) counter = 42"
    using prom_lawsD(4) [OF laws] p3
    by (simp_all add: label_set_def counter_add_def made(2) write_law_def prom_values_eq)
  have hp5: "child_maps ?hp5 (children grp) = [''subgroup1'' \<mapsto> g1]"
    "child_maps ?hp5 (children g1) = [''subgroup2'' \<mapsto> g2]"
    "counter_maps ?hp5 (counters g2) ''counter'' = Some counter"
    "label_maps ?hp5 (labels (metrics grp)) = [[''subgroup1'', ''subgroup2'', ''label''] \<mapsto> label]"
    "label_cells ?hp5 label = ''value''"
    using hp2 groups opts(3) by (simp_all add: label_set_def counter_add_def made)
  have clean: "CHR 0x0A \<notin> set ''# LABEL subgroup1_subgroup2_label value''"
    "strip_cr ''# LABEL subgroup1_subgroup2_label value'' = ''# LABEL subgroup1_subgroup2_label value''"
    "\<forall>c \<in> set ''# LABEL subgroup1_subgroup2_label value''. (of_char c :: nat) < 128"
    by (simp_all add: strip_cr_def)
  have shown: "registered V (prom ?hp5) (prometheus (metrics grp)) =
      Some [''subgroup1_subgroup2_counter'' \<mapsto> CounterC counter]"
    "label_maps ?hp5 (labels (metrics grp)) = [[''subgroup1'', ''subgroup2'', ''label''] \<mapsto> label]"
    "''# LABEL subgroup1_subgroup2_label value'' =
      ''# LABEL '' @ joined ''_'' [''subgroup1'', ''subgroup2'', ''label''] @ '' '' @ label_cells ?hp5 label"
    using p5 hp5 by simp_all
  obtain out where
    out: "prometheus_text P order utf8_error grp ?hp5 = (Inr out :: 'err metrics_error + _)"
      "''# LABEL subgroup1_subgroup2_label value'' \<in> set (str_lines out)"
    and samples: "\<And>name col. [''subgroup1_subgroup2_counter'' \<mapsto> CounterC counter] name = Some col \<Longrightarrow>
      set (sample_lines P show_f of_usize (prom ?hp5) name col) \<subseteq> set (str_lines out)"
    by (rule export_works [OF laws utf8 order shown clean]) (rule that)
  have exported: "check_export P order utf8_error grp ?hp5 [line] = (Inr () :: 'err metrics_error test_panic + unit)"
    if "line \<in> {''subgroup1_subgroup2_counter 42'', ''# LABEL subgroup1_subgroup2_label value''}" for line
    using samples [of "''subgroup1_subgroup2_counter''" "CounterC counter"] out p5 that
      test_floats(6) [OF floats]
    by (auto simp: check_export_def)
  have read: "check_counter P g2 ?hp5 42 = (Inr () :: 'err metrics_error test_panic + unit)"
    "check_label g2 ?hp5 ''value'' = (Inr () :: 'err metrics_error test_panic + unit)"
    using p5 hp5 groups by (simp_all add: check_counter_def check_label_def get_counter_def get_label_def
        get_metric_def registry_get_label_def counter_get_def label_get_def)
  have paths: "get_subgroup ?hp5 grp [''subgroup1''] = (Inr g1 :: 'err metrics_error + _)"
    "get_subgroup ?hp5 grp [''subgroup1'', ''subgroup2''] = (Inr g2 :: 'err metrics_error + _)"
    "get_subgroup ?hp5 g1 [''subgroup2''] = (Inr g2 :: 'err metrics_error + _)"
    using hp5 by simp_all
  have checked: "check_namespace ?hp5 grp [''subgroup1''] [''subgroup1''] =
      (Inr () :: 'err metrics_error test_panic + unit)"
    "check_namespace ?hp5 grp [''subgroup1'', ''subgroup2''] [''subgroup1'', ''subgroup2''] =
      (Inr () :: 'err metrics_error test_panic + unit)"
    "check_namespace ?hp5 g1 [''subgroup2''] [''subgroup1'', ''subgroup2''] =
      (Inr () :: 'err metrics_error test_panic + unit)"
    unfolding check_namespace_def paths by (simp_all add: groups)
  show ?thesis
    unfolding test_namespace_def runs run3 run4 Let_def prod.case created_Inr and_then_simps
      checked paths unwrap_ok_simps read
    by (simp only: exported insert_iff simp_thms and_then_simps)
qed

section \<open>A registry in memory\<close>

text \<open>For the witnesses: a handle is its number and its name, and a registry lists what is registered.\<close>

type_synonym mem_handle = "nat \<times> string"
type_synonym mem_collector = "(mem_handle, mem_handle, mem_handle) collector"

record mem_metrics =
  mm_next :: nat
  mm_next_reg :: nat
  mm_regs :: "nat \<Rightarrow> (string \<times> mem_collector) list"
  mm_counters :: "mem_handle \<Rightarrow> 64 word"
  mm_gauges :: "mem_handle \<Rightarrow> 64 word"
  mm_counts :: "mem_handle \<Rightarrow> 64 word"
  mm_sums :: "mem_handle \<Rightarrow> 64 word"

definition name_chars :: "string \<Rightarrow> string" where
  "name_chars = filter (\<lambda>c. letter c \<or> digit c)"

definition show_word :: "64 word \<Rightarrow> string" where
  "show_word x = decimal (unat x)"

fun mem_lines :: "mem_metrics \<Rightarrow> string \<times> mem_collector \<Rightarrow> string list" where
  "mem_lines p (name, CounterC c) = [name @ '' '' @ show_word (mm_counters p c)]"
| "mem_lines p (name, GaugeC g) = [name @ '' '' @ show_word (mm_gauges p g)]"
| "mem_lines p (name, HistogramC h) =
     [name @ ''_sum '' @ show_word (mm_sums p h), name @ ''_count '' @ show_word (mm_counts p h)]"

definition mem_register where
  "mem_register wrap r handle p =
     (if name_chars (snd handle) \<in> fst ` set (mm_regs p r) then (Inl ''AlreadyReg'', p)
      else (Inr (), p\<lparr>mm_regs := (mm_regs p)
        (r := (name_chars (snd handle), wrap handle) # mm_regs p r)\<rparr>))"

definition mem_encode :: "mem_metrics \<Rightarrow> nat \<Rightarrow> string" where
  "mem_encode p r = concat (map (\<lambda>line. line @ [CHR 0x0A])
     (concat (map (mem_lines p) (filter (\<lambda>(name, _). name_chars name = name) (mm_regs p r)))))"

definition mem_prom ::
    "(mem_metrics, nat, mem_handle, mem_handle, mem_handle, string, 64 word) prom_ops" where
  "mem_prom = \<lparr>registry_new = (\<lambda>p. (mm_next_reg p,
        p\<lparr>mm_next_reg := mm_next_reg p + 1, mm_regs := (mm_regs p)(mm_next_reg p := [])\<rparr>)),
     counter_with_opts = (\<lambda>os p. (Inr (mm_next p, fq_name os),
        p\<lparr>mm_next := mm_next p + 1, mm_counters := (mm_counters p)((mm_next p, fq_name os) := 0)\<rparr>)),
     counter_register = mem_register CounterC, counter_value = mm_counters,
     counter_inc_by = (\<lambda>c x p. p\<lparr>mm_counters := (mm_counters p)(c := mm_counters p c + x)\<rparr>),
     gauge_with_opts = (\<lambda>os p. (Inr (mm_next p, fq_name os),
        p\<lparr>mm_next := mm_next p + 1, mm_gauges := (mm_gauges p)((mm_next p, fq_name os) := 0)\<rparr>)),
     gauge_register = mem_register GaugeC, gauge_value = mm_gauges,
     gauge_store = (\<lambda>g x p. p\<lparr>mm_gauges := (mm_gauges p)(g := x)\<rparr>),
     gauge_add = (\<lambda>g x p. p\<lparr>mm_gauges := (mm_gauges p)(g := mm_gauges p g + x)\<rparr>),
     gauge_sub = (\<lambda>g x p. p\<lparr>mm_gauges := (mm_gauges p)(g := mm_gauges p g - x)\<rparr>),
     histogram_with_opts = (\<lambda>os p. (Inr (mm_next p, fq_name os),
        p\<lparr>mm_next := mm_next p + 1, mm_counts := (mm_counts p)((mm_next p, fq_name os) := 0),
          mm_sums := (mm_sums p)((mm_next p, fq_name os) := 0)\<rparr>)),
     histogram_register = mem_register HistogramC, histogram_count = mm_counts, histogram_total = mm_sums,
     histogram_observe = (\<lambda>h x p. p\<lparr>mm_counts := (mm_counts p)(h := mm_counts p h + 1),
       mm_sums := (mm_sums p)(h := mm_sums p h + x)\<rparr>),
     gather_encode = (\<lambda>p r. Inr (mem_encode p r)), message_error = id\<rparr>"

definition mem_view :: "(mem_metrics, nat, mem_handle, mem_handle, mem_handle) prom_view" where
  "mem_view = \<lparr>registered = (\<lambda>p r. if r < mm_next_reg p
       then Some (\<lambda>name. if name_chars name = name then map_of (mm_regs p r) name else None) else None),
     counter_name = (\<lambda>c. name_chars (snd c)), gauge_name = (\<lambda>g. name_chars (snd g)),
     histogram_name = (\<lambda>h. name_chars (snd h))\<rparr>"

lemma name_chars_idem [simp]: "name_chars (name_chars s) = name_chars s"
  by (simp add: name_chars_def)

lemma name_chars_ok: "opts_ok os \<Longrightarrow> name_chars (fq_name os) = fq_name os"
  by (simp add: opts_ok_def name_chars_def filter_id_conv list_all_iff)

lemma decimal_digits: "set (decimal n) \<subseteq> set ''0123456789'' \<and> decimal n \<noteq> []"
proof (induction n rule: decimal.induct)
  case (1 n)
  have digit: "''0123456789'' ! k \<in> set ''0123456789''" if "k < 10" for k
    by (rule nth_mem) (use that in simp)
  show ?case
  proof (cases "n < 10")
    case True
    with digit [of n] show ?thesis by (subst (1 2) decimal.simps) (simp del: nth_Cons')
  next
    case False
    with 1 digit [of "n mod 10"] show ?thesis
      by (subst (1 2) decimal.simps) (simp del: nth_Cons')
  qed
qed

lemma show_word_line:
  "CHR 0x0A \<notin> set s \<Longrightarrow> CHR 0x0A \<notin> set (s @ show_word x) \<and> strip_cr (s @ show_word x) = s @ show_word x"
proof -
  assume s: "CHR 0x0A \<notin> set s"
  note digits = decimal_digits [of "unat x", folded show_word_def]
  have "CHR 0x0A \<notin> set ''0123456789''" "CHR 0x0D \<notin> set ''0123456789''" by simp_all
  with digits have "CHR 0x0D \<notin> set (show_word x)" "CHR 0x0A \<notin> set (show_word x)" "show_word x \<noteq> []" by blast+
  moreover from this have "last (show_word x) \<noteq> CHR 0x0D" by (metis last_in_set)
  ultimately show ?thesis using s by (simp add: strip_cr_def)
qed

lemma str_lines_concat:
  assumes "\<forall>line \<in> set lines. CHR 0x0A \<notin> set line \<and> strip_cr line = line"
  shows "str_lines (concat (map (\<lambda>line. line @ [CHR 0x0A]) lines)) = lines"
  using assms
proof (induction lines)
  case Nil
  show ?case by (simp add: str_lines_def)
next
  case (Cons line lines)
  then show ?case by (simp add: str_lines_append split_on_clean)
qed

lemma mem_lines_clean:
  assumes "name_chars name = name" and "line \<in> set (mem_lines p (name, col))"
  shows "CHR 0x0A \<notin> set line \<and> strip_cr line = line"
proof -
  have "CHR 0x0A \<notin> set (name_chars name)" by (simp add: name_chars_def letter_def digit_def)
  with assms(1) have "CHR 0x0A \<notin> set name" by simp
  then have "CHR 0x0A \<notin> set (name @ '' '')" "CHR 0x0A \<notin> set (name @ ''_sum '')"
    "CHR 0x0A \<notin> set (name @ ''_count '')" by simp_all
  from this [THEN show_word_line] assms(2) show ?thesis
    by (cases col) (auto simp del: set_append)
qed

lemma mem_encode_lines:
  assumes "name_chars name = name" and "map_of (mm_regs p r) name = Some col"
  shows "set (mem_lines p (name, col)) \<subseteq> set (str_lines (mem_encode p r))"
proof -
  let ?clean = "filter (\<lambda>(name, _). name_chars name = name) (mm_regs p r)"
  have "str_lines (mem_encode p r) = concat (map (mem_lines p) ?clean)"
    unfolding mem_encode_def by (rule str_lines_concat) (auto dest: mem_lines_clean)
  moreover have "(name, col) \<in> set ?clean" using assms by (simp add: map_of_SomeD)
  ultimately show ?thesis by force
qed

lemma mem_register_works:
  assumes "\<And>c. nm c = name_chars (snd c)" and "reg_fn = mem_register wrap"
  shows "registers mem_prom mem_view (reg_fn r c) (nm c) (wrap c) r p"
  unfolding registers_def assms
  by (auto simp: mem_register_def mem_view_def mem_prom_def prom_values_def fun_eq_iff
      dest!: weak_map_of_SomeI split: if_splits)

lemma mem_prom_laws: "prom_laws mem_prom mem_view (+) id show_word (\<lambda>_. None)"
proof -
  have "registry_law mem_prom mem_view"
    by (auto simp: registry_law_def mem_prom_def mem_view_def prom_values_def fun_eq_iff)
  moreover have "make_law mem_prom mem_view (id 0)"
    by (simp add: make_law_def mem_prom_def mem_view_def prom_values_def name_chars_ok cong: if_cong)
  moreover have "register_law mem_prom mem_view"
    unfolding register_law_def
    by (intro allI conjI; rule mem_register_works) (simp_all add: mem_view_def mem_prom_def)
  moreover have "write_law mem_prom mem_view (+)"
    by (simp add: write_law_def mem_prom_def mem_view_def prom_values_def cong: if_cong)
  moreover have "encode_law mem_prom mem_view show_word id (\<lambda>_. None)"
  proof -
    have "sample_lines mem_prom show_word id p name col = mem_lines p (name, col)" for p name col
      by (cases col) (simp_all add: mem_prom_def)
    then show ?thesis
      by (auto simp: encode_law_def mem_prom_def mem_view_def split: if_splits
          dest!: mem_encode_lines [THEN subsetD])
  qed
  ultimately show ?thesis by (simp add: prom_laws_def)
qed

lemma word_float_laws: "float_laws (+) (div) id show_word"
  unfolding float_laws_def show_word_def id_def
proof (intro conjI allI impI refl)
  fix a b :: "64 word"
  assume b: "b \<noteq> 0" and small: "unat a * unat b \<le> 2 ^ 53"
  then have "unat (a * b) = unat a * unat b" by (simp add: unat_word_ariths)
  with b have "unat (a * b div b) = unat a" by (simp add: unat_div unat_eq_zero)
  then show "a * b div b = a" by (simp add: word_unat_eq_iff)
qed

definition sorted_entries :: "(string list \<rightharpoonup> nat) \<Rightarrow> (string list \<times> nat) list" where
  "sorted_entries m = map (\<lambda>k. (k, the (m k))) (sorted_list_of_set (dom m))"

lemma sorted_entries_list: "lists_entries sorted_entries"
  by (force simp: lists_entries_def sorted_entries_def)

definition mem_heap :: "(mem_metrics, nat, mem_handle, mem_handle, mem_handle) heap" where
  "mem_heap = \<lparr>prom = \<lparr>mm_next = 0, mm_next_reg = 0, mm_regs = (\<lambda>_. []), mm_counters = (\<lambda>_. 0),
     mm_gauges = (\<lambda>_. 0), mm_counts = (\<lambda>_. 0), mm_sums = (\<lambda>_. 0)\<rparr>, fresh = 0,
     child_maps = (\<lambda>_. Map.empty), counter_maps = (\<lambda>_. Map.empty), gauge_maps = (\<lambda>_. Map.empty),
     histogram_maps = (\<lambda>_. Map.empty), label_maps = (\<lambda>_. Map.empty), label_cells = (\<lambda>_. [])\<rparr>"

section \<open>Properties\<close>

text \<open>
  C35. Over any metrics crate that keeps its contract the tests of the registry pass: metrics of every
  kind read back what was written, each time; groups are found by their path from any group on the way,
  and what is made in a nested group is read back through each of these paths; the export has a line
  for every metric, under its full name.
\<close>

theorem metrics_tests_pass:
  fixes hp :: "('p, 'r, 'c, 'g, 'h) heap"
  assumes "prom_laws P V fadd of_usize show_f utf8_error" and "utf8_laws utf8_error"
    and "float_laws fadd fdiv of_usize show_f" and "lists_entries order"
  shows "test_prometheus_metrics P fdiv of_usize order utf8_error hp =
      (Inr () :: 'err metrics_error test_panic + unit) \<and>
    test_namespace P order utf8_error hp = (Inr () :: 'err metrics_error test_panic + unit)"
  by (intro conjI prometheus_metrics_test [OF assms] namespace_test [OF assms])

theorem metrics_tests_pass_witness:
  "test_prometheus_metrics mem_prom (div) id sorted_entries (\<lambda>_. None) mem_heap =
      (Inr () :: string metrics_error test_panic + unit) \<and>
    test_namespace mem_prom sorted_entries (\<lambda>_. None) mem_heap =
      (Inr () :: string metrics_error test_panic + unit)"
  by (rule metrics_tests_pass [OF mem_prom_laws _ word_float_laws sorted_entries_list])
    (simp add: utf8_laws_def)

end
