(* ===== verification/ExtensionTests.thy ===== *)
theory ExtensionTests
  imports CompositeApp
begin

text \<open>
  The extension tests of \<^verbatim>\<open>src/availability.rs\<close> and \<^verbatim>\<open>src/status.rs\<close>: a specification that adds two
  routes is merged into that of a module, handlers for them are registered beside the module's own, and
  a client uses both. The state is a file system data source extended with a number.
\<close>

section \<open>The extension\<close>

datatype toml_value = TomlString string | TomlArray "string list"

definition ext_toml :: "toml_value toml" where
  "ext_toml = Table [(''route'', Table
     [(''post_ext'', Table
        [(''PATH'', Plain (TomlArray [''/ext/:val''])), (''METHOD'', Plain (TomlString ''POST'')),
         ('':val'', Plain (TomlString ''Integer''))]),
      (''get_ext'', Table
        [(''PATH'', Plain (TomlArray [''/ext''])), (''METHOD'', Plain (TomlString ''GET''))])])]"

datatype 'r ext_reply = BuiltIn 'r | ExtReply "64 word"

definition get_ext_handler where
  "get_ext_handler req self = Inr (ExtReply (ext_as_ref self))"

definition post_ext_handler where
  "post_ext_handler req self =
     (case integer_param req ''val'' of
        Inl e \<Rightarrow> (Inl e, self)
      | Inr val \<Rightarrow> (Inr (), ext_as_mut (\<lambda>_. val) self))"

section \<open>The tests\<close>

text \<open>
  \<open>route_of\<close> gives the route that serves a method and a path, \<open>registered\<close> and \<open>posted\<close> its handler.
\<close>

definition client_ext_get where
  "client_ext_get route_of registered api self =
     (case Option.bind (route_of api ''GET'' ''/ext'') (registered api) of
        Some (GetHandler g) \<Rightarrow>
          (case g (path_request []) self of Inr (ExtReply n) \<Rightarrow> Inr n | _ \<Rightarrow> Inl OtherPanic)
      | _ \<Rightarrow> Inl OtherPanic)"

definition client_ext_post where
  "client_ext_post route_of posted val api self =
     (case Option.bind (route_of api ''POST'' ''/ext/:val'') (posted api) of
        Some h \<Rightarrow>
          (case h (path_request [(''val'', IntegerSegment val)]) self of
             (Inr _, self) \<Rightarrow> Inr self | (Inl _, self) \<Rightarrow> Inl OtherPanic)
      | None \<Rightarrow> Inl OtherPanic)"

definition test_extensions where
  "test_extensions A R post route_of registered posted text routes builtin self =
     and_then (map_err (\<lambda>_. OtherPanic) (define_api A R None text [ext_toml] routes)) (\<lambda>api.
     and_then (map_err (\<lambda>_. OtherPanic) (api_get R ''get_ext'' get_ext_handler api)) (\<lambda>api.
     and_then (map_err (\<lambda>_. OtherPanic) (post ''post_ext'' post_ext_handler api)) (\<lambda>api.
     and_then (client_ext_get route_of registered api self) (\<lambda>n.
     and_then (check_that (n = 0)) (\<lambda>_.
     and_then (client_ext_post route_of posted 42 api self) (\<lambda>self.
     and_then (client_ext_get route_of registered api self) (\<lambda>n.
     and_then (check_that (n = 42)) (\<lambda>_.
       builtin api self))))))))"

text \<open>The two instances: what each module serves, and the request to it at the end.\<close>

definition availability_ext_routes where
  "availability_ext_routes N show_hash show_err leaf_items block_items LA BA =
     map (map_prod id (\<lambda>handler. case handler of
         GetHandler g \<Rightarrow> GetHandler (\<lambda>req self. map_sum id BuiltIn (g req self))
       | StreamHandler s \<Rightarrow> StreamHandler s))
     (availability_routes N show_hash show_err leaf_items block_items (ext_avail_ops (fs_avail_ops LA BA)))"

definition status_ext_routes where
  "status_ext_routes show_err display P fdiv of_usize order utf8_error LA hp =
     map (map_prod id (\<lambda>handler. case handler of
         GetHandler g \<Rightarrow> GetHandler (\<lambda>req self. map_sum id BuiltIn (g self hp))
       | StreamHandler s \<Rightarrow> StreamHandler s))
     (status_routes show_err display P fdiv of_usize order utf8_error (ext_status_ops (fs_status_ops LA)))"

definition check_reply where
  "check_reply registered name segs expected api self =
     (case registered api name of
        Some (GetHandler g) \<Rightarrow> check_that (case g (path_request segs) self of
          Inr (BuiltIn reply) \<Rightarrow> reply = expected | _ \<Rightarrow> False)
      | _ \<Rightarrow> Inl OtherPanic)"

definition availability_test_extensions where
  "availability_test_extensions A R post route_of registered posted text
       N show_hash show_err leaf_items block_items LA BA AS metrics0 path key =
     and_then (map_err (\<lambda>_. OtherPanic) (fs_create N LA BA AS metrics0 path)) (\<lambda>ds.
       test_extensions A R post route_of registered posted text
         (availability_ext_routes N show_hash show_err leaf_items block_items LA BA)
         (check_reply registered ''countproposals'' [(''proposer_id'', KeySegment key)] (CountReply 0))
         (ext_new ds 0))"

definition status_test_extensions where
  "status_test_extensions A R post route_of registered posted text
       show_err display P fdiv of_usize order utf8_error hp N LA BA AS metrics0 path =
     and_then (map_err (\<lambda>_. OtherPanic) (fs_create N LA BA AS metrics0 path)) (\<lambda>ds.
       test_extensions A R post route_of registered posted text
         (status_ext_routes show_err display P fdiv of_usize order utf8_error LA hp)
         (check_reply registered ''latest_block_height'' [] (HeightReply 1))
         (ext_new ds 0))"

section \<open>What the API crate documents\<close>

text \<open>The routes of a specification, and the one that serves a method and a path.\<close>

definition spec_routes where
  "spec_routes toml = (case toml_get toml [''route''] of Some (Table entries) \<Rightarrow> entries | _ \<Rightarrow> [])"

definition serves :: "string \<Rightarrow> string \<Rightarrow> toml_value toml \<Rightarrow> bool" where
  "serves mthd path route =
     (toml_get route [''METHOD''] = Some (Plain (TomlString mthd)) \<and>
      (case toml_get route [''PATH''] of Some (Plain (TomlArray ps)) \<Rightarrow> path \<in> set ps | _ \<Rightarrow> False))"

definition spec_route_of where
  "spec_route_of toml mthd path = map_option fst (List.find (\<lambda>(_, route). serves mthd path route) (spec_routes toml))"

text \<open>
  An API that is built from a specification declares and serves its routes; registering a handler,
  which needs a declared route without one, changes nothing else.
\<close>

definition ext_api_laws where
  "ext_api_laws A R post declared route_of registered posted \<longleftrightarrow>
     registrar_laws R declared registered \<and>
     (\<forall>toml api. api_new A toml = Inr api \<longrightarrow> declared api = fst ` set (spec_routes toml) \<and>
        route_of api = spec_route_of toml \<and> registered api = Map.empty \<and> posted api = Map.empty) \<and>
     (\<forall>v api. route_of (with_version R v api) = route_of api \<and> posted (with_version R v api) = posted api) \<and>
     (\<forall>name g api api'. api_get R name g api = Inr api' \<longrightarrow>
        route_of api' = route_of api \<and> posted api' = posted api \<and> declared api' = declared api) \<and>
     (\<forall>name s api api'. api_stream R name s api = Inr api' \<longrightarrow>
        route_of api' = route_of api \<and> posted api' = posted api \<and> declared api' = declared api) \<and>
     (\<forall>name h api. name \<in> declared api \<and> registered api name = None \<and> posted api name = None \<longrightarrow>
        (\<exists>api'. post name h api = Inr api' \<and> route_of api' = route_of api \<and>
           registered api' = registered api \<and> posted api' = (posted api)(name \<mapsto> h)))"

lemma ext_api_lawsD:
  assumes "ext_api_laws A R post declared route_of registered posted"
  shows "registrar_laws R declared registered"
    and "api_new A toml = Inr api \<Longrightarrow> declared api = fst ` set (spec_routes toml) \<and>
      route_of api = spec_route_of toml \<and> registered api = Map.empty \<and> posted api = Map.empty"
    and "route_of (with_version R v api) = route_of api" "posted (with_version R v api) = posted api"
    and "api_get R name g api = Inr api' \<Longrightarrow>
      route_of api' = route_of api \<and> posted api' = posted api \<and> declared api' = declared api"
    and "api_stream R name s api = Inr api' \<Longrightarrow>
      route_of api' = route_of api \<and> posted api' = posted api \<and> declared api' = declared api"
    and "name \<in> declared api \<Longrightarrow> registered api name = None \<Longrightarrow> posted api name = None \<Longrightarrow>
      \<exists>api'. post name h api = Inr api' \<and> route_of api' = route_of api \<and>
        registered api' = registered api \<and> posted api' = (posted api)(name \<mapsto> h)"
proof -
  note L = conjuncts6 [OF assms [unfolded ext_api_laws_def]]
  show "registrar_laws R declared registered" by (fact L(1))
  show "api_new A toml = Inr api \<Longrightarrow> declared api = fst ` set (spec_routes toml) \<and>
      route_of api = spec_route_of toml \<and> registered api = Map.empty \<and> posted api = Map.empty"
    by (rule L(2) [rule_format])
  show "route_of (with_version R v api) = route_of api" "posted (with_version R v api) = posted api"
    using L(3) by simp_all
  show "api_get R name g api = Inr api' \<Longrightarrow>
      route_of api' = route_of api \<and> posted api' = posted api \<and> declared api' = declared api"
    by (rule L(4) [rule_format])
  show "api_stream R name s api = Inr api' \<Longrightarrow>
      route_of api' = route_of api \<and> posted api' = posted api \<and> declared api' = declared api"
    by (rule L(5) [rule_format])
  show "name \<in> declared api \<Longrightarrow> registered api name = None \<Longrightarrow> posted api name = None \<Longrightarrow>
      \<exists>api'. post name h api = Inr api' \<and> route_of api' = route_of api \<and>
        registered api' = registered api \<and> posted api' = (posted api)(name \<mapsto> h)"
    by (rule L(6) [rule_format]) simp
qed

lemma register_routes_frame:
  assumes laws: "ext_api_laws A R post declared route_of registered posted"
  shows "register_routes R routes api = Inr api' \<Longrightarrow>
    route_of api' = route_of api \<and> posted api' = posted api \<and> declared api' = declared api"
proof (induction routes arbitrary: api)
  case (Cons r routes)
  obtain name handler where r: "r = (name, handler)" by fastforce
  with Cons.prems obtain api1 where "(case handler of GetHandler g \<Rightarrow> api_get R name g api
      | StreamHandler s \<Rightarrow> api_stream R name s api) = Inr api1"
    and rest: "register_routes R routes api1 = Inr api'" by auto
  then have "route_of api1 = route_of api \<and> posted api1 = posted api \<and> declared api1 = declared api"
    using ext_api_lawsD(5,6) [OF laws] by (auto split: handler.splits)
  with Cons.IH [OF rest] show ?case by simp
qed simp

text \<open>
  A specification the extension can be merged into: it declares the module's routes and neither uses
  the names nor serves the paths of the extension.
\<close>

definition extendable where
  "extendable base names \<longleftrightarrow> (\<exists>entries routes. base = Table entries \<and>
     map_of entries ''route'' = Some (Table routes) \<and> names \<subseteq> fst ` set routes \<and>
     ''get_ext'' \<notin> fst ` set routes \<and> ''post_ext'' \<notin> fst ` set routes \<and>
     (\<forall>(_, route) \<in> set routes. \<not> serves ''GET'' ''/ext'' route \<and> \<not> serves ''POST'' ''/ext/:val'' route))"

lemma find_append: "List.find P (xs @ ys) = (case List.find P xs of None \<Rightarrow> List.find P ys | Some x \<Rightarrow> Some x)"
  by (induction xs) auto

lemma extended_routes:
  assumes "extendable base names"
  shows "names \<union> {''get_ext'', ''post_ext''} \<subseteq> fst ` set (spec_routes (merge_toml base ext_toml))"
    and "spec_route_of (merge_toml base ext_toml) ''GET'' ''/ext'' = Some ''get_ext''"
    and "spec_route_of (merge_toml base ext_toml) ''POST'' ''/ext/:val'' = Some ''post_ext''"
proof -
  from assms obtain entries routes where base: "base = Table entries"
      "map_of entries ''route'' = Some (Table routes)"
    and names: "names \<subseteq> fst ` set routes"
    and fresh: "''get_ext'' \<notin> fst ` set routes" "''post_ext'' \<notin> fst ` set routes"
    and quiet: "\<forall>r \<in> set routes. \<not> serves ''GET'' ''/ext'' (snd r)"
      "\<forall>r \<in> set routes. \<not> serves ''POST'' ''/ext/:val'' (snd r)"
    unfolding extendable_def by fastforce
  let ?post = "Table [(''PATH'', Plain (TomlArray [''/ext/:val''])), (''METHOD'', Plain (TomlString ''POST'')),
    ('':val'', Plain (TomlString ''Integer''))]"
  let ?get = "Table [(''PATH'', Plain (TomlArray [''/ext''])), (''METHOD'', Plain (TomlString ''GET''))]"
  have none: "map_of routes ''get_ext'' = None" "map_of routes ''post_ext'' = None"
    using fresh by (simp_all add: map_of_eq_None_iff)
  have "spec_routes (merge_toml base ext_toml) = routes @ [(''post_ext'', ?post), (''get_ext'', ?get)]"
    using base(1) by (simp add: ext_toml_def spec_routes_def AList.update_conv' base(2) none map_add_def)
  moreover have "List.find (\<lambda>(_, route). serves ''GET'' ''/ext'' route) routes = None"
    "List.find (\<lambda>(_, route). serves ''POST'' ''/ext/:val'' route) routes = None"
    using quiet by (auto simp: find_None_iff)
  ultimately show "names \<union> {''get_ext'', ''post_ext''} \<subseteq> fst ` set (spec_routes (merge_toml base ext_toml))"
    and "spec_route_of (merge_toml base ext_toml) ''GET'' ''/ext'' = Some ''get_ext''"
    and "spec_route_of (merge_toml base ext_toml) ''POST'' ''/ext/:val'' = Some ''post_ext''"
    using names by (auto simp: spec_route_of_def find_append serves_def)
qed

section \<open>The tests pass\<close>

lemma test_extensions_passes:
  assumes laws: "ext_api_laws A R post declared route_of registered posted"
    and spec: "toml_from_str A text = Inr base" "extendable base (set (map fst routes))"
    and build: "api_new A (merge_toml base ext_toml) = Inr api"
    and routes: "distinct (map fst routes)" "''get_ext'' \<notin> set (map fst routes)" "''post_ext'' \<notin> set (map fst routes)"
    and builtin: "\<And>api self. \<forall>name \<in> set (map fst routes). registered api name = map_of routes name \<Longrightarrow>
      data_source self = ds \<Longrightarrow> builtin api self = Inr ()"
  shows "test_extensions A R post route_of registered posted text routes builtin (ext_new ds 0) = Inr ()"
proof -
  note D = ext_api_lawsD [OF laws] and registrar = registrar_lawsD [OF ext_api_lawsD(1) [OF laws]]
  let ?api = "with_version R ''0.0.1'' api"
  note new = D(2) [OF build] extended_routes [OF spec(2)]
  have start: "registered ?api = Map.empty" "declared ?api = declared api" "posted ?api = Map.empty"
    "route_of ?api = route_of api"
    using registrar(1,2) D(3,4) new by simp_all
  obtain api1 where api1: "register_routes R routes ?api = Inr api1" "registered api1 = map_of routes"
    using register_routes_ok [OF D(1) routes(1), of ?api] start new by auto
  note frame1 = register_routes_frame [OF laws api1(1)]
  have "''get_ext'' \<in> declared api1" "registered api1 ''get_ext'' = None"
    using new start frame1 api1(2) routes(2) by (auto simp: map_of_eq_None_iff)
  then obtain api2 where api2: "api_get R ''get_ext'' get_ext_handler api1 = Inr api2"
      "registered api2 = (map_of routes)(''get_ext'' \<mapsto> GetHandler get_ext_handler)"
    using registrar(3) [of "''get_ext''" api1 get_ext_handler] api1(2) by auto
  note frame2 = D(5) [OF api2(1)]
  have "''post_ext'' \<in> declared api2" "registered api2 ''post_ext'' = None" "posted api2 ''post_ext'' = None"
    using new start frame1 frame2 api2(2) routes(3) by (auto simp: map_of_eq_None_iff)
  then obtain api3 where api3: "post ''post_ext'' post_ext_handler api2 = Inr api3"
      "route_of api3 = route_of api2" "registered api3 = registered api2"
      "posted api3 = (posted api2)(''post_ext'' \<mapsto> post_ext_handler)"
    using D(7) [of "''post_ext''" api2 post_ext_handler] by auto
  have defined: "define_api A R None text [ext_toml] routes = Inr api1"
    using spec(1) build api1(1) by (simp add: define_api_def load_api_def)
  have found: "route_of api3 ''GET'' ''/ext'' = Some ''get_ext''"
    "route_of api3 ''POST'' ''/ext/:val'' = Some ''post_ext''"
    using api3(2) frame2 frame1 start new by simp_all
  have get: "client_ext_get route_of registered api3 self = Inr (user_data self)" for self
    by (simp add: client_ext_get_def found api3(3) api2(2) get_ext_handler_def ext_as_ref_def)
  have posted: "client_ext_post route_of posted 42 api3 self = Inr (self\<lparr>user_data := 42\<rparr>)" for self
    by (simp add: client_ext_post_def found api3(4) post_ext_handler_def path_request_def ext_as_mut_def)
  have "registered api3 name = map_of routes name" if "name \<in> set (map fst routes)" for name
    using that routes(2) by (cases "name = ''get_ext''") (simp_all add: api3(3) api2(2))
  then have "builtin api3 (ext_new ds 0\<lparr>user_data := 42\<rparr>) = Inr ()"
    by (intro builtin) (simp_all add: ext_new_def)
  then show ?thesis
    unfolding test_extensions_def defined api2(1) api3(1) map_err_simps and_then_simps get posted
    by (simp add: ext_new_def)
qed

lemma fs_create_fresh:
  assumes laws: "append_log_laws LA lp" "append_log_laws BA bp" and gen: "genesis_at_zero N"
    and run: "fs_create N LA BA AS metrics0 path = Inr ds"
  shows "log_len LA (leaf_storage ds) = 1"
    and "leaf_proposer N (leaf_query_data_genesis N) \<noteq> key \<Longrightarrow> index_by_proposer_id ds key = None"
proof -
  obtain loader where loader: "as_create AS path ''hotshot_data_source'' = Inr loader"
    using run by (auto simp: fs_create_def map_sum_Inr_iff)
  obtain r loader' where with_store: "fs_create_with_store N LA BA AS metrics0 loader = (r, loader')" by fastforce
  obtain ds0 st where created: "fs_create_with_store N LA BA AS metrics0 loader = (Inr ds0, loader')"
    and ds: "ds = ds0\<lparr>top_storage := Some st\<rparr>"
    using run loader with_store by (cases r) (auto simp: fs_create_def map_sum_Inr_iff)
  note fresh = fs_create_with_store_ok [OF laws gen created]
  show "log_len LA (leaf_storage ds) = 1" using fresh(4) by (simp add: ds)
  show "index_by_proposer_id ds key = None" if "leaf_proposer N (leaf_query_data_genesis N) \<noteq> key"
    using fresh(1,2) that
    by (auto simp: ds fs_ok_def fs_indexed_def index_leaves_def index_leaf_def push_proposal_def)
qed

section \<open>Properties\<close>


text \<open>The same for the status module, where the built-in route reports the height of genesis alone.\<close>

theorem status_extensions_test_passes:
  assumes "ext_api_laws A R post declared route_of registered posted"
    and "toml_from_str A toml_text = Inr base" and "extendable base
      {''latest_block_height'', ''mempool_info'', ''success_rate'', ''metrics''}"
    and "api_new A (merge_toml base ext_toml) = Inr api"
    and "append_log_laws LA lp" and "append_log_laws BA bp" and "genesis_at_zero N"
    and "fs_create N LA BA AS metrics0 path = Inr ds"
  shows "status_test_extensions A R post route_of registered posted toml_text
    show_err display P fdiv of_usize order utf8_error hp N LA BA AS metrics0 path
    = (Inr () :: unit test_panic + unit)"
proof -
  let ?routes = "status_ext_routes show_err display P fdiv of_usize order utf8_error LA hp"
  note fresh = fs_create_fresh(1) [OF assms(5-8)]
  have names: "set (map fst ?routes) = {''latest_block_height'', ''mempool_info'', ''success_rate'', ''metrics''}"
    by (simp add: status_ext_routes_def status_routes_def)
  have builtin: "check_reply registered ''latest_block_height'' [] (HeightReply 1) api self
      = (Inr () :: unit test_panic + unit)"
    if "\<forall>name \<in> set (map fst ?routes). registered api name = map_of ?routes name" "data_source self = ds"
    for api self
    using that fresh
    by (simp add: check_reply_def status_ext_routes_def status_routes_def handle_latest_block_height_def
        ext_status_ops_def fs_status_ops_def fs_block_height_def)
  have "test_extensions A R post route_of registered posted toml_text ?routes
      (check_reply registered ''latest_block_height'' [] (HeightReply 1)) (ext_new ds 0)
      = (Inr () :: unit test_panic + unit)"
  proof (rule test_extensions_passes [OF assms(1,2) _ assms(4)])
    show "extendable base (set (map fst ?routes))" unfolding names by (rule assms(3))
    show "distinct (map fst ?routes)" "''get_ext'' \<notin> set (map fst ?routes)" "''post_ext'' \<notin> set (map fst ?routes)"
      by (simp_all add: status_ext_routes_def status_routes_def)
  qed (rule builtin)
  then show ?thesis by (simp add: status_test_extensions_def assms(8))
qed

section \<open>An API in memory\<close>

text \<open>For the witness: an API is its specification with the handlers registered so far.\<close>

type_synonym ('g, 's, 'p) mem_api = "toml_value toml \<times> (string \<Rightarrow> ('g, 's) handler option) \<times> (string \<Rightarrow> 'p option)"

definition mem_base :: "toml_value toml" where
  "mem_base = Table [(''route'', Table (map (\<lambda>spec. (route_name spec, Table [])) availability_toml))]"

definition mem_api_ops :: "(unit, unit, toml_value, ('g, 's, 'p) mem_api) api_ops" where
  "mem_api_ops = \<lparr>fs_read = (\<lambda>_. Inr ()), str_from_utf8 = (\<lambda>_. Inr []), toml_from_str = (\<lambda>_. Inr mem_base),
     api_new = (\<lambda>toml. Inr (toml, Map.empty, Map.empty))\<rparr>"

definition mem_registrar :: "(('g, 's, 'p) mem_api, 'g, 's) registrar" where
  "mem_registrar =
     \<lparr>with_version = (\<lambda>_ api. api),
      api_get = (\<lambda>name g (toml, reg, posts). if name \<in> fst ` set (spec_routes toml) \<and> reg name = None
        then Inr (toml, reg(name \<mapsto> GetHandler g), posts) else Inl (ApiErrorOther name)),
      api_stream = (\<lambda>name s (toml, reg, posts). if name \<in> fst ` set (spec_routes toml) \<and> reg name = None
        then Inr (toml, reg(name \<mapsto> StreamHandler s), posts) else Inl (ApiErrorOther name))\<rparr>"

definition mem_post :: "string \<Rightarrow> 'p \<Rightarrow> ('g, 's, 'p) mem_api \<Rightarrow> api_error + ('g, 's, 'p) mem_api" where
  "mem_post name h = (\<lambda>(toml, reg, posts).
     if name \<in> fst ` set (spec_routes toml) \<and> reg name = None \<and> posts name = None
     then Inr (toml, reg, posts(name \<mapsto> h)) else Inl (ApiErrorOther name))"

lemma mem_ext_api_laws:
  "ext_api_laws mem_api_ops mem_registrar mem_post (\<lambda>(toml, _, _). fst ` set (spec_routes toml))
     (\<lambda>(toml, _, _). spec_route_of toml) (\<lambda>(_, reg, _). reg) (\<lambda>(_, _, posts). posts)"
  by (auto simp: ext_api_laws_def registrar_laws_def mem_api_ops_def mem_registrar_def mem_post_def
      split: if_splits)

lemma mem_extendable: "extendable mem_base (route_name ` set availability_toml - {''getstaketable''})"
  unfolding extendable_def
  by (intro exI [of _ "[(''route'', Table (map (\<lambda>spec. (route_name spec, Table [])) availability_toml))]"]
      exI [of _ "map (\<lambda>spec. (route_name spec, Table [])) availability_toml"])
    (auto simp: mem_base_def availability_toml_def serves_def)

lemma mock_fs_create_run:
  "fs_create mock_types (mock_leaves False) (mock_blocks False) mock_store () ([], [])
     = (Inr (mock_created\<lparr>top_storage := Some 0\<rparr>) :: string failure + _)"
proof -
  have "as_create mock_store p n = Inr ([], [])" "as_open mock_store ld = Inr 0" for p n ld
    by (simp_all add: mock_store_def)
  then show ?thesis by (simp add: fs_create_def mock_created_run)
qed


end
