(* ===== verification/Spec2Isabelle.thy ===== *)
theory Spec2Isabelle
  imports LedgerLogProps UpdateProps ReconnectProps SqlServiceProps StandaloneService MockNetwork TcpStream ApiSuiteProps CompositeApp LedgerLogTests SchemaTests MetricsProps ExtensionTests
begin

text \<open>
  A model of the HotShot query service: a service that follows the consensus of a HotShot network,
  stores the leaves and blocks it decides, and answers queries about them.

  \<^bold>\<open>The program.\<close> Consensus emits \<^verbatim>\<open>Decide\<close> events. \<^verbatim>\<open>run_standalone_service\<close> (\<^verbatim>\<open>src/lib.rs\<close>)
  hands each to \<^verbatim>\<open>UpdateDataSource::update\<close> (\<^verbatim>\<open>src/data_source/update.rs\<close>), which pairs the leaves of
  the decided chain with the certificates that justify them and inserts them, oldest first, into a
  data source, and then commits. There are two data sources: \<^verbatim>\<open>FileSystemDataSource\<close>
  (\<^verbatim>\<open>src/data_source/fs.rs\<close>) keeps leaves and blocks in two ledger logs
  (\<^verbatim>\<open>src/data_source/ledger_log.rs\<close>) with indices in memory; \<^verbatim>\<open>SqlDataSource\<close>
  (\<^verbatim>\<open>src/data_source/sql.rs\<close>) keeps them in PostgreSQL. Either may be wrapped with user data
  (\<^verbatim>\<open>extension.rs\<close>). The availability and status APIs (\<^verbatim>\<open>availability.rs\<close>, \<^verbatim>\<open>status.rs\<close>) read a
  data source; \<^verbatim>\<open>metrics.rs\<close> is the registry of metrics that consensus writes and the status API
  reads.

  \<^bold>\<open>Conventions.\<close> A call that changes state takes it last and returns an \<open>outcome\<close>: a result, which
  is an error (\<open>Failure\<close>), a panic (\<open>Panic\<close>) or a value, with the new state. \<open>attempt\<close> is the
  question mark operator in this style, \<open>and_then\<close> without a state. \<^verbatim>\<open>usize\<close> and \<^verbatim>\<open>u64\<close> are \<open>64 word\<close>
  where they can wrap or are cast, and \<open>nat\<close> where they count the elements of a collection. Types of
  HotShot, crates and the network are type variables; their operations are records (\<open>node_types\<close>,
  \<open>append_log_ops\<close>, \<open>atomic_store_ops\<close>, \<open>client_ops\<close>, \<open>serde_ops\<close>, \<open>prom_ops\<close> and others), arguments
  of the definitions that call them. What the code relies on there is a named predicate, and each has
  an instance on which the witnesses run.

  \<^bold>\<open>Theories.\<close>

  \<^item> \<open>Prelude\<close>: results, panics, state passing, slices and iterators as lists, decimal numbers.
  \<^item> \<open>AppendLogSpec\<close>: the append log of \<^verbatim>\<open>atomic_store\<close> and its laws \<open>append_log_laws\<close>.
  \<^item> \<open>LedgerLog\<close>: \<^verbatim>\<open>LedgerLog\<close> (record \<open>ledger_log\<close>, \<open>log_insert\<close>, \<open>commit_version\<close>,
    \<open>revert_version\<close>, \<open>subscribe\<close>, the iterator \<open>iter_nth\<close>). \<open>LedgerLogInv\<close> and \<open>LedgerLogRun\<close> hold the
    invariant of its fields under every operation and outcome, its reachable states and the contracts
    \<open>positional_log\<close> and \<open>versioned_log\<close>; \<open>LedgerLogProps\<close> what it iterates, streams and restores. \<open>LogRefine\<close>: over any append log that works it
    refines the log over a list in memory; \<open>LedgerLogTests\<close>: its unit tests pass.
  \<^item> \<open>QueryData\<close>, \<open>QueryErrors\<close>: leaves, blocks, payloads and their checked construction; errors and
    their HTTP status.
  \<^item> \<open>HashIndex\<close>, \<open>FsDataSource\<close>: the file system data source. \<open>FsDataSourceInv\<close>: its indices are those
    a fresh pass over the logs would build. \<open>FsQueries\<close>, \<open>FsLife\<close>, \<open>FsProps\<close>: what each query answers,
    creating, committing, reopening, reverting. \<open>FsMock\<close>: an instance in memory.
  \<^item> \<open>UpdateSource\<close>, \<open>FsUpdate\<close>, \<open>UpdateProps\<close>: the update algorithm, over any target
    (\<open>update_target\<close>, \<open>panic_free_target\<close>) and over the file system data source.
  \<^item> \<open>BufferedChannel\<close>, \<open>Migrations\<close>, \<open>TcpStream\<close>, \<open>SqlDataSource\<close>: the parts of \<^verbatim>\<open>sql.rs\<close> in the order
    of the code, with the SQL texts it builds. \<open>SqlTx\<close>, \<open>SqlProps\<close>: the state machine of its
    transaction, what subscribers receive when, range conditions and parameter numbers.
  \<^item> \<open>SqlSchema\<close>: the tables of \<^verbatim>\<open>migrations/V10__init_schema.sql\<close> and \<open>postgres_laws\<close>, what PostgreSQL
    does on exactly the statements the code sends. \<open>SqlTables\<close>: the ledger the tables show
    (\<open>sql_ledger\<close>, \<open>ledger_shown\<close>) and the effect of the insertions on it. \<open>SqlRefine\<close>: the data source
    refines a ledger that is committed atomically. \<open>SqlQueries\<close>: every query answers as a query of that
    ledger would, or with an error of the database (\<open>answers\<close>). \<open>SqlService\<close>, \<open>SqlServing\<close>,
    \<open>SqlTyping\<close>: updates, the API, connecting, and which leaves may be stored. \<open>SqlMock\<close>, \<open>SqlRuns\<close>: a
    database in memory that satisfies the laws, and runs on it. \<open>SqlLedgerProps\<close>, \<open>SqlServiceProps\<close>:
    the properties.
  \<^item> \<open>PromMetrics\<close>, \<open>PromTree\<close>, \<open>PromProps\<close>: the metrics registry over a heap of shared maps, and the
    tree of its groups. \<open>StatusSource\<close>: the status module over it. \<open>MetricsTests\<close>, \<open>MetricsProps\<close>: what the
    code relies on in the metrics crate and in \<^verbatim>\<open>f64\<close> (\<open>prom_laws\<close>, \<open>float_laws\<close>), and the unit tests over
    it.
  \<^item> \<open>AvailabilityApi\<close>, \<open>ApiToml\<close>, \<open>ApiRoutes\<close>: the handlers, loading and merging specifications, and
    the registration of the handlers under the routes of the bundled specification. \<open>ApiSuite\<close>,
    \<open>ApiSuiteProps\<close>: the client of the API's test suite and what it finds after any run of the service.
  \<^item> \<open>CompositeApp\<close>: the application of the test module of \<^verbatim>\<open>src/lib.rs\<close>, a data source and a module of its
    own in one store. \<open>ExtensionTests\<close>: the extension tests of both APIs, a specification with routes of
    its own merged into the bundled one. \<open>SchemaTests\<close>: the migration test of \<^verbatim>\<open>sql.rs\<close> and what its schema
    check misses.
  \<^item> \<open>Extension\<close>, \<open>Service\<close>: the wrapper, the update loop of the service and what it leaves in the file
    system data source; this theory has the property of the whole run. \<open>StandaloneService\<close>: the service
    with its options and both APIs. \<open>ServiceRun\<close>: requests and events interleaved under the lock
    (\<open>service_step\<close>). \<open>FsService\<close>: the invariant of the file system data source between two events
    (\<open>fs_served\<close>).
  \<^item> \<open>DataSourceTests\<close>: the checks of the generic test suite (\<^verbatim>\<open>src/data_source.rs\<close>) over any data source;
    \<open>ValidateProps\<close>, \<open>SuiteProps\<close>, \<open>ReconnectProps\<close>: the file system data source passes them.
  \<^item> \<open>MockPayload\<close>, \<open>MockNetwork\<close>: mock payloads, the life cycles of the data sources and a network of nodes
    (\<^verbatim>\<open>src/testing\<close>), with the contract \<open>node_invariant\<close>: what the task of one node keeps, any
    interleaving of all tasks keeps.

  \<^bold>\<open>Bounds and loops.\<close> The loops of \<open>iter_nth\<close>, of the broadcast in \<open>commit_version\<close> and of
  \<open>range_stream\<close> are bounded by the log they walk; a loop that the code does not bound itself returns
  an option, and that it returns is proved where it is claimed. \<open>log_fits\<close> (the length of a log stays
  below \<open>2 ^ 64\<close>) and \<open>ledger_small\<close> (heights below \<open>2 ^ 63\<close>, where the casts to \<^verbatim>\<open>i64\<close> keep them) are
  hypotheses where positions could wrap; \<open>chains_fit\<close> says the same of a sequence of decided chains, with
  each chain at most as long as the windows; \<open>log_room\<close> says that an insertion does not push pending
  objects out of the window, whose size is \<open>cached_leaves_count\<close> or \<open>cached_blocks_count\<close>, 100 in the
  code.

  \<^bold>\<open>What the properties show.\<close> For both data sources: a run of the service
  leaves exactly the decided leaves durable and in order, every query answers from what is stored,
  on every branch, and after every operation, failed ones included, an invariant holds: of the
  indices for the one, of the tables for the other. Answers to requests are those of the data source
  between two events, and what an event decided is seen by every later request. The checks of the
  repository's own test suite are theorems about the file system data source, for every run and not
  only those the tests take, through its operations and through the routes of the API; the unit
  tests of the ledger log, the metrics registry, the migrations, the API extensions and the composed
  application pass over every crate that keeps the contract stated here. In a network whose
  consensus decides one ledger, all running nodes hold initial parts of it. Subscribers of the
  ledger log receive every object once and in order; messages of the SQL data source are sent when
  they are committed. Both data sources answer alike on the same ledger. Some theorems show where
  the code falls short of what it documents: reverting past the window, indices that survive a
  revert, a commit that is not atomic, a commit that reports success for an aborted transaction,
  labels of groups with an underscore, a declared route without a handler, a helper of the test
  suite that pairs blocks with the wrong leaves.

  \<^bold>\<open>Not modelled.\<close> Starting and running HotShot: the events it emits are arguments, or part of the state
  of a node, and the steps of the test suites that submit transactions and wait for them are left out,
  as are the tests of the status API and of the metrics data source over a running network. The HTTP
  server and the task that drives the database connection; parsing command line options, \<^verbatim>\<open>Display\<close>,
  \<^verbatim>\<open>serde\<close> and other derived code; log output; the Docker database of the SQL tests; the examples. Crates
  outside the repository are parameters. A lagging subscriber of a broadcast channel, whose messages the
  channel would drop, is not considered: a channel is the list of messages sent on it.
\<close>

section \<open>The whole service\<close>

text \<open>
  C1. The standalone service over the file system data source: if it consumes a stream of decided
  chains that continue the ledger, each within the window of the log, and stops without an error,
  then the durable leaf log, which is what a restart would load, is the old ledger followed by
  every decided leaf in chronological order, each with the certificate that justifies it.
\<close>

theorem service_records_ledger:
  fixes show_update :: "'e \<Rightarrow> string" and show_commit :: "'e \<Rightarrow> string"
  assumes "append_log_laws LA lp" and "append_log_laws BA bp" and "genesis_at_zero N"
    and "fs_reachable N LA BA AS ds" and "pending_inserts (leaf_storage ds) = 0"
    and "decides_ok N (cache_size (leaf_storage ds)) (log_len LA (leaf_storage ds)) decides"
    and "run_standalone_service register_module show_api availability_api status_api app
      N False (fs_update_ops N LA BA) (fs_versioned_ops LA BA AS) show_update show_commit
      (map (\<lambda>(chain, qc). Decide chain qc) decides) ds = (Inr u, ds')"
  shows "map loaded (al_iter LA (store (leaf_storage ds'))) = log_contents LA (leaf_storage ds) @
    map (\<lambda>(qc, leaf). Some \<lparr>lq_leaf = leaf, lq_qc = qc\<rparr>)
      (concat (map (\<lambda>(chain, qc). chain_entries N chain qc) decides))"
proof -
  have ok: "log_ok LA lp (leaf_storage ds)" by (rule fs_reachable_fields [OF assms(1-4)])
  show ?thesis
    using assms(7) unfolding run_standalone_service_def
    by (auto split: sum.splits
        intro: update_loop_leaves [OF ok assms(5) log_ok_committed [OF ok assms(5)] assms(6)])
qed

definition mock_service_end :: mock_fs where
  "mock_service_end = snd (fs_commit (mock_leaves False) (mock_blocks False) mock_store mock_with_leaf)"

lemma mock_service_commit:
  "fs_commit (mock_leaves False) (mock_blocks False) mock_store mock_with_leaf
     = (Inr (), mock_service_end)"
  by (simp add: mock_service_end_def mock_eval mock_created_def mock_with_leaf_def)

lemma mock_service_update:
  "update mock_types False (fs_update_ops mock_types (mock_leaves False) (mock_blocks False))
     (Decide [(1, 4, 0, None)] 1014) mock_created = (Inr (), mock_with_leaf)"
proof -
  have "update_one mock_types False
      (fs_update_ops mock_types (mock_leaves False) (mock_blocks False)) 1014 (1, 4, 0, None)
      mock_created = (Inr (), mock_with_leaf)"
    using mock_with_leaf_run
    by (simp add: update_one_def leaf_query_data_new_def mock_types_def mock_leaf_def del: One_nat_def)
  then show ?thesis by (simp add: update_def decided_qcs_def)
qed

theorem service_records_ledger_witness:
  "map loaded (al_iter (mock_leaves False) (store (leaf_storage mock_service_end)))
     = log_contents (mock_leaves False) (leaf_storage mock_created) @ [Some (mock_leaf 1 4)]"
proof -
  have ok: "decides_ok mock_types (cache_size (leaf_storage mock_created))
      (log_len (mock_leaves False) (leaf_storage mock_created)) [([(1, 4, 0, None)], 1014)]"
    by (simp add: justified_def chain_entries_def mock_types_simps mock_created_def log_len_eq)
  have run: "run_standalone_service (\<lambda>_ _ app. Inr app) id (Inr ()) (Inr ()) ()
      mock_types False (fs_update_ops mock_types (mock_leaves False) (mock_blocks False))
      (fs_versioned_ops (mock_leaves False) (mock_blocks False) mock_store) id id
      (map (\<lambda>(chain, qc). Decide chain qc) [([(1, 4, 0, None)], 1014)]) mock_created
    = (Inr (), mock_service_end)"
    by (simp add: run_standalone_service_def register_apis_def internal_err_def
        mock_service_update mock_service_commit del: One_nat_def)
  have "pending_inserts (leaf_storage mock_created) = 0" by (simp add: mock_created_def)
  from service_records_ledger [OF mock_logs_laws mock_genesis mock_reachable(1) this ok run]
  show ?thesis by (simp add: chain_entries_def mock_leaf_def)
qed

end
